(* ===== verification/Prelude.thy ===== *)
theory Prelude
  imports Complex_Main "HOL-Library.Word" "HOL-Library.AList" "HOL-Library.List_Lexorder"
    "HOL-Library.Char_ord"
begin

text \<open>
  Shared vocabulary of the development: the machine integers of the Rust sources, the
  saturating operations of \<open>std\<close>, little-endian byte encodings, and \<open>BTreeMap\<close> as a
  strictly sorted association list behind the interface \<open>ordered_map\<close>.

  Conventions used by every theory:
  \<^item> \<open>u8\<close>, \<open>u16\<close>, \<open>u32\<close>, \<open>u64\<close> are words of that width, so \<open>+\<close> is Rust's
    \<open>wrapping_add\<close>; \<open>usize\<close> (lengths and indices of buffers that fit in memory) is \<open>nat\<close>;
  \<^item> a \<open>&[u8]\<close> or \<open>Vec<u8>\<close> is a \<open>u8 list\<close>; a \<open>str\<close> is a \<open>string\<close> holding its UTF-8
    bytes, one HOL character per byte;
  \<^item> a \<open>BTreeMap\<close> (and the \<open>Map\<close> of \<open>serde_json\<close>, which is one) is a list of key and value
    pairs in strictly ascending key order, a \<open>HashMap\<close> an association list with
    distinct keys whose order stands for the unspecified iteration order.
\<close>

section \<open>Machine integers\<close>

unbundle bit_operations_syntax

type_synonym u8 = "8 word"
type_synonym u16 = "16 word"
type_synonym u32 = "32 word"
type_synonym u64 = "64 word"
type_synonym bytes = "8 word list"

named_theorems order_map_simps \<open>laws of the ordered map, instantiated at the model\<close>
named_theorems wire_simps \<open>reading fields back out of an encoded buffer\<close>

definition saturating_sub :: "'a::len word \<Rightarrow> 'a word \<Rightarrow> 'a word" where
  "saturating_sub a b = (if a < b then 0 else a - b)"

definition saturating_add :: "'a::len word \<Rightarrow> 'a word \<Rightarrow> 'a word" where
  "saturating_add a b = (if unat a + unat b < 2 ^ LENGTH('a) then a + b else - 1)"

definition saturating_mul :: "'a::len word \<Rightarrow> 'a word \<Rightarrow> 'a word" where
  "saturating_mul a b = (if unat a * unat b < 2 ^ LENGTH('a) then a * b else - 1)"

lemma unat_saturating_sub: "unat (saturating_sub a b) = unat a - unat b"
  by (auto simp: saturating_sub_def unat_sub word_less_nat_alt not_less word_le_nat_alt)

lemma unat_bound: "unat (w :: 'a::len word) < 2 ^ LENGTH('a)"
  by (rule unsigned_less)

lemma unat_minus_one_word: "unat (- 1 :: 'a::len word) = 2 ^ LENGTH('a) - 1"
  by (simp add: unsigned_minus_1_eq_mask mask_eq_exp_minus_1)

lemma unat_saturating_add:
  "unat (saturating_add a (b :: 'a::len word)) = min (unat a + unat b) (2 ^ LENGTH('a) - 1)"
proof (cases "unat a + unat b < 2 ^ LENGTH('a)")
  case True
  then have "unat (a + b) = unat a + unat b"
    by (rule unat_add_lem [THEN iffD1])
  with True show ?thesis by (auto simp: saturating_add_def min_def)
next
  case False
  then have "2 ^ LENGTH('a) - 1 \<le> unat a + unat b" by linarith
  with False show ?thesis by (simp add: saturating_add_def min_absorb2 unat_minus_one_word)
qed

lemma saturating_sub_less_iff:
  "saturating_sub now last < rto \<longleftrightarrow> unat now < unat last + unat rto"
  if "0 < rto" for now last rto :: "'a::len word"
proof -
  have "0 < unat rto" using that by (simp add: word_less_nat_alt)
  then show ?thesis
    by (auto simp: word_less_nat_alt unat_saturating_sub)
qed

section \<open>Little-endian integers and slices\<close>

definition le_bytes32 :: "u32 \<Rightarrow> bytes" where
  "le_bytes32 w = [ucast w, ucast (drop_bit 8 w), ucast (drop_bit 16 w), ucast (drop_bit 24 w)]"

definition from_le32 :: "u8 \<Rightarrow> u8 \<Rightarrow> u8 \<Rightarrow> u8 \<Rightarrow> u32" where
  "from_le32 a b c d =
     ucast a OR push_bit 8 (ucast b) OR push_bit 16 (ucast c) OR push_bit 24 (ucast d)"

lemma length_le_bytes32 [simp]: "length (le_bytes32 w) = 4"
  by (simp add: le_bytes32_def)

lemma from_le32_le_bytes32:
  "from_le32 (ucast w) (ucast (drop_bit 8 w)) (ucast (drop_bit 16 w)) (ucast (drop_bit 24 w)) = w"
proof (rule bit_word_eqI)
  fix n
  assume "n < LENGTH(32)"
  then consider "n < 8" | "8 \<le> n" "n < 16" | "16 \<le> n" "n < 24" | "24 \<le> n" "n < 32"
    by fastforce
  then show "bit (from_le32 (ucast w) (ucast (drop_bit 8 w)) (ucast (drop_bit 16 w))
      (ucast (drop_bit 24 w))) n = bit w n"
    by cases (auto simp: from_le32_def bit_simps)
qed

definition le_bytes64 :: "u64 \<Rightarrow> bytes" where
  "le_bytes64 w = map (\<lambda>i. ucast (drop_bit (8 * i) w)) [0..<8]"

definition digits256 :: "nat \<Rightarrow> nat \<Rightarrow> nat list" where
  "digits256 k n = map (\<lambda>i. n div 256 ^ i mod 256) [0..<k]"

lemma digits256_Suc: "digits256 (Suc k) n = n mod 256 # digits256 k (n div 256)"
  by (simp add: digits256_def upt_rec [of 0] map_Suc_upt [symmetric] comp_def div_mult2_eq del: upt_Suc)

lemma unat_byte: "unat (ucast (drop_bit (8 * i) w) :: u8) = unat w div 256 ^ i mod 256" for w :: "'a::len word"
proof -
  have "(256 :: nat) ^ i = 2 ^ (8 * i)" by (simp add: power_mult)
  moreover have "unat (drop_bit (8 * i) w) = unat w div 2 ^ (8 * i)"
    by (rule trans [OF unat_drop_bit_eq drop_bit_eq_div])
  ultimately show ?thesis
    by (simp add: unsigned_ucast_eq take_bit_eq_mod)
qed

text \<open>The number a little-endian byte sequence stands for.\<close>

definition le_nat :: "bytes \<Rightarrow> nat" where
  "le_nat bs = foldr (\<lambda>b n. unat b + 256 * n) bs 0"

lemma le_nat_digits: "map unat bs = digits256 k n \<Longrightarrow> le_nat bs = n mod 256 ^ k"
proof (induction k arbitrary: bs n)
  case (Suc k)
  obtain b bs' where bs: "bs = b # bs'" "unat b = n mod 256" "map unat bs' = digits256 k (n div 256)"
    using Suc.prems by (auto simp: digits256_Suc)
  have "n mod 256 ^ Suc k = 256 * (n div 256 mod 256 ^ k) + n mod 256"
    by (simp add: mod_mult2_eq)
  with Suc.IH [OF bs(3)] bs(1,2) show ?case by (simp add: le_nat_def)
qed (simp add: digits256_def le_nat_def)

lemma le_nat_bytes64 [simp]: "le_nat (le_bytes64 w) = unat w"
proof -
  have "map unat (le_bytes64 w) = digits256 8 (unat w)"
    by (simp add: le_bytes64_def digits256_def unat_byte comp_def del: upt_rec_numeral)
  from le_nat_digits [OF this] unat_bound [of w] show ?thesis by simp
qed

lemma le_nat_bytes32 [simp]: "le_nat (le_bytes32 w) = unat w"
proof -
  have "le_bytes32 w = map (\<lambda>i. ucast (drop_bit (8 * i) w)) [0..<4]"
    by (simp add: le_bytes32_def upt_rec)
  then have "map unat (le_bytes32 w) = digits256 4 (unat w)"
    by (simp add: digits256_def unat_byte comp_def del: upt_rec_numeral)
  from le_nat_digits [OF this] unat_bound [of w] show ?thesis by simp
qed

lemma length_le_bytes64 [simp]: "length (le_bytes64 w) = 8"
  by (simp add: le_bytes64_def)

text \<open>
  \<open>buf[off..off + src.len()].copy_from_slice(src)\<close>: overwrite a slice in place. Rust panics
  when the slice is out of range; every use in the model is in range, which
  \<open>length_blit\<close> needs.
\<close>

definition blit :: "nat \<Rightarrow> 'a list \<Rightarrow> 'a list \<Rightarrow> 'a list" where
  "blit off src dst = take off dst @ src @ drop (off + length src) dst"

lemma length_blit [simp]: "off + length src \<le> length dst \<Longrightarrow> length (blit off src dst) = length dst"
  by (simp add: blit_def)

lemma nth_blit:
  "off + length src \<le> length dst \<Longrightarrow> i < length dst \<Longrightarrow>
   blit off src dst ! i = (if off \<le> i \<and> i < off + length src then src ! (i - off) else dst ! i)"
  by (auto simp: blit_def nth_append min_def)

text \<open>\<open>data.get(off..off + n)\<close>: the slice, or nothing when it does not fit.\<close>

definition get_slice :: "'a list \<Rightarrow> nat \<Rightarrow> nat \<Rightarrow> 'a list option" where
  "get_slice xs off n = (if off + n \<le> length xs then Some (take n (drop off xs)) else None)"

lemma get_slice_length: "get_slice xs off n = Some ys \<Longrightarrow> length ys = n"
  by (auto simp: get_slice_def split: if_splits)

lemma get_slice_None_iff: "get_slice xs off n = None \<longleftrightarrow> length xs < off + n"
  by (auto simp: get_slice_def)

section \<open>Options\<close>

fun or_else :: "'a option \<Rightarrow> 'a option \<Rightarrow> 'a option" where
  "or_else (Some x) _ = Some x"
| "or_else None y = y"

fun opt_filter :: "('a \<Rightarrow> bool) \<Rightarrow> 'a option \<Rightarrow> 'a option" where
  "opt_filter P (Some x) = (if P x then Some x else None)"
| "opt_filter P None = None"

definition unwrap_or :: "'a option \<Rightarrow> 'a \<Rightarrow> 'a" where
  "unwrap_or x d = (case x of Some v \<Rightarrow> v | None \<Rightarrow> d)"

lemma unwrap_or_simps [simp]: "unwrap_or (Some x) d = x" "unwrap_or None d = d"
  by (simp_all add: unwrap_or_def)

section \<open>Finite maps\<close>

text \<open>
  What the sources rely on of both \<open>std::collections\<close> maps: lookup after insert and remove,
  and one entry per key. Capacity arguments (how an insert or a remove changes \<open>len()\<close>) are
  proved once from these laws.
\<close>

locale finite_map =
  fixes get :: "'m \<Rightarrow> 'k \<Rightarrow> 'v option"
    and ins :: "'m \<Rightarrow> 'k \<Rightarrow> 'v \<Rightarrow> 'm"
    and rm :: "'m \<Rightarrow> 'k \<Rightarrow> 'm"
    and entries :: "'m \<Rightarrow> ('k \<times> 'v) list"
    and wf :: "'m \<Rightarrow> bool"
  assumes distinct_entries: "wf m \<Longrightarrow> distinct (map fst (entries m))"
    and get_entries: "wf m \<Longrightarrow> get m k = map_of (entries m) k"
    and get_ins: "wf m \<Longrightarrow> get (ins m k v) k' = (if k' = k then Some v else get m k')"
    and get_rm: "wf m \<Longrightarrow> get (rm m k) k' = (if k' = k then None else get m k')"
    and wf_ins: "wf m \<Longrightarrow> wf (ins m k v)"
    and wf_rm: "wf m \<Longrightarrow> wf (rm m k)"
begin

definition keys :: "'m \<Rightarrow> 'k set" where
  "keys m = {k. get m k \<noteq> None}"

lemma keys_entries: "wf m \<Longrightarrow> keys m = fst ` set (entries m)"
  by (auto simp: keys_def get_entries map_of_eq_None_iff)

lemma length_entries: "wf m \<Longrightarrow> length (entries m) = card (keys m)"
  using distinct_card [OF distinct_entries] by (simp add: keys_entries)

lemma finite_keys: "wf m \<Longrightarrow> finite (keys m)"
  by (simp add: keys_entries)

lemma keys_ins: "wf m \<Longrightarrow> keys (ins m k v) = insert k (keys m)"
  by (auto simp: keys_def get_ins)

lemma keys_rm: "wf m \<Longrightarrow> keys (rm m k) = keys m - {k}"
  by (auto simp: keys_def get_rm)

lemma length_ins:
  "wf m \<Longrightarrow> length (entries (ins m k v)) =
     (if get m k = None then Suc (length (entries m)) else length (entries m))"
  by (simp add: length_entries wf_ins keys_ins finite_keys card_insert_if) (simp add: keys_def)

lemma length_rm:
  "wf m \<Longrightarrow> length (entries (rm m k)) =
     (if get m k = None then length (entries m) else length (entries m) - 1)"
  by (simp add: length_entries wf_rm keys_rm finite_keys card_Diff_singleton_if) (auto simp: keys_def)

lemma get_mem: "wf m \<Longrightarrow> get m k = Some v \<longleftrightarrow> (k, v) \<in> set (entries m)"
  by (auto simp: get_entries dest: map_of_SomeD intro: map_of_is_SomeI distinct_entries)

end

text \<open>\<open>BTreeMap\<close> moreover iterates in strictly ascending key order.\<close>

locale ordered_map = finite_map get ins rm entries wf
  for get :: "'m \<Rightarrow> 'k::linorder \<Rightarrow> 'v option"
    and ins :: "'m \<Rightarrow> 'k \<Rightarrow> 'v \<Rightarrow> 'm"
    and rm :: "'m \<Rightarrow> 'k \<Rightarrow> 'm"
    and entries :: "'m \<Rightarrow> ('k \<times> 'v) list"
    and wf :: "'m \<Rightarrow> bool" +
  assumes entries_sorted: "wf m \<Longrightarrow> sorted_wrt (<) (map fst (entries m))"
begin

lemma first_least: "wf m \<Longrightarrow> entries m = (k, v) # rest \<Longrightarrow> get m k' \<noteq> None \<Longrightarrow> k \<le> k'"
  using entries_sorted [of m] by (force simp: get_entries split: if_splits dest: map_of_SomeD)

end

text \<open>
  The model of \<open>HashMap<K, V>\<close>: its entries with distinct keys. The iteration order of a
  \<open>HashMap\<close> is unspecified; the list fixes one admissible order.
\<close>

type_synonym ('k, 'v) hmap = "('k \<times> 'v) list"

abbreviation hm_get :: "('k, 'v) hmap \<Rightarrow> 'k \<Rightarrow> 'v option" where
  "hm_get \<equiv> map_of"

definition hm_insert :: "('k, 'v) hmap \<Rightarrow> 'k \<Rightarrow> 'v \<Rightarrow> ('k, 'v) hmap" where
  "hm_insert m k v = AList.update k v m"

definition hm_remove :: "('k, 'v) hmap \<Rightarrow> 'k \<Rightarrow> ('k, 'v) hmap" where
  "hm_remove m k = AList.delete k m"

abbreviation hm_wf :: "('k, 'v) hmap \<Rightarrow> bool" where
  "hm_wf m \<equiv> distinct (map fst m)"

lemma hm_get_insert: "hm_get (hm_insert m k v) k' = (if k' = k then Some v else hm_get m k')"
  by (simp add: hm_insert_def update_conv)

lemma hm_get_remove: "hm_get (hm_remove m k) k' = (if k' = k then None else hm_get m k')"
  by (simp add: hm_remove_def delete_conv)

lemma hm_wf_insert: "hm_wf m \<Longrightarrow> hm_wf (hm_insert m k v)"
  by (simp add: hm_insert_def distinct_update)

lemma hm_wf_remove: "hm_wf m \<Longrightarrow> hm_wf (hm_remove m k)"
  by (simp add: hm_remove_def distinct_delete)

lemma length_hm_insert: "length (hm_insert m k v) \<le> Suc (length m)"
  by (induction m) (auto simp: hm_insert_def)

lemma hm_insert_new: "hm_get m k = None \<Longrightarrow> hm_insert m k v = m @ [(k, v)]"
  by (induction m) (auto simp: hm_insert_def split: if_splits)

lemma in_set_hm_insert: "y \<in> set (hm_insert m k v) \<Longrightarrow> y = (k, v) \<or> y \<in> set m"
  by (induction m) (auto simp: hm_insert_def split: if_splits)

lemma set_hm_remove: "set (hm_remove m k) = {y \<in> set m. fst y \<noteq> k}"
  by (induction m) (auto simp: hm_remove_def)

lemma hm_wf_filter: "hm_wf m \<Longrightarrow> hm_wf (filter P m)"
  by (simp add: distinct_map_filter)

interpretation hm: finite_map map_of hm_insert hm_remove "\<lambda>m. m" hm_wf
  by unfold_locales (simp_all add: hm_get_insert hm_get_remove hm_wf_insert hm_wf_remove)

text \<open>The model of \<open>BTreeMap<K, V>\<close>: its entries in ascending key order.\<close>

type_synonym ('k, 'v) btree = "('k \<times> 'v) list"

fun bt_insert :: "('k::linorder, 'v) btree \<Rightarrow> 'k \<Rightarrow> 'v \<Rightarrow> ('k, 'v) btree" where
  "bt_insert [] k v = [(k, v)]"
| "bt_insert ((a, b) # m) k v =
     (if k < a then (k, v) # (a, b) # m
      else if k = a then (k, v) # m
      else (a, b) # bt_insert m k v)"

fun bt_remove :: "('k, 'v) btree \<Rightarrow> 'k \<Rightarrow> ('k, 'v) btree" where
  "bt_remove [] k = []"
| "bt_remove ((a, b) # m) k = (if k = a then m else (a, b) # bt_remove m k)"

abbreviation bt_get :: "('k, 'v) btree \<Rightarrow> 'k \<Rightarrow> 'v option" where
  "bt_get \<equiv> map_of"

definition bt_wf :: "('k::linorder, 'v) btree \<Rightarrow> bool" where
  "bt_wf m = sorted_wrt (<) (map fst m)"

lemma bt_wf_simps [simp]:
  "bt_wf []"
  "bt_wf ((a, b) # m) \<longleftrightarrow> (\<forall>x \<in> set m. a < fst x) \<and> bt_wf m"
  by (auto simp: bt_wf_def)

lemma set_bt_insert: "fst ` set (bt_insert m k v) = insert k (fst ` set m)"
  by (induction m k v rule: bt_insert.induct) auto

lemma set_bt_remove_subset: "set (bt_remove m k) \<subseteq> set m"
  by (induction m k rule: bt_remove.induct) auto

lemma bt_get_insert: "bt_get (bt_insert m k v) k' = (if k' = k then Some v else bt_get m k')"
  by (induction m k v rule: bt_insert.induct) auto

lemma bt_get_below: "\<forall>x \<in> set m. a < fst x \<Longrightarrow> bt_get m a = None"
  for a :: "'k::linorder"
  by (induction m) auto

lemma bt_get_remove: "bt_wf m \<Longrightarrow> bt_get (bt_remove m k) k' = (if k' = k then None else bt_get m k')"
  by (induction m k rule: bt_remove.induct) (auto simp: bt_get_below)

lemma bt_wf_insert: "bt_wf m \<Longrightarrow> bt_wf (bt_insert m k v)"
proof (induction m k v rule: bt_insert.induct)
  case (2 a b m k v)
  have "x \<in> set (bt_insert m k v) \<Longrightarrow> fst x \<in> insert k (fst ` set m)" for x
    using set_bt_insert [of m k v] by blast
  with 2 show ?case by (fastforce simp: not_less)
qed simp

lemma bt_wf_remove: "bt_wf m \<Longrightarrow> bt_wf (bt_remove m k)"
  by (induction m k rule: bt_remove.induct) (use set_bt_remove_subset in \<open>fastforce+\<close>)

interpretation bt: ordered_map map_of bt_insert bt_remove "\<lambda>m. m" bt_wf
  by unfold_locales
    (simp_all add: bt_get_insert bt_get_remove bt_wf_insert bt_wf_remove, simp_all add: bt_wf_def strict_sorted_iff)

lemmas bt_laws [order_map_simps] =
  bt.get_ins bt.get_rm bt.wf_ins bt.wf_rm bt.keys_ins bt.keys_rm

lemma length_bt_remove: "bt_get m k \<noteq> None \<Longrightarrow> length (bt_remove m k) < length m"
  by (induction m k rule: bt_remove.induct) auto

lemma bt_wf_map: "bt_wf (map (\<lambda>(k, v). (k, f k v)) m) = bt_wf m"
  by (simp add: bt_wf_def case_prod_beta comp_def)

lemma map_of_map_val: "map_of (map (\<lambda>(k, v). (k, f k v)) m) k = map_option (f k) (map_of m k)"
  by (induction m) auto

lemma in_set_bt_insert: "x \<in> set (bt_insert m k v) \<Longrightarrow> x = (k, v) \<or> x \<in> set m"
  by (induction m k v rule: bt_insert.induct) (auto split: if_splits)

lemma length_bt_insert_le: "length (bt_insert m k v) \<le> Suc (length m)"
  by (induction m k v rule: bt_insert.induct) auto

lemma bt_wf_append: "bt_wf (xs @ ys) \<Longrightarrow> bt_wf xs \<and> bt_wf ys"
  by (auto simp: bt_wf_def sorted_wrt_append)

lemma bt_remove_absent: "bt_get m k = None \<Longrightarrow> bt_remove m k = m"
  by (induction m k rule: bt_remove.induct) (auto split: if_splits)

lemma bt_get_iff: "bt_wf m \<Longrightarrow> bt_get m k = Some v \<longleftrightarrow> (k, v) \<in> set m"
  by (auto dest: map_of_SomeD intro: map_of_is_SomeI bt.distinct_entries)

end
