(* ===== verification/Rust_Str.thy ===== *)
theory Rust_Str
  imports Prelude "HOL-Library.Sublist"
begin

text \<open>
  The parts of Rust's \<open>str\<close>, \<open>char\<close> and integer parsing API that the sources use, on
  strings of UTF-8 bytes. Whitespace is the Unicode \<open>White_Space\<close> property that \<open>trim\<close> and
  \<open>split_whitespace\<close> consult, recognised on its UTF-8 encoding; the lossy decoder replaces
  each maximal ill-formed prefix by the three bytes of U+FFFD, as \<open>String::from_utf8_lossy\<close>
  does.
\<close>

section \<open>Bytes and characters\<close>

abbreviation ord_char :: "char \<Rightarrow> nat" where
  "ord_char \<equiv> of_char"

definition u8_of_char :: "char \<Rightarrow> u8" where
  "u8_of_char c = of_nat (of_char c)"

definition char_of_u8 :: "u8 \<Rightarrow> char" where
  "char_of_u8 b = char_of (unat b)"

definition as_bytes :: "string \<Rightarrow> bytes" where
  "as_bytes s = map u8_of_char s"

definition of_bytes :: "bytes \<Rightarrow> string" where
  "of_bytes bs = map char_of_u8 bs"

lemma char_of_u8_of_char [simp]: "char_of_u8 (u8_of_char c) = c"
proof -
  have "of_char c < (256 :: nat)" by (rule nat_of_char_less_256)
  then show ?thesis by (simp add: char_of_u8_def u8_of_char_def unat_of_nat)
qed

lemma u8_of_char_char_of_u8 [simp]: "u8_of_char (char_of_u8 b) = b"
proof -
  have "unat b < 256" using unat_bound [of b] by simp
  then show ?thesis by (simp add: char_of_u8_def u8_of_char_def of_char_of)
qed

lemma of_bytes_as_bytes [simp]: "of_bytes (as_bytes s) = s"
  by (induction s) (simp_all add: of_bytes_def as_bytes_def)

lemma as_bytes_of_bytes [simp]: "as_bytes (of_bytes bs) = bs"
  by (induction bs) (simp_all add: of_bytes_def as_bytes_def)

lemma length_as_bytes [simp]: "length (as_bytes s) = length s"
  by (simp add: as_bytes_def)

lemma length_of_bytes [simp]: "length (of_bytes s) = length s"
  by (simp add: of_bytes_def)

definition is_ascii_digit :: "char \<Rightarrow> bool" where
  "is_ascii_digit c \<longleftrightarrow> 48 \<le> ord_char c \<and> ord_char c \<le> 57"

definition ascii_lower :: "char \<Rightarrow> char" where
  "ascii_lower c = (if 65 \<le> ord_char c \<and> ord_char c \<le> 90 then char_of (ord_char c + 32) else c)"

definition to_ascii_lowercase :: "string \<Rightarrow> string" where
  "to_ascii_lowercase s = map ascii_lower s"

definition eq_ignore_ascii_case :: "string \<Rightarrow> string \<Rightarrow> bool" where
  "eq_ignore_ascii_case a b \<longleftrightarrow> to_ascii_lowercase a = to_ascii_lowercase b"

definition is_ascii_whitespace :: "char \<Rightarrow> bool" where
  "is_ascii_whitespace c \<longleftrightarrow> ord_char c \<in> {9, 10, 12, 13, 32}"

section \<open>Whitespace\<close>

text \<open>Byte length of the whitespace character at the front of a string, 0 if there is none.\<close>

definition ws_len :: "nat list \<Rightarrow> nat" where
  "ws_len bs =
     (case bs of
        [] \<Rightarrow> 0
      | a # r \<Rightarrow>
          if (9 \<le> a \<and> a \<le> 13) \<or> a = 32 then 1
          else (case r of
                  [] \<Rightarrow> 0
                | b # r' \<Rightarrow>
                    if a = 0xC2 \<and> (b = 0x85 \<or> b = 0xA0) then 2
                    else (case r' of
                            [] \<Rightarrow> 0
                          | c # _ \<Rightarrow>
                              if (a = 0xE1 \<and> b = 0x9A \<and> c = 0x80) \<or>
                                 (a = 0xE2 \<and> b = 0x80 \<and> ((0x80 \<le> c \<and> c \<le> 0x8A) \<or> c = 0xA8 \<or> c = 0xA9 \<or> c = 0xAF)) \<or>
                                 (a = 0xE2 \<and> b = 0x81 \<and> c = 0x9F) \<or>
                                 (a = 0xE3 \<and> b = 0x80 \<and> c = 0x80)
                              then 3 else 0)))"

definition front_ws :: "string \<Rightarrow> nat" where
  "front_ws s = ws_len (map ord_char (take 3 s))"

text \<open>The same at the end: the last one, two or three bytes form a whitespace character.\<close>

definition back_ws :: "string \<Rightarrow> nat" where
  "back_ws s =
     (let n = length s; bs = map ord_char s in
      if n \<ge> 1 \<and> ws_len (drop (n - 1) bs) = 1 then 1
      else if n \<ge> 2 \<and> ws_len (drop (n - 2) bs) = 2 then 2
      else if n \<ge> 3 \<and> ws_len (drop (n - 3) bs) = 3 then 3
      else 0)"

lemma ws_len_le: "ws_len bs \<le> length bs"
  by (auto simp: ws_len_def split: list.splits)

lemma front_ws_le: "front_ws s \<le> length s"
  using ws_len_le [of "map ord_char (take 3 s)"] by (simp add: front_ws_def)

lemma back_ws_le: "back_ws s \<le> length s"
  by (simp add: back_ws_def Let_def)

function trim_start :: "string \<Rightarrow> string" where
  "trim_start s = (if front_ws s = 0 then s else trim_start (drop (front_ws s) s))"
  by pat_completeness auto
termination
proof (relation "measure length")
  fix s
  assume "front_ws s \<noteq> 0"
  with front_ws_le [of s] show "(drop (front_ws s) s, s) \<in> measure length" by simp
qed simp

declare trim_start.simps [simp del]

function trim_end :: "string \<Rightarrow> string" where
  "trim_end s = (if back_ws s = 0 then s else trim_end (take (length s - back_ws s) s))"
  by pat_completeness auto
termination
proof (relation "measure length")
  fix s
  assume "back_ws s \<noteq> 0"
  with back_ws_le [of s] show "(take (length s - back_ws s) s, s) \<in> measure length" by simp
qed simp

declare trim_end.simps [simp del]

definition trim :: "string \<Rightarrow> string" where
  "trim s = trim_end (trim_start s)"

section \<open>Searching and splitting\<close>

definition starts_with :: "string \<Rightarrow> string \<Rightarrow> bool" where
  "starts_with s p \<longleftrightarrow> take (length p) s = p"

definition ends_with :: "string \<Rightarrow> string \<Rightarrow> bool" where
  "ends_with s p \<longleftrightarrow> length p \<le> length s \<and> drop (length s - length p) s = p"

fun str_contains :: "'a list \<Rightarrow> 'a list \<Rightarrow> bool" where
  "str_contains [] p \<longleftrightarrow> p = []"
| "str_contains (c # s) p \<longleftrightarrow> take (length p) (c # s) = p \<or> str_contains s p"

definition strip_prefix :: "string \<Rightarrow> string \<Rightarrow> string option" where
  "strip_prefix p s = (if starts_with s p then Some (drop (length p) s) else None)"

definition strip_suffix :: "string \<Rightarrow> string \<Rightarrow> string option" where
  "strip_suffix p s = (if ends_with s p then Some (take (length s - length p) s) else None)"

definition trim_start_matches :: "char \<Rightarrow> string \<Rightarrow> string" where
  "trim_start_matches c s = dropWhile (\<lambda>x. x = c) s"

text \<open>\<open>s.split(c)\<close>: the pieces between the separators, at least one.\<close>

fun split_char :: "'a \<Rightarrow> 'a list \<Rightarrow> 'a list list" where
  "split_char c [] = [[]]"
| "split_char c (x # xs) =
     (if x = c then [] # split_char c xs
      else (case split_char c xs of
              [] \<Rightarrow> [[x]]
            | p # ps \<Rightarrow> (x # p) # ps))"

definition split_once :: "'a \<Rightarrow> 'a list \<Rightarrow> ('a list \<times> 'a list) option" where
  "split_once c s =
     (if c \<in> set s then Some (takeWhile (\<lambda>x. x \<noteq> c) s, tl (dropWhile (\<lambda>x. x \<noteq> c) s)) else None)"

definition rsplit_once :: "'a \<Rightarrow> 'a list \<Rightarrow> ('a list \<times> 'a list) option" where
  "rsplit_once c s =
     (case split_once c (rev s) of None \<Rightarrow> None | Some (a, b) \<Rightarrow> Some (rev b, rev a))"

text \<open>\<open>split_whitespace\<close>: the maximal runs of non-whitespace characters.\<close>

function split_ws :: "string \<Rightarrow> string \<Rightarrow> string list" where
  "split_ws tok s =
     (case s of
        [] \<Rightarrow> (if tok = [] then [] else [tok])
      | c # cs \<Rightarrow>
          if front_ws s = 0 then split_ws (tok @ [c]) cs
          else (if tok = [] then [] else [tok]) @ split_ws [] (drop (front_ws s) s))"
  by pat_completeness auto
termination
proof (relation "measure (\<lambda>(tok, s). length s)")
  fix tok s c cs
  assume "s = c # cs" and "front_ws s \<noteq> 0"
  with front_ws_le [of s] show "(([], drop (front_ws s) s), tok, s) \<in> measure (\<lambda>(tok, s). length s)"
    by simp
qed simp_all

declare split_ws.simps [simp del]

definition split_whitespace :: "string \<Rightarrow> string list" where
  "split_whitespace s = split_ws [] s"

text \<open>\<open>s.lines()\<close>: split at line feeds, drop one carriage return before each, ignore a final empty piece.\<close>

definition strip_cr :: "string \<Rightarrow> string" where
  "strip_cr s = (if s \<noteq> [] \<and> last s = CHR 0x0D then butlast s else s)"

definition str_lines :: "string \<Rightarrow> string list" where
  "str_lines s =
     (let ps = split_char (CHR 0x0A) s
      in map strip_cr (butlast ps) @ (if last ps = [] then [] else [last ps]))"

definition join :: "string \<Rightarrow> string list \<Rightarrow> string" where
  "join sep ss = concat (case ss of [] \<Rightarrow> [] | x # xs \<Rightarrow> x # concat (map (\<lambda>y. [sep, y]) xs))"

section \<open>Integers as text\<close>

definition digit_val :: "char \<Rightarrow> nat option" where
  "digit_val c = (if is_ascii_digit c then Some (ord_char c - 48) else None)"

definition hex_val :: "char \<Rightarrow> nat option" where
  "hex_val c =
     (let n = ord_char c in
      if 48 \<le> n \<and> n \<le> 57 then Some (n - 48)
      else if 97 \<le> n \<and> n \<le> 102 then Some (n - 87)
      else if 65 \<le> n \<and> n \<le> 70 then Some (n - 55)
      else None)"

fun parse_digits :: "(char \<Rightarrow> nat option) \<Rightarrow> nat \<Rightarrow> string \<Rightarrow> nat \<Rightarrow> nat option" where
  "parse_digits dv radix [] acc = Some acc"
| "parse_digits dv radix (c # cs) acc =
     (case dv c of None \<Rightarrow> None | Some d \<Rightarrow> parse_digits dv radix cs (acc * radix + d))"

text \<open>
  \<open>from_str_radix\<close> for an unsigned type with \<open>bound\<close> values: an optional \<open>+\<close>, then at least
  one digit, and no overflow.
\<close>

definition parse_unsigned :: "(char \<Rightarrow> nat option) \<Rightarrow> nat \<Rightarrow> nat \<Rightarrow> string \<Rightarrow> nat option" where
  "parse_unsigned dv radix bound s =
     (let ds = (case s of c # cs \<Rightarrow> if c = CHR ''+'' then cs else s | [] \<Rightarrow> s) in
      if ds = [] then None
      else (case parse_digits dv radix ds 0 of
              None \<Rightarrow> None
            | Some n \<Rightarrow> if n < bound then Some n else None))"

definition parse_u16 :: "string \<Rightarrow> u16 option" where
  "parse_u16 s = map_option of_nat (parse_unsigned digit_val 10 (2 ^ 16) s)"

definition parse_u32 :: "string \<Rightarrow> u32 option" where
  "parse_u32 s = map_option of_nat (parse_unsigned digit_val 10 (2 ^ 32) s)"

definition parse_u64 :: "string \<Rightarrow> u64 option" where
  "parse_u64 s = map_option of_nat (parse_unsigned digit_val 10 (2 ^ 64) s)"

definition parse_usize :: "string \<Rightarrow> nat option" where
  "parse_usize s = parse_unsigned digit_val 10 (2 ^ 64) s"

definition parse_hex_u32 :: "string \<Rightarrow> u32 option" where
  "parse_hex_u32 s = map_option of_nat (parse_unsigned hex_val 16 (2 ^ 32) s)"

text \<open>Signed 64-bit integers, as the mathematical value.\<close>

definition parse_i64 :: "string \<Rightarrow> int option" where
  "parse_i64 s =
     (case s of
        c # cs \<Rightarrow>
          if c = CHR ''-'' then
            (if cs = [] then None
             else (case parse_digits digit_val 10 cs 0 of
                     None \<Rightarrow> None
                   | Some n \<Rightarrow> if n \<le> 2 ^ 63 then Some (- int n) else None))
          else map_option int (parse_unsigned digit_val 10 (2 ^ 63) s)
      | [] \<Rightarrow> None)"

fun show_nat :: "nat \<Rightarrow> string" where
  "show_nat n = (if n < 10 then [char_of (48 + n)] else show_nat (n div 10) @ [char_of (48 + n mod 10)])"

declare show_nat.simps [simp del]

definition hex_digit :: "nat \<Rightarrow> char" where
  "hex_digit d = (if d < 10 then char_of (48 + d) else char_of (87 + d))"

definition show_hex02 :: "u8 \<Rightarrow> string" where
  "show_hex02 b = [hex_digit (unat b div 16), hex_digit (unat b mod 16)]"

text \<open>The format \<open>{:08x}\<close> of a \<open>u32\<close>.\<close>

definition show_hex08 :: "u32 \<Rightarrow> string" where
  "show_hex08 w = concat (map show_hex02 (rev (le_bytes32 w)))"

lemma parse_digits_append:
  "parse_digits dv radix (xs @ ys) acc =
     (case parse_digits dv radix xs acc of None \<Rightarrow> None | Some a \<Rightarrow> parse_digits dv radix ys a)"
  by (induction xs arbitrary: acc) (simp_all split: option.splits)

lemma digit_val_char_of: "d < 10 \<Longrightarrow> digit_val (char_of (48 + d)) = Some d"
  by (simp add: digit_val_def is_ascii_digit_def)

lemma parse_digits_show_nat: "parse_digits digit_val 10 (show_nat n) 0 = Some n"
proof (induction n rule: show_nat.induct)
  case (1 n)
  then show ?case
    by (cases "n < 10") (simp_all add: show_nat.simps [of n] parse_digits_append digit_val_char_of)
qed

lemma show_nat_nonempty [simp]: "show_nat n \<noteq> []"
  by (subst show_nat.simps) simp

lemma show_nat_digits: "c \<in> set (show_nat n) \<Longrightarrow> is_ascii_digit c"
proof (induction n rule: show_nat.induct)
  case (1 n)
  then show ?case
    by (cases "n < 10") (auto simp: show_nat.simps [of n] is_ascii_digit_def)
qed

lemma parse_unsigned_show_nat: "n < bound \<Longrightarrow> parse_unsigned digit_val 10 bound (show_nat n) = Some n"
proof -
  have "hd (show_nat n) \<noteq> CHR ''+''"
    using show_nat_digits [of "hd (show_nat n)" n] by (auto simp: is_ascii_digit_def)
  then show "n < bound \<Longrightarrow> ?thesis"
    using parse_digits_show_nat [of n]
    by (cases "show_nat n") (auto simp: parse_unsigned_def)
qed

lemma hex_val_digit [simp]: "d < 16 \<Longrightarrow> hex_val (hex_digit d) = Some d"
  by (simp add: hex_val_def hex_digit_def Let_def)

section \<open>UTF-8\<close>

text \<open>
  One decoding step: whether the bytes start with a well-formed sequence, and the length of
  that sequence, or of the maximal ill-formed prefix.
\<close>

definition is_cont :: "nat \<Rightarrow> bool" where
  "is_cont b \<longleftrightarrow> 0x80 \<le> b \<and> b \<le> 0xBF"

definition second_ok :: "nat \<Rightarrow> nat \<Rightarrow> bool" where
  "second_ok a b \<longleftrightarrow>
     (a = 0xE0 \<and> 0xA0 \<le> b \<and> b \<le> 0xBF) \<or>
     (((0xE1 \<le> a \<and> a \<le> 0xEC) \<or> a = 0xEE \<or> a = 0xEF) \<and> is_cont b) \<or>
     (a = 0xED \<and> 0x80 \<le> b \<and> b \<le> 0x9F) \<or>
     (a = 0xF0 \<and> 0x90 \<le> b \<and> b \<le> 0xBF) \<or>
     ((0xF1 \<le> a \<and> a \<le> 0xF3) \<and> is_cont b) \<or>
     (a = 0xF4 \<and> 0x80 \<le> b \<and> b \<le> 0x8F)"

definition cont_at :: "nat list \<Rightarrow> nat \<Rightarrow> bool" where
  "cont_at bs i \<longleftrightarrow> i < length bs \<and> is_cont (bs ! i)"

definition utf8_step :: "nat \<Rightarrow> nat list \<Rightarrow> bool \<times> nat" where
  "utf8_step a r =
     (if a < 0x80 then (True, 1)
      else if 0xC2 \<le> a \<and> a \<le> 0xDF then (if cont_at r 0 then (True, 2) else (False, 1))
      else if 0xE0 \<le> a \<and> a \<le> 0xEF then
        (if r = [] \<or> \<not> second_ok a (hd r) then (False, 1)
         else if \<not> cont_at r 1 then (False, 2) else (True, 3))
      else if 0xF0 \<le> a \<and> a \<le> 0xF4 then
        (if r = [] \<or> \<not> second_ok a (hd r) then (False, 1)
         else if \<not> cont_at r 1 then (False, 2)
         else if \<not> cont_at r 2 then (False, 3) else (True, 4))
      else (False, 1))"

lemma utf8_step_bounds: "0 < snd (utf8_step a r)" "snd (utf8_step a r) \<le> Suc (length r)"
  by (simp add: utf8_step_def)
    (cases r; simp add: utf8_step_def cont_at_def Suc_le_eq)

definition utf8_step_str :: "string \<Rightarrow> bool \<times> nat" where
  "utf8_step_str s = utf8_step (ord_char (hd s)) (map ord_char (take 3 (tl s)))"

lemma utf8_step_str_bounds:
  "0 < snd (utf8_step_str s)" "s \<noteq> [] \<Longrightarrow> snd (utf8_step_str s) \<le> length s"
  using utf8_step_bounds [of "ord_char (hd s)" "map ord_char (take 3 (tl s))"]
  by (cases s; simp add: utf8_step_str_def)+

lemma utf8_step_str_shrinks:
  "s \<noteq> [] \<Longrightarrow> (ok, n) = utf8_step_str s \<Longrightarrow> 0 < n \<and> s \<noteq> []"
  using utf8_step_str_bounds(1) [of s] by (metis snd_conv)

function utf8_lossy :: "string \<Rightarrow> string" where
  "utf8_lossy s =
     (if s = [] then []
      else (case utf8_step_str s of
              (ok, n) \<Rightarrow>
                (if ok then take n s else [CHR 0xEF, CHR 0xBF, CHR 0xBD]) @ utf8_lossy (drop n s)))"
  by pat_completeness auto
termination
  by (relation "measure length") (use utf8_step_str_shrinks in \<open>force+\<close>)

function utf8_valid :: "string \<Rightarrow> bool" where
  "utf8_valid s \<longleftrightarrow>
     (if s = [] then True
      else (case utf8_step_str s of (ok, n) \<Rightarrow> ok \<and> utf8_valid (drop n s)))"
  by pat_completeness auto
termination
  by (relation "measure length") (use utf8_step_str_shrinks in \<open>force+\<close>)

declare utf8_lossy.simps [simp del] utf8_valid.simps [simp del]

lemma utf8_lossy_valid: "utf8_valid s \<Longrightarrow> utf8_lossy s = s"
proof (induction s rule: utf8_valid.induct)
  case (1 s)
  show ?case
  proof (cases "s = []")
    case False
    obtain ok n where st: "utf8_step_str s = (ok, n)" by fastforce
    with 1 False have "ok" "utf8_lossy (drop n s) = drop n s"
      by (auto simp: utf8_valid.simps [of s])
    with st False show ?thesis by (simp add: utf8_lossy.simps [of s])
  qed (simp add: utf8_lossy.simps)
qed

definition is_ascii :: "string \<Rightarrow> bool" where
  "is_ascii s \<longleftrightarrow> (\<forall>c \<in> set s. ord_char c < 0x80)"

lemma utf8_valid_ascii: "is_ascii s \<Longrightarrow> utf8_valid s"
proof (induction s)
  case (Cons c s)
  then have "utf8_step_str (c # s) = (True, 1)" by (simp add: is_ascii_def utf8_step_str_def utf8_step_def)
  with Cons show ?case by (simp add: utf8_valid.simps [of "c # s"] is_ascii_def)
qed (simp add: utf8_valid.simps)

text \<open>\<open>s.chars().count()\<close> and \<open>s.chars().take(n)\<close> on well-formed strings: characters start at non-continuation bytes.\<close>

definition char_count :: "string \<Rightarrow> nat" where
  "char_count s = length (filter (\<lambda>c. \<not> is_cont (ord_char c)) s)"

fun take_chars :: "nat \<Rightarrow> string \<Rightarrow> string" where
  "take_chars n [] = []"
| "take_chars n (c # s) =
     (if is_cont (ord_char c) then c # take_chars n s
      else (case n of 0 \<Rightarrow> [] | Suc m \<Rightarrow> c # take_chars m s))"

section \<open>Substrings\<close>

text \<open>\<open>windows(n).position(|w| w == p)\<close>.\<close>

fun find_sub :: "'a list \<Rightarrow> 'a list \<Rightarrow> nat option" where
  "find_sub p [] = None"
| "find_sub p (c # s) = (if take (length p) (c # s) = p then Some 0 else map_option Suc (find_sub p s))"

lemma find_sub_bound: "find_sub p s = Some i \<Longrightarrow> p \<noteq> [] \<Longrightarrow> i + length p \<le> length s"
proof (induction p s arbitrary: i rule: find_sub.induct)
  case (2 p c s)
  show ?case
  proof (cases "take (length p) (c # s) = p")
    case True
    then have "length p \<le> length (c # s)" by (metis length_take min.cobounded1)
    with True 2 show ?thesis by auto
  qed (use 2 in auto)
qed simp

lemma find_sub_append: "find_sub p a = Some i \<Longrightarrow> p \<noteq> [] \<Longrightarrow> find_sub p (a @ b) = Some i"
proof (induction p a arbitrary: i rule: find_sub.induct)
  case (2 p c s)
  have *: "take (length p) (c # s) = p \<longleftrightarrow> take (length p) (c # s @ b) = p" if "length p \<le> length (c # s)"
    using that by (simp add: take_Cons split: nat.split)
  show ?case
  proof (cases "take (length p) (c # s) = p")
    case True
    then have "length p \<le> length (c # s)" by (metis length_take min.cobounded1)
    with True * 2 show ?thesis by simp
  next
    case False
    with 2 obtain j where j: "find_sub p s = Some j" "i = Suc j" by auto
    then have "length p \<le> length (c # s)" using find_sub_bound [OF j(1)] 2 by simp
    with False * 2 j show ?thesis by simp
  qed
qed simp

lemma find_sub_spill: "find_sub p (a @ b) = Some i \<Longrightarrow> find_sub p a = None \<Longrightarrow> p \<noteq> [] \<Longrightarrow> length a < i + length p"
proof (induction p a arbitrary: i rule: find_sub.induct)
  case (2 p c s)
  show ?case
  proof (cases "take (length p) (c # s @ b) = p")
    case True
    moreover from this have "\<not> length p \<le> length (c # s)"
      using 2(3) by (auto simp: take_Cons split: nat.splits if_splits)
    ultimately show ?thesis by simp
  next
    case False
    with 2 show ?thesis by (auto split: if_splits)
  qed
qed (simp add: find_sub_bound)

text \<open>\<open>s.split_once(p)\<close> for a string pattern.\<close>

definition split_once_str :: "'a list \<Rightarrow> 'a list \<Rightarrow> ('a list \<times> 'a list) option" where
  "split_once_str p s = map_option (\<lambda>i. (take i s, drop (i + length p) s)) (find_sub p s)"

section \<open>Text without whitespace\<close>

definition graphic :: "string \<Rightarrow> bool" where
  "graphic s \<longleftrightarrow> (\<forall>c \<in> set s. 33 \<le> ord_char c \<and> ord_char c < 127)"

lemma graphic_append [simp]: "graphic (a @ b) \<longleftrightarrow> graphic a \<and> graphic b"
  by (auto simp: graphic_def)

lemma graphic_Cons [simp]: "graphic (c # b) \<longleftrightarrow> 33 \<le> ord_char c \<and> ord_char c < 127 \<and> graphic b"
  by (auto simp: graphic_def)

lemma graphic_Nil [simp]: "graphic []"
  by (simp add: graphic_def)

lemma graphic_ascii: "graphic s \<Longrightarrow> is_ascii s"
  by (auto simp: graphic_def is_ascii_def)

lemma ws_len_graphic: "\<forall>n \<in> set bs. 33 \<le> n \<and> n < 127 \<Longrightarrow> ws_len bs = 0"
  by (cases bs) (simp_all add: ws_len_def split: list.split)

lemma front_ws_graphic: "s \<noteq> [] \<Longrightarrow> 33 \<le> ord_char (hd s) \<Longrightarrow> ord_char (hd s) < 127 \<Longrightarrow> front_ws s = 0"
  by (cases s) (simp_all add: front_ws_def ws_len_def split: list.split)

lemma back_ws_graphic: "graphic s \<Longrightarrow> back_ws s = 0"
proof -
  assume "graphic s"
  then have "ws_len (drop k (map ord_char s)) = 0" for k
    by (intro ws_len_graphic) (auto simp: graphic_def drop_map dest: in_set_dropD)
  then show ?thesis by (simp add: back_ws_def Let_def)
qed

lemma trim_graphic: "graphic s \<Longrightarrow> trim s = s"
proof (cases s)
  case (Cons c t)
  assume "graphic s"
  with Cons front_ws_graphic [of s] back_ws_graphic [of s] show ?thesis
    by (simp add: trim_def trim_start.simps [of "c # t"] trim_end.simps [of "c # t"])
qed (simp add: trim_def trim_start.simps trim_end.simps front_ws_def ws_len_def back_ws_def)

lemma split_char_nonempty [simp]: "split_char c s \<noteq> []"
  by (cases s) (auto split: list.splits)

lemma split_char_head: "hd (split_char c (p @ c # q)) = hd (split_char c p)"
  by (induction p) (auto split: list.splits)

lemma split_once_append: "c \<notin> set s \<Longrightarrow> split_once c (s @ c # q) = Some (s, q)"
  by (induction s) (auto simp: split_once_def)

lemma split_once_none: "c \<notin> set s \<Longrightarrow> split_once c s = None"
  by (simp add: split_once_def)

lemma split_char_none: "c \<notin> set p \<Longrightarrow> split_char c p = [p]"
  by (induction p) auto

lemma split_char_append: "c \<notin> set p \<Longrightarrow> split_char c (p @ c # q) = p # split_char c q"
  by (induction p) auto

lemma graphic_show_nat [simp]: "graphic (show_nat n)"
  by (auto simp: graphic_def is_ascii_digit_def dest!: show_nat_digits)

text \<open>Lines written with a line feed each are read back.\<close>

lemma str_lines_unlines:
  "\<forall>l \<in> set ls. CHR 0x0A \<notin> set l \<and> (l = [] \<or> last l \<noteq> CHR 0x0D) \<Longrightarrow>
   str_lines (concat (map (\<lambda>l. l @ [CHR 0x0A]) ls)) = ls"
proof -
  assume ls: "\<forall>l \<in> set ls. CHR 0x0A \<notin> set l \<and> (l = [] \<or> last l \<noteq> CHR 0x0D)"
  then have "split_char (CHR 0x0A) (concat (map (\<lambda>l. l @ [CHR 0x0A]) ls)) = ls @ [[]]"
    by (induction ls) (simp_all add: split_char_append)
  with ls show ?thesis by (auto simp: str_lines_def strip_cr_def intro!: map_idI)
qed

end
