(* ===== verification/Reliable.thy ===== *)
theory Reliable
  imports Rust_Str
begin

text \<open>
  \<open>party-shim/src/reliable.rs\<close>: sequence numbers, retransmission and ordering of the Party
  transport. The sender side allocates sequence numbers and keeps unacknowledged guaranteed
  messages; the receiver side restores order, drops duplicates and produces cumulative
  acknowledgements. Both are pure state machines driven by a millisecond clock.
\<close>

section \<open>Options and sequence comparison\<close>

definition PARTY_RELIABLE :: bool where "PARTY_RELIABLE = True"

definition SEND_GUARANTEED :: u32 where "SEND_GUARANTEED = 0x1"
definition SEND_SEQUENTIAL :: u32 where "SEND_SEQUENTIAL = 0x2"
definition SEND_DONT_COPY_DATA_BUFFERS :: u32 where "SEND_DONT_COPY_DATA_BUFFERS = 0x4"
definition SEND_ALWAYS_COALESCE_UNTIL_FLUSHED :: u32 where
  "SEND_ALWAYS_COALESCE_UNTIL_FLUSHED = 0x8"
definition SEND_ALLOW_LAZY_ACKNOWLEDGEMENT :: u32 where "SEND_ALLOW_LAZY_ACKNOWLEDGEMENT = 0x10"

definition RTO_FIRST_MS :: u64 where "RTO_FIRST_MS = 60"
definition RTO_MAX_MS :: u64 where "RTO_MAX_MS = 500"
definition MAX_RETRIES :: u32 where "MAX_RETRIES = 8"
definition PENDING_CAP :: nat where "PENDING_CAP = 4096"
definition OOO_CAP :: nat where "OOO_CAP = 256"
definition ACK_DELAY_MS :: u64 where "ACK_DELAY_MS = 30"

definition guaranteed :: "u32 \<Rightarrow> bool" where
  "guaranteed options \<longleftrightarrow> options AND SEND_GUARANTEED \<noteq> 0"

definition sequential :: "u32 \<Rightarrow> bool" where
  "sequential options \<longleftrightarrow> options AND SEND_SEQUENTIAL \<noteq> 0"

definition seq_after :: "u32 \<Rightarrow> u32 \<Rightarrow> bool" where
  "seq_after a b \<longleftrightarrow> sint (a - b) > 0"

definition seq_le :: "u32 \<Rightarrow> u32 \<Rightarrow> bool" where
  "seq_le a b \<longleftrightarrow> \<not> seq_after a b"

fun mode_index_of :: "bool \<times> bool \<Rightarrow> nat" where
  "mode_index_of (True, True) = 0"
| "mode_index_of (True, False) = 1"
| "mode_index_of (False, True) = 2"
| "mode_index_of (False, False) = 3"

definition mode_index :: "u32 \<Rightarrow> nat" where
  "mode_index options = mode_index_of (guaranteed options, sequential options)"

definition mode_name :: "nat \<Rightarrow> string option" where
  "mode_name mode =
     (if mode < 4 then Some ([''guar-seq'', ''guar-nonseq'', ''best-seq'', ''best-nonseq''] ! mode) else None)"

definition decode_options :: "u32 \<Rightarrow> string" where
  "decode_options options = ''0x'' @ show_hex08 options @ '' ['' @ join ''|''
     ([if guaranteed options then ''GuaranteedDelivery(0x1)'' else ''BestEffortDelivery(0x0)'',
       if sequential options then ''SequentialDelivery(0x2)'' else ''NonsequentialDelivery(0x0)''] @
      (if options AND SEND_DONT_COPY_DATA_BUFFERS \<noteq> 0 then [''DontCopyDataBuffers(0x4)''] else []) @
      (if options AND SEND_ALWAYS_COALESCE_UNTIL_FLUSHED \<noteq> 0 then [''AlwaysCoalesceUntilFlushed(0x8)''] else []) @
      [if options AND SEND_ALLOW_LAZY_ACKNOWLEDGEMENT \<noteq> 0 then ''AllowLazyAcknowledgement(0x10)''
       else ''RequireTimelyAcknowledgement(0x0 default; ignored unless 0x1 is set)'']) @ '']''"

section \<open>Sender\<close>

record pending =
  p_payload :: bytes
  p_options :: u32
  p_first_sent_ms :: u64
  p_last_sent_ms :: u64
  p_retries :: u32
  p_rto_ms :: u64
  p_gave_up :: bool

record outgoing =
  o_seq :: u32
  o_payload :: bytes
  o_options :: u32
  o_evicted :: "(u32 \<times> u32) option"

record retransmit =
  r_seq :: u32
  r_payload :: bytes
  r_options :: u32
  r_retries :: u32
  r_first :: bool
  r_gave_up :: bool

record sender =
  next_gseq :: u32
  next_bseq :: u32
  pending_map :: "(u32, pending) btree"

definition sender_new :: sender where
  "sender_new = \<lparr>next_gseq = 1, next_bseq = 1, pending_map = []\<rparr>"

text \<open>The pending map once the cap has been enforced, and what was evicted for it.\<close>

definition evict_oldest ::
  "(u32, pending) btree \<Rightarrow> (u32 \<times> u32) option \<times> (u32, pending) btree" where
  "evict_oldest pm =
     (if length pm \<ge> PENDING_CAP then
        (case pm of
           [] \<Rightarrow> (None, pm)
         | (k, v) # _ \<Rightarrow> (Some (k, p_options v), bt_remove pm k))
      else (None, pm))"

definition new_pending :: "bytes \<Rightarrow> u32 \<Rightarrow> u64 \<Rightarrow> pending" where
  "new_pending payload options now_ms =
     \<lparr>p_payload = payload, p_options = options, p_first_sent_ms = now_ms,
      p_last_sent_ms = now_ms, p_retries = 0, p_rto_ms = RTO_FIRST_MS, p_gave_up = False\<rparr>"

definition sender_send :: "sender \<Rightarrow> bytes \<Rightarrow> u32 \<Rightarrow> u64 \<Rightarrow> outgoing \<times> sender" where
  "sender_send s payload options now_ms =
     (if \<not> PARTY_RELIABLE then
        (\<lparr>o_seq = 0, o_payload = payload, o_options = options, o_evicted = None\<rparr>, s)
      else if guaranteed options then
        (let seq = next_gseq s;
             (evicted, pm) = evict_oldest (pending_map s);
             pm' = bt_insert pm seq (new_pending payload options now_ms)
         in (\<lparr>o_seq = seq, o_payload = payload, o_options = options, o_evicted = evicted\<rparr>,
             s\<lparr>next_gseq := next_gseq s + 1, pending_map := pm'\<rparr>))
      else if sequential options then
        (\<lparr>o_seq = next_bseq s, o_payload = payload, o_options = options, o_evicted = None\<rparr>,
         s\<lparr>next_bseq := next_bseq s + 1\<rparr>)
      else
        (\<lparr>o_seq = 0, o_payload = payload, o_options = options, o_evicted = None\<rparr>, s))"

text \<open>
  \<open>on_ack\<close> pops the lowest key while it is covered by the cumulative ack; on the sorted
  representation the lowest key is the head.
\<close>

fun on_ack_loop :: "u32 \<Rightarrow> (u32, pending) btree \<Rightarrow> (u32 \<times> u32) list \<times> (u32, pending) btree" where
  "on_ack_loop ack [] = ([], [])"
| "on_ack_loop ack ((k, p) # pm) =
     (if \<not> seq_le k ack then ([], (k, p) # pm)
      else (case on_ack_loop ack pm of (cleared, rest) \<Rightarrow> ((k, p_options p) # cleared, rest)))"

definition sender_on_ack :: "sender \<Rightarrow> u32 \<Rightarrow> (u32 \<times> u32) list \<times> sender" where
  "sender_on_ack s ack =
     (case on_ack_loop ack (pending_map s) of
        (cleared, rest) \<Rightarrow> (cleared, s\<lparr>pending_map := rest\<rparr>))"

definition rto_deadline :: "pending \<Rightarrow> u64" where
  "rto_deadline p = saturating_add (p_last_sent_ms p) (p_rto_ms p)"

definition next_rto_ms :: "sender \<Rightarrow> u64 option" where
  "next_rto_ms s =
     (case map (\<lambda>(_, p). rto_deadline p) (filter (\<lambda>(_, p). \<not> p_gave_up p) (pending_map s)) of
        [] \<Rightarrow> None
      | d # ds \<Rightarrow> Some (fold min ds d))"

text \<open>The body of the \<open>for\<close> loop of \<open>due\<close>: the updated entry and the event it produces.\<close>

definition due_entry :: "u64 \<Rightarrow> u32 \<Rightarrow> pending \<Rightarrow> pending \<times> retransmit option" where
  "due_entry now_ms seq p =
     (if p_gave_up p then (p, None)
      else if saturating_sub now_ms (p_last_sent_ms p) < p_rto_ms p then (p, None)
      else if p_retries p \<ge> MAX_RETRIES then
        (p\<lparr>p_gave_up := True\<rparr>,
         Some \<lparr>r_seq = seq, r_payload = [], r_options = p_options p, r_retries = p_retries p,
               r_first = False, r_gave_up = True\<rparr>)
      else
        (let p' = p\<lparr>p_retries := p_retries p + 1, p_last_sent_ms := now_ms,
                    p_rto_ms := min (saturating_mul (p_rto_ms p) 2) RTO_MAX_MS\<rparr>
         in (p', Some \<lparr>r_seq = seq, r_payload = p_payload p', r_options = p_options p',
                       r_retries = p_retries p', r_first = (p_retries p' = 1),
                       r_gave_up = False\<rparr>)))"

definition sender_due :: "sender \<Rightarrow> u64 \<Rightarrow> retransmit list \<times> sender" where
  "sender_due s now_ms =
     (if \<not> PARTY_RELIABLE then ([], s)
      else (List.map_filter (\<lambda>(seq, p). snd (due_entry now_ms seq p)) (pending_map s),
            s\<lparr>pending_map := map (\<lambda>(seq, p). (seq, fst (due_entry now_ms seq p))) (pending_map s)\<rparr>))"

definition drop_all :: "sender \<Rightarrow> nat \<times> sender" where
  "drop_all s = (length (pending_map s), s\<lparr>pending_map := [], next_gseq := 1, next_bseq := 1\<rparr>)"

section \<open>Receiver\<close>

record recv_msg =
  m_payload :: bytes
  m_options :: u32

datatype recv_outcome =
    Delivered "recv_msg list"
  | Queued u32 u32
  | DroppedDuplicate
  | DroppedOutOfOrder u32 u32

record receiver =
  g_next :: u32
  g_buf :: "(u32, u32 \<times> bytes) btree"
  be_last :: u32
  be_seen :: bool
  ack_due_at :: "u64 option"
  last_evicted :: "u32 option"

definition receiver_new :: receiver where
  "receiver_new = \<lparr>g_next = 1, g_buf = [], be_last = 0, be_seen = False, ack_due_at = None,
     last_evicted = None\<rparr>"

definition ack_value :: "receiver \<Rightarrow> u32" where
  "ack_value r = g_next r - 1"

definition buffered_len :: "receiver \<Rightarrow> nat" where
  "buffered_len r = length (g_buf r)"

text \<open>
  \<open>while let Some((opts, p)) = self.g_buf.remove(&self.g_next)\<close>: advance over the
  contiguous run that is already buffered, collecting the payloads it releases.
\<close>

function drain ::
  "u32 \<Rightarrow> (u32, u32 \<times> bytes) btree \<Rightarrow> u32 \<times> (u32, u32 \<times> bytes) btree \<times> recv_msg list" where
  "drain gn buf =
     (case bt_get buf gn of
        None \<Rightarrow> (gn, buf, [])
      | Some (opts, p) \<Rightarrow>
          (case drain (gn + 1) (bt_remove buf gn) of
             (gn', buf', out) \<Rightarrow>
               (gn', buf', (if p \<noteq> [] then [\<lparr>m_payload = p, m_options = opts\<rparr>] else []) @ out)))"
  by pat_completeness auto
termination
  by (relation "measure (\<lambda>(gn, buf). length buf)") (auto intro: length_bt_remove)

declare drain.simps [simp del]

text \<open>Make room in the bounded out-of-order buffer by dropping its highest key.\<close>

definition evict_newest ::
  "(u32, u32 \<times> bytes) btree \<Rightarrow> u32 option \<times> (u32, u32 \<times> bytes) btree" where
  "evict_newest buf =
     (if length buf \<ge> OOO_CAP then
        (case buf of
           [] \<Rightarrow> (None, buf)
         | _ # _ \<Rightarrow> (Some (fst (last buf)), bt_remove buf (fst (last buf))))
      else (None, buf))"

text \<open>Start the forced-ack timer at the first guaranteed arrival, unless the sender is lazy.\<close>

definition arm_ack :: "receiver \<Rightarrow> u32 \<Rightarrow> u64 \<Rightarrow> receiver" where
  "arm_ack r options now_ms =
     (if options AND SEND_ALLOW_LAZY_ACKNOWLEDGEMENT = 0 then
        (case ack_due_at r of None \<Rightarrow> r\<lparr>ack_due_at := Some now_ms\<rparr> | Some _ \<Rightarrow> r)
      else r)"

definition on_message ::
  "receiver \<Rightarrow> u32 \<Rightarrow> u32 \<Rightarrow> bytes \<Rightarrow> u64 \<Rightarrow> recv_outcome \<times> receiver" where
  "on_message r0 seq options payload now_ms =
     (let r = r0\<lparr>last_evicted := None\<rparr> in
      if \<not> PARTY_RELIABLE \<or> seq = 0 then
        (Delivered [\<lparr>m_payload = payload, m_options = options\<rparr>], r)
      else if guaranteed options then
        (let r = arm_ack r options now_ms in
         if seq_le seq (g_next r - 1) \<or> bt_get (g_buf r) seq \<noteq> None then (DroppedDuplicate, r)
         else if sequential options then
           (if seq = g_next r then
              (let out0 = (if payload \<noteq> [] then [\<lparr>m_payload = payload, m_options = options\<rparr>] else []);
                   (gn, buf, out) = drain (g_next r + 1) (g_buf r)
               in (Delivered (out0 @ out), r\<lparr>g_next := gn, g_buf := buf\<rparr>))
            else
              (let (ev, buf) = evict_newest (g_buf r)
               in (Queued seq (g_next r),
                   r\<lparr>g_buf := bt_insert buf seq (options, payload), last_evicted := ev\<rparr>)))
         else
           (let (ev, buf) = evict_newest (g_buf r);
                (gn, buf', out) = drain (g_next r) (bt_insert buf seq (options, []))
            in (Delivered (\<lparr>m_payload = payload, m_options = options\<rparr> # out),
                r\<lparr>g_next := gn, g_buf := buf', last_evicted := ev\<rparr>)))
      else if sequential options then
        (if be_seen r \<and> \<not> seq_after seq (be_last r) then (DroppedOutOfOrder seq (be_last r), r)
         else (Delivered [\<lparr>m_payload = payload, m_options = options\<rparr>],
               r\<lparr>be_seen := True, be_last := seq\<rparr>))
      else (Delivered [\<lparr>m_payload = payload, m_options = options\<rparr>], r))"

definition piggyback_ack :: "receiver \<Rightarrow> u32 \<times> receiver" where
  "piggyback_ack r = (let r' = r\<lparr>ack_due_at := None\<rparr> in (ack_value r', r'))"

definition next_ack_due_ms :: "receiver \<Rightarrow> u64 option" where
  "next_ack_due_ms r = map_option (\<lambda>t. saturating_add t ACK_DELAY_MS) (ack_due_at r)"

definition forced_ack :: "receiver \<Rightarrow> u64 \<Rightarrow> u32 option \<times> receiver" where
  "forced_ack r now_ms =
     (case ack_due_at r of
        None \<Rightarrow> (None, r)
      | Some t \<Rightarrow>
          if saturating_sub now_ms t \<ge> ACK_DELAY_MS
          then (let r' = r\<lparr>ack_due_at := None\<rparr> in (Some (ack_value r'), r'))
          else (None, r))"

section \<open>Sequence arithmetic\<close>

text \<open>
  The signed comparison is a half-window test; on sequence numbers that stay below \<open>2 ^ 31\<close>
  it is the order of the natural numbers.
\<close>

lemma seq_after_iff: "seq_after a b \<longleftrightarrow> 0 < unat (a - b) \<and> unat (a - b) < 2 ^ 31"
proof -
  have "sint w > 0 \<longleftrightarrow> 0 < uint w \<and> uint w < 2 ^ 31" for w :: u32
  proof (cases "uint w < 2 ^ 31")
    case True
    moreover have "- (2 ^ 31) \<le> uint w" using order_trans [OF _ uint_ge_0 [of w]] by simp
    ultimately have "sint w = uint w"
      by (simp add: sint_uint signed_take_bit_int_eq_self_iff)
    with True show ?thesis by simp
  next
    case False
    have "uint w < 2 ^ 32" using uint_lt2p [of w] by simp
    with False have "uint w div 2147483648 = 1" by simp
    then have "sint w < 0"
      by (simp add: sint_uint bit_iff_odd)
    with False show ?thesis by simp
  qed
  moreover have "uint w < 2 ^ 31 \<longleftrightarrow> unat w < 2 ^ 31" for w :: u32
    using nat_less_iff [OF uint_ge_0 [of w], of "2 ^ 31"] by simp
  moreover have "0 < uint w \<longleftrightarrow> 0 < unat w" for w :: u32
    using zero_less_nat_eq [of "uint w"] by (simp only: unat_eq_nat_uint [of w])
  ultimately show ?thesis
    by (simp only: seq_after_def)
qed

lemma seq_after_asym: "seq_after a b \<Longrightarrow> \<not> seq_after b a"
proof -
  assume ab: "seq_after a b"
  have "unat (b - a) + unat (a - b) = 2 ^ 32"
  proof (cases "unat a \<le> unat b")
    case True
    moreover have "unat a \<noteq> unat b" using ab by (auto simp: seq_after_iff unat_sub_if')
    ultimately show ?thesis using unat_bound [of b] by (simp add: unat_sub_if')
  next
    case False
    then show ?thesis using unat_bound [of a] by (simp add: unat_sub_if')
  qed
  with ab show ?thesis by (simp add: seq_after_iff)
qed

lemma seq_after_irrefl [simp]: "\<not> seq_after a a"
  by (simp add: seq_after_iff)

lemma seq_after_step: "0 < n \<Longrightarrow> n < 2 ^ 31 \<Longrightarrow> seq_after (b + of_nat n) b"
  by (simp add: seq_after_iff unat_of_nat)

lemma seq_of_nat_diff:
  "m < 2 ^ 31 \<Longrightarrow> n < 2 ^ 31 \<Longrightarrow> seq_after (of_nat m) (of_nat n) \<longleftrightarrow> n < m"
proof (cases "n \<le> m")
  case True
  assume "m < 2 ^ 31" and "n < 2 ^ 31"
  moreover from this have "unat (of_nat m - of_nat n :: u32) = m - n"
    using True by (simp flip: of_nat_diff add: unat_of_nat)
  ultimately show ?thesis using True by (auto simp: seq_after_iff)
next
  case False
  assume b: "m < 2 ^ 31" "n < 2 ^ 31"
  then have "unat (of_nat n - of_nat m :: u32) = n - m"
    using False by (simp flip: of_nat_diff add: unat_of_nat)
  with False b have "seq_after (of_nat n) (of_nat m)"
    by (simp add: seq_after_iff unat_of_nat)
  with False show ?thesis using seq_after_asym by auto
qed

lemma seq_le_of_nat:
  "m < 2 ^ 31 \<Longrightarrow> n < 2 ^ 31 \<Longrightarrow> seq_le (of_nat m) (of_nat n) \<longleftrightarrow> m \<le> n"
  by (simp add: seq_le_def seq_of_nat_diff not_less)

lemma seq_of_nat_eq_iff:
  "m < 2 ^ 31 \<Longrightarrow> n < 2 ^ 31 \<Longrightarrow> (of_nat m :: u32) = of_nat n \<longleftrightarrow> m = n"
  by (metis linorder_neq_iff seq_after_irrefl seq_of_nat_diff)

lemma seq_of_nat_less_iff:
  "m < 2 ^ 31 \<Longrightarrow> n < 2 ^ 31 \<Longrightarrow> (of_nat m :: u32) < of_nat n \<longleftrightarrow> m < n"
  by (simp add: word_less_nat_alt unat_of_nat)

lemma seq_of_nat_0_iff: "m < 2 ^ 31 \<Longrightarrow> (of_nat m :: u32) = 0 \<longleftrightarrow> m = 0"
  using seq_of_nat_eq_iff [of m 0] by simp
section \<open>The sender's invariant\<close>

text \<open>
  Every pending message is a guaranteed one, its timeout is the exponential back-off of its
  retry count, and the map stays sorted and within \<open>PENDING_CAP\<close>.
\<close>

definition pending_ok :: "pending \<Rightarrow> bool" where
  "pending_ok p \<longleftrightarrow>
     guaranteed (p_options p) \<and> p_retries p \<le> MAX_RETRIES \<and>
     unat (p_rto_ms p) = min (60 * 2 ^ unat (p_retries p)) 500 \<and>
     (p_gave_up p \<longrightarrow> p_retries p = MAX_RETRIES)"

definition sender_wf :: "sender \<Rightarrow> bool" where
  "sender_wf s \<longleftrightarrow>
     bt_wf (pending_map s) \<and> length (pending_map s) \<le> PENDING_CAP \<and>
     (\<forall>p \<in> snd ` set (pending_map s). pending_ok p)"

lemma sender_new_wf: "sender_wf sender_new"
  by (simp add: sender_wf_def sender_new_def)

lemma evict_oldest_spec:
  assumes "bt_wf pm"
  shows "bt_wf (snd (evict_oldest pm))" and "set (snd (evict_oldest pm)) \<subseteq> set pm"
    and "length pm \<le> PENDING_CAP \<Longrightarrow> length (snd (evict_oldest pm)) < PENDING_CAP"
  using assms by (auto simp: evict_oldest_def PENDING_CAP_def split: list.splits)

lemma sender_send_sel [simp]:
  "pending_map (snd (sender_send s payload options now)) =
     (if guaranteed options
      then bt_insert (snd (evict_oldest (pending_map s))) (next_gseq s) (new_pending payload options now)
      else pending_map s)"
  "next_gseq (snd (sender_send s payload options now)) =
     (if guaranteed options then next_gseq s + 1 else next_gseq s)"
  "next_bseq (snd (sender_send s payload options now)) =
     (if \<not> guaranteed options \<and> sequential options then next_bseq s + 1 else next_bseq s)"
  "o_seq (fst (sender_send s payload options now)) =
     (if guaranteed options then next_gseq s else if sequential options then next_bseq s else 0)"
  "o_payload (fst (sender_send s payload options now)) = payload"
  "o_options (fst (sender_send s payload options now)) = options"
  by (simp_all add: sender_send_def PARTY_RELIABLE_def Let_def case_prod_beta)

lemma new_pending_ok: "guaranteed options \<Longrightarrow> pending_ok (new_pending payload options now)"
  by (simp add: new_pending_def pending_ok_def RTO_FIRST_MS_def)

lemma sender_send_wf: "sender_wf s \<Longrightarrow> sender_wf (snd (sender_send s payload options now))"
proof -
  assume wf: "sender_wf s"
  let ?pm = "snd (evict_oldest (pending_map s))"
  let ?p = "new_pending payload options now"
  note ev = evict_oldest_spec [of "pending_map s"]
  have "length (bt_insert ?pm (next_gseq s) ?p) \<le> PENDING_CAP"
    using ev wf length_bt_insert_le [of ?pm "next_gseq s" ?p] by (simp add: sender_wf_def)
  moreover have "\<forall>q \<in> snd ` set ?pm. pending_ok q"
    using ev(2) wf by (auto simp: sender_wf_def)
  ultimately show ?thesis
    using wf ev(1) new_pending_ok [of options]
    by (auto simp: sender_wf_def bt.wf_ins dest!: in_set_bt_insert)
qed

lemma on_ack_loop_append:
  "on_ack_loop ack pm = (cleared, rest) \<Longrightarrow>
    \<exists>front. pm = front @ rest \<and> cleared = map (\<lambda>(k, p). (k, p_options p)) front \<and>
      (\<forall>k \<in> fst ` set front. seq_le k ack) \<and>
      (rest = [] \<or> \<not> seq_le (fst (hd rest)) ack)"
proof (induction ack pm arbitrary: cleared rest rule: on_ack_loop.induct)
  case (2 ack k p pm)
  show ?case
  proof (cases "seq_le k ack")
    case True
    obtain c r where cr: "on_ack_loop ack pm = (c, r)" by fastforce
    from 2(1)[OF _ cr] True obtain front where
      "pm = front @ r" "c = map (\<lambda>(k, p). (k, p_options p)) front"
      "\<forall>k \<in> fst ` set front. seq_le k ack" "r = [] \<or> \<not> seq_le (fst (hd r)) ack" by auto
    with True cr 2(2) show ?thesis
      by (intro exI [of _ "(k, p) # front"]) auto
  qed (use 2 in auto)
qed simp

lemma sender_on_ack_eq:
  "sender_on_ack s ack =
     (fst (on_ack_loop ack (pending_map s)), s\<lparr>pending_map := snd (on_ack_loop ack (pending_map s))\<rparr>)"
  by (simp add: sender_on_ack_def case_prod_beta)

lemma sender_on_ack_pending:
  obtains front where
    "pending_map s = front @ pending_map (snd (sender_on_ack s ack))"
    "fst (sender_on_ack s ack) = map (\<lambda>(k, p). (k, p_options p)) front"
    "\<And>k. k \<in> fst ` set front \<Longrightarrow> seq_le k ack"
    "pending_map (snd (sender_on_ack s ack)) = [] \<or>
       \<not> seq_le (fst (hd (pending_map (snd (sender_on_ack s ack))))) ack"
proof -
  obtain cleared rest where l: "on_ack_loop ack (pending_map s) = (cleared, rest)" by fastforce
  from on_ack_loop_append [OF l] obtain front where
    "pending_map s = front @ rest" "cleared = map (\<lambda>(k, p). (k, p_options p)) front"
    "\<forall>k \<in> fst ` set front. seq_le k ack" "rest = [] \<or> \<not> seq_le (fst (hd rest)) ack" by blast
  moreover have "sender_on_ack s ack = (cleared, s\<lparr>pending_map := rest\<rparr>)"
    by (simp add: sender_on_ack_def l)
  ultimately show thesis by (intro that [of front]) auto
qed

lemma sender_on_ack_wf: "sender_wf s \<Longrightarrow> sender_wf (snd (sender_on_ack s ack))"
  by (rule sender_on_ack_pending [of s ack])
    (auto simp: sender_wf_def dest: bt_wf_append)

lemma due_entry_ok:
  assumes "pending_ok p"
  shows "pending_ok (fst (due_entry now seq p))"
proof (cases "p_gave_up p \<or> saturating_sub now (p_last_sent_ms p) < p_rto_ms p
    \<or> p_retries p \<ge> MAX_RETRIES")
  case True
  then show ?thesis using assms
    by (auto simp: due_entry_def pending_ok_def Let_def)
next
  case False
  then have r: "unat (p_retries p) < 8"
    by (simp add: MAX_RETRIES_def word_less_nat_alt not_le)
  then have r1: "unat (p_retries p + 1) = Suc (unat (p_retries p))"
    by (simp add: unat_word_ariths)
  have m: "unat (p_rto_ms p) = min (60 * 2 ^ unat (p_retries p)) 500"
    using assms by (simp add: pending_ok_def)
  then have "unat (p_rto_ms p) * 2 < 2 ^ 64" by simp
  then have "unat (saturating_mul (p_rto_ms p) 2) = unat (p_rto_ms p) * 2"
    by (simp add: saturating_mul_def unat_word_ariths)
  then have "unat (min (saturating_mul (p_rto_ms p) 2) RTO_MAX_MS) = min (unat (p_rto_ms p) * 2) 500"
    by (auto simp: min_def RTO_MAX_MS_def word_le_nat_alt)
  then show ?thesis using assms False r r1 m
    by (auto simp: due_entry_def pending_ok_def Let_def MAX_RETRIES_def word_le_nat_alt)
qed

lemma sender_due_wf: "sender_wf s \<Longrightarrow> sender_wf (snd (sender_due s now))"
  by (auto simp: sender_wf_def sender_due_def bt_wf_map due_entry_ok)

lemma drop_all_wf: "sender_wf (snd (drop_all s))"
  by (simp add: drop_all_def sender_wf_def)
section \<open>The receiver's invariant\<close>

text \<open>
  The buffer stays sorted and within \<open>OOO_CAP\<close>, and never holds the sequence number the
  receiver is waiting for.
\<close>

lemma evict_newest_eq:
  "evict_newest buf =
     (if length buf \<ge> OOO_CAP then (Some (fst (last buf)), bt_remove buf (fst (last buf)))
      else (None, buf))"
  by (cases buf) (simp_all add: evict_newest_def OOO_CAP_def)

lemma evict_newest_spec:
  assumes "bt_wf buf"
  shows "bt_wf (snd (evict_newest buf))" and "set (snd (evict_newest buf)) \<subseteq> set buf"
    and "length buf \<le> OOO_CAP \<Longrightarrow> length (snd (evict_newest buf)) < OOO_CAP"
proof -
  show "bt_wf (snd (evict_newest buf))" "set (snd (evict_newest buf)) \<subseteq> set buf"
    using assms by (simp_all add: evict_newest_eq bt_wf_remove set_bt_remove_subset)
  have "buf \<noteq> [] \<Longrightarrow> map_of buf (fst (last buf)) \<noteq> None"
    by (simp add: map_of_eq_None_iff)
  then have "buf \<noteq> [] \<Longrightarrow> length (bt_remove buf (fst (last buf))) < length buf"
    by (rule length_bt_remove)
  then show "length (snd (evict_newest buf)) < OOO_CAP" if "length buf \<le> OOO_CAP"
    using that by (cases "buf = []") (auto simp: evict_newest_eq OOO_CAP_def)
qed

lemma evict_newest_get:
  "bt_wf buf \<Longrightarrow> bt_get (snd (evict_newest buf)) k = Some e \<Longrightarrow> bt_get buf k = Some e"
  by (auto simp: evict_newest_eq bt_get_remove split: if_splits)

lemma evict_newest_None:
  "bt_wf buf \<Longrightarrow> bt_get buf k = None \<Longrightarrow> bt_get (snd (evict_newest buf)) k = None"
  by (auto simp: evict_newest_eq bt_get_remove)

lemma drain_wf:
  "drain gn buf = (gn', buf', out) \<Longrightarrow> bt_wf buf \<Longrightarrow>
   bt_wf buf' \<and> length buf' \<le> length buf \<and> set buf' \<subseteq> set buf \<and> bt_get buf' gn' = None"
proof (induction gn buf arbitrary: gn' buf' out rule: drain.induct)
  case (1 gn buf)
  show ?case
  proof (cases "bt_get buf gn")
    case None
    with 1(2,3) show ?thesis by (simp add: drain.simps [of gn buf])
  next
    case (Some e)
    obtain a b c where d: "drain (gn + 1) (bt_remove buf gn) = (a, b, c)" by (metis prod_cases3)
    have e: "(fst e, snd e) = e" by simp
    from 1(1)[OF Some e d] 1(3) have
      "bt_wf b \<and> length b \<le> length (bt_remove buf gn) \<and> set b \<subseteq> set (bt_remove buf gn) \<and> bt_get b a = None"
      by (simp add: bt_wf_remove)
    moreover have "gn' = a" "buf' = b"
      using 1(2) Some d by (auto simp: drain.simps [of gn buf] split: prod.splits)
    moreover have "length (bt_remove buf gn) < length buf" using Some by (simp add: length_bt_remove)
    ultimately show ?thesis using set_bt_remove_subset [of buf gn] by auto
  qed
qed

lemma arm_ack_sel [simp]:
  "g_next (arm_ack r options now) = g_next r" "g_buf (arm_ack r options now) = g_buf r"
  "be_last (arm_ack r options now) = be_last r" "be_seen (arm_ack r options now) = be_seen r"
  "last_evicted (arm_ack r options now) = last_evicted r"
  by (auto simp: arm_ack_def split: option.splits)

definition receiver_wf :: "receiver \<Rightarrow> bool" where
  "receiver_wf r \<longleftrightarrow> bt_wf (g_buf r) \<and> length (g_buf r) \<le> OOO_CAP \<and> bt_get (g_buf r) (g_next r) = None"

text \<open>One equation per branch of \<open>on_message\<close>, and the case split over them.\<close>

lemma on_message_duplicate:
  assumes "seq \<noteq> 0" "guaranteed options"
    and "seq_le seq (g_next r - 1) \<or> bt_get (g_buf r) seq \<noteq> None"
  shows "on_message r seq options payload now =
    (DroppedDuplicate, arm_ack (r\<lparr>last_evicted := None\<rparr>) options now)"
  using assms by (simp add: on_message_def PARTY_RELIABLE_def Let_def)

lemma on_message_in_order:
  assumes "seq \<noteq> 0" "guaranteed options" "sequential options"
    and "\<not> seq_le seq (g_next r - 1)" "bt_get (g_buf r) seq = None" "seq = g_next r"
    and "drain (g_next r + 1) (g_buf r) = (gn, buf, out)"
  shows "on_message r seq options payload now =
    (Delivered ((if payload \<noteq> [] then [\<lparr>m_payload = payload, m_options = options\<rparr>] else []) @ out),
     (arm_ack (r\<lparr>last_evicted := None\<rparr>) options now)\<lparr>g_next := gn, g_buf := buf\<rparr>)"
  using assms by (simp add: on_message_def PARTY_RELIABLE_def Let_def)

lemma on_message_out_of_order:
  assumes "seq \<noteq> 0" "guaranteed options" "sequential options"
    and "\<not> seq_le seq (g_next r - 1)" "bt_get (g_buf r) seq = None" "seq \<noteq> g_next r"
  shows "on_message r seq options payload now =
    (Queued seq (g_next r),
     (arm_ack (r\<lparr>last_evicted := None\<rparr>) options now)
       \<lparr>g_buf := bt_insert (snd (evict_newest (g_buf r))) seq (options, payload),
        last_evicted := fst (evict_newest (g_buf r))\<rparr>)"
  using assms by (simp add: on_message_def PARTY_RELIABLE_def Let_def case_prod_beta)

lemma on_message_nonsequential:
  assumes "seq \<noteq> 0" "guaranteed options" "\<not> sequential options"
    and "\<not> seq_le seq (g_next r - 1)" "bt_get (g_buf r) seq = None"
    and "drain (g_next r) (bt_insert (snd (evict_newest (g_buf r))) seq (options, [])) = (gn, buf, out)"
  shows "on_message r seq options payload now =
    (Delivered (\<lparr>m_payload = payload, m_options = options\<rparr> # out),
     (arm_ack (r\<lparr>last_evicted := None\<rparr>) options now)
       \<lparr>g_next := gn, g_buf := buf, last_evicted := fst (evict_newest (g_buf r))\<rparr>)"
  using assms by (simp add: on_message_def PARTY_RELIABLE_def Let_def case_prod_beta)

lemma on_message_best_effort:
  assumes "seq = 0 \<or> \<not> guaranteed options"
  shows "g_next (snd (on_message r seq options payload now)) = g_next r"
    and "g_buf (snd (on_message r seq options payload now)) = g_buf r"
    and "fst (on_message r seq options payload now) \<in>
      {Delivered [\<lparr>m_payload = payload, m_options = options\<rparr>], DroppedOutOfOrder seq (be_last r)}"
  using assms by (auto simp: on_message_def PARTY_RELIABLE_def Let_def)

lemma on_message_cases:
  obtains (plain) "seq = 0 \<or> \<not> guaranteed options"
  | (duplicate) "seq \<noteq> 0" "guaranteed options"
      "seq_le seq (g_next r - 1) \<or> bt_get (g_buf r) seq \<noteq> None"
  | (in_order) "seq \<noteq> 0" "guaranteed options" "sequential options"
      "\<not> seq_le seq (g_next r - 1)" "bt_get (g_buf r) seq = None" "seq = g_next r"
  | (out_of_order) "seq \<noteq> 0" "guaranteed options" "sequential options"
      "\<not> seq_le seq (g_next r - 1)" "bt_get (g_buf r) seq = None" "seq \<noteq> g_next r"
  | (nonsequential) "seq \<noteq> 0" "guaranteed options" "\<not> sequential options"
      "\<not> seq_le seq (g_next r - 1)" "bt_get (g_buf r) seq = None"
  by blast

lemma length_insert_evicted:
  "bt_wf buf \<Longrightarrow> length buf \<le> OOO_CAP \<Longrightarrow> length (bt_insert (snd (evict_newest buf)) k v) \<le> OOO_CAP"
  using length_bt_insert_le [of "snd (evict_newest buf)" k v] evict_newest_spec(3) [of buf] by simp

lemma on_message_wf:
  assumes wf: "receiver_wf r"
  shows "receiver_wf (snd (on_message r seq options payload now))"
proof (cases rule: on_message_cases [where seq = seq and options = options and r = r])
  case plain
  with wf show ?thesis by (simp add: receiver_wf_def on_message_best_effort)
next
  case duplicate
  with wf show ?thesis by (simp add: receiver_wf_def on_message_duplicate)
next
  case in_order
  obtain gn buf out where d: "drain (g_next r + 1) (g_buf r) = (gn, buf, out)" by (metis prod_cases3)
  with wf show ?thesis
    using drain_wf [OF d] by (simp add: receiver_wf_def on_message_in_order [OF in_order d])
next
  case out_of_order
  with wf show ?thesis
    by (simp add: receiver_wf_def on_message_out_of_order bt.wf_ins evict_newest_spec bt_get_insert
        length_insert_evicted evict_newest_None)
next
  case nonsequential
  let ?b = "bt_insert (snd (evict_newest (g_buf r))) seq (options, [])"
  obtain gn buf out where d: "drain (g_next r) ?b = (gn, buf, out)" by (metis prod_cases3)
  have "length ?b \<le> OOO_CAP"
    using wf by (simp add: receiver_wf_def length_insert_evicted)
  with wf show ?thesis
    using drain_wf [OF d]
    by (simp add: receiver_wf_def on_message_nonsequential [OF nonsequential d] bt.wf_ins evict_newest_spec)
qed
section \<open>Timers\<close>

lemma due_entry_None_iff:
  assumes "pending_ok p"
  shows "snd (due_entry now seq p) = None \<longleftrightarrow>
    p_gave_up p \<or> unat now < unat (p_last_sent_ms p) + unat (p_rto_ms p)"
proof -
  have "0 < unat (p_rto_ms p)" using assms by (simp add: pending_ok_def)
  then have "0 < p_rto_ms p" by (simp add: word_less_nat_alt)
  then show ?thesis
    by (simp add: due_entry_def Let_def saturating_sub_less_iff)
qed

lemma fold_min_le_iff: "fold min ds d \<le> t \<longleftrightarrow> (\<exists>x \<in> set (d # ds). x \<le> t)"
  for d :: "'a::linorder"
  by (induction ds arbitrary: d) (auto simp: min_le_iff_disj)

lemma next_rto_ms_le_iff:
  "(\<exists>t. next_rto_ms s = Some t \<and> t \<le> now) \<longleftrightarrow>
   (\<exists>p \<in> snd ` set (pending_map s). \<not> p_gave_up p \<and> rto_deadline p \<le> now)"
proof -
  let ?ds = "map (\<lambda>(_, p). rto_deadline p) (filter (\<lambda>(_, p). \<not> p_gave_up p) (pending_map s))"
  have "(\<exists>t. next_rto_ms s = Some t \<and> t \<le> now) \<longleftrightarrow> (\<exists>x \<in> set ?ds. x \<le> now)"
    by (cases ?ds) (auto simp: next_rto_ms_def fold_min_le_iff simp del: fold_simps)
  also have "\<dots> \<longleftrightarrow> (\<exists>p \<in> snd ` set (pending_map s). \<not> p_gave_up p \<and> rto_deadline p \<le> now)"
    by force
  finally show ?thesis .
qed

definition clock_ok :: "sender \<Rightarrow> bool" where
  "clock_ok s \<longleftrightarrow> (\<forall>p \<in> snd ` set (pending_map s). unat (p_last_sent_ms p) + unat (p_rto_ms p) < 2 ^ 64)"

text \<open>
  With clock values that do not saturate, due produces an event exactly when the deadline
  reported by next_rto_ms has been reached.
\<close>

theorem due_iff_deadline_passed:
  assumes "sender_wf s" and "clock_ok s"
  shows "fst (sender_due s now) \<noteq> [] \<longleftrightarrow> (\<exists>t. next_rto_ms s = Some t \<and> t \<le> now)"
proof -
  let ?expired = "\<lambda>p. \<not> p_gave_up p \<and> unat (p_last_sent_ms p) + unat (p_rto_ms p) \<le> unat now"
  have deadline: "\<not> p_gave_up p \<and> rto_deadline p \<le> now \<longleftrightarrow> ?expired p"
    if "p \<in> snd ` set (pending_map s)" for p
    using that assms(2) by (force simp: clock_ok_def rto_deadline_def word_le_nat_alt unat_saturating_add)
  have event: "snd (due_entry now (fst x) (snd x)) \<noteq> None \<longleftrightarrow> ?expired (snd x)"
    if "x \<in> set (pending_map s)" for x
    using that assms(1) due_entry_None_iff [of "snd x" now "fst x"] by (force simp: sender_wf_def)
  have "fst (sender_due s now) \<noteq> [] \<longleftrightarrow>
      (\<exists>x \<in> set (pending_map s). snd (due_entry now (fst x) (snd x)) \<noteq> None)"
    by (auto simp: sender_due_def PARTY_RELIABLE_def List.map_filter_def filter_empty_conv case_prod_beta)
  also have "\<dots> \<longleftrightarrow> (\<exists>p \<in> snd ` set (pending_map s). ?expired p)" using event by auto
  also have "\<dots> \<longleftrightarrow> (\<exists>t. next_rto_ms s = Some t \<and> t \<le> now)"
    unfolding next_rto_ms_le_iff using deadline by auto
  finally show ?thesis .
qed

theorem due_iff_deadline_passed_witness:
  "fst (sender_due (snd (sender_send sender_new [7] 3 100)) 160) \<noteq> [] \<longleftrightarrow>
   (\<exists>t. next_rto_ms (snd (sender_send sender_new [7] 3 100)) = Some t \<and> t \<le> 160)"
proof -
  have g: "guaranteed 3" by (simp add: guaranteed_def SEND_GUARANTEED_def)
  have "clock_ok (snd (sender_send sender_new [7] 3 100))"
    using g by (simp add: clock_ok_def sender_new_def evict_oldest_def PENDING_CAP_def new_pending_def RTO_FIRST_MS_def)
  with sender_send_wf [OF sender_new_wf] show ?thesis by (rule due_iff_deadline_passed)
qed

text \<open>Every event one message can still cause, over any sequence of clock readings.\<close>

fun due_run :: "u32 \<Rightarrow> pending \<Rightarrow> u64 list \<Rightarrow> retransmit list" where
  "due_run seq p [] = []"
| "due_run seq p (now # nows) =
     (case due_entry now seq p of
        (p', None) \<Rightarrow> due_run seq p' nows
      | (p', Some e) \<Rightarrow> e # due_run seq p' nows)"

lemma due_entry_cases:
  obtains (quiet) "due_entry now seq p = (p, None)"
  | (stop) e where "due_entry now seq p = (p\<lparr>p_gave_up := True\<rparr>, Some e)" "r_gave_up e"
  | (send) p' e where "due_entry now seq p = (p', Some e)" "\<not> r_gave_up e"
      "p_retries p' = p_retries p + 1" "p_retries p < MAX_RETRIES"
proof -
  consider "p_gave_up p \<or> saturating_sub now (p_last_sent_ms p) < p_rto_ms p"
    | "\<not> p_gave_up p" "\<not> saturating_sub now (p_last_sent_ms p) < p_rto_ms p" "MAX_RETRIES \<le> p_retries p"
    | "\<not> p_gave_up p" "\<not> saturating_sub now (p_last_sent_ms p) < p_rto_ms p" "p_retries p < MAX_RETRIES"
    by fastforce
  then show thesis
  proof cases
    case 1
    then show ?thesis by (intro quiet) (auto simp: due_entry_def)
  next
    case 2
    then show ?thesis by (intro stop) (auto simp: due_entry_def)
  next
    case 3
    let ?p = "p\<lparr>p_retries := p_retries p + 1, p_last_sent_ms := now,
      p_rto_ms := min (saturating_mul (p_rto_ms p) 2) RTO_MAX_MS\<rparr>"
    from 3 have "due_entry now seq p = (?p, Some \<lparr>r_seq = seq, r_payload = p_payload p,
        r_options = p_options p, r_retries = p_retries p + 1, r_first = (p_retries p + 1 = 1),
        r_gave_up = False\<rparr>)" by (auto simp: due_entry_def Let_def)
    then show ?thesis by (rule send) (use 3 in simp_all)
  qed
qed

lemma due_run_gave_up: "p_gave_up p \<Longrightarrow> due_run seq p nows = []"
  by (induction nows) (simp_all add: due_entry_def)

lemma due_run_budget:
  "pending_ok p \<Longrightarrow>
   length (filter (\<lambda>e. \<not> r_gave_up e) (due_run seq p nows)) \<le> 8 - unat (p_retries p) \<and>
   length (filter r_gave_up (due_run seq p nows)) \<le> 1"
proof (induction nows arbitrary: p)
  case (Cons now nows)
  note ok = due_entry_ok [OF Cons.prems, of now seq]
  consider (quiet) "due_entry now seq p = (p, None)"
    | (stop) e where "due_entry now seq p = (p\<lparr>p_gave_up := True\<rparr>, Some e)" "r_gave_up e"
    | (send) p' e where "due_entry now seq p = (p', Some e)" "\<not> r_gave_up e"
        "p_retries p' = p_retries p + 1" "p_retries p < MAX_RETRIES"
    by (rule due_entry_cases)
  then show ?case
  proof cases
    case quiet
    with Cons show ?thesis by simp
  next
    case stop
    then show ?thesis by (simp add: due_run_gave_up)
  next
    case send
    then have "unat (p_retries p') = Suc (unat (p_retries p))" "unat (p_retries p) < 8"
      by (simp_all add: MAX_RETRIES_def word_less_nat_alt unat_word_ariths)
    moreover have "pending_ok p'" using ok send(1) by simp
    ultimately show ?thesis using Cons.IH [of p'] send(1,2) by simp linarith
  qed
qed simp

text \<open>
  Whatever the clock readings, one guaranteed message is retransmitted at most MAX_RETRIES
  times and produces at most one give-up event.
\<close>

theorem retransmission_budget:
  assumes "guaranteed options"
  shows "length (filter (\<lambda>e. \<not> r_gave_up e) (due_run seq (new_pending payload options now) nows)) \<le> 8 \<and>
    length (filter r_gave_up (due_run seq (new_pending payload options now) nows)) \<le> 1"
  using due_run_budget [OF new_pending_ok [OF assms], of seq payload now nows] by (simp add: new_pending_def)

theorem retransmission_budget_witness:
  "guaranteed 3 \<and>
   length (filter (\<lambda>e. \<not> r_gave_up e) (due_run 1 (new_pending [7] 3 0) [60, 180, 420])) \<le> 8"
proof -
  have g: "guaranteed 3" by (simp add: guaranteed_def SEND_GUARANTEED_def)
  with retransmission_budget [OF g] show ?thesis by blast
qed

section \<open>Runs of operations\<close>

datatype sender_op = Op_send bytes u32 u64 | Op_ack u32 | Op_due u64 | Op_drop_all

fun sender_apply :: "sender_op \<Rightarrow> sender \<Rightarrow> sender" where
  "sender_apply (Op_send payload options now) s = snd (sender_send s payload options now)"
| "sender_apply (Op_ack a) s = snd (sender_on_ack s a)"
| "sender_apply (Op_due now) s = snd (sender_due s now)"
| "sender_apply Op_drop_all s = snd (drop_all s)"

lemma sender_apply_wf: "sender_wf s \<Longrightarrow> sender_wf (sender_apply x s)"
  by (cases x) (simp_all add: sender_send_wf sender_on_ack_wf sender_due_wf drop_all_wf del: sender_send_sel)

text \<open>
  After any sequence of send, on_ack, due and drop_all the sender's pending map has strictly
  increasing keys, holds at most PENDING_CAP guaranteed messages, and every entry respects the
  retry and RTO limits.
\<close>

theorem sender_invariant: "sender_wf (fold sender_apply ops sender_new)"
proof -
  have "sender_wf s \<Longrightarrow> sender_wf (fold sender_apply ops s)" for s
    by (induction ops arbitrary: s) (simp_all add: sender_apply_wf)
  then show ?thesis using sender_new_wf by blast
qed

datatype receiver_op = Op_message u32 u32 bytes u64 | Op_piggyback | Op_forced u64

fun receiver_apply :: "receiver_op \<Rightarrow> receiver \<Rightarrow> receiver" where
  "receiver_apply (Op_message seq options payload now) r = snd (on_message r seq options payload now)"
| "receiver_apply Op_piggyback r = snd (piggyback_ack r)"
| "receiver_apply (Op_forced now) r = snd (forced_ack r now)"

lemma receiver_apply_wf: "receiver_wf r \<Longrightarrow> receiver_wf (receiver_apply x r)"
  by (cases x)
    (simp add: on_message_wf,
     simp_all add: receiver_wf_def piggyback_ack_def forced_ack_def Let_def split: option.splits)

text \<open>
  After any sequence of arriving messages and produced acknowledgements the out-of-order
  buffer is a sorted map of at most OOO_CAP entries that never holds the next expected
  sequence number.
\<close>

theorem receiver_invariant: "receiver_wf (fold receiver_apply ops receiver_new)"
proof -
  have "receiver_wf r \<Longrightarrow> receiver_wf (fold receiver_apply ops r)" for r
    by (induction ops arbitrary: r) (simp_all add: receiver_apply_wf)
  moreover have "receiver_wf receiver_new"
    by (simp add: receiver_wf_def receiver_new_def)
  ultimately show ?thesis by blast
qed

section \<open>Cumulative acknowledgements\<close>

lemma on_ack_loop_below:
  assumes "bt_wf pm" and "\<forall>k \<in> fst ` set pm. unat k < 2 ^ 31" and "unat ack < 2 ^ 31"
  shows "on_ack_loop ack pm =
    (map (\<lambda>(k, p). (k, p_options p)) (filter (\<lambda>(k, _). k \<le> ack) pm), filter (\<lambda>(k, _). ack < k) pm)"
  using assms
proof (induction pm)
  case (Cons x pm)
  obtain k p where x: "x = (k, p)" by fastforce
  have le: "seq_le k ack \<longleftrightarrow> k \<le> ack"
    using Cons.prems seq_le_of_nat [of "unat k" "unat ack"] by (simp add: x word_le_nat_alt)
  have "ack < k \<Longrightarrow> filter (\<lambda>(k, _). k \<le> ack) pm = [] \<and> filter (\<lambda>(k, _). ack < k) pm = pm"
    using Cons.prems(1) by (fastforce simp: x filter_empty_conv filter_id_conv)
  with Cons le show ?case by (auto simp: x not_le)
qed simp

text \<open>
  Below half of the sequence space a cumulative ack removes exactly the pending messages
  numbered at most ack and reports them with their options.
\<close>

theorem on_ack_clears_prefix:
  assumes "sender_wf s" and "\<forall>k \<in> fst ` set (pending_map s). unat k < 2 ^ 31" and "unat ack < 2 ^ 31"
  shows "sender_on_ack s ack =
    (map (\<lambda>(k, p). (k, p_options p)) (filter (\<lambda>(k, _). k \<le> ack) (pending_map s)),
     s\<lparr>pending_map := filter (\<lambda>(k, _). ack < k) (pending_map s)\<rparr>)"
  using on_ack_loop_below [of "pending_map s" ack] assms by (simp add: sender_on_ack_eq sender_wf_def)

theorem on_ack_clears_prefix_witness:
  "fst (sender_on_ack (snd (sender_send sender_new [7] 3 0)) 1) = [(1, 3)]"
proof -
  let ?s = "snd (sender_send sender_new [7] 3 0)"
  have g: "guaranteed 3" by (simp add: guaranteed_def SEND_GUARANTEED_def)
  then have pm: "pending_map ?s = [(1, new_pending [7] 3 0)]"
    by (simp add: sender_new_def evict_oldest_def PENDING_CAP_def)
  then have "\<forall>k \<in> fst ` set (pending_map ?s). unat k < 2 ^ 31" by simp
  from on_ack_clears_prefix [OF sender_send_wf [OF sender_new_wf] this, of 1]
  show ?thesis by (simp add: pm new_pending_def del: sender_send_sel)
qed

section \<open>Best-effort sequential delivery\<close>

fun be_accepted :: "receiver \<Rightarrow> (u32 \<times> u32 \<times> bytes \<times> u64) list \<Rightarrow> u32 list" where
  "be_accepted r [] = []"
| "be_accepted r ((seq, options, payload, now) # xs) =
     (case on_message r seq options payload now of
        (Delivered _, r') \<Rightarrow> seq # be_accepted r' xs
      | (_, r') \<Rightarrow> be_accepted r' xs)"

lemma be_accepted_after:
  assumes "\<forall>(seq, options, _) \<in> set xs. seq \<noteq> 0 \<and> \<not> guaranteed options \<and> sequential options"
  shows "successively (\<lambda>a b. seq_after b a) (be_accepted r xs) \<and>
    (be_seen r \<longrightarrow> be_accepted r xs \<noteq> [] \<longrightarrow> seq_after (hd (be_accepted r xs)) (be_last r))"
  using assms
proof (induction xs arbitrary: r)
  case (Cons x xs)
  obtain seq options payload now where x: "x = (seq, options, payload, now)" by (metis prod_cases4)
  show ?case
  proof (cases "be_seen r \<and> \<not> seq_after seq (be_last r)")
    case True
    then have "on_message r seq options payload now = (DroppedOutOfOrder seq (be_last r), r\<lparr>last_evicted := None\<rparr>)"
      using Cons.prems by (simp add: x on_message_def PARTY_RELIABLE_def)
    with Cons.IH [of "r\<lparr>last_evicted := None\<rparr>"] Cons.prems True show ?thesis by (simp add: x)
  next
    case False
    let ?r = "r\<lparr>last_evicted := None, be_seen := True, be_last := seq\<rparr>"
    have "on_message r seq options payload now =
        (Delivered [\<lparr>m_payload = payload, m_options = options\<rparr>], ?r)"
      using Cons.prems False by (auto simp: x on_message_def PARTY_RELIABLE_def)
    with Cons.IH [of ?r] Cons.prems False show ?thesis
      by (cases "be_accepted ?r xs") (auto simp: x successively_Cons)
  qed
qed simp

text \<open>
  The best-effort sequential messages the receiver accepts have strictly advancing sequence
  numbers, whatever arrives.
\<close>

theorem best_effort_never_goes_back:
  assumes "\<forall>(seq, options, _) \<in> set xs. seq \<noteq> 0 \<and> \<not> guaranteed options \<and> sequential options"
  shows "successively (\<lambda>a b. seq_after b a) (be_accepted receiver_new xs)"
  using be_accepted_after [OF assms] by blast

theorem best_effort_never_goes_back_witness:
  "successively (\<lambda>a b. seq_after b a) (be_accepted receiver_new [(2, 2, [7], 0), (1, 2, [8], 1), (5, 2, [9], 2)])"
  by (rule best_effort_never_goes_back)
    (simp add: guaranteed_def sequential_def SEND_GUARANTEED_def SEND_SEQUENTIAL_def)

section \<open>Forced acknowledgements\<close>

lemma on_message_ack_timer:
  assumes "seq \<noteq> 0" and "guaranteed options"
  shows "ack_due_at (snd (on_message r seq options payload now)) =
    (if options AND SEND_ALLOW_LAZY_ACKNOWLEDGEMENT = 0 \<and> ack_due_at r = None then Some now
     else ack_due_at r)"
  using assms
  by (auto simp: on_message_def PARTY_RELIABLE_def Let_def arm_ack_def case_prod_beta split: option.splits)

text \<open>
  After a guaranteed message that does not allow lazy acknowledgement, forced_ack yields the
  cumulative ack exactly once ACK_DELAY_MS (30 ms) have passed.
\<close>

theorem forced_ack_after_delay:
  assumes "seq \<noteq> 0" and "guaranteed options" and "options AND SEND_ALLOW_LAZY_ACKNOWLEDGEMENT = 0"
    and "ack_due_at r = None"
  shows "fst (forced_ack (snd (on_message r seq options payload t)) now) =
    (if unat now < unat t + 30 then None else Some (ack_value (snd (on_message r seq options payload t))))"
proof -
  let ?r = "snd (on_message r seq options payload t)"
  have "ack_due_at ?r = Some t" using assms by (simp add: on_message_ack_timer)
  moreover have "saturating_sub now t \<ge> ACK_DELAY_MS \<longleftrightarrow> \<not> unat now < unat t + 30"
    using saturating_sub_less_iff [of ACK_DELAY_MS now t] by (simp add: ACK_DELAY_MS_def not_less [symmetric])
  ultimately show ?thesis
    by (auto simp: forced_ack_def Let_def ack_value_def)
qed

theorem forced_ack_after_delay_witness:
  "fst (forced_ack (snd (on_message receiver_new 1 3 [7] 100)) 130) \<noteq> None"
proof -
  have "guaranteed 3" "3 AND SEND_ALLOW_LAZY_ACKNOWLEDGEMENT = 0"
    by (simp_all add: guaranteed_def SEND_GUARANTEED_def SEND_ALLOW_LAZY_ACKNOWLEDGEMENT_def)
  then show ?thesis
    using forced_ack_after_delay [of 1 3 receiver_new "[7]" 100 130] by (simp add: receiver_new_def)
qed

section \<open>Corner cases\<close>

text \<open>
  Once the guaranteed sequence counter has wrapped to 0 a guaranteed message is sent and kept
  pending under the reserved number 0, and the receiver delivers it without ordering or
  deduplication.
\<close>

theorem gseq_wraps_into_reserved_zero:
  assumes "next_gseq s = 0" and "guaranteed options"
  shows "o_seq (fst (sender_send s payload options now)) = 0 \<and>
    bt_get (pending_map (snd (sender_send s payload options now))) 0 = Some (new_pending payload options now) \<and>
    on_message r 0 options payload t =
      (Delivered [\<lparr>m_payload = payload, m_options = options\<rparr>], r\<lparr>last_evicted := None\<rparr>)"
  using assms by (simp add: on_message_def bt_get_insert)

theorem gseq_wraps_into_reserved_zero_witness:
  "o_seq (fst (sender_send \<lparr>next_gseq = - 1 + 1, next_bseq = 1, pending_map = []\<rparr> [7] 3 0)) = 0"
proof -
  have "guaranteed 3" by (simp add: guaranteed_def SEND_GUARANTEED_def)
  then show ?thesis
    using gseq_wraps_into_reserved_zero [of "\<lparr>next_gseq = - 1 + 1, next_bseq = 1, pending_map = []\<rparr>" 3]
    by simp
qed

text \<open>
  A guaranteed+sequential message with an empty payload advances the expected number and is
  acknowledged, but is not delivered.
\<close>

theorem empty_sequential_payload_swallowed:
  assumes "receiver_wf r" and "g_next r \<noteq> 0" and "guaranteed options" and "sequential options"
    and "g_buf r = []"
  shows "on_message r (g_next r) options [] now =
    (Delivered [], (arm_ack (r\<lparr>last_evicted := None\<rparr>) options now)\<lparr>g_next := g_next r + 1, g_buf := []\<rparr>)"
proof -
  have "\<not> seq_le (g_next r) (g_next r - 1)" by (simp add: seq_le_def seq_after_iff)
  then show ?thesis
    using assms on_message_in_order [of "g_next r" options r "g_next r + 1" "[]" "[]" "[]" now]
    by (simp add: drain.simps)
qed

theorem empty_sequential_payload_swallowed_witness:
  "fst (on_message receiver_new 1 3 [] 0) = Delivered []"
proof -
  have "guaranteed 3" "sequential 3"
    by (simp_all add: guaranteed_def sequential_def SEND_GUARANTEED_def SEND_SEQUENTIAL_def)
  then show ?thesis
    using empty_sequential_payload_swallowed [of receiver_new 3 0]
    by (simp add: receiver_wf_def receiver_new_def)
qed

lemma drain_stuck: "bt_get buf gn = None \<Longrightarrow> drain gn buf = (gn, buf, [])"
  by (simp add: drain.simps)

text \<open>
  When the out-of-order buffer is full, storing one more nonsequential message evicts the
  marker of another, and a retransmission of that other message is delivered a second time.
\<close>

theorem evicted_marker_delivers_again:
  assumes wf: "receiver_wf r" and full: "length (g_buf r) = OOO_CAP"
    and k: "k = fst (last (g_buf r))" "k \<noteq> 0" "\<not> seq_le k (g_next r - 1)"
    and new: "seq \<noteq> 0" "seq \<noteq> g_next r" "\<not> seq_le seq (g_next r - 1)" "bt_get (g_buf r) seq = None"
    and opts: "guaranteed o1" "\<not> sequential o1" "guaranteed o2" "\<not> sequential o2"
  shows "\<exists>out. fst (on_message (snd (on_message r seq o1 p1 t1)) k o2 p2 t2) =
    Delivered (\<lparr>m_payload = p2, m_options = o2\<rparr> # out)"
proof -
  let ?b = "bt_insert (snd (evict_newest (g_buf r))) seq (o1, [])"
  let ?r = "snd (on_message r seq o1 p1 t1)"
  have bwf: "bt_wf (g_buf r)" using wf by (simp add: receiver_wf_def)
  have "g_buf r \<noteq> []" using full by (auto simp: OOO_CAP_def)
  then have "bt_get (g_buf r) k \<noteq> None" using k(1) by (simp add: map_of_eq_None_iff)
  then have ks: "k \<noteq> seq" using new(4) by auto
  have "bt_get (snd (evict_newest (g_buf r))) (g_next r) = None"
    using wf by (simp add: receiver_wf_def evict_newest_None)
  then have "bt_get ?b (g_next r) = None" using new(2) by (simp add: bt_get_insert)
  then have "on_message r seq o1 p1 t1 =
      (Delivered [\<lparr>m_payload = p1, m_options = o1\<rparr>], (arm_ack (r\<lparr>last_evicted := None\<rparr>) o1 t1)
        \<lparr>g_next := g_next r, g_buf := ?b, last_evicted := fst (evict_newest (g_buf r))\<rparr>)"
    using on_message_nonsequential [OF new(1) opts(1,2) new(3,4) drain_stuck] by simp
  then have r: "g_next ?r = g_next r" "g_buf ?r = ?b" by simp_all
  have "bt_get ?b k = None"
    using full bwf ks by (simp add: bt_get_insert evict_newest_eq bt_get_remove k(1))
  then show ?thesis
    using on_message_nonsequential [OF k(2) opts(3,4), of ?r _ _ _ p2 t2] k(3) r
    by (metis fst_conv prod_cases3)
qed

lemma sorted_seq_upt: "b \<le> 2 ^ 31 \<Longrightarrow> sorted_wrt (<) (map (\<lambda>i. of_nat i :: u32) [a..<b])"
  by (auto simp: sorted_wrt_map seq_of_nat_less_iff sorted_wrt_iff_nth_less simp del: of_nat_add)

definition full_receiver :: receiver where
  "full_receiver = receiver_new\<lparr>g_buf := map (\<lambda>i. (of_nat i, (1, []))) [2..<258]\<rparr>"

lemma full_receiver_facts:
  "receiver_wf full_receiver" "length (g_buf full_receiver) = OOO_CAP"
  "fst (last (g_buf full_receiver)) = 257" "g_next full_receiver = 1"
  "bt_get (g_buf full_receiver) 300 = None"
proof -
  have "sorted_wrt (<) (map (\<lambda>i. of_nat i :: u32) [2..<258])"
    by (rule sorted_seq_upt) simp
  moreover have "(of_nat i :: u32) \<noteq> 1" "(of_nat i :: u32) \<noteq> 300" if "2 \<le> i" "i < 258" for i
    using that seq_of_nat_eq_iff [of i 1] seq_of_nat_eq_iff [of i 300] by auto
  then have "map_of (map (\<lambda>i. (of_nat i :: u32, (1 :: u32, [] :: bytes))) [2..<258]) k = None"
    if "k = 1 \<or> k = 300" for k
    using that by (auto simp: map_of_eq_None_iff simp del: upt_rec_numeral)
  ultimately show "receiver_wf full_receiver" "length (g_buf full_receiver) = OOO_CAP"
    "fst (last (g_buf full_receiver)) = 257" "g_next full_receiver = 1"
    "bt_get (g_buf full_receiver) 300 = None"
    by (simp_all add: full_receiver_def receiver_new_def receiver_wf_def bt_wf_def OOO_CAP_def comp_def last_map
        del: upt_rec_numeral)
qed

theorem evicted_marker_delivers_again_witness:
  "\<exists>out. fst (on_message (snd (on_message full_receiver 300 1 [5] 0)) 257 1 [6] 1) =
    Delivered (\<lparr>m_payload = [6], m_options = 1\<rparr> # out)"
proof -
  have "guaranteed 1" "\<not> sequential 1"
    by (simp_all add: guaranteed_def sequential_def SEND_GUARANTEED_def SEND_SEQUENTIAL_def)
  moreover have "\<not> seq_le 257 0" "\<not> seq_le 300 0"
    using seq_le_of_nat [of 257 0] seq_le_of_nat [of 300 0] by simp_all
  ultimately show ?thesis
    using evicted_marker_delivers_again [OF full_receiver_facts(1,2) refl, of 300 1 1 "[5]" 0 "[6]" 1]
    by (simp add: full_receiver_facts)
qed
end
