(* ===== verification/Reliable_Link.thy ===== *)
theory Reliable_Link
  imports Reliable
begin

text \<open>
  One sender and one receiver of \<open>reliable.rs\<close> joined by a network that may lose, duplicate,
  delay and reorder datagrams: a packet once sent stays available for delivery any number
  of times, and a packet that is never delivered is a loss. Ghost fields record the
  guaranteed messages in the order they were handed to \<open>send\<close>, the messages released to
  the game and the sequence numbers evicted by \<open>PENDING_CAP\<close>.

  The step bound keeps the guaranteed sequence space below \<open>2 ^ 31\<close>: the comparison of
  \<open>seq_after\<close> is a half-window comparison, and the \<open>BTreeMap\<close> of pending messages is
  ordered by the raw number.
\<close>

record link =
  lk_sender :: sender
  lk_receiver :: receiver
  lk_net :: "(u32 \<times> u32 \<times> bytes) set"
  lk_acks :: "u32 set"
  lk_sent :: "recv_msg list"
  lk_log :: "recv_msg list"
  lk_evicted :: "u32 set"

definition link_init :: link where
  "link_init = \<lparr>lk_sender = sender_new, lk_receiver = receiver_new, lk_net = {}, lk_acks = {},
     lk_sent = [], lk_log = [], lk_evicted = {}\<rparr>"

fun released :: "recv_outcome \<Rightarrow> recv_msg list" where
  "released (Delivered ms) = ms"
| "released _ = []"

definition SEQ_BOUND :: nat where
  "SEQ_BOUND = 2 ^ 31 - 2"

inductive link_step :: "link \<Rightarrow> link \<Rightarrow> bool" where
  link_send:
    "sender_send (lk_sender l) payload options now = (o1, s') \<Longrightarrow>
     length (lk_sent l) < SEQ_BOUND \<Longrightarrow>
     link_step l (l\<lparr>lk_sender := s',
       lk_net := insert (o_seq o1, o_options o1, o_payload o1) (lk_net l),
       lk_sent := lk_sent l @ (if guaranteed options
                               then [\<lparr>m_payload = payload, m_options = options\<rparr>] else []),
       lk_evicted := lk_evicted l \<union> set_option (map_option fst (o_evicted o1))\<rparr>)"
| link_retransmit:
    "sender_due (lk_sender l) now = (rs, s') \<Longrightarrow>
     link_step l (l\<lparr>lk_sender := s',
       lk_net := lk_net l \<union> (\<lambda>r. (r_seq r, r_options r, r_payload r)) ` {r \<in> set rs. \<not> r_gave_up r}\<rparr>)"
| link_deliver:
    "(seq, options, payload) \<in> lk_net l \<Longrightarrow>
     on_message (lk_receiver l) seq options payload now = (out, r') \<Longrightarrow>
     link_step l (l\<lparr>lk_receiver := r', lk_log := lk_log l @ released out\<rparr>)"
| link_forced_ack:
    "forced_ack (lk_receiver l) now = (Some a, r') \<Longrightarrow>
     link_step l (l\<lparr>lk_receiver := r', lk_acks := insert a (lk_acks l)\<rparr>)"
| link_piggyback_ack:
    "piggyback_ack (lk_receiver l) = (a, r') \<Longrightarrow>
     link_step l (l\<lparr>lk_receiver := r', lk_acks := insert a (lk_acks l)\<rparr>)"
| link_ack_arrives:
    "a \<in> lk_acks l \<Longrightarrow> sender_on_ack (lk_sender l) a = (cleared, s') \<Longrightarrow>
     link_step l (l\<lparr>lk_sender := s'\<rparr>)"

inductive link_reachable :: "link \<Rightarrow> bool" where
  link_start: "link_reachable link_init"
| link_next: "link_reachable l \<Longrightarrow> link_step l l' \<Longrightarrow> link_reachable l'"

section \<open>What the fields have to do with each other\<close>

definition seq_of :: "nat \<Rightarrow> u32" where
  "seq_of i = of_nat (Suc i)"

definition in_order_msg :: "recv_msg \<Rightarrow> bool" where
  "in_order_msg m \<longleftrightarrow> guaranteed (m_options m) \<and> sequential (m_options m)"

text \<open>
  The receiver's buffer keeps the payload of a sequential message and an empty marker for a
  nonsequential one; an empty payload is released by neither.
\<close>

definition entry_of :: "recv_msg \<Rightarrow> u32 \<times> bytes" where
  "entry_of m = (m_options m, if sequential (m_options m) then m_payload m else [])"

definition held_back :: "recv_msg \<Rightarrow> bool" where
  "held_back m \<longleftrightarrow> sequential (m_options m) \<and> m_payload m \<noteq> []"

definition buf_ok :: "recv_msg list \<Rightarrow> nat \<Rightarrow> (u32, u32 \<times> bytes) btree \<Rightarrow> bool" where
  "buf_ok sent n buf \<longleftrightarrow>
     bt_wf buf \<and> (\<forall>k e. bt_get buf k = Some e \<longrightarrow>
       (\<exists>i. n \<le> i \<and> i < length sent \<and> k = seq_of i \<and> e = entry_of (sent ! i)))"

definition net_ok :: "recv_msg list \<Rightarrow> (u32 \<times> u32 \<times> bytes) \<Rightarrow> bool" where
  "net_ok sent = (\<lambda>(seq, options, payload). guaranteed options \<longrightarrow>
     (\<exists>i < length sent. seq = seq_of i \<and> sent ! i = \<lparr>m_payload = payload, m_options = options\<rparr>))"

definition pend_ok :: "recv_msg list \<Rightarrow> u32 \<Rightarrow> pending \<Rightarrow> bool" where
  "pend_ok sent k p \<longleftrightarrow>
     (\<exists>i < length sent. k = seq_of i \<and>
        sent ! i = \<lparr>m_payload = p_payload p, m_options = p_options p\<rparr>)"

lemma seq_of_eq_iff [simp]: "i < 2 ^ 31 - 1 \<Longrightarrow> j < 2 ^ 31 - 1 \<Longrightarrow> seq_of i = seq_of j \<longleftrightarrow> i = j"
  using seq_of_nat_eq_iff [of "Suc i" "Suc j"] by (simp add: seq_of_def del: of_nat_Suc)

lemma seq_of_nonzero [simp]: "i < 2 ^ 31 - 1 \<Longrightarrow> seq_of i \<noteq> 0"
  using seq_of_nat_0_iff [of "Suc i"] by (simp add: seq_of_def del: of_nat_Suc)

lemma seq_of_Suc: "seq_of (Suc i) = seq_of i + 1"
  by (simp add: seq_of_def)

lemma seq_of_minus_1: "seq_of i - 1 = of_nat i"
  by (simp add: seq_of_def)

lemma seq_le_seq_of: "i < 2 ^ 31 - 1 \<Longrightarrow> j < 2 ^ 31 \<Longrightarrow> seq_le (seq_of i) (of_nat j) \<longleftrightarrow> i < j"
  using seq_le_of_nat [of "Suc i" j] by (simp add: seq_of_def del: of_nat_Suc) linarith

lemma seq_of_less_iff: "i < 2 ^ 31 - 1 \<Longrightarrow> j < 2 ^ 31 - 1 \<Longrightarrow> seq_of i < seq_of j \<longleftrightarrow> i < j"
  using seq_of_nat_less_iff [of "Suc i" "Suc j"] by (simp add: seq_of_def del: of_nat_Suc)

lemma buf_ok_at:
  assumes "buf_ok sent n buf" and "length sent \<le> SEQ_BOUND" and "j < 2 ^ 31 - 1"
    and "bt_get buf (seq_of j) = Some e"
  shows "n \<le> j \<and> j < length sent \<and> e = entry_of (sent ! j)"
proof -
  from assms(1,4) obtain i where i: "n \<le> i" "i < length sent" "seq_of j = seq_of i"
    "e = entry_of (sent ! i)" unfolding buf_ok_def by blast
  from i(2) assms(2) have "i < 2 ^ 31 - 1" by (simp add: SEQ_BOUND_def)
  with i(3) assms(3) have "j = i" by (simp only: seq_of_eq_iff)
  with i show ?thesis by simp
qed

lemma buf_ok_remove:
  assumes "buf_ok sent n buf"
  shows "buf_ok sent (Suc n) (bt_remove buf (seq_of n))"
proof -
  have "\<exists>i. Suc n \<le> i \<and> i < length sent \<and> k = seq_of i \<and> e = entry_of (sent ! i)"
    if "bt_get (bt_remove buf (seq_of n)) k = Some e" for k e
  proof -
    from that assms have "k \<noteq> seq_of n" and "bt_get buf k = Some e"
      by (auto simp: buf_ok_def bt_get_remove split: if_splits)
    moreover from this(2) assms obtain i where "n \<le> i" "i < length sent" "k = seq_of i"
      "e = entry_of (sent ! i)" unfolding buf_ok_def by blast
    ultimately show ?thesis by (cases "i = n") (auto intro!: exI [of _ i])
  qed
  with assms show ?thesis by (auto simp: buf_ok_def bt_wf_remove)
qed

lemma take_drop_Suc: "n < m \<Longrightarrow> m \<le> length xs \<Longrightarrow>
  drop n (take m xs) = xs ! n # drop (Suc n) (take m xs)"
  using Cons_nth_drop_Suc [of n "take m xs"] by simp

lemma drain_sent:
  assumes "drain (seq_of n) buf = (gn, buf', out)" and "buf_ok sent n buf"
    and "length sent \<le> SEQ_BOUND" and "n \<le> length sent"
  shows "\<exists>m. n \<le> m \<and> m \<le> length sent \<and> gn = seq_of m \<and> buf_ok sent m buf' \<and>
    bt_get buf' (seq_of m) = None \<and> out = filter held_back (drop n (take m sent)) \<and>
    (\<forall>i. n \<le> i \<and> i < m \<longrightarrow> bt_get buf (seq_of i) \<noteq> None) \<and>
    (\<forall>k. bt_get buf' k \<noteq> None \<longrightarrow> bt_get buf k \<noteq> None)"
  using assms
proof (induction "seq_of n" buf arbitrary: n gn buf' out rule: drain.induct)
  case (1 buf)
  have n31: "n < 2 ^ 31 - 1" using 1(4,5) by (simp add: SEQ_BOUND_def)
  show ?case
  proof (cases "bt_get buf (seq_of n)")
    case None
    with 1(2-5) show ?thesis
      by (intro exI [of _ n]) (auto simp: drain.simps [of "seq_of n" buf])
  next
    case (Some e)
    obtain opts p where e: "e = (opts, p)" by fastforce
    from buf_ok_at [OF 1(3,4) n31 Some] have n: "n < length sent" and ep: "entry_of (sent ! n) = (opts, p)"
      using e by auto
    obtain gn1 buf1 out1 where d: "drain (seq_of (Suc n)) (bt_remove buf (seq_of n)) = (gn1, buf1, out1)"
      by (metis prod_cases3)
    have "gn = gn1" "buf' = buf1"
      and out: "out = (if p \<noteq> [] then [\<lparr>m_payload = p, m_options = opts\<rparr>] else []) @ out1"
      using 1(2) Some e d by (auto simp: drain.simps [of "seq_of n" buf] seq_of_Suc)
    moreover obtain m where m: "Suc n \<le> m" "m \<le> length sent" "gn1 = seq_of m" "buf_ok sent m buf1"
      "bt_get buf1 (seq_of m) = None" "out1 = filter held_back (drop (Suc n) (take m sent))"
      "\<And>i. Suc n \<le> i \<and> i < m \<Longrightarrow> bt_get (bt_remove buf (seq_of n)) (seq_of i) \<noteq> None"
      "\<And>k. bt_get buf1 k \<noteq> None \<Longrightarrow> bt_get (bt_remove buf (seq_of n)) k \<noteq> None"
      using 1(1)[OF Some e [symmetric], of "Suc n" gn1 buf1 out1] d buf_ok_remove [OF 1(3)] 1(4) n
      by (auto simp: seq_of_Suc)
    moreover have "(if p \<noteq> [] then [\<lparr>m_payload = p, m_options = opts\<rparr>] else []) =
        (if held_back (sent ! n) then [sent ! n] else [])"
      using ep by (auto simp: entry_of_def held_back_def split: if_splits)
    moreover have rem: "bt_get buf k \<noteq> None" if "bt_get (bt_remove buf (seq_of n)) k \<noteq> None" for k
      using that 1(3) by (auto simp: buf_ok_def bt_get_remove split: if_splits)
    moreover have "bt_get buf (seq_of i) \<noteq> None" if "n \<le> i \<and> i < m" for i
      using that Some m(7) [of i] rem by (cases "i = n") auto
    ultimately show ?thesis
      by (intro exI [of _ m]) (auto simp: take_drop_Suc)
  qed
qed

definition recv_inv :: "recv_msg list \<Rightarrow> recv_msg list \<Rightarrow> nat \<Rightarrow> receiver \<Rightarrow> bool" where
  "recv_inv sent lg n r \<longleftrightarrow>
     n \<le> length sent \<and> g_next r = seq_of n \<and> buf_ok sent n (g_buf r) \<and>
     filter in_order_msg lg = filter held_back (take n sent) \<and>
     (\<forall>i < length sent. \<not> sequential (m_options (sent ! i)) \<longrightarrow>
        i < n \<or> bt_get (g_buf r) (seq_of i) \<noteq> None \<longrightarrow> sent ! i \<in> set lg) \<and>
     (\<forall>m \<in> set lg. guaranteed (m_options m) \<longrightarrow> m \<in> set sent)"

definition sent_ok :: "recv_msg list \<Rightarrow> bool" where
  "sent_ok sent \<longleftrightarrow> length sent \<le> SEQ_BOUND \<and> (\<forall>m \<in> set sent. guaranteed (m_options m))"

lemma held_back_in_order: "sent_ok sent \<Longrightarrow> m \<in> set sent \<Longrightarrow> held_back m \<Longrightarrow> in_order_msg m"
  by (simp add: sent_ok_def held_back_def in_order_msg_def)

lemma filter_held_back_sent:
  "sent_ok sent \<Longrightarrow> set xs \<subseteq> set sent \<Longrightarrow>
   filter in_order_msg (filter held_back xs) = filter held_back xs"
  by (rule filter_True) (auto dest: held_back_in_order)

lemma set_drop_take_subset: "set (drop n (take m xs)) \<subseteq> set xs"
  by (meson order_trans set_drop_subset set_take_subset)

lemma take_append_drop_take: "n \<le> m \<Longrightarrow> take n xs @ drop n (take m xs) = take m xs"
  by (metis append_take_drop_id min.absorb1 take_take)

lemma recv_inv_drain:
  assumes inv: "recv_inv sent lg n r" and ok: "sent_ok sent"
    and d: "drain (seq_of n) buf = (gn, buf', out)" and buf: "buf_ok sent n buf"
    and marks: "\<And>i. i < length sent \<Longrightarrow> \<not> sequential (m_options (sent ! i)) \<Longrightarrow>
      bt_get buf (seq_of i) \<noteq> None \<Longrightarrow> sent ! i \<in> set lg"
  shows "\<exists>m \<ge> n. recv_inv sent (lg @ out) m (r\<lparr>g_next := gn, g_buf := buf'\<rparr>)"
proof -
  from inv ok have "n \<le> length sent" "length sent \<le> SEQ_BOUND"
    by (simp_all add: recv_inv_def sent_ok_def)
  from drain_sent [OF d buf this(2,1)] obtain m where m: "n \<le> m" "m \<le> length sent" "gn = seq_of m"
    "buf_ok sent m buf'" "out = filter held_back (drop n (take m sent))"
    "\<And>i. n \<le> i \<Longrightarrow> i < m \<Longrightarrow> bt_get buf (seq_of i) \<noteq> None"
    "\<And>k. bt_get buf' k \<noteq> None \<Longrightarrow> bt_get buf k \<noteq> None" by blast
  have "filter in_order_msg (lg @ out) = filter held_back (take n sent @ drop n (take m sent))"
    using inv m(5) filter_held_back_sent [OF ok set_drop_take_subset]
    by (simp add: recv_inv_def)
  then have "filter in_order_msg (lg @ out) = filter held_back (take m sent)"
    using m(1) by (simp only: take_append_drop_take)
  moreover have "sent ! i \<in> set (lg @ out)"
    if "i < length sent" "\<not> sequential (m_options (sent ! i))"
      "i < m \<or> bt_get buf' (seq_of i) \<noteq> None" for i
  proof (cases "i < n")
    case True
    with inv that show ?thesis by (simp add: recv_inv_def)
  next
    case False
    with that m(6,7) have "bt_get buf (seq_of i) \<noteq> None" by (meson not_less)
    with marks that show ?thesis by simp
  qed
  moreover have "set out \<subseteq> set sent" using m(5) set_drop_take_subset [of n m sent] by auto
  ultimately show ?thesis using inv m
    by (intro exI [of _ m]) (auto simp: recv_inv_def)
qed

lemma recv_inv_cong:
  "recv_inv sent lg n r \<Longrightarrow> g_next r' = g_next r \<Longrightarrow> g_buf r' = g_buf r \<Longrightarrow> recv_inv sent lg n r'"
  by (simp add: recv_inv_def)

lemma buf_ok_insert:
  "buf_ok sent n buf \<Longrightarrow> n \<le> i \<Longrightarrow> i < length sent \<Longrightarrow>
   buf_ok sent n (bt_insert buf (seq_of i) (entry_of (sent ! i)))"
  unfolding buf_ok_def by (auto simp: bt.wf_ins bt_get_insert)

lemma buf_ok_evict: "buf_ok sent n buf \<Longrightarrow> buf_ok sent n (snd (evict_newest buf))"
  unfolding buf_ok_def by (auto simp: evict_newest_spec dest!: evict_newest_get)
lemma recv_inv_g_next_bound: "recv_inv sent lg n r \<Longrightarrow> sent_ok sent \<Longrightarrow> n < 2 ^ 31 - 1"
  by (auto simp: recv_inv_def sent_ok_def SEQ_BOUND_def)

lemma sent_ok_index: "sent_ok sent \<Longrightarrow> i < length sent \<Longrightarrow> i < 2 ^ 31 - 1"
  by (simp add: sent_ok_def SEQ_BOUND_def)

lemma recv_inv_append_plain:
  "recv_inv sent lg n r \<Longrightarrow> (\<forall>m \<in> set ms. \<not> guaranteed (m_options m)) \<Longrightarrow> recv_inv sent (lg @ ms) n r"
  by (auto simp: recv_inv_def in_order_msg_def)

lemma recv_inv_marked:
  "recv_inv sent lg n r \<Longrightarrow> j < length sent \<Longrightarrow> \<not> sequential (m_options (sent ! j)) \<Longrightarrow>
   j < n \<or> bt_get (g_buf r) (seq_of j) \<noteq> None \<Longrightarrow> sent ! j \<in> set lg"
  unfolding recv_inv_def by blast

lemma recv_inv_evicted_mark:
  assumes "recv_inv sent lg n r"
    and "bt_get (bt_insert (snd (evict_newest (g_buf r))) (seq_of i) e) (seq_of j) \<noteq> None"
    and "seq_of j \<noteq> seq_of i"
  shows "bt_get (g_buf r) (seq_of j) \<noteq> None"
proof -
  have "bt_wf (g_buf r)" using assms(1) by (simp add: recv_inv_def buf_ok_def)
  with assms(2,3) show ?thesis by (metis bt_get_insert evict_newest_None)
qed

text \<open>One lemma per branch of \<open>on_message\<close> that accepts a guaranteed message.\<close>

lemma recv_inv_in_order:
  assumes inv: "recv_inv sent lg n r" and ok: "sent_ok sent" and i: "n < length sent"
    and seqn: "sequential (m_options (sent ! n))" and fresh: "bt_get (g_buf r) (seq_of n) = None"
    and d: "drain (seq_of (Suc n)) (g_buf r) = (gn', buf, out')"
  shows "\<exists>m \<ge> n. recv_inv sent (lg @ (if m_payload (sent ! n) \<noteq> [] then [sent ! n] else []) @ out') m
    (r\<lparr>g_next := gn', g_buf := buf\<rparr>)"
proof -
  let ?lg = "lg @ (if m_payload (sent ! n) \<noteq> [] then [sent ! n] else [])"
  have bo: "buf_ok sent n (g_buf r)" using inv by (simp add: recv_inv_def)
  have "take (Suc n) sent = take n sent @ [sent ! n]" using i by (simp add: take_Suc_conv_app_nth)
  moreover have "in_order_msg (sent ! n)" and "held_back (sent ! n) \<longleftrightarrow> m_payload (sent ! n) \<noteq> []"
    using seqn ok i by (simp_all add: in_order_msg_def held_back_def sent_ok_def)
  moreover have bo1: "buf_ok sent (Suc n) (g_buf r)"
    using buf_ok_remove [OF bo] fresh by (simp add: bt_remove_absent)
  ultimately have inv1: "recv_inv sent ?lg (Suc n) (r\<lparr>g_next := seq_of (Suc n)\<rparr>)"
    using inv i seqn by (auto simp: recv_inv_def less_Suc_eq)
  from recv_inv_drain [OF inv1 ok d bo1] recv_inv_marked [OF inv1] obtain m where
    "m \<ge> Suc n" "recv_inv sent (?lg @ out') m (r\<lparr>g_next := gn', g_buf := buf\<rparr>)"
    by auto
  then show ?thesis by (intro exI [of _ m]) (simp del: append_assoc add: append_assoc [symmetric])
qed

lemma recv_inv_out_of_order:
  assumes inv: "recv_inv sent lg n r" and ok: "sent_ok sent" and i: "i < length sent" "n \<le> i"
    and seqn: "sequential (m_options (sent ! i))"
  shows "recv_inv sent lg n (r\<lparr>g_buf := bt_insert (snd (evict_newest (g_buf r))) (seq_of i)
    (m_options (sent ! i), m_payload (sent ! i))\<rparr>)"
proof -
  let ?b = "bt_insert (snd (evict_newest (g_buf r))) (seq_of i) (m_options (sent ! i), m_payload (sent ! i))"
  have "entry_of (sent ! i) = (m_options (sent ! i), m_payload (sent ! i))"
    using seqn by (simp add: entry_of_def)
  then have "buf_ok sent n ?b"
    using buf_ok_insert [OF buf_ok_evict, of sent n "g_buf r" i] inv i by (simp add: recv_inv_def)
  moreover have "sent ! j \<in> set lg"
    if "j < length sent" "\<not> sequential (m_options (sent ! j))" "j < n \<or> bt_get ?b (seq_of j) \<noteq> None" for j
  proof -
    have "seq_of j \<noteq> seq_of i"
      using that(1,2) seqn sent_ok_index [OF ok] i by (metis seq_of_eq_iff)
    with that show ?thesis
      using recv_inv_marked [OF inv, of j] recv_inv_evicted_mark [OF inv] by blast
  qed
  ultimately show ?thesis using inv by (auto simp: recv_inv_def)
qed

lemma recv_inv_nonsequential:
  assumes inv: "recv_inv sent lg n r" and ok: "sent_ok sent" and i: "i < length sent" "n \<le> i"
    and nseq: "\<not> sequential (m_options (sent ! i))"
    and d: "drain (seq_of n) (bt_insert (snd (evict_newest (g_buf r))) (seq_of i) (m_options (sent ! i), []))
      = (gn', buf, out')"
  shows "\<exists>m \<ge> n. recv_inv sent (lg @ sent ! i # out') m (r\<lparr>g_next := gn', g_buf := buf\<rparr>)"
proof -
  let ?b = "bt_insert (snd (evict_newest (g_buf r))) (seq_of i) (m_options (sent ! i), [])"
  let ?lg = "lg @ [sent ! i]"
  have "entry_of (sent ! i) = (m_options (sent ! i), [])" using nseq by (simp add: entry_of_def)
  then have bo1: "buf_ok sent n ?b"
    using buf_ok_insert [OF buf_ok_evict, of sent n "g_buf r" i] inv i by (simp add: recv_inv_def)
  have inv1: "recv_inv sent ?lg n r"
    using inv nseq i by (auto simp: recv_inv_def in_order_msg_def)
  have marks: "sent ! j \<in> set ?lg"
    if "j < length sent" "\<not> sequential (m_options (sent ! j))" "bt_get ?b (seq_of j) \<noteq> None" for j
  proof (cases "j = i")
    case False
    then have "seq_of j \<noteq> seq_of i" using that(1) i sent_ok_index [OF ok] by (metis seq_of_eq_iff)
    with that show ?thesis
      using recv_inv_marked [OF inv1, of j] recv_inv_evicted_mark [OF inv1] by blast
  qed simp
  from recv_inv_drain [OF inv1 ok d bo1 marks] show ?thesis by simp
qed

lemma recv_inv_deliver:
  assumes inv: "recv_inv sent lg n r" and ok: "sent_ok sent"
    and net: "net_ok sent (seq, options, payload)"
    and msg: "on_message r seq options payload now = (out, r')"
  shows "\<exists>m \<ge> n. recv_inv sent (lg @ released out) m r'"
proof (cases "guaranteed options")
  case False
  then have "g_next r' = g_next r" "g_buf r' = g_buf r"
    and "out \<in> {Delivered [\<lparr>m_payload = payload, m_options = options\<rparr>], DroppedOutOfOrder seq (be_last r)}"
    using on_message_best_effort [of seq options r payload now] msg by auto
  moreover from this(3) False have "\<forall>m \<in> set (released out). \<not> guaranteed (m_options m)" by auto
  ultimately show ?thesis
    using recv_inv_append_plain [OF inv] recv_inv_cong by blast
next
  case g: True
  from net g obtain i where i: "i < length sent" "seq = seq_of i"
    "sent ! i = \<lparr>m_payload = payload, m_options = options\<rparr>" by (auto simp: net_ok_def)
  note i31 = sent_ok_index [OF ok i(1)] and n31 = recv_inv_g_next_bound [OF inv ok]
  have gn: "g_next r = seq_of n" using inv by (simp add: recv_inv_def)
  have le: "seq_le seq (g_next r - 1) \<longleftrightarrow> i < n"
    using i31 n31 by (simp add: gn i(2) seq_of_minus_1 seq_le_seq_of)
  show ?thesis
  proof (cases rule: on_message_cases [where seq = seq and options = options and r = r])
    case plain
    with g i(2) i31 show ?thesis by simp
  next
    case duplicate
    with msg have "out = DroppedDuplicate" "g_next r' = g_next r" "g_buf r' = g_buf r"
      by (auto simp: on_message_duplicate)
    then show ?thesis using recv_inv_cong [OF inv] by auto
  next
    case in_order
    obtain gn' buf out' where d: "drain (g_next r + 1) (g_buf r) = (gn', buf, out')" by (metis prod_cases3)
    from in_order(6) i(2) gn i31 n31 have [simp]: "i = n" by (simp only: seq_of_eq_iff)
    have "\<exists>m \<ge> n. recv_inv sent (lg @ (if payload \<noteq> [] then [sent ! n] else []) @ out') m
      (r\<lparr>g_next := gn', g_buf := buf\<rparr>)"
      using recv_inv_in_order [OF inv ok] i in_order(3,5,6) d gn by (simp add: seq_of_Suc)
    moreover from msg on_message_in_order [OF in_order d, of payload now]
    have "released out = (if payload \<noteq> [] then [sent ! n] else []) @ out'" "g_next r' = gn'" "g_buf r' = buf"
      using i(3) by auto
    ultimately show ?thesis using recv_inv_cong by fastforce
  next
    case out_of_order
    with msg have "released out = []" "g_next r' = g_next r"
      "g_buf r' = bt_insert (snd (evict_newest (g_buf r))) seq (options, payload)"
      by (auto simp: on_message_out_of_order)
    then show ?thesis
      using recv_inv_cong [OF recv_inv_out_of_order [OF inv ok i(1)], of r'] le out_of_order(3,4) i(2,3)
      by auto
  next
    case nonsequential
    obtain gn' buf out' where
      d: "drain (g_next r) (bt_insert (snd (evict_newest (g_buf r))) seq (options, [])) = (gn', buf, out')"
      by (metis prod_cases3)
    have "\<exists>m \<ge> n. recv_inv sent (lg @ sent ! i # out') m (r\<lparr>g_next := gn', g_buf := buf\<rparr>)"
      using recv_inv_nonsequential [OF inv ok i(1)] i(2,3) le nonsequential(3,4) d gn by simp
    moreover from msg on_message_nonsequential [OF nonsequential d, of payload now]
    have "released out = sent ! i # out'" "g_next r' = gn'" "g_buf r' = buf" using i(3) by auto
    ultimately show ?thesis using recv_inv_cong by fastforce
  qed
qed
section \<open>The invariant of the whole link\<close>

lemma evict_oldest_eq:
  "evict_oldest pm =
     (if length pm \<ge> PENDING_CAP then (Some (fst (hd pm), p_options (snd (hd pm))), tl pm)
      else (None, pm))"
  by (cases pm) (auto simp: evict_oldest_def PENDING_CAP_def)

definition link_inv :: "link \<Rightarrow> nat \<Rightarrow> bool" where
  "link_inv l n \<longleftrightarrow>
     sent_ok (lk_sent l) \<and> recv_inv (lk_sent l) (lk_log l) n (lk_receiver l) \<and>
     (\<forall>x \<in> lk_net l. net_ok (lk_sent l) x) \<and> (\<forall>a \<in> lk_acks l. \<exists>j \<le> n. a = of_nat j) \<and>
     next_gseq (lk_sender l) = seq_of (length (lk_sent l)) \<and>
     bt_wf (pending_map (lk_sender l)) \<and>
     (\<forall>k p. bt_get (pending_map (lk_sender l)) k = Some p \<longrightarrow> pend_ok (lk_sent l) k p) \<and>
     (\<forall>i < length (lk_sent l). n \<le> i \<longrightarrow>
        bt_get (pending_map (lk_sender l)) (seq_of i) \<noteq> None \<or> seq_of i \<in> lk_evicted l)"

lemma link_inv_init: "link_inv link_init 0"
  by (simp add: link_inv_def link_init_def sent_ok_def recv_inv_def receiver_new_def sender_new_def
      seq_of_def buf_ok_def SEQ_BOUND_def)

lemma net_ok_append: "net_ok sent x \<Longrightarrow> net_ok (sent @ ms) x"
  by (cases x) (fastforce simp: net_ok_def nth_append)

lemma pend_ok_append: "pend_ok sent k p \<Longrightarrow> pend_ok (sent @ ms) k p"
  by (auto simp: pend_ok_def nth_append)

lemma buf_ok_append: "buf_ok sent n buf \<Longrightarrow> buf_ok (sent @ ms) n buf"
  unfolding buf_ok_def by (fastforce simp: nth_append)

lemma recv_inv_append_sent:
  assumes inv: "recv_inv sent lg n r" and ok: "sent_ok sent" and len: "length sent < SEQ_BOUND"
  shows "recv_inv (sent @ [m]) lg n r"
proof -
  have "bt_get (g_buf r) (seq_of (length sent)) = None"
    using buf_ok_at [of sent n "g_buf r" "length sent"] inv len
    by (cases "bt_get (g_buf r) (seq_of (length sent))") (auto simp: recv_inv_def SEQ_BOUND_def)
  with inv show ?thesis
    by (auto simp: recv_inv_def buf_ok_append nth_append less_Suc_eq)
qed

lemma sender_evict_keys:
  assumes "bt_wf pm" and "bt_get pm k \<noteq> None"
  shows "bt_get (snd (evict_oldest pm)) k \<noteq> None \<or> k \<in> set_option (map_option fst (fst (evict_oldest pm)))"
  using assms by (cases pm) (auto simp: evict_oldest_eq PENDING_CAP_def)

lemma evict_oldest_get:
  "bt_wf pm \<Longrightarrow> bt_get (snd (evict_oldest pm)) k = Some p \<Longrightarrow> bt_get pm k = Some p"
  by (cases pm) (auto simp: evict_oldest_eq bt_get_below split: if_splits)

lemma sender_send_evicted [simp]:
  "o_evicted (fst (sender_send s payload options now)) =
     (if guaranteed options then fst (evict_oldest (pending_map s)) else None)"
  by (simp add: sender_send_def PARTY_RELIABLE_def Let_def case_prod_beta)

lemma link_inv_send_guaranteed:
  fixes payload options
  defines "m \<equiv> \<lparr>m_payload = payload, m_options = options\<rparr>"
  assumes inv: "link_inv l n" and len: "length (lk_sent l) < SEQ_BOUND" and g: "guaranteed options"
    and snd: "sender_send (lk_sender l) payload options now = (o1, s')"
  shows "link_inv (l\<lparr>lk_sender := s', lk_net := insert (o_seq o1, o_options o1, o_payload o1) (lk_net l),
    lk_sent := lk_sent l @ [m],
    lk_evicted := lk_evicted l \<union> set_option (map_option fst (o_evicted o1))\<rparr>) n"
proof -
  let ?s = "lk_sender l" and ?sent = "lk_sent l"
  let ?pm = "pending_map ?s" and ?e = "evict_oldest (pending_map (lk_sender l))"
  have s': "s' = snd (sender_send ?s payload options now)" and o1: "o1 = fst (sender_send ?s payload options now)"
    using snd by simp_all
  have wf: "bt_wf ?pm" and next_s: "next_gseq ?s = seq_of (length ?sent)" using inv by (simp_all add: link_inv_def)
  have "pend_ok (?sent @ [m]) (seq_of (length ?sent)) (new_pending payload options now)"
    by (auto simp: pend_ok_def m_def new_pending_def)
  then have "pend_ok (?sent @ [m]) k p" if "bt_get (pending_map s') k = Some p" for k p
    using that g inv wf
    by (auto simp: s' next_s bt_get_insert link_inv_def intro: pend_ok_append dest!: evict_oldest_get split: if_splits)
  moreover have "bt_get (pending_map s') (seq_of i) \<noteq> None \<or>
      seq_of i \<in> lk_evicted l \<union> set_option (map_option fst (o_evicted o1))"
    if "i < Suc (length ?sent)" "n \<le> i" for i
    using that inv sender_evict_keys [OF wf, of "seq_of i"] g
    by (auto simp: s' o1 next_s bt_get_insert link_inv_def less_Suc_eq)
  moreover have "net_ok (?sent @ [m]) (o_seq o1, o_options o1, o_payload o1)"
    using g by (auto simp: net_ok_def o1 next_s m_def)
  ultimately show ?thesis
    using inv len g wf evict_oldest_spec(1) [OF wf] recv_inv_append_sent [of ?sent _ n _ m]
    by (auto simp: link_inv_def s' sent_ok_def m_def net_ok_append seq_of_Suc bt.wf_ins)
qed

lemma link_inv_send_plain:
  assumes inv: "link_inv l n" and g: "\<not> guaranteed options"
    and snd: "sender_send (lk_sender l) payload options now = (o1, s')"
  shows "link_inv (l\<lparr>lk_sender := s', lk_net := insert (o_seq o1, o_options o1, o_payload o1) (lk_net l),
    lk_evicted := lk_evicted l \<union> set_option (map_option fst (o_evicted o1))\<rparr>) n"
proof -
  have "s' = snd (sender_send (lk_sender l) payload options now)"
    and "o1 = fst (sender_send (lk_sender l) payload options now)"
    using snd by simp_all
  with inv g show ?thesis by (auto simp: link_inv_def net_ok_def)
qed

lemma due_entry_payload [simp]:
  "p_payload (fst (due_entry now seq p)) = p_payload p" "p_options (fst (due_entry now seq p)) = p_options p"
  by (simp_all add: due_entry_def Let_def)

lemma due_event:
  "snd (due_entry now seq p) = Some r \<Longrightarrow>
   r_seq r = seq \<and> r_options r = p_options p \<and> (\<not> r_gave_up r \<longrightarrow> r_payload r = p_payload p)"
  by (auto simp: due_entry_def Let_def split: if_splits)

lemma link_inv_retransmit:
  assumes inv: "link_inv l n" and due: "sender_due (lk_sender l) now = (rs, s')"
  shows "link_inv (l\<lparr>lk_sender := s',
    lk_net := lk_net l \<union> (\<lambda>r. (r_seq r, r_options r, r_payload r)) ` {r \<in> set rs. \<not> r_gave_up r}\<rparr>) n"
proof -
  let ?pm = "pending_map (lk_sender l)"
  have s': "s' = (lk_sender l)\<lparr>pending_map := map (\<lambda>(k, p). (k, fst (due_entry now k p))) ?pm\<rparr>"
    and rs: "rs = List.map_filter (\<lambda>(k, p). snd (due_entry now k p)) ?pm"
    using due by (auto simp: sender_due_def PARTY_RELIABLE_def)
  have "net_ok (lk_sent l) (r_seq r, r_options r, r_payload r)" if "r \<in> set rs" "\<not> r_gave_up r" for r
  proof -
    from that(1) obtain k p where kp: "(k, p) \<in> set ?pm" "snd (due_entry now k p) = Some r"
      by (auto simp: rs List.map_filter_def)
    moreover have "bt_wf ?pm" using inv by (simp add: link_inv_def)
    ultimately have "bt_get ?pm k = Some p" by (simp add: bt_get_iff)
    with inv have "pend_ok (lk_sent l) k p" by (auto simp: link_inv_def)
    with due_event [OF kp(2)] that(2) show ?thesis by (auto simp: net_ok_def pend_ok_def)
  qed
  with inv show ?thesis
    by (auto simp: link_inv_def s' bt_wf_map map_of_map_val pend_ok_def)
qed

lemma link_inv_ack:
  assumes inv: "link_inv l n" and a: "a \<in> lk_acks l" and ack: "sender_on_ack (lk_sender l) a = (cleared, s')"
  shows "link_inv (l\<lparr>lk_sender := s'\<rparr>) n"
proof -
  let ?pm = "pending_map (lk_sender l)" and ?rest = "pending_map s'"
  from inv a obtain j where j: "j \<le> n" "a = of_nat j" by (auto simp: link_inv_def)
  obtain front where f: "?pm = front @ ?rest" "\<And>k. k \<in> fst ` set front \<Longrightarrow> seq_le k a"
    using sender_on_ack_pending [of "lk_sender l" a] ack by (metis snd_conv)
  have s': "s' = (lk_sender l)\<lparr>pending_map := ?rest\<rparr>"
    using ack by (auto simp: sender_on_ack_eq)
  have n31: "n < 2 ^ 31 - 1" using inv recv_inv_g_next_bound by (auto simp: link_inv_def)
  have "bt_get ?rest (seq_of i) \<noteq> None" if "bt_get ?pm (seq_of i) \<noteq> None" "n \<le> i" "i < length (lk_sent l)" for i
  proof -
    have "i < 2 ^ 31 - 1" using inv that sent_ok_index by (auto simp: link_inv_def)
    then have "\<not> seq_le (seq_of i) a" using j that n31 by (simp add: seq_le_seq_of)
    with f(2) have "seq_of i \<notin> fst ` set front" by blast
    with that f(1) show ?thesis by (auto simp: map_of_eq_None_iff)
  qed
  moreover have "bt_wf ?rest" using inv f(1) bt_wf_append by (metis link_inv_def)
  moreover have "bt_get ?pm k = Some p" if "bt_get ?rest k = Some p" for k p
  proof -
    have "bt_wf (front @ ?rest)" using inv f(1) by (metis link_inv_def)
    with that bt_wf_append [of front ?rest] show ?thesis by (simp only: f(1) bt_get_iff) simp
  qed
  ultimately show ?thesis using inv by (subst s') (auto simp: link_inv_def)
qed

lemma ack_value_inv: "recv_inv sent lg n r \<Longrightarrow> ack_value r = of_nat n"
  by (simp add: recv_inv_def ack_value_def seq_of_minus_1)

lemma forced_ack_sel:
  "forced_ack r now = (Some a, r') \<Longrightarrow> g_next r' = g_next r \<and> g_buf r' = g_buf r \<and> a = ack_value r"
  by (auto simp: forced_ack_def Let_def ack_value_def split: option.splits if_splits)

lemma piggyback_ack_sel:
  "piggyback_ack r = (a, r') \<Longrightarrow> g_next r' = g_next r \<and> g_buf r' = g_buf r \<and> a = ack_value r"
  by (auto simp: piggyback_ack_def Let_def ack_value_def)

lemma link_inv_new_ack:
  assumes inv: "link_inv l n" and r': "g_next r' = g_next (lk_receiver l)" "g_buf r' = g_buf (lk_receiver l)"
    and a: "a = ack_value (lk_receiver l)"
  shows "link_inv (l\<lparr>lk_receiver := r', lk_acks := insert a (lk_acks l)\<rparr>) n"
proof -
  have i: "recv_inv (lk_sent l) (lk_log l) n (lk_receiver l)" using inv by (simp add: link_inv_def)
  have "a = of_nat n" using ack_value_inv [OF i] a by simp
  with inv recv_inv_cong [OF i r'] show ?thesis by (auto simp: link_inv_def)
qed

lemma link_inv_advance:
  assumes inv: "link_inv l n" and m: "n \<le> m" and r': "recv_inv (lk_sent l) lg m r'"
  shows "link_inv (l\<lparr>lk_receiver := r', lk_log := lg\<rparr>) m"
proof -
  have "\<forall>a \<in> lk_acks l. \<exists>j \<le> m. a = of_nat j"
    using inv m unfolding link_inv_def by (meson order_trans)
  with inv m r' show ?thesis by (simp add: link_inv_def)
qed

lemma link_step_inv: "link_step l l' \<Longrightarrow> link_inv l n \<Longrightarrow> \<exists>m \<ge> n. link_inv l' m"
proof (induction rule: link_step.induct)
  case (link_send l payload options now o1 s')
  then show ?case
    using link_inv_send_guaranteed [of l n options payload now o1 s'] link_inv_send_plain [of l n options payload now o1 s']
    by (cases "guaranteed options") auto
next
  case (link_retransmit l now rs s')
  then show ?case using link_inv_retransmit by blast
next
  case (link_deliver seq options payload l now out r')
  then obtain m where "n \<le> m" "recv_inv (lk_sent l) (lk_log l @ released out) m r'"
    using recv_inv_deliver [of "lk_sent l" "lk_log l" n "lk_receiver l" seq options payload now out r']
    by (auto simp: link_inv_def)
  with link_deliver(3) show ?case using link_inv_advance by blast
next
  case (link_forced_ack l now a r')
  then show ?case using link_inv_new_ack forced_ack_sel by blast
next
  case (link_piggyback_ack l a r')
  then show ?case using link_inv_new_ack piggyback_ack_sel by blast
next
  case (link_ack_arrives a l cleared s')
  then show ?case using link_inv_ack by blast
qed

lemma link_reachable_inv: "link_reachable l \<Longrightarrow> \<exists>n. link_inv l n"
  by (induction rule: link_reachable.induct) (use link_inv_init link_step_inv in blast)+

section \<open>End-to-end guarantees\<close>

lemma unat_ack_value: "recv_inv sent lg n r \<Longrightarrow> sent_ok sent \<Longrightarrow> unat (ack_value r) = n"
  using recv_inv_g_next_bound [of sent lg n r] by (simp add: ack_value_inv unat_of_nat)

lemma link_reachable_ack:
  assumes "link_reachable l"
  shows "link_inv l (unat (ack_value (lk_receiver l)))"
proof -
  from link_reachable_inv [OF assms] obtain n where n: "link_inv l n" ..
  then have "unat (ack_value (lk_receiver l)) = n" by (auto simp: link_inv_def intro: unat_ack_value)
  with n show ?thesis by simp
qed

text \<open>
  C1: over a network that loses, duplicates, delays and reorders datagrams, the
  guaranteed+sequential messages the receiver releases to the game are exactly the nonempty
  guaranteed+sequential messages among those it has acknowledged, in the order they were sent
  and each once.
\<close>

theorem guaranteed_sequential_fifo:
  assumes "link_reachable l"
  shows "filter in_order_msg (lk_log l) =
    filter held_back (take (unat (ack_value (lk_receiver l))) (lk_sent l))"
  using link_reachable_ack [OF assms] by (simp add: link_inv_def recv_inv_def)


text \<open>
  C16: when the receiver's cumulative acknowledgement covers a guaranteed message with a
  nonempty payload, that message has been released to the game.
\<close>

theorem acknowledged_was_delivered:
  assumes "link_reachable l" and "i < unat (ack_value (lk_receiver l))"
    and "m_payload (lk_sent l ! i) \<noteq> []"
  shows "i < length (lk_sent l) \<and> lk_sent l ! i \<in> set (lk_log l)"
proof -
  let ?n = "unat (ack_value (lk_receiver l))" and ?m = "lk_sent l ! i"
  have inv: "recv_inv (lk_sent l) (lk_log l) ?n (lk_receiver l)"
    using link_reachable_ack [OF assms(1)] by (simp add: link_inv_def)
  then have i: "i < length (lk_sent l)" using assms(2) by (simp add: recv_inv_def)
  have in_take: "?m \<in> set (take ?n (lk_sent l))" using assms(2) i by (force simp: in_set_conv_nth)
  have "?m \<in> set (lk_log l)"
  proof (cases "sequential (m_options ?m)")
    case True
    with assms(3) in_take have "?m \<in> set (filter held_back (take ?n (lk_sent l)))"
      by (simp add: held_back_def)
    then have "?m \<in> set (filter in_order_msg (lk_log l))"
      using inv by (simp add: recv_inv_def)
    then show ?thesis by simp
  next
    case False
    with recv_inv_marked [OF inv i] assms(2) show ?thesis by simp
  qed
  with i show ?thesis by simp
qed

text \<open>
  Every guaranteed message the receiver releases was handed to the sender with the same
  payload and options.
\<close>

theorem no_forged_delivery:
  assumes "link_reachable l" and "m \<in> set (lk_log l)" and "guaranteed (m_options m)"
  shows "m \<in> set (lk_sent l)"
  using link_reachable_ack [OF assms(1)] assms(2,3) by (auto simp: link_inv_def recv_inv_def)

lemma link_demo:
  "\<exists>l. link_reachable l \<and> lk_sent l = [\<lparr>m_payload = [7], m_options = 3\<rparr>, \<lparr>m_payload = [9], m_options = 3\<rparr>] \<and>
     lk_log l = [\<lparr>m_payload = [7], m_options = 3\<rparr>] \<and> ack_value (lk_receiver l) = 1 \<and> lk_evicted l = {}"
proof -
  obtain o1 s1 where s1: "sender_send sender_new [7] 3 0 = (o1, s1)" by fastforce
  obtain o2 s2 where s2: "sender_send s1 [9] 3 1 = (o2, s2)" by fastforce
  obtain out r where r: "on_message receiver_new 1 3 [7] 5 = (out, r)" by fastforce
  have g3: "guaranteed 3" "sequential 3"
    by (simp_all add: guaranteed_def sequential_def SEND_GUARANTEED_def SEND_SEQUENTIAL_def)
  have e: "evict_oldest [] = (None, [])" and e1: "evict_oldest [x] = (None, [x])" for x
    by (simp_all add: evict_oldest_def PENDING_CAP_def)
  have o1: "o_seq o1 = 1" "o_options o1 = 3" "o_payload o1 = [7]" "o_evicted o1 = None" "next_gseq s1 = 2"
    "pending_map s1 = [(1, new_pending [7] 3 0)]"
    using s1 g3 e by (auto simp: sender_send_def PARTY_RELIABLE_def sender_new_def Let_def)
  have o2: "o_seq o2 = 2" "o_options o2 = 3" "o_payload o2 = [9]" "o_evicted o2 = None"
    using s2 g3 o1 e1 by (auto simp: sender_send_def PARTY_RELIABLE_def Let_def)
  have sl: "\<not> seq_le 1 0" using seq_le_of_nat [of 1 0] by simp
  have out: "out = Delivered [\<lparr>m_payload = [7], m_options = 3\<rparr>]" "g_next r = 2"
    using r g3 sl by (auto simp: on_message_def PARTY_RELIABLE_def receiver_new_def Let_def drain.simps)
  let ?l1 = "link_init\<lparr>lk_sender := s1, lk_net := {(1, 3, [7])}, lk_sent := [\<lparr>m_payload = [7], m_options = 3\<rparr>]\<rparr>"
  let ?l2 = "?l1\<lparr>lk_sender := s2, lk_net := {(2, 3, [9]), (1, 3, [7])},
    lk_sent := [\<lparr>m_payload = [7], m_options = 3\<rparr>, \<lparr>m_payload = [9], m_options = 3\<rparr>]\<rparr>"
  let ?l3 = "?l2\<lparr>lk_receiver := r, lk_log := [\<lparr>m_payload = [7], m_options = 3\<rparr>]\<rparr>"
  have "link_step link_init ?l1"
    using link_step.link_send [of link_init "[7]" 3 0 o1 s1] s1 o1 g3
    by (simp add: link_init_def SEQ_BOUND_def)
  moreover have "link_step ?l1 ?l2"
    using link_step.link_send [of ?l1 "[9]" 3 1 o2 s2] s2 o2 g3 by (simp add: link_init_def SEQ_BOUND_def)
  moreover have "link_step ?l2 ?l3"
    using link_step.link_deliver [of 1 3 "[7]" ?l2 5 out r] r out by (simp add: link_init_def)
  ultimately have "link_reachable ?l3" by (meson link_start link_next)
  with out show ?thesis by (intro exI [of _ ?l3]) (simp add: link_init_def ack_value_def)
qed

theorem guaranteed_sequential_fifo_witness:
  "\<exists>l. link_reachable l \<and> lk_log l = [\<lparr>m_payload = [7], m_options = 3\<rparr>] \<and> length (lk_sent l) = 2 \<and>
     filter in_order_msg (lk_log l) = filter held_back (take (unat (ack_value (lk_receiver l))) (lk_sent l))"
proof -
  obtain l where l: "link_reachable l" "lk_log l = [\<lparr>m_payload = [7], m_options = 3\<rparr>]" "length (lk_sent l) = 2"
    using link_demo by auto
  with guaranteed_sequential_fifo [OF l(1)] show ?thesis by blast
qed


theorem acknowledged_was_delivered_witness:
  "\<exists>l. link_reachable l \<and> unat (ack_value (lk_receiver l)) = 1 \<and> lk_sent l ! 0 \<in> set (lk_log l)"
proof -
  obtain l where l: "link_reachable l" "ack_value (lk_receiver l) = 1"
    "lk_sent l = [\<lparr>m_payload = [7], m_options = 3\<rparr>, \<lparr>m_payload = [9], m_options = 3\<rparr>]"
    using link_demo by auto
  with acknowledged_was_delivered [of l 0] show ?thesis by auto
qed

theorem no_forged_delivery_witness:
  "\<exists>l. link_reachable l \<and> \<lparr>m_payload = [7], m_options = 3\<rparr> \<in> set (lk_log l) \<inter> set (lk_sent l)"
proof -
  obtain l where l: "link_reachable l" "lk_log l = [\<lparr>m_payload = [7], m_options = 3\<rparr>]"
    using link_demo by auto
  with no_forged_delivery [OF l(1), of "\<lparr>m_payload = [7], m_options = 3\<rparr>"] show ?thesis
    by (auto simp: guaranteed_def SEND_GUARANTEED_def)
qed
end
