(* ===== verification/Wire.thy ===== *)
theory Wire
  imports Rust_Str
begin

text \<open>
  \<open>party-shim/src/wire.rs\<close>: the datagram header of the Party transport. \<open>packet\<close> builds a
  datagram by overwriting slices of a zeroed buffer, \<open>parse\<close> checks every length before it
  reads a field. The layout lemma turns the sequence of writes into one concatenation of
  fixed-width fields, from which the round trips follow.
\<close>

section \<open>Constants and types\<close>

definition MAGIC :: bytes where "MAGIC = [0x47, 0x42, 0x46, 0x52]"
definition KIND_HELLO :: u8 where "KIND_HELLO = 1"
definition KIND_MSG :: u8 where "KIND_MSG = 2"
definition KIND_ACK :: u8 where "KIND_ACK = 3"
definition HDR_LEN :: nat where "HDR_LEN = 60"
definition HDR_LEN_LEGACY :: nat where "HDR_LEN_LEGACY = 56"
definition HDR_VERSION :: u8 where "HDR_VERSION = 3"
definition HDR_VERSION_LEGACY :: u8 where "HDR_VERSION_LEGACY = 2"
definition HDR_ACK_OFF :: nat where "HDR_ACK_OFF = 56"
definition NET_ID_OFF :: nat where "NET_ID_OFF = 8"
definition NET_ID_LEN :: nat where "NET_ID_LEN = 16"
definition ENT_OFF :: nat where "ENT_OFF = 24"
definition ENT_LEN :: nat where "ENT_LEN = 21"
definition PAYLOAD_LEN_OFF :: nat where "PAYLOAD_LEN_OFF = 44"
definition OPTIONS_OFF :: nat where "OPTIONS_OFF = 48"
definition SEQ_OFF :: nat where "SEQ_OFF = 52"
definition MAX_PAYLOAD :: nat where "MAX_PAYLOAD = 64 * 1024"

lemmas wire_consts = HDR_LEN_def HDR_LEN_LEGACY_def HDR_VERSION_def HDR_VERSION_LEGACY_def
  HDR_ACK_OFF_def NET_ID_OFF_def NET_ID_LEN_def ENT_OFF_def ENT_LEN_def PAYLOAD_LEN_OFF_def
  OPTIONS_OFF_def SEQ_OFF_def MAX_PAYLOAD_def

datatype parse_error = TooShort | BadMagic | BadVersion | BadPayloadLen

record parsed =
  pk_kind :: u8
  pk_payload_len :: nat
  pk_options :: u32
  pk_seq :: u32
  pk_ack :: u32

definition header_len :: "bool \<Rightarrow> nat" where
  "header_len reliable = (if reliable then HDR_LEN else HDR_LEN_LEGACY)"

definition version :: "bool \<Rightarrow> u8" where
  "version reliable = (if reliable then HDR_VERSION else HDR_VERSION_LEGACY)"

section \<open>Building and reading a datagram\<close>

definition packet ::
  "string \<Rightarrow> bytes \<Rightarrow> u8 \<Rightarrow> u32 \<Rightarrow> u32 \<Rightarrow> u32 \<Rightarrow> bytes \<Rightarrow> bool \<Rightarrow> bytes" where
  "packet net_id local_ent kind options seq ack payload reliable =
     (let hdr = header_len reliable;
          pkt = replicate (hdr + length payload) 0;
          pkt = blit 0 MAGIC pkt;
          pkt = pkt[4 := kind];
          pkt = pkt[5 := version reliable];
          ib = as_bytes net_id;
          n = min (length ib) NET_ID_LEN;
          pkt = blit NET_ID_OFF (take n ib) pkt;
          e = min (length local_ent) (ENT_LEN - 1);
          pkt = blit ENT_OFF (take e local_ent) pkt;
          pkt = blit PAYLOAD_LEN_OFF (le_bytes32 (of_nat (length payload))) pkt;
          pkt = blit OPTIONS_OFF (le_bytes32 options) pkt;
          pkt = blit SEQ_OFF (le_bytes32 seq) pkt;
          pkt = (if reliable then blit HDR_ACK_OFF (le_bytes32 ack) pkt else pkt)
      in blit hdr payload pkt)"

definition u32le :: "bytes \<Rightarrow> nat \<Rightarrow> u32 option" where
  "u32le data off =
     (case get_slice data off 4 of
        Some [a, b, c, d] \<Rightarrow> Some (from_le32 a b c d)
      | _ \<Rightarrow> None)"

definition parse :: "bytes \<Rightarrow> bool \<Rightarrow> parse_error + parsed" where
  "parse buf reliable =
     (let hdr = header_len reliable in
      if length buf < hdr then Inl TooShort
      else if take 4 buf \<noteq> MAGIC then Inl BadMagic
      else if buf ! 5 \<noteq> version reliable then Inl BadVersion
      else (case u32le buf PAYLOAD_LEN_OFF of
              None \<Rightarrow> Inl TooShort
            | Some pl \<Rightarrow>
                let payload_len = unat pl in
                if payload_len > MAX_PAYLOAD \<or> hdr + payload_len > length buf then Inl BadPayloadLen
                else Inr \<lparr>pk_kind = buf ! 4, pk_payload_len = payload_len,
                          pk_options = unwrap_or (u32le buf OPTIONS_OFF) 0,
                          pk_seq = unwrap_or (u32le buf SEQ_OFF) 0,
                          pk_ack = (if reliable then unwrap_or (u32le buf HDR_ACK_OFF) 0 else 0)\<rparr>))"

text \<open>The bytes before the first NUL, lossily decoded.\<close>

definition nul_str :: "bytes \<Rightarrow> string" where
  "nul_str raw = utf8_lossy (of_bytes (takeWhile (\<lambda>b. b \<noteq> 0) raw))"

definition entity :: "bytes \<Rightarrow> string" where
  "entity buf = nul_str (unwrap_or (get_slice buf ENT_OFF (ENT_LEN - 1)) [])"

definition network_id :: "bytes \<Rightarrow> string" where
  "network_id buf = nul_str (unwrap_or (get_slice buf NET_ID_OFF NET_ID_LEN) [])"

definition hex_preview :: "bytes \<Rightarrow> nat \<Rightarrow> string" where
  "hex_preview data n = join '' '' (map show_hex02 (take n data))"

definition truncate_log :: "string \<Rightarrow> nat \<Rightarrow> string" where
  "truncate_log s n = (if char_count s \<le> n then s else take_chars n s)"

section \<open>Payload hints and addresses\<close>

definition payload_hints :: "bytes \<Rightarrow> string" where
  "payload_hints data =
     (let len = length data;
          op_tags = (case u32le data 0 of
                       None \<Rightarrow> []
                     | Some opn \<Rightarrow> (''op='' @ show_nat (unat opn)) # (if opn = 2 then [''dispatch''] else []));
          sub_tags = (case u32le data 4 of
                        None \<Rightarrow> []
                      | Some sb \<Rightarrow> [''sub='' @ show_nat (unat sb)]);
          slot_tags = (case u32le data 0x10 of
                         None \<Rightarrow> []
                       | Some slot \<Rightarrow>
                           (if slot \<le> 3 then [''dword@+10='' @ show_nat (unat slot)] else []) @
                           (if slot = 4 then [''WATCH_4 dword@+10=4''] else []));
          human = (if 0x2FC \<le> len \<and> len < 0x2FC + 48 then [''sz~0x2FC_chara''] else []);
          cpu = (if 0x14 + 0x2FC \<le> len \<and> len < 0x14 + 0x2FC + 48 then [''sz~cpu_chara''] else [])
      in join '' '' (op_tags @ sub_tags @ slot_tags @ human @ cpu))"

definition is_chara_snapshot :: "u32 \<Rightarrow> nat \<Rightarrow> bool" where
  "is_chara_snapshot opn len \<longleftrightarrow> opn = 2 \<and> len \<ge> 600"

type_synonym ipv4 = "u8 \<times> u8 \<times> u8 \<times> u8"

fun ip_string :: "ipv4 \<Rightarrow> string" where
  "ip_string (a, b, c, d) =
     show_nat (unat a) @ ''.'' @ show_nat (unat b) @ ''.'' @ show_nat (unat c) @ ''.'' @ show_nat (unat d)"

definition is_loopback_ip :: "string \<Rightarrow> bool" where
  "is_loopback_ip s =
     (let s = trim s in
      s = ''127.0.0.1'' \<or> s = ''::1'' \<or> s = ''0.0.0.0'' \<or> starts_with s ''127.'')"

definition ipv4_of_u32 :: "u32 \<Rightarrow> ipv4" where
  "ipv4_of_u32 n = (ucast (drop_bit 24 n), ucast (drop_bit 16 n), ucast (drop_bit 8 n), ucast n)"

definition parse_lan1 :: "string \<Rightarrow> string \<times> ipv4 option" where
  "parse_lan1 raw =
     (let rest = unwrap_or (strip_prefix ''LAN1.'' raw) raw;
          parts = split_char (CHR ''.'') rest;
          ident = (case parts of [] \<Rightarrow> rest | p # _ \<Rightarrow> p);
          ip = (case parts of
                  _ # h # _ \<Rightarrow>
                    (if length h \<noteq> 8 then None else map_option ipv4_of_u32 (parse_hex_u32 h))
                | _ \<Rightarrow> None)
      in (ident, ip))"

section \<open>The layout of a built datagram\<close>

definition pad :: "nat \<Rightarrow> bytes \<Rightarrow> bytes" where
  "pad n xs = take n xs @ replicate (n - length xs) 0"

lemma length_pad [simp]: "length (pad n xs) = n"
  by (simp add: pad_def)

text \<open>A buffer whose tail is still zero: \<open>xs\<close> extended with zeros to length \<open>n\<close>.\<close>

definition zext :: "nat \<Rightarrow> bytes \<Rightarrow> bytes" where
  "zext n xs = xs @ replicate (n - length xs) 0"

lemma length_zext [simp]: "length xs \<le> n \<Longrightarrow> length (zext n xs) = n"
  by (simp add: zext_def)

lemma zext_full [simp]: "length xs = n \<Longrightarrow> zext n xs = xs"
  by (simp add: zext_def)

lemma blit_zext:
  assumes "length xs \<le> off" and "off + length src \<le> n"
  shows "blit off src (zext n xs) = zext n (zext off xs @ src)"
proof -
  have "drop (off + length src) (zext n xs) = replicate (n - (off + length src)) 0"
    and "take off (zext n xs) = zext off xs"
    using assms by (simp_all add: zext_def min_def)
  then show ?thesis using assms by (simp add: blit_def) (simp add: zext_def)
qed

lemma zext_pad: "length pre + k = n \<Longrightarrow> zext n (pre @ take (min (length xs) k) xs) = pre @ pad k xs"
  by (auto simp: zext_def pad_def min_def)

definition header :: "string \<Rightarrow> bytes \<Rightarrow> u8 \<Rightarrow> u32 \<Rightarrow> u32 \<Rightarrow> u32 \<Rightarrow> bytes \<Rightarrow> bool \<Rightarrow> bytes" where
  "header net_id local_ent kind options seq ack payload reliable =
     MAGIC @ [kind, version reliable, 0, 0] @ pad NET_ID_LEN (as_bytes net_id) @
     pad (ENT_LEN - 1) local_ent @ le_bytes32 (of_nat (length payload)) @ le_bytes32 options @
     le_bytes32 seq @ (if reliable then le_bytes32 ack else [])"

lemma length_header [simp]:
  "length (header net_id local_ent kind options seq ack payload reliable) = header_len reliable"
  by (simp add: header_def header_len_def MAGIC_def wire_consts)

lemma packet_magic:
  "6 \<le> n \<Longrightarrow> (blit 0 MAGIC (replicate n 0))[4 := kind, 5 := v] = zext n (MAGIC @ [kind, v])"
proof -
  assume "6 \<le> n"
  then obtain m where n: "n = 6 + m" using le_Suc_ex by blast
  show ?thesis by (simp add: n blit_def zext_def MAGIC_def numeral_eq_Suc)
qed

lemma packet_layout:
  "packet net_id local_ent kind options seq ack payload reliable =
     header net_id local_ent kind options seq ack payload reliable @ payload"
proof -
  let ?P = "length payload" and ?ib = "as_bytes net_id"
  define n where "n = header_len reliable + ?P"
  have n: "n = (if reliable then 60 else 56) + ?P" by (simp add: n_def header_len_def wire_consts)
  define ids where "ids = ((MAGIC @ [kind, version reliable, 0, 0]) @ pad 16 ?ib) @ pad 20 local_ent"
  have ids_len: "length ids = 44" by (simp add: ids_def MAGIC_def)
  have z8: "zext 8 (MAGIC @ [kind, version reliable]) = MAGIC @ [kind, version reliable, 0, 0]"
    and magic_len: "length MAGIC = 4"
    by (simp_all add: zext_def MAGIC_def numeral_eq_Suc)
  have 1: "blit 8 (take (min (length ?ib) 16) ?ib) (zext n (MAGIC @ [kind, version reliable])) =
      zext n ((MAGIC @ [kind, version reliable, 0, 0]) @ take (min (length ?ib) 16) ?ib)"
    by (subst blit_zext) (simp_all add: n magic_len z8 min_le_iff_disj)
  have 2: "blit 24 (take (min (length local_ent) 20) local_ent)
      (zext n ((MAGIC @ [kind, version reliable, 0, 0]) @ take (min (length ?ib) 16) ?ib)) =
      zext n (((MAGIC @ [kind, version reliable, 0, 0]) @ pad 16 ?ib) @ take (min (length local_ent) 20) local_ent)"
    by (subst blit_zext)
      (simp_all add: n magic_len zext_pad min_le_iff_disj del: append.simps append_assoc length_as_bytes)
  have 3: "blit 44 w (zext n (((MAGIC @ [kind, version reliable, 0, 0]) @ pad 16 ?ib) @ take (min (length local_ent) 20) local_ent)) =
      zext n (ids @ w)" if "length w = 4" for w
    using that by (subst blit_zext)
      (simp_all add: n magic_len ids_def zext_pad min_le_iff_disj del: append.simps append_assoc)
  have "blit (header_len reliable) payload (zext n (header net_id local_ent kind options seq ack payload reliable)) =
      header net_id local_ent kind options seq ack payload reliable @ payload"
    by (subst blit_zext) (simp_all add: n_def)
  moreover have "header net_id local_ent kind options seq ack payload reliable =
      ids @ le_bytes32 (of_nat ?P) @ le_bytes32 options @ le_bytes32 seq @ (if reliable then le_bytes32 ack else [])"
    by (simp add: header_def ids_def wire_consts)
  moreover have nb: "56 \<le> n" "reliable \<Longrightarrow> 60 \<le> n" by (simp_all add: n)
  then have "blit 52 (le_bytes32 seq) (blit 48 (le_bytes32 options) (blit 44 (le_bytes32 (of_nat ?P))
      (blit 24 (take (min (length local_ent) 20) local_ent) (blit 8 (take (min (length ?ib) 16) ?ib)
        ((blit 0 MAGIC (replicate n 0))[4 := kind, 5 := version reliable]))))) =
      zext n (ids @ le_bytes32 (of_nat ?P) @ le_bytes32 options @ le_bytes32 seq)"
    by (subst packet_magic, simp, subst 1, subst 2, subst 3, simp) (simp add: ids_len blit_zext)
  ultimately show ?thesis
    using nb(2) unfolding packet_def Let_def n_def [symmetric]
    by (cases reliable) (simp_all add: wire_consts ids_len blit_zext del: length_as_bytes)
qed

section \<open>Reading the fields back\<close>

lemma u32le_at: "length pre = off \<Longrightarrow> u32le (pre @ le_bytes32 w @ post) off = Some w"
  by (simp add: u32le_def get_slice_def le_bytes32_def from_le32_le_bytes32)

lemma u32le_Some: "off + 4 \<le> length data \<Longrightarrow> \<exists>w. u32le data off = Some w"
proof -
  assume "off + 4 \<le> length data"
  moreover have "\<exists>a b c d. xs = [a, b, c, d]" if "length xs = 4" for xs :: bytes
    using that by (auto simp: length_Suc_conv numeral_eq_Suc)
  ultimately obtain a b c d where "take 4 (drop off data) = [a, b, c, d]"
    by (metis add_le_imp_le_diff length_drop length_take min.absorb2 add.commute)
  with \<open>off + 4 \<le> length data\<close> show ?thesis by (simp add: u32le_def get_slice_def)
qed

lemma u32le_None: "length data < off + 4 \<Longrightarrow> u32le data off = None"
  by (simp add: u32le_def get_slice_def)

text \<open>One equation per header field of a built datagram.\<close>

lemma packet_fields [wire_simps]:
  fixes net_id local_ent kind options seq ack payload reliable
  defines "pkt \<equiv> packet net_id local_ent kind options seq ack payload reliable"
  shows "length pkt = header_len reliable + length payload"
    and "take 4 pkt = MAGIC" and "pkt ! 4 = kind" and "pkt ! 5 = version reliable"
    and "u32le pkt PAYLOAD_LEN_OFF = Some (of_nat (length payload))"
    and "u32le pkt OPTIONS_OFF = Some options" and "u32le pkt SEQ_OFF = Some seq"
    and "reliable \<Longrightarrow> u32le pkt HDR_ACK_OFF = Some ack"
    and "drop (header_len reliable) pkt = payload"
proof -
  define ids where "ids = MAGIC @ [kind, version reliable, 0, 0] @ pad 16 (as_bytes net_id) @ pad 20 local_ent"
  have ids: "length ids = 44" by (simp add: ids_def MAGIC_def)
  have pkt: "pkt = ids @ le_bytes32 (of_nat (length payload)) @ le_bytes32 options @ le_bytes32 seq @
      (if reliable then le_bytes32 ack else []) @ payload"
    by (simp add: pkt_def packet_layout header_def ids_def wire_consts)
  show "length pkt = header_len reliable + length payload" "drop (header_len reliable) pkt = payload"
    by (simp_all add: pkt_def packet_layout)
  show "take 4 pkt = MAGIC" "pkt ! 4 = kind" "pkt ! 5 = version reliable"
    by (simp_all add: pkt ids_def MAGIC_def numeral_eq_Suc)
  show "u32le pkt PAYLOAD_LEN_OFF = Some (of_nat (length payload))"
    by (simp add: pkt u32le_at ids wire_consts)
  show "u32le pkt OPTIONS_OFF = Some options"
    using u32le_at [of "ids @ le_bytes32 (of_nat (length payload))" 48] by (simp add: pkt ids wire_consts)
  show "u32le pkt SEQ_OFF = Some seq"
    using u32le_at [of "ids @ le_bytes32 (of_nat (length payload)) @ le_bytes32 options" 52]
    by (simp add: pkt ids wire_consts)
  show "reliable \<Longrightarrow> u32le pkt HDR_ACK_OFF = Some ack"
    using u32le_at [of "ids @ le_bytes32 (of_nat (length payload)) @ le_bytes32 options @ le_bytes32 seq" 56]
    by (simp add: pkt ids wire_consts)
qed

lemma parse_built:
  assumes "length payload \<le> MAX_PAYLOAD"
  shows "parse (packet net_id local_ent kind options seq ack payload reliable) reliable =
    Inr \<lparr>pk_kind = kind, pk_payload_len = length payload, pk_options = options, pk_seq = seq,
         pk_ack = (if reliable then ack else 0)\<rparr>"
proof -
  have "unat (of_nat (length payload) :: u32) = length payload"
    using assms by (simp add: unat_of_nat wire_consts)
  with assms show ?thesis
    by (simp add: parse_def Let_def wire_simps unwrap_or_def)
qed




text \<open>
  A datagram built with a payload above MAX_PAYLOAD is refused by parse with BadPayloadLen.
\<close>

theorem oversized_packet_rejected:
  assumes "MAX_PAYLOAD < length payload" and "length payload < 2 ^ 32"
  shows "parse (packet net_id local_ent kind options seq ack payload reliable) reliable = Inl BadPayloadLen"
proof -
  have "unat (of_nat (length payload) :: u32) = length payload"
    using assms by (simp add: unat_of_nat)
  with assms show ?thesis by (simp add: parse_def Let_def wire_simps)
qed

theorem oversized_packet_rejected_witness:
  "parse (packet ''n'' [] KIND_MSG 1 1 0 (replicate 65537 0) True) True = Inl BadPayloadLen"
  by (rule oversized_packet_rejected) (simp_all add: MAX_PAYLOAD_def)

text \<open>
  A datagram of one header layout is refused by a peer that expects the other, with
  BadVersion.
\<close>

theorem version_mismatch_rejected:
  assumes "length payload \<ge> 4"
  shows "parse (packet net_id local_ent kind options seq ack payload reliable) (\<not> reliable) = Inl BadVersion"
proof -
  have "version (\<not> reliable) \<noteq> version reliable" by (simp add: version_def wire_consts)
  moreover have "header_len (\<not> reliable) \<le> header_len reliable + length payload"
    using assms by (simp add: header_len_def wire_consts)
  ultimately show ?thesis by (simp add: parse_def Let_def wire_simps)
qed

theorem version_mismatch_rejected_witness:
  "parse (packet ''n'' [] KIND_MSG 1 1 0 [1, 2, 3, 4] False) True = Inl BadVersion"
  using version_mismatch_rejected [of "[1, 2, 3, 4]" "''n''" "[]" KIND_MSG 1 1 0 False] by simp

section \<open>Identifiers\<close>

lemma takeWhile_pad: "0 \<notin> set xs \<Longrightarrow> takeWhile (\<lambda>b. b \<noteq> 0) (pad n xs) = take n xs"
proof -
  assume "0 \<notin> set xs"
  then have "\<forall>b \<in> set (take n xs). b \<noteq> 0" by (metis in_set_takeD)
  then show ?thesis
    by (cases "n - length xs") (simp_all add: pad_def takeWhile_append2 takeWhile_eq_all_conv)
qed

lemma packet_id_slices:
  "get_slice (packet net_id local_ent kind options seq ack payload reliable) NET_ID_OFF NET_ID_LEN =
     Some (pad 16 (as_bytes net_id))"
  "get_slice (packet net_id local_ent kind options seq ack payload reliable) ENT_OFF (ENT_LEN - Suc 0) =
     Some (pad 20 local_ent)"
  by (simp_all add: packet_layout header_def get_slice_def wire_consts MAGIC_def)

text \<open>
  The network id and entity id written by packet are read back truncated to 16 and 20 bytes.
\<close>

theorem packet_identifiers:
  assumes "0 \<notin> set (as_bytes net_id)" and "0 \<notin> set local_ent"
    and "utf8_valid (take 16 net_id)" and "utf8_valid (of_bytes (take 20 local_ent))"
  shows "network_id (packet net_id local_ent kind options seq ack payload reliable) = take 16 net_id \<and>
    entity (packet net_id local_ent kind options seq ack payload reliable) = of_bytes (take 20 local_ent)"
proof -
  have "of_bytes (take 16 (as_bytes net_id)) = take 16 net_id"
    by (metis as_bytes_def of_bytes_as_bytes take_map)
  with assms show ?thesis
    by (simp add: network_id_def entity_def nul_str_def packet_id_slices unwrap_or_def takeWhile_pad
        utf8_lossy_valid)
qed

theorem packet_identifiers_witness:
  "network_id (packet ''net-1234'' [65, 66] KIND_HELLO 0 0 0 [] True) = ''net-1234'' \<and>
   entity (packet ''net-1234'' [65, 66] KIND_HELLO 0 0 0 [] True) = ''AB''"
proof -
  have "0 \<notin> set (as_bytes ''net-1234'')" by (simp add: as_bytes_def u8_of_char_def)
  moreover have "utf8_valid (take 16 ''net-1234'')" "utf8_valid (of_bytes (take 20 [65, 66]))"
    by (rule utf8_valid_ascii, simp add: is_ascii_def of_bytes_def char_of_u8_def)+
  ultimately show ?thesis
    using packet_identifiers [of "''net-1234''" "[65, 66]" KIND_HELLO 0 0 0 "[]" True]
    by (simp add: of_bytes_def char_of_u8_def char_of_def bit_0)
qed

end
