(* ===== verification/Sort_By.thy ===== *)
theory Sort_By
  imports Prelude "HOL-Library.Multiset"
begin

text \<open>
  \<open>std::cmp::Ordering\<close> and \<open>slice::sort_by\<close>. The contract that \<open>sort_by\<close> asks of its comparison
  (a total preorder on the elements present) is the locale \<open>total_cmp\<close>; under it the stable
  sort returns an ordered permutation. Without it the standard library gives no order and may
  panic.
\<close>

datatype ordering = Less | Equal | Greater

fun rev_ordering :: "ordering \<Rightarrow> ordering" where
  "rev_ordering Less = Greater"
| "rev_ordering Equal = Equal"
| "rev_ordering Greater = Less"

fun then_with :: "ordering \<Rightarrow> ordering \<Rightarrow> ordering" where
  "then_with Equal r = r"
| "then_with Less _ = Less"
| "then_with Greater _ = Greater"

lemma rev_ordering_simps [simp]:
  "rev_ordering (rev_ordering r) = r"
  "rev_ordering r = Equal \<longleftrightarrow> r = Equal"
  "rev_ordering r = Less \<longleftrightarrow> r = Greater"
  "rev_ordering r = Greater \<longleftrightarrow> r = Less"
  by (cases r; simp)+

lemma then_with_Greater: "then_with r q = Greater \<longleftrightarrow> r = Greater \<or> (r = Equal \<and> q = Greater)"
  by (cases r) auto

lemma rev_then_with: "rev_ordering (then_with r q) = then_with (rev_ordering r) (rev_ordering q)"
  by (cases r) auto

text \<open>Insert before the first element that is strictly greater: equal elements keep their order.\<close>

fun insert_by :: "('a \<Rightarrow> 'a \<Rightarrow> ordering) \<Rightarrow> 'a \<Rightarrow> 'a list \<Rightarrow> 'a list" where
  "insert_by cmp x [] = [x]"
| "insert_by cmp x (y # ys) = (if cmp x y \<noteq> Greater then x # y # ys else y # insert_by cmp x ys)"

fun sort_by :: "('a \<Rightarrow> 'a \<Rightarrow> ordering) \<Rightarrow> 'a list \<Rightarrow> 'a list" where
  "sort_by cmp [] = []"
| "sort_by cmp (x # xs) = insert_by cmp x (sort_by cmp xs)"

lemma mset_insert_by: "mset (insert_by cmp x ys) = add_mset x (mset ys)"
  by (induction ys) auto

lemma mset_sort_by: "mset (sort_by cmp xs) = mset xs"
  by (induction xs) (simp_all add: mset_insert_by)

lemma set_sort_by [simp]: "set (sort_by cmp xs) = set xs"
  by (metis mset_sort_by set_mset_mset)

lemma length_sort_by [simp]: "length (sort_by cmp xs) = length xs"
  by (metis mset_sort_by size_mset)

lemma set_insert_by: "set (insert_by cmp x ys) = insert x (set ys)"
  by (metis mset_insert_by set_mset_add_mset_insert set_mset_mset)

locale total_cmp =
  fixes A :: "'a set"
    and cmp :: "'a \<Rightarrow> 'a \<Rightarrow> ordering"
  assumes flip: "a \<in> A \<Longrightarrow> b \<in> A \<Longrightarrow> cmp b a = rev_ordering (cmp a b)"
    and trans: "a \<in> A \<Longrightarrow> b \<in> A \<Longrightarrow> c \<in> A \<Longrightarrow> cmp a b \<noteq> Greater \<Longrightarrow> cmp b c \<noteq> Greater \<Longrightarrow> cmp a c \<noteq> Greater"
begin

lemma refl: "a \<in> A \<Longrightarrow> cmp a a = Equal"
  using flip [of a a] by (cases "cmp a a") auto

lemma total: "a \<in> A \<Longrightarrow> b \<in> A \<Longrightarrow> cmp a b = Greater \<Longrightarrow> cmp b a \<noteq> Greater"
  using flip [of a b] by simp

lemma insert_by_sorted:
  assumes "x \<in> A" and "set ys \<subseteq> A" and "sorted_wrt (\<lambda>a b. cmp a b \<noteq> Greater) ys"
  shows "sorted_wrt (\<lambda>a b. cmp a b \<noteq> Greater) (insert_by cmp x ys)"
  using assms
proof (induction ys)
  case (Cons y ys)
  have "cmp x z \<noteq> Greater" if "cmp x y \<noteq> Greater" "z \<in> set ys" for z
    using that Cons.prems trans [of x y z] by auto
  with Cons show ?case
    using total [of x y] by (auto simp: set_insert_by)
qed simp

lemma sort_by_sorted:
  "set xs \<subseteq> A \<Longrightarrow> sorted_wrt (\<lambda>a b. cmp a b \<noteq> Greater) (sort_by cmp xs)"
  by (induction xs) (simp_all add: insert_by_sorted)

text \<open>Elements that compare equal to a given one stay in their original relative order.\<close>

lemma insert_by_stable:
  assumes "x \<in> A" "a \<in> A" "set ys \<subseteq> A"
  shows "filter (\<lambda>y. cmp a y = Equal) (insert_by cmp x ys) =
    (if cmp a x = Equal then x # filter (\<lambda>y. cmp a y = Equal) ys else filter (\<lambda>y. cmp a y = Equal) ys)"
  using assms
proof (induction ys)
  case (Cons y ys)
  have "cmp x y \<noteq> Greater" if "cmp a x = Equal" "cmp a y = Equal"
    using that Cons.prems trans [of x a y] flip [of a x] by auto
  with Cons show ?case by auto
qed simp

lemma sort_by_stable:
  "a \<in> A \<Longrightarrow> set xs \<subseteq> A \<Longrightarrow>
   filter (\<lambda>y. cmp a y = Equal) (sort_by cmp xs) = filter (\<lambda>y. cmp a y = Equal) xs"
  by (induction xs) (auto simp: insert_by_stable)

end

lemma total_cmp_then_with:
  assumes "total_cmp A c1" and "total_cmp A c2"
  shows "total_cmp A (\<lambda>a b. then_with (c1 a b) (c2 a b))"
proof
  fix a b assume ab: "a \<in> A" "b \<in> A"
  then show "then_with (c1 b a) (c2 b a) = rev_ordering (then_with (c1 a b) (c2 a b))"
    using total_cmp.flip [OF assms(1) ab] total_cmp.flip [OF assms(2) ab] by (simp add: rev_then_with)
next
  fix a b c assume abc: "a \<in> A" "b \<in> A" "c \<in> A"
  assume le: "then_with (c1 a b) (c2 a b) \<noteq> Greater" "then_with (c1 b c) (c2 b c) \<noteq> Greater"
  have c1: "c1 a c \<noteq> Greater"
    using le abc total_cmp.trans [OF assms(1), of a b c] by (auto simp: then_with_Greater)
  have "c2 a c \<noteq> Greater" if "c1 a c = Equal"
  proof -
    have "c1 c a \<noteq> Greater" using that abc total_cmp.flip [OF assms(1), of a c] by simp
    then have "c1 b a \<noteq> Greater" "c1 c b \<noteq> Greater"
      using le abc total_cmp.trans [OF assms(1), of b c a] total_cmp.trans [OF assms(1), of c a b]
      by (auto simp: then_with_Greater)
    then have "c1 a b = Equal" "c1 b c = Equal"
      using le abc total_cmp.flip [OF assms(1), of a b] total_cmp.flip [OF assms(1), of b c]
      by (cases "c1 a b"; cases "c1 b c"; simp add: then_with_Greater)+
    with le show ?thesis
      using abc total_cmp.trans [OF assms(2), of a b c] by simp
  qed
  with c1 show "then_with (c1 a c) (c2 a c) \<noteq> Greater" by (simp add: then_with_Greater)
qed

end
