(* ===== verification/Float64.thy ===== *)
theory Float64
  imports Rust_Str Sort_By "HOL-Library.Log_Nat"
begin

text \<open>
  The \<open>f64\<close> arithmetic the sources use: conversion from integers and from decimal text,
  subtraction, absolute value and comparison. A finite value is the rational number it denotes;
  every operation rounds to the nearest representable value, ties to even, as IEEE 754 does.
  Signed zeros are identified (no source distinguishes them).
\<close>

datatype f64 = F64_nan | F64_inf (inf_neg: bool) | F64_fin rat

section \<open>Rounding\<close>

definition round_even :: "rat \<Rightarrow> int" where
  "round_even x =
     (let f = floor x; r = x - of_int f in
      if r < 1 / 2 then f else if r > 1 / 2 then f + 1 else if even f then f else f + 1)"

text \<open>\<open>2 ^ e\<close> for an integer exponent.\<close>

definition pow2 :: "int \<Rightarrow> rat" where
  "pow2 e = (if 0 \<le> e then 2 ^ nat e else 1 / 2 ^ nat (- e))"

text \<open>The binary exponent of a positive rational, not below that of the smallest normal number.\<close>

definition f64_exponent :: "rat \<Rightarrow> int" where
  "f64_exponent q =
     (case quotient_of q of
        (n, d) \<Rightarrow>
          (let e = bitlen n - bitlen d
           in max (if q < pow2 e then e - 1 else e) (- 1022)))"

definition round_f64 :: "rat \<Rightarrow> f64" where
  "round_f64 q =
     (if q = 0 then F64_fin 0
      else
        (let u = pow2 (f64_exponent \<bar>q\<bar> - 52);
             v = of_int (round_even (\<bar>q\<bar> / u)) * u
         in if v \<ge> pow2 1024 then F64_inf (q < 0)
            else F64_fin (if q < 0 then - v else v)))"

definition f64_of_int :: "int \<Rightarrow> f64" where
  "f64_of_int n = round_f64 (of_int n)"

section \<open>Operations\<close>

fun f64_lt :: "f64 \<Rightarrow> f64 \<Rightarrow> bool" where
  "f64_lt (F64_fin x) (F64_fin y) \<longleftrightarrow> x < y"
| "f64_lt (F64_fin x) (F64_inf n) \<longleftrightarrow> \<not> n"
| "f64_lt (F64_inf n) (F64_fin y) \<longleftrightarrow> n"
| "f64_lt (F64_inf n) (F64_inf m) \<longleftrightarrow> n \<and> \<not> m"
| "f64_lt _ _ \<longleftrightarrow> False"

fun f64_eq :: "f64 \<Rightarrow> f64 \<Rightarrow> bool" where
  "f64_eq (F64_fin x) (F64_fin y) \<longleftrightarrow> x = y"
| "f64_eq (F64_inf n) (F64_inf m) \<longleftrightarrow> n = m"
| "f64_eq _ _ \<longleftrightarrow> False"

definition f64_le :: "f64 \<Rightarrow> f64 \<Rightarrow> bool" where
  "f64_le a b \<longleftrightarrow> f64_lt a b \<or> f64_eq a b"

definition partial_cmp :: "f64 \<Rightarrow> f64 \<Rightarrow> ordering option" where
  "partial_cmp a b =
     (if f64_lt a b then Some Less
      else if f64_lt b a then Some Greater
      else if f64_eq a b then Some Equal else None)"

fun f64_sub :: "f64 \<Rightarrow> f64 \<Rightarrow> f64" where
  "f64_sub (F64_fin x) (F64_fin y) = round_f64 (x - y)"
| "f64_sub (F64_fin x) (F64_inf n) = F64_inf (\<not> n)"
| "f64_sub (F64_inf n) (F64_fin y) = F64_inf n"
| "f64_sub (F64_inf n) (F64_inf m) = (if n = m then F64_nan else F64_inf n)"
| "f64_sub _ _ = F64_nan"

fun f64_abs :: "f64 \<Rightarrow> f64" where
  "f64_abs (F64_fin x) = F64_fin \<bar>x\<bar>"
| "f64_abs (F64_inf n) = F64_inf False"
| "f64_abs F64_nan = F64_nan"

fun is_finite :: "f64 \<Rightarrow> bool" where
  "is_finite (F64_fin _) = True"
| "is_finite _ = False"

section \<open>Decimal text\<close>

text \<open>
  \<open>str::parse::<f64>\<close>: an optional sign, then \<open>inf\<close>, \<open>infinity\<close> or \<open>nan\<close> in any case, or digits
  with an optional point and an optional decimal exponent; at least one digit before or after
  the point.
\<close>

definition parse_exp :: "string \<Rightarrow> int option" where
  "parse_exp s =
     (case s of
        [] \<Rightarrow> None
      | c # cs \<Rightarrow>
          (let ds = (if c = CHR ''+'' \<or> c = CHR ''-'' then cs else s)
           in if ds = [] then None
              else map_option (\<lambda>n. if c = CHR ''-'' then - int n else int n) (parse_digits digit_val 10 ds 0)))"

definition parse_decimal :: "string \<Rightarrow> rat option" where
  "parse_decimal s =
     (let ip = takeWhile is_ascii_digit s;
          r = dropWhile is_ascii_digit s;
          (fp, r') = (case r of
                        c # cs \<Rightarrow> if c = CHR ''.'' then (takeWhile is_ascii_digit cs, dropWhile is_ascii_digit cs)
                                  else ([], r)
                      | [] \<Rightarrow> ([], r));
          ex = (case r' of
                  [] \<Rightarrow> Some 0
                | c # cs \<Rightarrow> if c = CHR ''e'' \<or> c = CHR ''E'' then parse_exp cs else None)
      in if ip = [] \<and> fp = [] then None
         else (case (parse_digits digit_val 10 (ip @ fp) 0, ex) of
                 (Some m, Some e) \<Rightarrow>
                   (let k = e - int (length fp)
                    in Some (if 0 \<le> k then of_nat m * 10 ^ nat k else of_nat m / 10 ^ nat (- k)))
               | _ \<Rightarrow> None))"

fun f64_neg :: "f64 \<Rightarrow> f64" where
  "f64_neg (F64_fin x) = F64_fin (- x)"
| "f64_neg (F64_inf n) = F64_inf (\<not> n)"
| "f64_neg F64_nan = F64_nan"

definition parse_f64 :: "string \<Rightarrow> f64 option" where
  "parse_f64 s =
     (let (neg, u) = (case s of
                        c # cs \<Rightarrow> if c = CHR ''-'' then (True, cs) else if c = CHR ''+'' then (False, cs) else (False, s)
                      | [] \<Rightarrow> (False, s));
          l = to_ascii_lowercase u;
          r = (if l = ''inf'' \<or> l = ''infinity'' then Some (F64_inf False)
               else if l = ''nan'' then Some F64_nan
               else map_option round_f64 (parse_decimal u))
      in map_option (\<lambda>x. if neg then f64_neg x else x) r)"

section \<open>Facts\<close>

lemma round_even_int [simp]: "round_even (of_int n) = n"
  by (simp add: round_even_def)

lemma pow2_pos [simp]: "0 < pow2 e"
  by (simp add: pow2_def)

lemma pow2_nat: "pow2 (int n) = 2 ^ n"
  by (simp add: pow2_def)

lemma pow2_minus: "pow2 (- int n) = 1 / 2 ^ n"
  by (cases n) (simp_all add: pow2_def nat_add_distrib)

lemma round_f64_zero [simp]: "round_f64 0 = F64_fin 0"
  by (simp add: round_f64_def)

lemma quotient_of_int: "quotient_of (of_int n) = (n, 1)"
  by (simp add: of_int_rat quotient_of_Fract Rat.normalize_def)

lemma f64_exponent_int:
  assumes "0 < n" and "n < 2 ^ 53"
  shows "f64_exponent (of_int n) \<le> 52"
proof -
  have "bitlen n \<le> 53"
    using assms by (subst bitlen_le_iff_power) simp_all
  moreover have "bitlen 1 = 1" by (simp add: bitlen_alt_def)
  ultimately show ?thesis
    by (auto simp: f64_exponent_def quotient_of_int Let_def)
qed

text \<open>Integers below \<open>2 ^ 53\<close> are represented exactly.\<close>

lemma round_f64_int:
  assumes "\<bar>n\<bar> < 2 ^ 53"
  shows "round_f64 (of_int n) = F64_fin (of_int n)"
proof (cases "n = 0")
  case False
  define k where "k = nat (52 - f64_exponent (of_int \<bar>n\<bar>))"
  have e: "f64_exponent (of_int \<bar>n\<bar>) - 52 = - int k"
    using f64_exponent_int [of "\<bar>n\<bar>"] False assms by (simp add: k_def)
  have "(of_int \<bar>n\<bar> :: rat) / pow2 (- int k) = of_int (\<bar>n\<bar> * 2 ^ k)"
    by (simp add: pow2_minus)
  then have "of_int (round_even (of_int \<bar>n\<bar> / pow2 (- int k))) * pow2 (- int k) = (of_int \<bar>n\<bar> :: rat)"
    by (simp only: round_even_int) (simp add: pow2_minus)
  moreover have "(of_int \<bar>n\<bar> :: rat) < pow2 1024"
  proof -
    have "(of_int \<bar>n\<bar> :: rat) < of_int (2 ^ 53)" using assms by (simp only: of_int_less_iff)
    also have "\<dots> \<le> pow2 1024" by (simp add: pow2_def)
    finally show ?thesis .
  qed
  ultimately show ?thesis
    using e False by (auto simp: round_f64_def Let_def)
qed simp

lemma f64_of_int_small: "\<bar>n\<bar> < 2 ^ 53 \<Longrightarrow> f64_of_int n = F64_fin (of_int n)"
  by (simp add: f64_of_int_def round_f64_int)

lemma f64_lt_irrefl [simp]: "\<not> f64_lt a a"
  by (cases a) auto

lemma f64_lt_trans: "f64_lt a b \<Longrightarrow> f64_lt b c \<Longrightarrow> f64_lt a c"
  by (cases a; cases b; cases c) auto

lemma f64_lt_asym: "f64_lt a b \<Longrightarrow> \<not> f64_lt b a"
  by (cases a; cases b) auto

lemma f64_trichotomy: "a \<noteq> F64_nan \<Longrightarrow> b \<noteq> F64_nan \<Longrightarrow> f64_lt a b \<or> f64_eq a b \<or> f64_lt b a"
  by (cases a; cases b) auto

lemma f64_eq_iff: "f64_eq a b \<longleftrightarrow> a = b \<and> a \<noteq> F64_nan"
  by (cases a; cases b) auto

lemma f64_le_trans: "f64_le a b \<Longrightarrow> f64_le b c \<Longrightarrow> f64_le a c"
  by (auto simp: f64_le_def f64_eq_iff intro: f64_lt_trans)

lemma f64_le_fin [simp]: "f64_le (F64_fin x) (F64_fin y) \<longleftrightarrow> x \<le> y"
  by (auto simp: f64_le_def)

lemma f64_sub_self: "is_finite a \<Longrightarrow> f64_sub a a = F64_fin 0"
  by (cases a) auto

end
