(* ===== verification/Json_Value.thy ===== *)
theory Json_Value
  imports Float64
begin

text \<open>
  The \<open>serde_json::Value\<close> tree the LAN server works on, with the accessors it calls, and the
  functions of third-party crates that the server calls, collected in the record \<open>ext\<close> and
  passed to every definition that needs them. An object is a \<open>BTreeMap\<close> from strings (the
  crate is built without \<open>preserve_order\<close>), so its entries are in key order.
\<close>

datatype number = PosInt u64 | NegInt int | Float f64

datatype "value" =
    Null
  | Bool bool
  | Number number
  | String string
  | Array "value list"
  | Object "(string \<times> value) list"

type_synonym object = "(string, value) btree"

text \<open>
  Third-party code: the SHA-1 digest, the standard base64 codec, ChaCha20-Poly1305 (key,
  nonce, text), the JSON reader and writer, and the decimal rendering of JSON numbers and of
  \<open>f64\<close>.
\<close>

record ext =
  x_sha1 :: "bytes \<Rightarrow> bytes"
  x_b64_encode :: "bytes \<Rightarrow> string"
  x_b64_decode :: "bytes \<Rightarrow> string + bytes"
  x_encrypt :: "bytes \<Rightarrow> bytes \<Rightarrow> bytes \<Rightarrow> bytes option"
  x_decrypt :: "bytes \<Rightarrow> bytes \<Rightarrow> bytes \<Rightarrow> string + bytes"
  x_to_vec :: "value \<Rightarrow> bytes option"
  x_from_slice :: "bytes \<Rightarrow> value option"
  x_number_str :: "number \<Rightarrow> string"
  x_f64_str :: "f64 \<Rightarrow> string"

section \<open>Accessors\<close>

fun jget :: "value \<Rightarrow> string \<Rightarrow> value option" where
  "jget (Object m) k = bt_get m k"
| "jget _ k = None"

fun as_str :: "value \<Rightarrow> string option" where
  "as_str (String s) = Some s"
| "as_str _ = None"

fun as_object :: "value \<Rightarrow> object option" where
  "as_object (Object m) = Some m"
| "as_object _ = None"

fun as_array :: "value \<Rightarrow> value list option" where
  "as_array (Array vs) = Some vs"
| "as_array _ = None"

text \<open>An \<open>i64\<close> is the integer it denotes; \<open>as i64\<close> wraps.\<close>

definition wrap_i64 :: "int \<Rightarrow> int" where
  "wrap_i64 n = (n + 2 ^ 63) mod 2 ^ 64 - 2 ^ 63"

fun num_as_i64 :: "number \<Rightarrow> int option" where
  "num_as_i64 (PosInt n) = (if unat n < 2 ^ 63 then Some (uint n) else None)"
| "num_as_i64 (NegInt n) = Some n"
| "num_as_i64 (Float _) = None"

fun num_as_u64 :: "number \<Rightarrow> u64 option" where
  "num_as_u64 (PosInt n) = Some n"
| "num_as_u64 _ = None"

fun num_as_f64 :: "number \<Rightarrow> f64 option" where
  "num_as_f64 (PosInt n) = Some (f64_of_int (uint n))"
| "num_as_f64 (NegInt n) = Some (f64_of_int n)"
| "num_as_f64 (Float x) = Some x"

fun as_i64 :: "value \<Rightarrow> int option" where
  "as_i64 (Number n) = num_as_i64 n"
| "as_i64 _ = None"

fun as_u64 :: "value \<Rightarrow> u64 option" where
  "as_u64 (Number n) = num_as_u64 n"
| "as_u64 _ = None"

fun is_string :: "value \<Rightarrow> bool" where
  "is_string (String _) = True"
| "is_string _ = False"

section \<open>Building values\<close>

text \<open>The \<open>json!\<close> macro: an object literal is inserted key by key.\<close>

definition insert_all :: "object \<Rightarrow> (string \<times> value) list \<Rightarrow> object" where
  "insert_all m kvs = fold (\<lambda>(k, v) acc. bt_insert acc k v) kvs m"

definition jobj :: "(string \<times> value) list \<Rightarrow> value" where
  "jobj kvs = Object (insert_all [] kvs)"

definition jint :: "int \<Rightarrow> value" where
  "jint n = Number (if n < 0 then NegInt n else PosInt (of_int n))"

definition jf64 :: "f64 \<Rightarrow> value" where
  "jf64 x = (if is_finite x then Number (Float x) else Null)"

text \<open>A value whose objects are maps: strictly ascending keys at every level.\<close>

fun value_wf :: "value \<Rightarrow> bool" where
  "value_wf (Array vs) \<longleftrightarrow> (\<forall>v \<in> set vs. value_wf v)"
| "value_wf (Object m) \<longleftrightarrow> bt_wf m \<and> (\<forall>(k, v) \<in> set m. value_wf v)"
| "value_wf _ \<longleftrightarrow> True"

lemma insert_all_Nil [simp]: "insert_all m [] = m"
  and insert_all_Cons [simp]: "insert_all m ((k, v) # kvs) = insert_all (bt_insert m k v) kvs"
  by (simp_all add: insert_all_def)

lemma bt_get_insert_all: "bt_get (insert_all m kvs) k = (case map_of (rev kvs) k of Some v \<Rightarrow> Some v | None \<Rightarrow> bt_get m k)"
proof (induction kvs arbitrary: m)
  case (Cons x kvs)
  then show ?case
    by (cases x) (auto simp: bt_get_insert map_add_def split: option.splits)
qed simp

lemma bt_wf_insert_all: "bt_wf m \<Longrightarrow> bt_wf (insert_all m kvs)"
  by (induction kvs arbitrary: m) (auto simp: bt_wf_insert)

lemma jget_jobj: "jget (jobj kvs) k = map_of (rev kvs) k"
  by (simp add: jobj_def bt_get_insert_all split: option.splits)

end
