(* ===== verification/Lobby_Filter.thy ===== *)
theory Lobby_Filter
  imports Json_Value
begin

text \<open>
  \<open>lan-server/src/lobby_filter.rs\<close>: the OData-like filter and sort strings of \<open>FindLobbies\<close>.
  A scanner state is the remaining text; the source keeps the whole text and a byte index,
  and every slice it takes runs from such a position.
\<close>

section \<open>Keys, operators, clauses\<close>

datatype key =
    StringKey u32
  | NumberKey u32
  | MemberCount
  | MaxMemberCount
  | MemberCountRemaining
  | MembershipLock
  | AmOwner
  | AmMember
  | AmServer
  | LobbyId

datatype cmp_op = Eq | Ne | Le | Lt | Ge | Gt

record clause =
  c_key :: key
  c_op :: cmp_op
  c_value :: string
  c_raw :: string

record lobby_filter =
  f_clauses :: "clause list"
  f_unsupported :: "string list"

record lobby_view =
  v_id :: string
  v_max_players :: f64
  v_current_members :: f64
  v_membership_lock :: string
  v_search_data :: object
  v_owner_id :: string
  v_viewer_id :: "string option"
  v_viewer_is_member :: bool
  v_has_server :: bool

record sort_spec =
  ss_key :: key
  ss_desc :: bool
  ss_distance :: "f64 option"

section \<open>Scanner\<close>

definition skip_ws :: "string \<Rightarrow> string" where
  "skip_ws r = dropWhile is_ascii_whitespace r"

definition take_bare :: "string \<Rightarrow> (string \<times> string) option" where
  "take_bare r =
     (let r0 = skip_ws r; tok = takeWhile (\<lambda>c. \<not> is_ascii_whitespace c) r0
      in if tok = [] then None else Some (tok, drop (length tok) r0))"

abbreviation quote :: char where
  "quote \<equiv> CHR 0x27"

text \<open>The body of a quoted value: a doubled quote stands for one, an unterminated one fails.\<close>

fun take_quoted :: "string \<Rightarrow> string \<Rightarrow> (string \<times> string) option" where
  "take_quoted out [] = None"
| "take_quoted out [c] = (if c = quote then Some (out, []) else None)"
| "take_quoted out (c # d # r) =
     (if c = quote then (if d = quote then take_quoted (out @ [quote]) r else Some (out, d # r))
      else take_quoted (out @ [c]) (d # r))"

definition take_value :: "string \<Rightarrow> (string \<times> string) option" where
  "take_value r =
     (case skip_ws r of
        c # cs \<Rightarrow> if c = quote then take_quoted [] cs else take_bare r
      | [] \<Rightarrow> take_bare r)"

section \<open>Parsing\<close>

definition key_number :: "string \<Rightarrow> string \<Rightarrow> u32 option" where
  "key_number pre tok =
     (case strip_prefix pre tok of
        None \<Rightarrow> None
      | Some rest \<Rightarrow>
          (case parse_u32 rest of
             None \<Rightarrow> None
           | Some n \<Rightarrow> if 1 \<le> n \<and> n \<le> 30 then Some n else None))"

definition parse_key :: "string \<Rightarrow> key option" where
  "parse_key tok =
     (case key_number ''string_key'' tok of
        Some n \<Rightarrow> Some (StringKey n)
      | None \<Rightarrow>
          (case key_number ''number_key'' tok of
             Some n \<Rightarrow> Some (NumberKey n)
           | None \<Rightarrow>
               if tok = ''lobby/memberCount'' \<or> tok = ''lobby/currentMemberCount'' then Some MemberCount
               else if tok = ''lobby/maxMemberCount'' then Some MaxMemberCount
               else if tok = ''lobby/memberCountRemaining'' then Some MemberCountRemaining
               else if tok = ''lobby/membershipLock'' then Some MembershipLock
               else if tok = ''lobby/amOwner'' then Some AmOwner
               else if tok = ''lobby/amMember'' then Some AmMember
               else if tok = ''lobby/amServer'' then Some AmServer
               else if tok = ''lobbyId'' \<or> tok = ''lobby/lobbyId'' \<or> tok = ''LobbyId'' then Some LobbyId
               else None))"

definition parse_op :: "string \<Rightarrow> cmp_op option" where
  "parse_op tok =
     (if tok = ''eq'' then Some Eq
      else if tok = ''ne'' then Some Ne
      else if tok = ''le'' then Some Le
      else if tok = ''lt'' then Some Lt
      else if tok = ''ge'' then Some Ge
      else if tok = ''gt'' then Some Gt
      else None)"

definition parse_bool :: "string \<Rightarrow> bool option" where
  "parse_bool s = (if s = ''true'' then Some True else if s = ''false'' then Some False else None)"

fun clause_supported_at :: "key \<Rightarrow> cmp_op \<Rightarrow> string \<Rightarrow> bool" where
  "clause_supported_at (StringKey _) op v \<longleftrightarrow> op = Eq \<or> op = Ne"
| "clause_supported_at LobbyId op v \<longleftrightarrow> op = Eq \<or> op = Ne"
| "clause_supported_at MembershipLock op v \<longleftrightarrow> op = Eq \<or> op = Ne"
| "clause_supported_at AmOwner op v \<longleftrightarrow> (op = Eq \<or> op = Ne) \<and> parse_bool v \<noteq> None"
| "clause_supported_at AmMember op v \<longleftrightarrow> (op = Eq \<or> op = Ne) \<and> parse_bool v \<noteq> None"
| "clause_supported_at AmServer op v \<longleftrightarrow> (op = Eq \<or> op = Ne) \<and> parse_bool v \<noteq> None"
| "clause_supported_at (NumberKey _) op v \<longleftrightarrow> parse_f64 (trim v) \<noteq> None"
| "clause_supported_at MemberCount op v \<longleftrightarrow> parse_f64 (trim v) \<noteq> None"
| "clause_supported_at MaxMemberCount op v \<longleftrightarrow> parse_f64 (trim v) \<noteq> None"
| "clause_supported_at MemberCountRemaining op v \<longleftrightarrow> parse_f64 (trim v) \<noteq> None"

definition clause_supported :: "clause \<Rightarrow> bool" where
  "clause_supported c = clause_supported_at (c_key c) (c_op c) (c_value c)"

abbreviation add_clause :: "clause \<Rightarrow> lobby_filter \<Rightarrow> lobby_filter" where
  "add_clause c out \<equiv> out\<lparr>f_clauses := f_clauses out @ [c]\<rparr>"

abbreviation add_unsupported :: "string \<Rightarrow> lobby_filter \<Rightarrow> lobby_filter" where
  "add_unsupported t out \<equiv> out\<lparr>f_unsupported := f_unsupported out @ [t]\<rparr>"

text \<open>What one \<open>key op value\<close> triple adds to the filter.\<close>

definition push_clause :: "string \<Rightarrow> cmp_op \<Rightarrow> string \<Rightarrow> string \<Rightarrow> lobby_filter \<Rightarrow> lobby_filter" where
  "push_clause key_tok op value raw out =
     (case parse_key key_tok of
        Some key \<Rightarrow>
          (let c = \<lparr>c_key = key, c_op = op, c_value = value, c_raw = raw\<rparr>
           in if clause_supported c then add_clause c out else add_unsupported (c_raw c) out)
      | None \<Rightarrow> add_unsupported raw out)"

lemma length_skip_ws: "length (skip_ws r) \<le> length r"
  by (simp add: skip_ws_def length_dropWhile_le)

lemma take_bare_shrinks: "take_bare r = Some (tok, r') \<Longrightarrow> length r' < length r"
  using length_skip_ws [of r] length_takeWhile_le [of "\<lambda>c. \<not> is_ascii_whitespace c" "skip_ws r"]
  by (cases "skip_ws r") (auto simp: take_bare_def Let_def split: if_splits)

lemma take_quoted_shrinks: "take_quoted out r = Some (v, r') \<Longrightarrow> length r' < length r"
  by (induction out r rule: take_quoted.induct) (auto split: if_splits)

lemma take_value_shrinks: "take_value r = Some (v, r') \<Longrightarrow> length r' < length r"
  using length_skip_ws [of r]
  by (auto simp: take_value_def dest: take_quoted_shrinks take_bare_shrinks split: list.splits if_splits)

function parse_filter_loop :: "lobby_filter \<Rightarrow> string \<Rightarrow> lobby_filter" where
  "parse_filter_loop out r =
     (let start = skip_ws r in
      if start = [] then out
      else (case take_bare start of
        None \<Rightarrow> out
      | Some (key_tok, r1) \<Rightarrow>
          if key_tok = ''or'' then add_unsupported (trim start) out
          else (case take_bare r1 of
            None \<Rightarrow> add_unsupported (trim start) out
          | Some (op_tok, r2) \<Rightarrow>
              (case parse_op op_tok of
                 None \<Rightarrow> add_unsupported (trim start) out
               | Some op \<Rightarrow>
                   (case take_value r2 of
                      None \<Rightarrow> add_unsupported (trim start) out
                    | Some (value, r3) \<Rightarrow>
                        (let raw = trim (take (length start - length r3) start);
                             out' = push_clause key_tok op value raw out
                         in if skip_ws r3 = [] then out'
                            else (case take_bare (skip_ws r3) of
                                    None \<Rightarrow> out'
                                  | Some (jn, r4) \<Rightarrow>
                                      if jn \<noteq> ''and'' then add_unsupported (trim start) out'
                                      else parse_filter_loop out' r4)))))))"
  by pat_completeness auto
termination
proof (relation "measure (\<lambda>(out, r). length r)", goal_cases)
  case (2 out r start x kt r1 y ot r2 op z v r3 raw out' w jn r4)
  then have "length r4 < length (skip_ws r3)" "length r3 < length r2" "length r2 < length r1"
    "length r1 < length start" "length start \<le> length r"
    by (auto intro: take_bare_shrinks take_value_shrinks simp: length_skip_ws)
  with length_skip_ws [of r3] show ?case by simp
qed simp

declare parse_filter_loop.simps [simp del]

definition parse_filter :: "string \<Rightarrow> lobby_filter" where
  "parse_filter s = parse_filter_loop \<lparr>f_clauses = [], f_unsupported = []\<rparr> s"

text \<open>
  \<open>OrderBy\<close>: the terms that can be applied and the text of those that cannot.
\<close>

fun is_number_key :: "key \<Rightarrow> bool" where
  "is_number_key (NumberKey _) = True"
| "is_number_key _ = False"

definition parse_distance :: "string \<Rightarrow> sort_spec option" where
  "parse_distance inner =
     (case split_once (CHR ''='') inner of
        Some (k, v) \<Rightarrow>
          (case (parse_key (trim k), parse_f64 (trim v)) of
             (Some key, Some t) \<Rightarrow>
               if is_number_key key then Some \<lparr>ss_key = key, ss_desc = False, ss_distance = Some t\<rparr> else None
           | _ \<Rightarrow> None)
      | None \<Rightarrow> None)"

definition parse_direction :: "string \<Rightarrow> bool option" where
  "parse_direction dir = (if dir = ''asc'' then Some False else if dir = ''desc'' then Some True else None)"

definition parse_ordered :: "string \<Rightarrow> sort_spec option" where
  "parse_ordered term =
     (case split_whitespace term of
        [k, dir] \<Rightarrow>
          (case (parse_direction dir, parse_key k) of
             (Some desc, Some key) \<Rightarrow>
               if is_number_key key \<or> key = MemberCount \<or> key = MaxMemberCount \<or> key = MemberCountRemaining
               then Some \<lparr>ss_key = key, ss_desc = desc, ss_distance = None\<rparr> else None
           | _ \<Rightarrow> None)
      | _ \<Rightarrow> None)"

definition parse_sort_term :: "string \<Rightarrow> sort_spec option" where
  "parse_sort_term term =
     (case Option.bind (strip_prefix ''distance{'' term) (strip_suffix ''}'') of
        Some inner \<Rightarrow> parse_distance inner
      | None \<Rightarrow> parse_ordered term)"

definition parse_sort :: "string \<Rightarrow> sort_spec list \<times> string list" where
  "parse_sort s =
     (let terms = filter (\<lambda>t. t \<noteq> []) (map trim (split_char (CHR '','') s))
      in (List.map_filter parse_sort_term terms, filter (\<lambda>t. parse_sort_term t = None) terms))"

section \<open>Evaluation\<close>

fun value_as_f64 :: "value \<Rightarrow> f64 option" where
  "value_as_f64 (Number n) = num_as_f64 n"
| "value_as_f64 (String s) = parse_f64 (trim s)"
| "value_as_f64 (Bool b) = Some (F64_fin (if b then 1 else 0))"
| "value_as_f64 _ = None"

fun value_as_str :: "ext \<Rightarrow> value \<Rightarrow> string option" where
  "value_as_str x (String s) = Some s"
| "value_as_str x (Number n) = Some (x_number_str x n)"
| "value_as_str x (Bool b) = Some (if b then ''1'' else ''0'')"
| "value_as_str x _ = None"

definition search_number :: "lobby_view \<Rightarrow> u32 \<Rightarrow> f64 option" where
  "search_number l n = Option.bind (bt_get (v_search_data l) (''number_key'' @ show_nat (unat n))) value_as_f64"

definition search_string :: "ext \<Rightarrow> lobby_view \<Rightarrow> u32 \<Rightarrow> string option" where
  "search_string x l n =
     Option.bind (bt_get (v_search_data l) (''string_key'' @ show_nat (unat n))) (value_as_str x)"

fun cmp_num :: "f64 \<Rightarrow> f64 \<Rightarrow> cmp_op \<Rightarrow> bool" where
  "cmp_num a b Eq = f64_eq a b"
| "cmp_num a b Ne = (\<not> f64_eq a b)"
| "cmp_num a b Le = f64_le a b"
| "cmp_num a b Lt = f64_lt a b"
| "cmp_num a b Ge = f64_le b a"
| "cmp_num a b Gt = f64_lt b a"

text \<open>\<open>Eq\<close> and \<open>Ne\<close> on a truth value; every other operator is the error of the clause.\<close>

fun eq_ne :: "cmp_op \<Rightarrow> string \<Rightarrow> bool \<Rightarrow> string + bool" where
  "eq_ne Eq raw b = Inr b"
| "eq_ne Ne raw b = Inr (\<not> b)"
| "eq_ne _ raw b = Inl raw"

definition num_clause :: "clause \<Rightarrow> (f64 \<Rightarrow> bool) \<Rightarrow> string + bool" where
  "num_clause c f = (case parse_f64 (trim (c_value c)) of None \<Rightarrow> Inl (c_raw c) | Some want \<Rightarrow> Inr (f want))"

definition bool_clause :: "clause \<Rightarrow> bool \<Rightarrow> string + bool" where
  "bool_clause c b =
     (case parse_bool (c_value c) of
        None \<Rightarrow> Inl (c_raw c)
      | Some want \<Rightarrow> eq_ne (c_op c) (c_raw c) (b = want))"

definition eval_clause :: "ext \<Rightarrow> clause \<Rightarrow> lobby_view \<Rightarrow> string + bool" where
  "eval_clause x c l =
     (case c_key c of
        StringKey n \<Rightarrow>
          (case search_string x l n of
             None \<Rightarrow> Inr False
           | Some stored \<Rightarrow> eq_ne (c_op c) (c_raw c) (stored = c_value c))
      | NumberKey n \<Rightarrow>
          num_clause c (\<lambda>want. case search_number l n of
                                 Some stored \<Rightarrow> cmp_num stored want (c_op c)
                               | None \<Rightarrow> False)
      | MemberCount \<Rightarrow> num_clause c (\<lambda>want. cmp_num (v_current_members l) want (c_op c))
      | MaxMemberCount \<Rightarrow> num_clause c (\<lambda>want. cmp_num (v_max_players l) want (c_op c))
      | MemberCountRemaining \<Rightarrow>
          num_clause c (\<lambda>want. cmp_num (f64_sub (v_max_players l) (v_current_members l)) want (c_op c))
      | MembershipLock \<Rightarrow> eq_ne (c_op c) (c_raw c) (eq_ignore_ascii_case (v_membership_lock l) (c_value c))
      | AmOwner \<Rightarrow>
          bool_clause c (case v_viewer_id l of Some v \<Rightarrow> v \<noteq> [] \<and> v = v_owner_id l | None \<Rightarrow> False)
      | AmMember \<Rightarrow> bool_clause c (v_viewer_is_member l)
      | AmServer \<Rightarrow> bool_clause c (v_has_server l)
      | LobbyId \<Rightarrow> eq_ne (c_op c) (c_raw c) (v_id l = c_value c))"

definition filter_matches :: "ext \<Rightarrow> lobby_filter \<Rightarrow> lobby_view \<Rightarrow> bool" where
  "filter_matches x f l \<longleftrightarrow>
     f_unsupported f = [] \<and> (\<forall>c \<in> set (f_clauses f). eval_clause x c l = Inr True)"

section \<open>Order\<close>

fun sort_number :: "lobby_view \<Rightarrow> key \<Rightarrow> f64 option" where
  "sort_number l (NumberKey n) = search_number l n"
| "sort_number l MemberCount = Some (v_current_members l)"
| "sort_number l MaxMemberCount = Some (v_max_players l)"
| "sort_number l MemberCountRemaining = Some (f64_sub (v_max_players l) (v_current_members l))"
| "sort_number l _ = None"

definition dist_key :: "sort_spec \<Rightarrow> f64 \<Rightarrow> f64" where
  "dist_key spec v = (case ss_distance spec of Some t \<Rightarrow> f64_abs (f64_sub v t) | None \<Rightarrow> v)"

definition cmp_spec :: "lobby_view \<Rightarrow> lobby_view \<Rightarrow> sort_spec \<Rightarrow> ordering" where
  "cmp_spec a b spec =
     (case (sort_number a (ss_key spec), sort_number b (ss_key spec)) of
        (None, None) \<Rightarrow> Equal
      | (None, Some _) \<Rightarrow> Greater
      | (Some _, None) \<Rightarrow> Less
      | (Some p, Some q) \<Rightarrow>
          (let r = unwrap_or (partial_cmp (dist_key spec p) (dist_key spec q)) Equal
           in if ss_desc spec then rev_ordering r else r))"

fun cmp_lobbies :: "lobby_view \<Rightarrow> lobby_view \<Rightarrow> sort_spec list \<Rightarrow> ordering" where
  "cmp_lobbies a b [] = Equal"
| "cmp_lobbies a b (spec # specs) =
     (if cmp_spec a b spec \<noteq> Equal then cmp_spec a b spec else cmp_lobbies a b specs)"

section \<open>Filter text of a list of clauses\<close>

fun key_text :: "key \<Rightarrow> string" where
  "key_text (StringKey n) = ''string_key'' @ show_nat (unat n)"
| "key_text (NumberKey n) = ''number_key'' @ show_nat (unat n)"
| "key_text MemberCount = ''lobby/memberCount''"
| "key_text MaxMemberCount = ''lobby/maxMemberCount''"
| "key_text MemberCountRemaining = ''lobby/memberCountRemaining''"
| "key_text MembershipLock = ''lobby/membershipLock''"
| "key_text AmOwner = ''lobby/amOwner''"
| "key_text AmMember = ''lobby/amMember''"
| "key_text AmServer = ''lobby/amServer''"
| "key_text LobbyId = ''lobbyId''"

fun key_in_range :: "key \<Rightarrow> bool" where
  "key_in_range (StringKey n) \<longleftrightarrow> 1 \<le> n \<and> n \<le> 30"
| "key_in_range (NumberKey n) \<longleftrightarrow> 1 \<le> n \<and> n \<le> 30"
| "key_in_range _ \<longleftrightarrow> True"

fun op_text :: "cmp_op \<Rightarrow> string" where
  "op_text Eq = ''eq''"
| "op_text Ne = ''ne''"
| "op_text Le = ''le''"
| "op_text Lt = ''lt''"
| "op_text Ge = ''ge''"
| "op_text Gt = ''gt''"

definition double_quotes :: "string \<Rightarrow> string" where
  "double_quotes v = concat (map (\<lambda>c. if c = quote then [quote, quote] else [c]) v)"

definition clause_text :: "clause \<Rightarrow> string" where
  "clause_text c =
     key_text (c_key c) @ '' '' @ op_text (c_op c) @ '' '' @ [quote] @ double_quotes (c_value c) @ [quote]"

lemma take_quoted_double:
  "rest = [] \<or> hd rest \<noteq> quote \<Longrightarrow>
   take_quoted out (double_quotes v @ quote # rest) = Some (out @ v, rest)"
proof (induction v arbitrary: out)
  case Nil
  then show ?case by (cases rest) (auto simp: double_quotes_def)
next
  case (Cons c v)
  then show ?case by (cases "double_quotes v @ quote # rest") (auto simp: double_quotes_def)
qed

definition bare :: "string \<Rightarrow> bool" where
  "bare tok \<longleftrightarrow> tok \<noteq> [] \<and> (\<forall>c \<in> set tok. \<not> is_ascii_whitespace c)"

lemma space_ws [simp]: "is_ascii_whitespace CHR '' ''"
  by (simp add: is_ascii_whitespace_def)

lemma skip_ws_bare: "bare tok \<Longrightarrow> skip_ws (tok @ r) = tok @ r"
  by (cases tok) (auto simp: bare_def skip_ws_def)

lemma skip_ws_space [simp]: "skip_ws (CHR '' '' # r) = skip_ws r"
  by (simp add: skip_ws_def)

lemma take_bare_tok:
  assumes "bare tok"
  shows "take_bare (tok @ CHR '' '' # r) = Some (tok, CHR '' '' # r)"
    and "take_bare (CHR '' '' # tok @ CHR '' '' # r) = Some (tok, CHR '' '' # r)"
proof -
  have "takeWhile (\<lambda>c. \<not> is_ascii_whitespace c) (tok @ CHR '' '' # r) = tok"
    using assms by (simp add: bare_def takeWhile_append2)
  then show "take_bare (tok @ CHR '' '' # r) = Some (tok, CHR '' '' # r)"
    and "take_bare (CHR '' '' # tok @ CHR '' '' # r) = Some (tok, CHR '' '' # r)"
    using assms skip_ws_bare [OF assms, of "CHR '' '' # r"] by (simp_all add: take_bare_def bare_def)
qed

lemma bare_key: "bare (key_text k)"
proof -
  have "\<not> is_ascii_whitespace c" if "c \<in> set (show_nat n)" for c n
    using show_nat_digits [OF that] by (auto simp: is_ascii_digit_def is_ascii_whitespace_def)
  then show ?thesis by (cases k) (auto simp: bare_def is_ascii_whitespace_def)
qed

lemma bare_op: "bare (op_text op)"
  by (cases op) (auto simp: bare_def is_ascii_whitespace_def)

lemma parse_op_text [simp]: "parse_op (op_text op) = Some op"
  by (cases op) (simp_all add: parse_op_def)

lemma parse_u32_show: "parse_u32 (show_nat (unat n)) = Some n"
  using unat_bound [of n] by (simp add: parse_u32_def parse_unsigned_show_nat)

lemma parse_key_text: "key_in_range k \<Longrightarrow> parse_key (key_text k) = Some k"
  by (cases k) (simp_all add: parse_key_def key_number_def strip_prefix_def starts_with_def parse_u32_show)

lemma key_text_not_or: "key_text k \<noteq> ''or''"
  by (cases k) auto

lemma trim_id: "front_ws s = 0 \<Longrightarrow> back_ws s = 0 \<Longrightarrow> trim s = s"
  by (simp add: trim_def trim_start.simps trim_end.simps)

lemma front_ws_clause: "front_ws (clause_text c) = 0"
  by (cases "c_key c") (simp_all add: clause_text_def front_ws_def ws_len_def)

lemma ws_len_quote: "ws_len [39] = 0" "ws_len [a, 39] \<noteq> 2" "ws_len [a, b, 39] \<noteq> 3"
  by (simp_all add: ws_len_def)

lemma back_ws_quote: "back_ws (s @ [quote]) = 0"
proof (cases s rule: rev_cases)
  case Nil
  then show ?thesis by (simp add: back_ws_def ws_len_quote)
next
  case (snoc t b)
  note tb = this
  show ?thesis
  proof (cases t rule: rev_cases)
    case Nil
    then show ?thesis using tb by (simp add: back_ws_def ws_len_quote)
  next
    case (snoc u a)
    let ?bs = "map ord_char (s @ [quote])"
    have n: "length (s @ [quote]) = length u + 3" using tb snoc by simp
    have "drop (length u + 3 - 1) ?bs = [39]" "drop (length u + 3 - 2) ?bs = [ord_char b, 39]"
      "drop (length u + 3 - 3) ?bs = [ord_char a, ord_char b, 39]"
      using tb snoc by (simp_all add: numeral_3_eq_3 numeral_2_eq_2)
    then show ?thesis unfolding back_ws_def Let_def n by (simp add: ws_len_quote)
  qed
qed

lemma trim_clause: "trim (clause_text c) = clause_text c"
  using back_ws_quote [of "key_text (c_key c) @ '' '' @ op_text (c_op c) @ '' '' @ [quote] @ double_quotes (c_value c)"]
  by (intro trim_id front_ws_clause) (simp add: clause_text_def)


lemma take_value_quoted:
  "rest = [] \<or> hd rest \<noteq> quote \<Longrightarrow>
   take_value (CHR '' '' # quote # double_quotes v @ quote # rest) = Some (v, rest)"
  using take_quoted_double [of rest "[]" v]
  by (simp add: take_value_def) (simp add: skip_ws_def is_ascii_whitespace_def)

lemma loop_clause:
  assumes "clause_supported c" and "key_in_range (c_key c)" and "c_raw c = clause_text c"
    and "rest = [] \<or> hd rest \<noteq> quote"
  shows "parse_filter_loop out (clause_text c @ rest) =
    (if skip_ws rest = [] then add_clause c out
     else (case take_bare (skip_ws rest) of
             None \<Rightarrow> add_clause c out
           | Some (jn, r4) \<Rightarrow>
               if jn \<noteq> ''and'' then add_unsupported (trim (clause_text c @ rest)) (add_clause c out)
               else parse_filter_loop (add_clause c out) r4))"
proof -
  let ?q = "CHR '' '' # quote # double_quotes (c_value c) @ quote # rest"
  let ?s = "key_text (c_key c) @ CHR '' '' # op_text (c_op c) @ ?q"
  have s: "clause_text c @ rest = ?s" by (simp add: clause_text_def)
  have k: "take_bare ?s = Some (key_text (c_key c), CHR '' '' # op_text (c_op c) @ ?q)"
    by (rule take_bare_tok(1) [OF bare_key])
  have o: "take_bare (CHR '' '' # op_text (c_op c) @ ?q) = Some (op_text (c_op c), ?q)"
    by (rule take_bare_tok(2) [OF bare_op])
  have sk: "skip_ws ?s = ?s" "?s \<noteq> []" by (rule skip_ws_bare [OF bare_key], simp)
  have v: "take_value ?q = Some (c_value c, rest)" by (rule take_value_quoted [OF assms(4)])
  have raw: "trim (take (length ?s - length rest) ?s) = c_raw c"
    using assms(3) trim_clause [of c] by (simp add: s [symmetric] del: append.simps append_assoc)
  have "push_clause (key_text (c_key c)) (c_op c) (c_value c) (c_raw c) out = add_clause c out"
    using assms(1) parse_key_text [OF assms(2)] by (cases c) (simp add: push_clause_def)
  then show ?thesis
    unfolding s by (subst parse_filter_loop.simps) (simp only: sk k o v raw Let_def parse_op_text
        key_text_not_or option.case prod.case if_False not_False_eq_True)
qed

lemma loop_clauses:
  assumes "\<forall>c \<in> set cs. clause_supported c \<and> key_in_range (c_key c) \<and> c_raw c = clause_text c"
  shows "parse_filter_loop out (join '' and '' (map clause_text cs)) =
    out\<lparr>f_clauses := f_clauses out @ cs\<rparr>"
  using assms
proof (induction cs arbitrary: out)
  case Nil
  then show ?case by (simp add: join_def parse_filter_loop.simps skip_ws_def)
next
  case (Cons c cs)
  note c = Cons.prems [THEN bspec, of c, simplified]
  show ?case
  proof (cases cs)
    case Nil
    then show ?thesis
      using loop_clause [of c "[]" out] c by (simp add: join_def skip_ws_def)
  next
    case (Cons d ds)
    let ?rest = "'' and '' @ join '' and '' (map clause_text cs)"
    have j: "join '' and '' (map clause_text (c # cs)) = clause_text c @ ?rest"
      using Cons by (simp add: join_def)
    have b: "bare ''and''" by (simp add: bare_def is_ascii_whitespace_def)
    have sk: "skip_ws ?rest = ''and'' @ CHR '' '' # join '' and '' (map clause_text cs)"
      using skip_ws_bare [OF b] by simp
    have tb: "take_bare (skip_ws ?rest) = Some (''and'', CHR '' '' # join '' and '' (map clause_text cs))"
      unfolding sk by (rule take_bare_tok(1) [OF b])
    have sp: "parse_filter_loop q (CHR '' '' # r) = parse_filter_loop q r" for q r
      by (simp add: parse_filter_loop.simps [of q])
    have "?rest = [] \<or> hd ?rest \<noteq> quote" by simp
    from loop_clause [OF conjunct1 [OF c] _ _ this, of out] c
    have "parse_filter_loop out (clause_text c @ ?rest) = parse_filter_loop (add_clause c out) (join '' and '' (map clause_text cs))"
      using sk tb by (simp add: sp del: append.simps)
    then show ?thesis
      unfolding j using Cons.IH [of "add_clause c out"] Cons.prems by simp
  qed
qed

text \<open>
  C30: parsing the text of a list of supported clauses joined by and gives back exactly these
  clauses and reports nothing as unsupported.
\<close>

theorem parse_filter_text:
  assumes "\<forall>c \<in> set cs. clause_supported c \<and> key_in_range (c_key c) \<and> c_raw c = clause_text c"
  shows "parse_filter (join '' and '' (map clause_text cs)) = \<lparr>f_clauses = cs, f_unsupported = []\<rparr>"
  unfolding parse_filter_def loop_clauses [OF assms] by simp

theorem parse_filter_text_witness:
  "parse_filter (clause_text \<lparr>c_key = LobbyId, c_op = Eq, c_value = ''it''@[quote]@''s'', c_raw = []\<rparr>) =
    \<lparr>f_clauses = [\<lparr>c_key = LobbyId, c_op = Eq, c_value = ''it''@[quote]@''s'',
        c_raw = ''lobbyId eq '' @ [quote] @ ''it'' @ [quote, quote] @ ''s'' @ [quote]\<rparr>], f_unsupported = []\<rparr>"
  using parse_filter_text [of "[\<lparr>c_key = LobbyId, c_op = Eq, c_value = ''it''@[quote]@''s'',
        c_raw = ''lobbyId eq '' @ [quote] @ ''it'' @ [quote, quote] @ ''s'' @ [quote]\<rparr>]"]
  by (simp add: clause_supported_def clause_text_def double_quotes_def join_def)

section \<open>Evaluation of parsed clauses\<close>

lemma supported_eval: "clause_supported c \<Longrightarrow> \<exists>b. eval_clause x c l = Inr b"
  by (cases "c_key c")
    (auto simp: clause_supported_def eval_clause_def num_clause_def bool_clause_def split: option.splits)

lemma push_clause_supported:
  "\<forall>c \<in> set (f_clauses out). clause_supported c \<Longrightarrow>
   \<forall>c \<in> set (f_clauses (push_clause k op v raw out)). clause_supported c"
  by (auto simp: push_clause_def Let_def split: option.splits)

lemma loop_supported:
  "\<forall>c \<in> set (f_clauses out). clause_supported c \<Longrightarrow>
   \<forall>c \<in> set (f_clauses (parse_filter_loop out r)). clause_supported c"
proof (induction out r rule: parse_filter_loop.induct)
  case (1 out r)
  note push = push_clause_supported [OF 1(2)]
  show ?case
    apply (subst parse_filter_loop.simps)
    using 1 push by (auto simp: Let_def split: option.splits)
qed

text \<open>
  Every clause the parser accepts evaluates without error on every lobby, so a filter fails
  closed only on the clauses it reported.
\<close>

theorem parsed_clauses_evaluate:
  assumes "c \<in> set (f_clauses (parse_filter s))"
  shows "\<exists>b. eval_clause x c l = Inr b"
  using assms loop_supported [of "\<lparr>f_clauses = [], f_unsupported = []\<rparr>" s]
  by (auto simp: parse_filter_def intro: supported_eval)


theorem parsed_clauses_evaluate_witness:
  "\<forall>x l. \<exists>b. eval_clause x \<lparr>c_key = LobbyId, c_op = Eq, c_value = ''a'',
     c_raw = ''lobbyId eq '' @ [quote] @ ''a'' @ [quote]\<rparr> l = Inr b"
proof (intro allI, rule parsed_clauses_evaluate)
  let ?c = "\<lparr>c_key = LobbyId, c_op = Eq, c_value = ''a'', c_raw = ''lobbyId eq '' @ [quote] @ ''a'' @ [quote]\<rparr>"
  show "?c \<in> set (f_clauses (parse_filter (join '' and '' (map clause_text [?c]))))"
    unfolding parse_filter_def
    by (subst loop_clauses) (simp_all add: clause_supported_def clause_text_def double_quotes_def)
qed

section \<open>The sort order\<close>

definition sort_key :: "sort_spec \<Rightarrow> lobby_view \<Rightarrow> f64 option" where
  "sort_key spec v = map_option (dist_key spec) (sort_number v (ss_key spec))"

definition sortable :: "sort_spec list \<Rightarrow> lobby_view \<Rightarrow> bool" where
  "sortable specs v \<longleftrightarrow> (\<forall>spec \<in> set specs. sort_key spec v \<noteq> Some F64_nan)"

lemma partial_cmp_flip: "partial_cmp b a = map_option rev_ordering (partial_cmp a b)"
  by (auto simp: partial_cmp_def f64_eq_iff dest: f64_lt_asym)

lemma cmp_spec_flip: "cmp_spec b a spec = rev_ordering (cmp_spec a b spec)"
proof (cases "sort_number a (ss_key spec)"; cases "sort_number b (ss_key spec)")
  fix p q
  assume "sort_number a (ss_key spec) = Some p" "sort_number b (ss_key spec) = Some q"
  then show ?thesis
    using partial_cmp_flip [of "dist_key spec q" "dist_key spec p"]
    by (cases "partial_cmp (dist_key spec p) (dist_key spec q)") (simp_all add: cmp_spec_def)
qed (simp_all add: cmp_spec_def)

lemma cmp_lobbies_then_with:
  "cmp_lobbies a b (spec # specs) = then_with (cmp_spec a b spec) (cmp_lobbies a b specs)"
  by (cases "cmp_spec a b spec") simp_all

lemma partial_cmp_Greater: "partial_cmp a b = Some Greater \<longleftrightarrow> f64_lt b a"
  by (auto simp: partial_cmp_def dest: f64_lt_asym)

lemma partial_cmp_Less: "partial_cmp a b = Some Less \<longleftrightarrow> f64_lt a b"
  by (auto simp: partial_cmp_def)

lemma not_lt_trans:
  "a \<noteq> F64_nan \<Longrightarrow> b \<noteq> F64_nan \<Longrightarrow> c \<noteq> F64_nan \<Longrightarrow> \<not> f64_lt b a \<Longrightarrow> \<not> f64_lt c b \<Longrightarrow> \<not> f64_lt c a"
  by (cases a; cases b; cases c) auto

lemma cmp_spec_Greater:
  "cmp_spec a b spec = Greater \<longleftrightarrow>
     (case (sort_key spec a, sort_key spec b) of
        (None, Some _) \<Rightarrow> True
      | (Some p, Some q) \<Rightarrow> if ss_desc spec then f64_lt p q else f64_lt q p
      | _ \<Rightarrow> False)"
proof -
  have "unwrap_or r Equal = Greater \<longleftrightarrow> r = Some Greater" "unwrap_or r Equal = Less \<longleftrightarrow> r = Some Less" for r
    by (cases r; simp)+
  then show ?thesis
    by (simp add: cmp_spec_def sort_key_def Let_def partial_cmp_Greater partial_cmp_Less split: option.splits)
qed

lemma total_cmp_spec: "total_cmp {v. sort_key spec v \<noteq> Some F64_nan} (\<lambda>a b. cmp_spec a b spec)"
  by unfold_locales
    (rule cmp_spec_flip,
     auto simp: cmp_spec_Greater split: option.splits if_splits dest: not_lt_trans)

lemma total_cmp_mono: "total_cmp A cmp \<Longrightarrow> B \<subseteq> A \<Longrightarrow> total_cmp B cmp"
  unfolding total_cmp_def by blast

lemma total_cmp_lobbies: "total_cmp {v. sortable specs v} (\<lambda>a b. cmp_lobbies a b specs)"
proof (induction specs)
  case Nil
  then show ?case by (simp add: total_cmp_def)
next
  case (Cons spec specs)
  have "total_cmp {v. sortable (spec # specs) v} (\<lambda>a b. cmp_spec a b spec)"
    by (rule total_cmp_mono [OF total_cmp_spec]) (auto simp: sortable_def)
  moreover have "total_cmp {v. sortable (spec # specs) v} (\<lambda>a b. cmp_lobbies a b specs)"
    by (rule total_cmp_mono [OF Cons]) (auto simp: sortable_def)
  ultimately show ?case
    unfolding cmp_lobbies_then_with by (rule total_cmp_then_with)
qed

interpretation lobby_cmp: total_cmp "{v. sortable specs v}" "\<lambda>a b. cmp_lobbies a b specs" for specs
  by (rule total_cmp_lobbies)

text \<open>
  Comparison of lobbies by any list of sort terms is a total preorder on lobbies whose sort
  values are not NaN, as the standard library's sort requires.
\<close>

theorem cmp_lobbies_total_preorder:
  assumes "sortable specs a" and "sortable specs b" and "sortable specs c"
  shows "cmp_lobbies b a specs = rev_ordering (cmp_lobbies a b specs) \<and>
    (cmp_lobbies a b specs \<noteq> Greater \<and> cmp_lobbies b c specs \<noteq> Greater \<longrightarrow> cmp_lobbies a c specs \<noteq> Greater)"
  using lobby_cmp.flip [of a specs b] lobby_cmp.trans [of a specs b c] assms by auto

definition demo_view :: "string \<Rightarrow> value \<Rightarrow> lobby_view" where
  "demo_view i n = \<lparr>v_id = i, v_max_players = F64_fin 8, v_current_members = F64_fin 2,
     v_membership_lock = ''Unlocked'', v_search_data = [(''number_key1'', n)], v_owner_id = ''o'',
     v_viewer_id = None, v_viewer_is_member = False, v_has_server = False\<rparr>"

definition demo_spec :: sort_spec where
  "demo_spec = \<lparr>ss_key = NumberKey 1, ss_desc = False, ss_distance = None\<rparr>"

lemma cmp_single: "cmp_lobbies a b [spec] = cmp_spec a b spec"
  by simp

lemma show_nat_1: "show_nat (Suc 0) = ''1''"
  by (simp add: show_nat.simps char_of_def bit_0)

lemma sort_key_demo: "sort_key demo_spec (demo_view i n) = value_as_f64 n"
  by (cases "value_as_f64 n")
   (simp_all add: sort_key_def demo_spec_def demo_view_def search_number_def show_nat_1 dist_key_def)

theorem cmp_lobbies_total_preorder_witness:
  "cmp_lobbies (demo_view ''b'' (Bool True)) (demo_view ''a'' (Bool False)) [demo_spec] = Greater \<and>
   cmp_lobbies (demo_view ''b'' (Bool True)) (demo_view ''a'' (Bool False)) [demo_spec] =
     rev_ordering (cmp_lobbies (demo_view ''a'' (Bool False)) (demo_view ''b'' (Bool True)) [demo_spec])"
proof -
  have "sortable [demo_spec] (demo_view i (Bool v))" for i v by (simp add: sortable_def sort_key_demo)
  moreover have "cmp_spec (demo_view ''b'' (Bool True)) (demo_view ''a'' (Bool False)) demo_spec = Greater"
    by (subst cmp_spec_Greater) (simp add: sort_key_demo demo_spec_def [THEN arg_cong, of ss_desc])
  ultimately show ?thesis
    using cmp_lobbies_total_preorder [of "[demo_spec]" "demo_view ''a'' (Bool False)" "demo_view ''b'' (Bool True)"
        "demo_view ''b'' (Bool True)"]
    by (simp only: cmp_single simp_thms)
qed

theorem nan_breaks_sort_order:
  "\<exists>a b c spec. cmp_lobbies a b [spec] \<noteq> Greater \<and> cmp_lobbies b c [spec] \<noteq> Greater \<and>
     cmp_lobbies a c [spec] = Greater \<and> bt_get (v_search_data b) ''number_key1'' = Some (String ''nan'')"
proof (intro exI conjI)
  let ?a = "demo_view ''a'' (Bool True)" and ?b = "demo_view ''b'' (String ''nan'')"
    and ?c = "demo_view ''c'' (Bool False)"
  have "trim ''nan'' = ''nan''"
    by (rule trim_id) (simp_all add: front_ws_def back_ws_def ws_len_def)
  then have nan: "value_as_f64 (String ''nan'') = Some F64_nan"
    by (simp add: parse_f64_def to_ascii_lowercase_def ascii_lower_def)
  show "cmp_lobbies ?a ?b [demo_spec] \<noteq> Greater" "cmp_lobbies ?b ?c [demo_spec] \<noteq> Greater"
    "cmp_lobbies ?a ?c [demo_spec] = Greater"
    by (simp_all only: cmp_single cmp_spec_Greater, simp_all add: sort_key_demo nan demo_spec_def [THEN arg_cong, of ss_desc] del: value_as_f64.simps(2))
  show "bt_get (v_search_data ?b) ''number_key1'' = Some (String ''nan'')" by (simp add: demo_view_def)
qed

end
