(* ===== verification/Broker_State.thy ===== *)
theory Broker_State
  imports Lobby_Filter
begin

text \<open>
  The state of the LAN broker (\<open>lan-server/src/main.rs\<close>) and the helpers its handlers share:
  responses, field access on request bodies, member data, lobby views and sessions. Clock
  readings (\<open>now_unix\<close>, \<open>now_secs\<close>) are arguments. A \<open>u16\<close> status, content type and body make
  a response. Log lines have no part in the state and are left out.
\<close>

type_synonym response = "u16 \<times> string \<times> bytes"
type_synonym headers = "(string, string) hmap"

definition TITLE_DEFAULT :: string where "TITLE_DEFAULT = ''1AC1AD''"
definition BLOB_KEY :: bytes where "BLOB_KEY = as_bytes ''kdfg8kojildksuie23jsdfg8fg7klsdx''"
definition WS_GUID :: string where "WS_GUID = ''258EAFA5-E914-47DA-95CA-C5AB0DC85B11''"
definition MIN_PLAYERS :: int where "MIN_PLAYERS = 2"
definition MAX_PLAYERS_CEILING :: int where "MAX_PLAYERS_CEILING = 32"
definition DEFAULT_MAX_PLAYERS :: int where "DEFAULT_MAX_PLAYERS = 8"
definition PARTY_SEEN_TTL_SECS :: f64 where "PARTY_SEEN_TTL_SECS = F64_fin 30"
definition RATE_LIMIT_SECS :: f64 where "RATE_LIMIT_SECS = F64_fin 30"

record player =
  pl_playfab_id :: string
  pl_entity_id :: string
  pl_entity_type :: string
  pl_entity_token :: string
  pl_session_ticket :: string
  pl_token_expiration :: string

record lobby =
  l_id :: string
  l_connection :: string
  l_owner :: "value"
  l_owner_migration_policy :: int
  l_max_players :: int
  l_lobby_data :: object
  l_search_data :: object
  l_access_policy :: string
  l_membership_lock :: string
  l_members :: "value list"
  l_created :: f64

record party_member =
  pm_entity_id :: string
  pm_ip :: string
  pm_udp_port :: u16
  pm_seen :: f64
  pm_member_seq :: u64

type_synonym network = "(string, party_member) hmap"

record app =
  title_id :: string
  http_port :: u16
  ws_port :: u16
  app_max_players :: int
  override_game_max :: bool
  sessions :: "(string, player) hmap"
  lobbies :: "(string, lobby) hmap"
  party :: "(string, network) hmap"

section \<open>Responses and digests\<close>

definition utc_iso :: "f64 \<Rightarrow> string" where
  "utc_iso hours = ''2027-01-01T00:00:00.000Z''"

definition clamp_max_players :: "int \<Rightarrow> int" where
  "clamp_max_players n = max MIN_PLAYERS (min n MAX_PLAYERS_CEILING)"

definition sha1_hex :: "ext \<Rightarrow> string \<Rightarrow> string" where
  "sha1_hex x s = concat (map show_hex02 (x_sha1 x (as_bytes s)))"

definition playfab_ok :: "ext \<Rightarrow> value \<Rightarrow> response" where
  "playfab_ok x data =
     (200, ''application/json'',
      unwrap_or (x_to_vec x (jobj [(''code'', jint 200), (''status'', String ''OK''), (''data'', data)])) [])"

definition playfab_status :: "string \<Rightarrow> u16 \<times> int \<times> string" where
  "playfab_status error =
     (if error = ''LobbyNotFound'' then (404, 404, ''NotFound'')
      else if error = ''LobbyMemberLimitExceeded'' \<or> error = ''PartyMemberLimitExceeded'' then (409, 409, ''Conflict'')
      else (400, 400, ''BadRequest''))"

definition playfab_err :: "ext \<Rightarrow> string \<Rightarrow> string \<Rightarrow> response" where
  "playfab_err x error message =
     (case playfab_status error of
        (status, code, status_text) \<Rightarrow>
          (status, ''application/json'',
           unwrap_or (x_to_vec x (jobj [(''code'', jint code), (''status'', String status_text),
             (''error'', String error), (''errorCode'', jint 1114), (''errorMessage'', String message)])) []))"

definition truncate_chars :: "string \<Rightarrow> nat \<Rightarrow> string" where
  "truncate_chars s n = (if char_count s \<le> n then s else take_chars n s)"

definition cygames_ok :: "ext \<Rightarrow> value \<Rightarrow> response" where
  "cygames_ok x data =
     (200, ''application/json'',
      unwrap_or (x_to_vec x (jobj [(''meta'', jobj [(''error_code'', jint 0)]), (''common'', Array []),
        (''data'', data), (''responseCode'', jint 0)])) [])"

definition boot_nonce :: "u64 \<Rightarrow> bytes" where
  "boot_nonce secs = le_bytes64 secs @ take 4 (le_bytes64 secs)"

definition encode_boot_blob :: "ext \<Rightarrow> u64 \<Rightarrow> bytes \<Rightarrow> bytes" where
  "encode_boot_blob x secs plaintext =
     (let ct = unwrap_or (x_encrypt x BLOB_KEY (boot_nonce secs) plaintext) []
      in as_bytes (x_b64_encode x (boot_nonce secs @ ct)))"

definition decode_boot_blob :: "ext \<Rightarrow> bytes \<Rightarrow> string + bytes" where
  "decode_boot_blob x body =
     (case x_b64_decode x body of
        Inl e \<Rightarrow> Inl e
      | Inr packed \<Rightarrow>
          if length packed < 28 then Inl ''boot blob shorter than nonce+tag''
          else x_decrypt x BLOB_KEY (take 12 packed) (drop 12 packed))"

section \<open>Fields of a request body\<close>

definition json_str :: "value \<Rightarrow> string \<Rightarrow> string option" where
  "json_str v key = Option.bind (jget v key) as_str"

definition json_i64 :: "value \<Rightarrow> string \<Rightarrow> int option" where
  "json_i64 v key =
     Option.bind (jget v key)
       (\<lambda>y. or_else (as_i64 y)
              (or_else (map_option (\<lambda>n. wrap_i64 (uint n)) (as_u64 y)) (Option.bind (as_str y) parse_i64)))"

fun json_str_array :: "value \<Rightarrow> string list \<Rightarrow> string list" where
  "json_str_array v [] = []"
| "json_str_array v (key # keys) =
     (case Option.bind (jget v key) as_array of
        Some arr \<Rightarrow> List.map_filter as_str arr
      | None \<Rightarrow> json_str_array v keys)"

text \<open>\<open>qs.split('&').find_map(|kv| kv.strip_prefix(pat))\<close>.\<close>

definition qs_find :: "string \<Rightarrow> string \<Rightarrow> string option" where
  "qs_find pat qs =
     (case List.map_filter (strip_prefix pat) (split_char (CHR ''&'') qs) of
        [] \<Rightarrow> None
      | v # _ \<Rightarrow> Some v)"

fun member_seq_from :: "value \<Rightarrow> string \<Rightarrow> string list \<Rightarrow> u64" where
  "member_seq_from body qs [] = 0"
| "member_seq_from body qs (key # keys) =
     (case opt_filter (\<lambda>n. 0 < n) (json_i64 body key) of
        Some n \<Rightarrow> of_int n
      | None \<Rightarrow>
          (case opt_filter (\<lambda>v. 0 < v) (Option.bind (qs_find (key @ ''='') qs) parse_u64) of
             Some v \<Rightarrow> v
           | None \<Rightarrow> member_seq_from body qs keys))"

definition member_seq_of :: "value \<Rightarrow> string \<Rightarrow> u64" where
  "member_seq_of body qs = member_seq_from body qs [''member_seq'', ''join_epoch'', ''join_seq'']"

definition member_id :: "value \<Rightarrow> string" where
  "member_id m =
     (case json_str m ''Id'' of
        Some i \<Rightarrow> i
      | None \<Rightarrow> unwrap_or (Option.bind (jget m ''MemberEntity'') (\<lambda>e. json_str e ''Id'')) [])"

section \<open>Member data\<close>

definition all_digits :: "string \<Rightarrow> bool" where
  "all_digits s \<longleftrightarrow> s \<noteq> [] \<and> (\<forall>c \<in> set s. is_ascii_digit c)"

definition fnv_step :: "u64 \<Rightarrow> u8 \<Rightarrow> u64" where
  "fnv_step n b = (n XOR ucast b) * 16777619"

definition decimal_account_id :: "string \<Rightarrow> string" where
  "decimal_account_id entity_id =
     (if all_digits entity_id then entity_id
      else (let n = fold (\<lambda>b n. fnv_step n b) (as_bytes entity_id) 2166136261
            in show_nat (unat (if n = 0 then 1 else n))))"

fun value_as_string :: "ext \<Rightarrow> value \<Rightarrow> string option" where
  "value_as_string x (String s) = Some s"
| "value_as_string x (Number n) = Some (x_number_str x n)"
| "value_as_string x (Bool b) = Some (if b then ''1'' else ''0'')"
| "value_as_string x _ = None"

definition map_keys :: "object \<Rightarrow> string" where
  "map_keys m = join '','' (map fst m)"

definition stringify_key :: "ext \<Rightarrow> object \<Rightarrow> string \<Rightarrow> object" where
  "stringify_key x data key =
     (case bt_get data key of
        Some v \<Rightarrow>
          if is_string v then data
          else (case value_as_string x v of Some s \<Rightarrow> bt_insert data key (String s) | None \<Rightarrow> data)
      | None \<Rightarrow> data)"

definition fill_member_data :: "ext \<Rightarrow> object \<Rightarrow> string \<Rightarrow> object" where
  "fill_member_data x data0 eid =
     (let data1 = foldl (stringify_key x) data0
                    [''member_platform'', ''member_platform_account_id'', ''member_platform_user_name''];
          plat = unwrap_or (Option.bind (bt_get data1 ''member_platform'') as_str) [];
          data2 = (if plat = [] \<or> plat = ''1'' then bt_insert data1 ''member_platform'' (String ''Steam'') else data1);
          acct_ok = unwrap_or (map_option all_digits
                      (Option.bind (bt_get data2 ''member_platform_account_id'') as_str)) False;
          data3 = (if acct_ok then data2
                   else bt_insert data2 ''member_platform_account_id'' (String (decimal_account_id eid)))
      in if bt_get data3 ''member_platform_user_name'' = None
         then bt_insert data3 ''member_platform_user_name'' (String ''LAN'') else data3)"

text \<open>\<open>obj.insert(k, v)\<close> on a value that is an object; other values are left alone.\<close>

fun set_field :: "value \<Rightarrow> string \<Rightarrow> value \<Rightarrow> value" where
  "set_field (Object m) k v = Object (bt_insert m k v)"
| "set_field w k v = w"

definition members_for_client :: "ext \<Rightarrow> lobby \<Rightarrow> value list" where
  "members_for_client x lobby =
     map (\<lambda>m. set_field m ''MemberData''
                (Object (fill_member_data x (unwrap_or (Option.bind (jget m ''MemberData'') as_object) [])
                   (member_id m))))
       (l_members lobby)"

definition is_loopback_ip_srv :: "string \<Rightarrow> bool" where
  "is_loopback_ip_srv s0 =
     (let s = trim s0
      in s = ''127.0.0.1'' \<or> s = ''::1'' \<or> s = ''0.0.0.0'' \<or> starts_with s ''127.'')"

section \<open>Lobbies\<close>

definition lobby_owner_id :: "lobby \<Rightarrow> string" where
  "lobby_owner_id lobby =
     (case json_str (l_owner lobby) ''Id'' of
        Some s \<Rightarrow> s
      | None \<Rightarrow> unwrap_or (as_str (l_owner lobby)) [])"

definition lobby_lan1_network_id :: "lobby \<Rightarrow> string option" where
  "lobby_lan1_network_id lobby =
     Option.bind (bt_get (l_lobby_data lobby) ''network_descriptor'') (\<lambda>v.
     Option.bind (as_str v) (\<lambda>desc.
     Option.bind (strip_prefix ''LAN1.'' desc) (\<lambda>rest.
       (let nid = hd (split_char (CHR ''.'') rest)
        in if length nid \<ge> 8 then Some nid else None))))"

definition lobby_owner_in_party :: "app \<Rightarrow> lobby \<Rightarrow> f64 \<Rightarrow> bool" where
  "lobby_owner_in_party app lobby now =
     (case lobby_lan1_network_id lobby of
        None \<Rightarrow> False
      | Some nid \<Rightarrow>
          (let owner = lobby_owner_id lobby
           in if owner = [] then False
              else (case Option.bind (hm_get (party app) nid) (\<lambda>net. hm_get net owner) of
                      Some m \<Rightarrow> f64_le (f64_sub now (pm_seen m)) PARTY_SEEN_TTL_SECS
                    | None \<Rightarrow> False)))"

definition drop_owner_lobbies :: "app \<Rightarrow> string \<Rightarrow> app" where
  "drop_owner_lobbies app owner_id =
     (if owner_id = [] then app
      else (let stale = map fst (filter (\<lambda>(_, l). lobby_owner_id l = owner_id) (lobbies app))
            in app\<lparr>lobbies := foldl hm_remove (lobbies app) stale\<rparr>))"

fun header_entity :: "app \<Rightarrow> headers \<Rightarrow> string list \<Rightarrow> string option" where
  "header_entity app headers [] = None"
| "header_entity app headers (hk # hks) =
     (case Option.bind (hm_get headers hk) (hm_get (sessions app)) of
        Some p \<Rightarrow> Some (pl_entity_id p)
      | None \<Rightarrow> header_entity app headers hks)"

fun body_entity :: "value \<Rightarrow> string list \<Rightarrow> string option" where
  "body_entity body [] = None"
| "body_entity body (key # keys) =
     (case Option.bind (jget body key) (\<lambda>e. json_str e ''Id'') of
        Some i \<Rightarrow> Some i
      | None \<Rightarrow> body_entity body keys)"

definition request_entity_id :: "app \<Rightarrow> value \<Rightarrow> headers \<Rightarrow> string option" where
  "request_entity_id app body headers =
     or_else (header_entity app headers [''x-entitytoken'', ''x-authorization'', ''x-authentication''])
       (or_else (or_else (json_str body ''EntityId'') (json_str body ''entityId''))
          (body_entity body [''MemberEntity'', ''Owner'', ''SearchingEntity'', ''Entity'']))"

definition map_nonempty :: "ext \<Rightarrow> object \<Rightarrow> string \<Rightarrow> string option" where
  "map_nonempty x m key =
     opt_filter (\<lambda>s. s \<noteq> []) (map_option trim (Option.bind (bt_get m key) (value_as_string x)))"

definition string_key5_leader_name :: "ext \<Rightarrow> string \<Rightarrow> string option" where
  "string_key5_leader_name x raw =
     Option.bind (x_from_slice x (as_bytes raw)) (\<lambda>v.
     Option.bind (as_object v) (\<lambda>obj. map_nonempty x obj ''leader_name''))"

fun find_map :: "('a \<Rightarrow> 'b option) \<Rightarrow> 'a list \<Rightarrow> 'b option" where
  "find_map f [] = None"
| "find_map f (y # ys) = or_else (f y) (find_map f ys)"

definition owner_member_user_name :: "ext \<Rightarrow> lobby \<Rightarrow> string option" where
  "owner_member_user_name x lobby =
     (let oid = lobby_owner_id lobby
      in if oid = [] then None
         else find_map (\<lambda>m. if member_id m \<noteq> oid then None
                            else Option.bind (Option.bind (jget m ''MemberData'') as_object)
                                   (\<lambda>d. map_nonempty x d ''member_platform_user_name''))
                (l_members lobby))"

definition lobby_display_name :: "ext \<Rightarrow> lobby \<Rightarrow> string" where
  "lobby_display_name x lobby =
     unwrap_or (opt_filter (\<lambda>s. s \<noteq> ''LAN'')
       (or_else (map_nonempty x (l_lobby_data lobby) ''leader_name'')
          (or_else (map_nonempty x (l_lobby_data lobby) ''leader_platform_user_name'')
             (owner_member_user_name x lobby)))) ''LAN''"

definition json_to_string :: "ext \<Rightarrow> value \<Rightarrow> string" where
  "json_to_string x v = (case x_to_vec x v of Some b \<Rightarrow> of_bytes b | None \<Rightarrow> ''{}'')"

definition leader_name_usable :: "ext \<Rightarrow> value option \<Rightarrow> bool" where
  "leader_name_usable x v =
     (case v of
        Some (String s) \<Rightarrow> string_key5_leader_name x s \<noteq> None
      | Some (Object ob) \<Rightarrow>
          unwrap_or (map_option (\<lambda>s. trim s \<noteq> []) (Option.bind (bt_get ob ''leader_name'') (value_as_string x))) False
      | _ \<Rightarrow> False)"

definition ensure_search_leader_name :: "ext \<Rightarrow> object \<Rightarrow> lobby \<Rightarrow> object" where
  "ensure_search_leader_name x sd lobby =
     (if leader_name_usable x (bt_get sd ''string_key5'') then
        (case bt_get sd ''string_key5'' of
           Some (Object ob) \<Rightarrow>
             bt_insert (bt_remove sd ''string_key5'') ''string_key5'' (String (json_to_string x (Object ob)))
         | _ \<Rightarrow> sd)
      else
        (let leader = lobby_display_name x lobby;
             field = (\<lambda>k d. unwrap_or (map_nonempty x (l_lobby_data lobby) k) d);
             nested = jobj [(''leader_name'', String leader),
               (''leader_platform'', String (field ''leader_platform'' ''1'')),
               (''leader_platform_account_id'', String (field ''leader_platform_account_id'' ''1'')),
               (''leader_platform_user_name'', String (field ''leader_platform_user_name'' leader))]
         in bt_insert sd ''string_key5'' (String (json_to_string x nested))))"

definition search_data_for_find :: "ext \<Rightarrow> lobby \<Rightarrow> object" where
  "search_data_for_find x lobby =
     (let sd = ensure_search_leader_name x (l_search_data lobby) lobby
      in if bt_get sd ''string_key8'' = None \<and> lobby_owner_id lobby \<noteq> []
         then bt_insert sd ''string_key8'' (String (lobby_owner_id lobby)) else sd)"

definition lobby_has_entity :: "lobby \<Rightarrow> string \<Rightarrow> bool" where
  "lobby_has_entity lobby eid \<longleftrightarrow>
     eid \<noteq> [] \<and> ((\<exists>m \<in> set (l_members lobby). member_id m = eid) \<or> lobby_owner_id lobby = eid)"

definition lobby_public :: "ext \<Rightarrow> lobby \<Rightarrow> value" where
  "lobby_public x lobby =
     jobj [(''LobbyId'', String (l_id lobby)),
       (''ConnectionString'', String (l_connection lobby)),
       (''Owner'', l_owner lobby),
       (''OwnerMigrationPolicy'', jint (l_owner_migration_policy lobby)),
       (''MaxPlayers'', jint (l_max_players lobby)),
       (''CurrentPlayers'', jint (int (length (l_members lobby)))),
       (''MembershipLock'', String (l_membership_lock lobby)),
       (''AccessPolicy'', String (l_access_policy lobby)),
       (''LobbyData'', Object (l_lobby_data lobby)),
       (''SearchData'', Object (l_search_data lobby)),
       (''Members'', Array (members_for_client x lobby))]"

section \<open>Players\<close>

definition ascii_upper :: "char \<Rightarrow> char" where
  "ascii_upper c = (if 97 \<le> ord_char c \<and> ord_char c \<le> 122 then char_of (ord_char c - 32) else c)"

definition url_safe :: "string \<Rightarrow> string" where
  "url_safe s =
     map (\<lambda>c. if c = CHR ''+'' then CHR ''-'' else if c = CHR ''/'' then CHR ''_'' else c)
       (rev (dropWhile (\<lambda>c. c = CHR ''='') (rev s)))"

definition ticket_player :: "ext \<Rightarrow> string \<Rightarrow> player" where
  "ticket_player x ticket =
     (let digest = sha1_hex x (if ticket = [] then ''empty'' else ticket);
          playfab_id = map ascii_upper (take 16 digest);
          entity_id = take 16 (sha1_hex x (''tpa:'' @ playfab_id));
          token = ''STUB.'' @ url_safe (x_b64_encode x (as_bytes entity_id))
      in \<lparr>pl_playfab_id = playfab_id, pl_entity_id = entity_id,
          pl_entity_type = ''title_player_account'', pl_entity_token = token,
          pl_session_ticket = ''STUB-SESSION-'' @ playfab_id, pl_token_expiration = utc_iso (F64_fin 12)\<rparr>)"

definition player_from_ticket :: "ext \<Rightarrow> app \<Rightarrow> string \<Rightarrow> player \<times> app" where
  "player_from_ticket x app ticket =
     (let p = ticket_player x ticket
      in (p, app\<lparr>sessions := hm_insert (hm_insert (sessions app) (pl_entity_token p) p) (pl_session_ticket p) p\<rparr>))"

definition entity_obj :: "player \<Rightarrow> value" where
  "entity_obj p =
     jobj [(''Id'', String (pl_entity_id p)), (''Type'', String (pl_entity_type p)),
       (''TypeString'', String (pl_entity_type p))]"

definition login_result :: "player \<Rightarrow> value" where
  "login_result p =
     jobj [(''SessionTicket'', String (pl_session_ticket p)),
       (''PlayFabId'', String (pl_playfab_id p)),
       (''NewlyCreated'', Bool True),
       (''SettingsForUser'', jobj [(''NeedsAttribution'', Bool False), (''GatherDeviceInfo'', Bool False),
          (''GatherFocusInfo'', Bool False)]),
       (''LastLoginTime'', String (utc_iso (F64_fin 0))),
       (''EntityToken'', jobj [(''EntityToken'', String (pl_entity_token p)),
          (''TokenExpiration'', String (pl_token_expiration p)),
          (''Entity'', entity_obj p)]),
       (''TreatmentAssignment'', jobj [(''Variants'', Array []), (''Variables'', Array [])])]"

section \<open>Lobby limits\<close>

definition configured_mesh_cap :: "app \<Rightarrow> int" where
  "configured_mesh_cap app = clamp_max_players (app_max_players app)"

definition resolve_lobby_max :: "app \<Rightarrow> int option \<Rightarrow> int" where
  "resolve_lobby_max app requested =
     (let cfg = configured_mesh_cap app
      in if override_game_max app then cfg else unwrap_or (map_option clamp_max_players requested) cfg)"

definition as_obj_or_empty :: "value option \<Rightarrow> object" where
  "as_obj_or_empty v = unwrap_or (Option.bind v as_object) []"

definition parse_owner_migration_policy :: "value \<Rightarrow> int" where
  "parse_owner_migration_policy body =
     (case or_else (jget body ''OwnerMigrationPolicy'') (jget body ''ownerMigrationPolicy'') of
        Some (Number n) \<Rightarrow> max 0 (min (unwrap_or (num_as_i64 n) 0) 3)
      | Some (String s) \<Rightarrow>
          (let t = to_ascii_lowercase s
           in if t = ''automatic'' then 1 else if t = ''manual'' then 2 else if t = ''server'' then 3 else 0)
      | _ \<Rightarrow> 0)"

lemma clamp_max_players_range: "2 \<le> clamp_max_players n" "clamp_max_players n \<le> 32"
  by (auto simp: clamp_max_players_def MIN_PLAYERS_def MAX_PLAYERS_CEILING_def)

lemma resolve_lobby_max_range: "2 \<le> resolve_lobby_max app r" "resolve_lobby_max app r \<le> 32"
  by (cases r; simp add: resolve_lobby_max_def configured_mesh_cap_def clamp_max_players_range Let_def)+


section \<open>A sample state for the witnesses\<close>

definition demo_ext :: ext where
  "demo_ext = \<lparr>x_sha1 = (\<lambda>bs. take 20 (bs @ replicate 20 0)), x_b64_encode = of_bytes, x_b64_decode = Inr,
     x_encrypt = (\<lambda>_ _ bs. Some (bs @ replicate 16 0)),
     x_decrypt = (\<lambda>_ _ bs. Inr (take (length bs - 16) bs)), x_to_vec = (\<lambda>_. Some []),
     x_from_slice = (\<lambda>_. None), x_number_str = (\<lambda>_. []), x_f64_str = (\<lambda>_. [])\<rparr>"

definition demo_app :: app where
  "demo_app = \<lparr>title_id = TITLE_DEFAULT, http_port = 8080, ws_port = 8081, app_max_players = 2,
     override_game_max = True, sessions = [], lobbies = [], party = []\<rparr>"

end
