(* ===== verification/Party_Broker.thy ===== *)
theory Party_Broker
  imports Broker_State
begin

text \<open>
  \<open>handle_party\<close> of \<open>lan-server/src/main.rs\<close>: the rendezvous table that maps a Party network to
  its members' addresses. A member is live for \<open>PARTY_SEEN_TTL_SECS\<close> after its last join or poll;
  \<open>member_seq\<close> lets a late join or leave be recognised as stale.
\<close>

section \<open>Handlers\<close>

definition live :: "f64 \<Rightarrow> party_member \<Rightarrow> bool" where
  "live now m \<longleftrightarrow> f64_le (f64_sub now (pm_seen m)) PARTY_SEEN_TTL_SECS"

definition prune :: "f64 \<Rightarrow> network \<Rightarrow> network" where
  "prune now net = filter (\<lambda>(_, m). live now m) net"

definition member_json :: "party_member \<Rightarrow> value" where
  "member_json m =
     jobj [(''entity_id'', String (pm_entity_id m)), (''ip'', String (pm_ip m)),
       (''udp_port'', jint (uint (pm_udp_port m))), (''seen'', jf64 (pm_seen m)),
       (''member_seq'', Number (PosInt (pm_member_seq m)))]"

definition members_json :: "network \<Rightarrow> value" where
  "members_json net = Array (map (\<lambda>(_, m). member_json m) net)"

definition join_network_id :: "ext \<Rightarrow> f64 \<Rightarrow> value \<Rightarrow> string \<Rightarrow> string" where
  "join_network_id x now body qs =
     (case opt_filter (\<lambda>s. s \<noteq> []) (or_else (json_str body ''network_id'') (qs_find ''network_id='' qs)) of
        Some nid \<Rightarrow> nid
      | None \<Rightarrow> ''net-'' @ take 8 (sha1_hex x (x_f64_str x now)))"

definition join_ip :: "value \<Rightarrow> headers \<Rightarrow> string" where
  "join_ip body headers =
     (let ip = unwrap_or (or_else (json_str body ''ip'')
                 (or_else (hm_get headers ''x-forwarded-for'') (hm_get headers ''x-peer-ip''))) ''127.0.0.1''
      in if is_loopback_ip_srv ip
         then (case hm_get headers ''x-peer-ip'' of
                 Some peer \<Rightarrow> if is_loopback_ip_srv peer then ip else peer
               | None \<Rightarrow> ip)
         else ip)"

text \<open>The registration of an entity that is already in the network.\<close>

definition refresh_member :: "f64 \<Rightarrow> string \<Rightarrow> u16 \<Rightarrow> u64 \<Rightarrow> party_member \<Rightarrow> party_member" where
  "refresh_member now ip port seq m =
     (if seq \<noteq> 0 \<and> pm_member_seq m > seq then m\<lparr>pm_seen := now\<rparr>
      else m\<lparr>pm_ip := ip, pm_udp_port := port, pm_seen := now, pm_member_seq := max (pm_member_seq m) seq\<rparr>)"

text \<open>The table of one network after an admitted join; \<open>None\<close> when the mesh is full.\<close>

definition join_network ::
  "f64 \<Rightarrow> int \<Rightarrow> string \<Rightarrow> string \<Rightarrow> u16 \<Rightarrow> u64 \<Rightarrow> network \<Rightarrow> network option" where
  "join_network now cap eid ip port seq net =
     (case hm_get net eid of
        None \<Rightarrow>
          if int (length net) \<ge> cap then None
          else Some (hm_insert net eid \<lparr>pm_entity_id = eid, pm_ip = ip, pm_udp_port = port, pm_seen = now,
                                        pm_member_seq = seq\<rparr>)
      | Some m \<Rightarrow> Some (hm_insert net eid (refresh_member now ip port seq m)))"

definition party_join :: "ext \<Rightarrow> f64 \<Rightarrow> app \<Rightarrow> string \<Rightarrow> value \<Rightarrow> headers \<Rightarrow> response \<times> app" where
  "party_join x now app qs body headers =
     (let nid = join_network_id x now body qs;
          eid = unwrap_or (json_str body ''entity_id'') ''anon'';
          ip = join_ip body headers;
          port = (of_int (unwrap_or (json_i64 body ''udp_port'') 0) :: u16);
          seq = member_seq_of body qs;
          net = prune now (unwrap_or (hm_get (party app) nid) [])
      in case join_network now (configured_mesh_cap app) eid ip port seq net of
           None \<Rightarrow> (playfab_err x ''PartyMemberLimitExceeded'' ''Party mesh is full'',
                    app\<lparr>party := hm_insert (party app) nid net\<rparr>)
         | Some net' \<Rightarrow>
             (playfab_ok x (jobj [(''network_id'', String nid), (''members'', members_json net')]),
              app\<lparr>party := hm_insert (party app) nid net'\<rparr>))"

definition leave_network :: "string \<Rightarrow> u64 \<Rightarrow> network \<Rightarrow> network" where
  "leave_network eid seq net =
     (let have = unwrap_or (map_option pm_member_seq (hm_get net eid)) 0
      in if seq \<noteq> 0 \<and> have > seq then net else hm_remove net eid)"

definition party_leave :: "ext \<Rightarrow> app \<Rightarrow> string \<Rightarrow> value \<Rightarrow> response \<times> app" where
  "party_leave x app qs body =
     (let nid = unwrap_or (json_str body ''network_id'') [];
          eid = unwrap_or (json_str body ''entity_id'') [];
          seq = member_seq_of body qs
      in (playfab_ok x (jobj []),
          case hm_get (party app) nid of
            Some net \<Rightarrow> app\<lparr>party := hm_insert (party app) nid (leave_network eid seq net)\<rparr>
          | None \<Rightarrow> app))"

text \<open>A polling member is refreshed before the expiry sweep.\<close>

definition poll_network :: "f64 \<Rightarrow> string \<Rightarrow> network \<Rightarrow> network" where
  "poll_network now eid net =
     prune now
       (if eid = [] then net
        else (case hm_get net eid of
                Some m \<Rightarrow> hm_insert net eid (m\<lparr>pm_seen := now\<rparr>)
              | None \<Rightarrow> net))"

definition party_peers :: "ext \<Rightarrow> f64 \<Rightarrow> app \<Rightarrow> string \<Rightarrow> value \<Rightarrow> response \<times> app" where
  "party_peers x now app qs body =
     (let nid = unwrap_or (or_else (json_str body ''network_id'') (qs_find ''network_id='' qs)) [];
          eid = unwrap_or (or_else (json_str body ''entity_id'') (qs_find ''entity_id='' qs)) []
      in case hm_get (party app) nid of
           Some net \<Rightarrow>
             (playfab_ok x (jobj [(''network_id'', String nid), (''members'', members_json (poll_network now eid net))]),
              app\<lparr>party := hm_insert (party app) nid (poll_network now eid net)\<rparr>)
         | None \<Rightarrow> (playfab_ok x (jobj [(''network_id'', String nid), (''members'', Array [])]), app))"

definition split_query :: "string \<Rightarrow> string \<times> string" where
  "split_query path =
     (case split_once (CHR ''?'') path of
        Some (a, b) \<Rightarrow> (trim_start_matches (CHR ''/'') a, b)
      | None \<Rightarrow> (trim_start_matches (CHR ''/'') path, []))"

definition handle_party ::
  "ext \<Rightarrow> f64 \<Rightarrow> app \<Rightarrow> string \<Rightarrow> value \<Rightarrow> headers \<Rightarrow> (response \<times> app) option" where
  "handle_party x now app path body headers =
     (case split_query path of
        (p, qs) \<Rightarrow>
          if p = ''party/join'' \<or> p = ''party/create'' then Some (party_join x now app qs body headers)
          else if p = ''party/leave'' then Some (party_leave x app qs body)
          else if p = ''party/peers'' then Some (party_peers x now app qs body)
          else if p = ''party/msg'' then Some (playfab_ok x (jobj []), app)
          else None)"

section \<open>The peer table as a contract\<close>

text \<open>
  What the Party shims rely on, without the order or the representation of the hash maps: a
  network is a finite map from entities to members, a join works on the members still live, and
  a refused join is one by a newcomer to a full mesh.
\<close>

definition live_part :: "f64 \<Rightarrow> (string \<Rightarrow> party_member option) \<Rightarrow> string \<Rightarrow> party_member option" where
  "live_part now N eid = opt_filter (live now) (N eid)"

definition joined_member :: "f64 \<Rightarrow> string \<Rightarrow> string \<Rightarrow> u16 \<Rightarrow> u64 \<Rightarrow> party_member option \<Rightarrow> party_member" where
  "joined_member now eid ip port seq old =
     (case old of
        None \<Rightarrow> \<lparr>pm_entity_id = eid, pm_ip = ip, pm_udp_port = port, pm_seen = now, pm_member_seq = seq\<rparr>
      | Some m \<Rightarrow> refresh_member now ip port seq m)"

locale peer_table =
  fixes look :: "'n \<Rightarrow> string \<Rightarrow> party_member option"
    and ok :: "'n \<Rightarrow> bool"
    and join :: "f64 \<Rightarrow> int \<Rightarrow> string \<Rightarrow> string \<Rightarrow> u16 \<Rightarrow> u64 \<Rightarrow> 'n \<Rightarrow> 'n option"
    and leave :: "string \<Rightarrow> u64 \<Rightarrow> 'n \<Rightarrow> 'n"
    and poll :: "f64 \<Rightarrow> string \<Rightarrow> 'n \<Rightarrow> 'n"
  assumes finite_dom: "ok n \<Longrightarrow> finite (dom (look n))"
    and join_None: "ok n \<Longrightarrow> join now cap eid ip port seq n = None \<longleftrightarrow>
      live_part now (look n) eid = None \<and> cap \<le> int (card (dom (live_part now (look n))))"
    and join_Some: "ok n \<Longrightarrow> join now cap eid ip port seq n = Some n' \<Longrightarrow>
      ok n' \<and> look n' = (live_part now (look n))
        (eid \<mapsto> joined_member now eid ip port seq (live_part now (look n) eid))"
    and leave_look: "ok n \<Longrightarrow> ok (leave eid seq n) \<and> look (leave eid seq n) =
      (if seq \<noteq> 0 \<and> seq < unwrap_or (map_option pm_member_seq (look n eid)) 0 then look n else (look n)(eid := None))"
    and poll_look: "ok n \<Longrightarrow> ok (poll now eid n) \<and> look (poll now eid n) =
      live_part now (if eid = [] then look n
                     else (look n)(eid := map_option (\<lambda>m. m\<lparr>pm_seen := now\<rparr>) (look n eid)))"
begin

lemma dom_live: "dom (live_part now N) \<subseteq> dom N"
proof
  fix k
  assume "k \<in> dom (live_part now N)"
  then show "k \<in> dom N" by (cases "N k") (auto simp: live_part_def)
qed

lemma card_live: "finite (dom N) \<Longrightarrow> card (dom (live_part now N)) \<le> card (dom N)"
  by (rule card_mono [OF _ dom_live])

lemma join_capacity:
  assumes "ok n" and "join now cap eid ip port seq n = Some n'" and "int (card (dom (look n))) \<le> cap"
  shows "int (card (dom (look n'))) \<le> cap"
proof -
  let ?L = "live_part now (look n)"
  have L: "int (card (dom ?L)) \<le> cap"
    using card_live [OF finite_dom [OF assms(1)], of now] assms(3) by linarith
  have fin: "finite (dom ?L)" by (rule finite_subset [OF dom_live finite_dom [OF assms(1)]])
  have "look n' = ?L(eid \<mapsto> joined_member now eid ip port seq (?L eid))"
    using join_Some [OF assms(1,2)] by simp
  moreover have "?L eid \<noteq> None \<or> int (card (dom ?L)) < cap"
    using join_None [OF assms(1), of now cap eid ip port seq] assms(2) by auto
  ultimately show ?thesis
    using L fin by (auto simp: card_insert_if domIff)
qed

lemma leave_capacity: "ok n \<Longrightarrow> int (card (dom (look n))) \<le> cap \<Longrightarrow> int (card (dom (look (leave eid seq n)))) \<le> cap"
  using leave_look [of n eid seq] finite_dom [of n]
  by (auto simp: card_Diff_singleton_if intro: order_trans [rotated])

lemma poll_capacity:
  assumes "ok n" and "int (card (dom (look n))) \<le> cap"
  shows "int (card (dom (look (poll now eid n)))) \<le> cap"
proof -
  let ?N = "if eid = [] then look n else (look n)(eid := map_option (\<lambda>m. m\<lparr>pm_seen := now\<rparr>) (look n eid))"
  have "dom ?N = dom (look n)" by (cases "look n eid") (auto simp: domIff)
  then show ?thesis
    using card_live [of ?N now] finite_dom [OF assms(1)] poll_look [OF assms(1), of now eid] assms(2) by simp
qed

text \<open>A stale join only refreshes the time stamp; a stale leave changes nothing.\<close>

lemma stale_join:
  assumes "ok n" and "look n eid = Some m" and "live now m" and "seq \<noteq> 0" and "seq < pm_member_seq m"
  shows "\<exists>n'. join now cap eid ip port seq n = Some n' \<and> look n' eid = Some (m\<lparr>pm_seen := now\<rparr>)"
proof -
  have "live_part now (look n) eid = Some m" using assms by (simp add: live_part_def)
  then show ?thesis
    using join_None [OF assms(1), of now cap eid ip port seq] join_Some [OF assms(1), of now cap eid ip port seq] assms(4,5)
    by (cases "join now cap eid ip port seq n") (auto simp: joined_member_def refresh_member_def)
qed

lemma stale_leave: "ok n \<Longrightarrow> look n eid = Some m \<Longrightarrow> seq \<noteq> 0 \<Longrightarrow> seq < pm_member_seq m \<Longrightarrow> look (leave eid seq n) = look n"
  using leave_look [of n eid seq] by simp

lemma poll_keeps_caller:
  assumes "ok n" and "look n eid = Some m" and "eid \<noteq> []" and "is_finite now"
  shows "look (poll now eid n) eid = Some (m\<lparr>pm_seen := now\<rparr>)"
  using poll_look [OF assms(1), of now eid] assms
  by (simp add: live_part_def live_def f64_sub_self PARTY_SEEN_TTL_SECS_def)

lemma poll_others: "ok n \<Longrightarrow> k \<noteq> eid \<Longrightarrow> look (poll now eid n) k = opt_filter (live now) (look n k)"
  using poll_look [of n now eid] by (simp add: live_part_def)

end

section \<open>The hash maps implement it\<close>

lemma map_of_filter_val:
  "distinct (map fst net) \<Longrightarrow> map_of (filter (\<lambda>(_, m). P m) net) k = opt_filter P (map_of net k)"
proof (induction net)
  case (Cons a net)
  then have "P (snd a) \<or> map_of (filter (\<lambda>(_, m). P m) net) (fst a) = None"
    by (auto simp: map_of_eq_None_iff)
  with Cons show ?case
    by (cases a) (auto simp: map_of_eq_None_iff)
qed simp

lemma prune_look: "hm_wf net \<Longrightarrow> hm_get (prune now net) = live_part now (hm_get net)"
  by (rule ext) (simp add: prune_def live_part_def map_of_filter_val)

lemma prune_wf: "hm_wf net \<Longrightarrow> hm_wf (prune now net)"
  by (simp add: prune_def hm_wf_filter)

lemma card_dom_hm: "hm_wf net \<Longrightarrow> card (dom (hm_get net)) = length net"
  by (metis distinct_card dom_map_of_conv_image_fst length_map list.set_map)

lemma live_None_absent: "live_part now (hm_get net) eid = None \<longleftrightarrow> hm_get (prune now net) eid = None"
  if "hm_wf net"
  using that by (simp add: prune_look)

interpretation pt: peer_table map_of hm_wf
  "\<lambda>now cap eid ip port seq net. join_network now cap eid ip port seq (prune now net)"
  leave_network poll_network
proof
  fix n n' :: network and now cap eid ip port seq
  assume n: "hm_wf n"
  show "finite (dom (hm_get n))" by (simp add: finite_dom_map_of)
  note wf = prune_wf [OF n, of now] and pl = prune_look [OF n, of now]
  have len: "card (dom (live_part now (hm_get n))) = length (prune now n)"
    using card_dom_hm [OF wf] by (simp add: pl)
  show "join_network now cap eid ip port seq (prune now n) = None \<longleftrightarrow>
      live_part now (hm_get n) eid = None \<and> cap \<le> int (card (dom (live_part now (hm_get n))))"
    by (auto simp: join_network_def pl len split: option.splits)
  show "hm_wf n' \<and> hm_get n' = (live_part now (hm_get n))
        (eid \<mapsto> joined_member now eid ip port seq (live_part now (hm_get n) eid))"
    if "join_network now cap eid ip port seq (prune now n) = Some n'"
    using that wf by (auto simp: join_network_def joined_member_def pl hm_wf_insert hm_get_insert fun_eq_iff
        split: option.splits if_splits)
  show "hm_wf (leave_network eid seq n) \<and> hm_get (leave_network eid seq n) =
      (if seq \<noteq> 0 \<and> seq < unwrap_or (map_option pm_member_seq (hm_get n eid)) 0 then hm_get n else (hm_get n)(eid := None))"
    using n by (auto simp: leave_network_def Let_def hm_wf_remove hm_get_remove fun_eq_iff)
  show "hm_wf (poll_network now eid n) \<and> hm_get (poll_network now eid n) =
      live_part now (if eid = [] then hm_get n else (hm_get n)(eid := map_option (\<lambda>m. m\<lparr>pm_seen := now\<rparr>) (hm_get n eid)))"
  proof (cases "eid = [] \<or> hm_get n eid = None")
    case True
    then have "(if eid = [] then hm_get n else (hm_get n)(eid := map_option (\<lambda>m. m\<lparr>pm_seen := now\<rparr>) (hm_get n eid))) = hm_get n"
      by auto
    with True n show ?thesis by (auto simp: poll_network_def prune_look prune_wf)
  next
    case False
    then obtain m where m: "hm_get n eid = Some m" by auto
    have "hm_get (hm_insert n eid (m\<lparr>pm_seen := now\<rparr>)) = (hm_get n)(eid \<mapsto> m\<lparr>pm_seen := now\<rparr>)"
      by (auto simp: hm_get_insert)
    with False m n show ?thesis by (simp add: poll_network_def prune_look prune_wf hm_wf_insert)
  qed
qed


section \<open>Runs of party requests\<close>

definition party_lookup :: "app \<Rightarrow> string \<Rightarrow> string \<Rightarrow> party_member option" where
  "party_lookup app nid eid = Option.bind (hm_get (party app) nid) (\<lambda>net. hm_get net eid)"

definition network_ok :: "int \<Rightarrow> network \<Rightarrow> bool" where
  "network_ok cap net \<longleftrightarrow> hm_wf net \<and> int (length net) \<le> cap"

definition party_wf :: "app \<Rightarrow> bool" where
  "party_wf app \<longleftrightarrow>
     hm_wf (party app) \<and> (\<forall>e \<in> set (party app). network_ok (configured_mesh_cap app) (snd e))"

lemma party_wf_lookup: "party_wf app \<Longrightarrow> hm_get (party app) nid = Some net \<Longrightarrow> network_ok (configured_mesh_cap app) net"
  by (auto simp: party_wf_def dest: map_of_SomeD)

lemma party_wf_insert:
  assumes "party_wf app" and "network_ok (configured_mesh_cap app) net"
  shows "party_wf (app\<lparr>party := hm_insert (party app) nid net\<rparr>)"
proof -
  have "hm_wf (hm_insert (party app) nid net)" using assms(1) by (simp add: party_wf_def hm_wf_insert)
  moreover have "network_ok (configured_mesh_cap app) (snd e)" if "e \<in> set (hm_insert (party app) nid net)" for e
    using in_set_hm_insert [OF that] assms by (auto simp: party_wf_def)
  ultimately show ?thesis by (simp add: party_wf_def configured_mesh_cap_def)
qed

lemma network_ok_card: "network_ok cap net \<longleftrightarrow> hm_wf net \<and> int (card (dom (hm_get net))) \<le> cap"
  by (auto simp: network_ok_def card_dom_hm)

lemma network_ok_prune: "network_ok cap net \<Longrightarrow> network_ok cap (prune now net)"
proof -
  have "length (prune now net) \<le> length net" by (simp add: prune_def)
  then show "network_ok cap net \<Longrightarrow> ?thesis" using prune_wf [of net now] by (auto simp: network_ok_def)
qed

lemma network_ok_leave: "network_ok cap net \<Longrightarrow> network_ok cap (leave_network eid seq net)"
  by (simp add: network_ok_card pt.leave_capacity) (simp add: pt.leave_look)

lemma network_ok_poll: "network_ok cap net \<Longrightarrow> network_ok cap (poll_network now eid net)"
  by (simp add: network_ok_card pt.poll_capacity) (simp add: pt.poll_look)

lemma network_ok_empty: "network_ok (configured_mesh_cap app) []"
  using clamp_max_players_range(1) [of "app_max_players app"] by (simp add: network_ok_def configured_mesh_cap_def)

definition joined_network :: "app \<Rightarrow> string \<Rightarrow> network" where
  "joined_network app nid = unwrap_or (hm_get (party app) nid) []"

lemma joined_network_ok: "party_wf app \<Longrightarrow> network_ok (configured_mesh_cap app) (joined_network app nid)"
  by (cases "hm_get (party app) nid") (auto simp: joined_network_def network_ok_empty dest: party_wf_lookup)

lemma party_join_wf: "party_wf app \<Longrightarrow> party_wf (snd (party_join x now app qs body headers))"
proof -
  assume wf: "party_wf app"
  define net where "net = joined_network app (join_network_id x now body qs)"
  have ok: "network_ok (configured_mesh_cap app) net"
    using joined_network_ok [OF wf] by (simp add: net_def)
  have "network_ok (configured_mesh_cap app) n'"
    if "join_network now (configured_mesh_cap app) eid ip port seq (prune now net) = Some n'" for eid ip port seq n'
    using pt.join_Some [OF _ that] pt.join_capacity [OF _ that] ok by (simp add: network_ok_card)
  then show ?thesis
    using wf network_ok_prune [OF ok]
    by (auto simp: party_join_def Let_def party_wf_insert net_def joined_network_def split: option.splits)
qed

lemma party_leave_wf: "party_wf app \<Longrightarrow> party_wf (snd (party_leave x app qs body))"
  by (auto simp: party_leave_def Let_def split: option.splits
      intro!: party_wf_insert network_ok_leave dest: party_wf_lookup)

lemma party_peers_wf: "party_wf app \<Longrightarrow> party_wf (snd (party_peers x now app qs body))"
  by (auto simp: party_peers_def Let_def split: option.splits
      intro!: party_wf_insert network_ok_poll dest: party_wf_lookup)

definition party_apply :: "ext \<Rightarrow> f64 \<times> string \<times> value \<times> headers \<Rightarrow> app \<Rightarrow> app" where
  "party_apply x req app =
     (case req of (now, path, body, headers) \<Rightarrow>
        (case handle_party x now app path body headers of Some (_, app') \<Rightarrow> app' | None \<Rightarrow> app))"

lemma party_apply_wf: "party_wf app \<Longrightarrow> party_wf (party_apply x req app)"
proof -
  assume wf: "party_wf app"
  obtain now path body headers where req: "req = (now, path, body, headers)" by (metis prod_cases4)
  obtain p qs where "split_query path = (p, qs)" by fastforce
  with wf party_join_wf [OF wf, of x now qs body headers] party_leave_wf [OF wf, of x qs body]
    party_peers_wf [OF wf, of x now qs body]
  show ?thesis by (simp add: party_apply_def handle_party_def req case_prod_beta)
qed

text \<open>
  Whatever sequence of party requests a server handles, the networks and their members have
  distinct keys and no network ever holds more members than the configured cap.
\<close>

theorem mesh_never_exceeds_cap:
  assumes "party app = []"
  shows "party_wf (fold (party_apply x) reqs app)"
proof -
  have "party_wf a \<Longrightarrow> party_wf (fold (party_apply x) reqs a)" for a
    by (induction reqs arbitrary: a) (simp_all add: party_apply_wf)
  moreover have "party_wf app" using assms by (simp add: party_wf_def)
  ultimately show ?thesis by blast
qed


definition demo_join :: "string \<Rightarrow> value" where
  "demo_join eid = Object [(''entity_id'', String eid), (''ip'', String ''10.0.0.7''), (''network_id'', String ''net-1'')]"

theorem mesh_never_exceeds_cap_witness:
  "party_wf (fold (party_apply demo_ext)
     [(F64_fin 1, ''/party/join'', demo_join ''A'', []), (F64_fin 2, ''/party/join'', demo_join ''B'', []),
      (F64_fin 3, ''/party/join'', demo_join ''C'', [])] demo_app)"
  by (rule mesh_never_exceeds_cap) (simp add: demo_app_def)

lemma party_lookup_joined: "party_lookup app nid = hm_get (joined_network app nid)"
  by (cases "hm_get (party app) nid") (auto simp: party_lookup_def joined_network_def)

lemma party_lookup_update:
  "party_lookup (app\<lparr>party := hm_insert (party app) nid net\<rparr>) nid' = (if nid' = nid then hm_get net else party_lookup app nid')"
  by (auto simp: party_lookup_def hm_get_insert fun_eq_iff)



text \<open>
  A join or a leave carrying an older nonzero member sequence number than the registered one
  changes neither the address nor the port nor the sequence number of that registration.
\<close>

theorem stale_registration_ignored:
  assumes "party_wf app" and "party_lookup app nid eid = Some m" and "live now m"
    and "json_str body ''network_id'' = Some nid" and "nid \<noteq> []" and "json_str body ''entity_id'' = Some eid"
    and "0 < member_seq_of body qs" and "member_seq_of body qs < pm_member_seq m"
  shows "party_lookup (snd (party_join x now app qs body headers)) nid eid = Some (m\<lparr>pm_seen := now\<rparr>) \<and>
    party_lookup (snd (party_leave x app qs body)) nid = party_lookup app nid"
proof
  have wf: "hm_wf (joined_network app nid)" using joined_network_ok [OF assms(1)] by (simp add: network_ok_def)
  have m: "hm_get (joined_network app nid) eid = Some m" using assms(2) by (simp add: party_lookup_joined)
  have n0: "member_seq_of body qs \<noteq> 0" using assms(7) by auto
  have nid: "join_network_id x now body qs = nid" using assms(4,5) by (simp add: join_network_id_def)
  obtain n' where "join_network now (configured_mesh_cap app) eid (join_ip body headers)
      (of_int (unwrap_or (json_i64 body ''udp_port'') 0)) (member_seq_of body qs) (prune now (joined_network app nid)) = Some n'"
    "hm_get n' eid = Some (m\<lparr>pm_seen := now\<rparr>)"
    using pt.stale_join [OF wf m assms(3) n0 assms(8)] by blast
  then show "party_lookup (snd (party_join x now app qs body headers)) nid eid = Some (m\<lparr>pm_seen := now\<rparr>)"
    by (simp add: party_join_def nid assms(6) joined_network_def party_lookup_update)
  have "hm_get (party app) nid = Some (joined_network app nid)"
    using assms(2) by (auto simp: party_lookup_def joined_network_def split: Option.bind_splits)
  then show "party_lookup (snd (party_leave x app qs body)) nid = party_lookup app nid"
    using pt.stale_leave [OF wf m n0 assms(8)]
    by (simp add: party_leave_def assms(4,6) party_lookup_update party_lookup_joined [of app])
qed

definition demo_member :: party_member where
  "demo_member = \<lparr>pm_entity_id = ''A'', pm_ip = ''10.0.0.7'', pm_udp_port = 9, pm_seen = F64_fin 5, pm_member_seq = 7\<rparr>"

definition demo_party :: app where
  "demo_party = demo_app\<lparr>party := [(''net-1'', [(''A'', demo_member)])]\<rparr>"

lemma demo_party_facts: "party_wf demo_party" "party_lookup demo_party ''net-1'' ''A'' = Some demo_member"
  by (simp_all add: party_wf_def demo_party_def network_ok_def configured_mesh_cap_def clamp_max_players_def
      demo_app_def MIN_PLAYERS_def MAX_PLAYERS_CEILING_def party_lookup_def)

lemma demo_member_live: "live (F64_fin 6) demo_member"
  using round_f64_int [of 1] by (simp add: live_def demo_member_def PARTY_SEEN_TTL_SECS_def)

theorem stale_registration_ignored_witness:
  "party_lookup (snd (party_leave demo_ext demo_party []
     (Object [(''entity_id'', String ''A''), (''member_seq'', Number (PosInt 3)), (''network_id'', String ''net-1'')])))
     ''net-1'' ''A'' = Some demo_member"
proof -
  let ?b = "Object [(''entity_id'', String ''A''), (''member_seq'', Number (PosInt 3)), (''network_id'', String ''net-1'')]"
  have "json_str ?b ''network_id'' = Some ''net-1''" "json_str ?b ''entity_id'' = Some ''A''" "member_seq_of ?b [] = 3"
    by (simp_all add: json_str_def json_i64_def member_seq_of_def)
  moreover have "3 < pm_member_seq demo_member" by (simp add: demo_member_def)
  ultimately show ?thesis
    using stale_registration_ignored [OF demo_party_facts demo_member_live, of ?b "[]" demo_ext "[]"] demo_party_facts(2)
    by simp
qed

text \<open>
  Polling the peers of a network refreshes the caller, keeps exactly the members seen within
  the time to live, and leaves the others' registrations unchanged.
\<close>

theorem poll_keeps_caller_and_live:
  assumes "party_wf app" and "party_lookup app nid eid = Some m" and "is_finite now" and "eid \<noteq> []"
    and "json_str body ''network_id'' = Some nid" and "json_str body ''entity_id'' = Some eid"
    and "party_peers x now app qs body = (r, app')"
  shows "party_lookup app' nid eid = Some (m\<lparr>pm_seen := now\<rparr>) \<and>
    (\<forall>k. k \<noteq> eid \<longrightarrow> party_lookup app' nid k = opt_filter (live now) (party_lookup app nid k)) \<and>
    r = playfab_ok x (jobj [(''network_id'', String nid), (''members'', members_json (joined_network app' nid))])"
proof -
  let ?net = "joined_network app nid"
  have wf: "hm_wf ?net" using joined_network_ok [OF assms(1)] by (simp add: network_ok_def)
  have m: "hm_get ?net eid = Some m" using assms(2) by (simp add: party_lookup_joined)
  have "hm_get (party app) nid = Some ?net"
    using assms(2) by (auto simp: party_lookup_def joined_network_def split: Option.bind_splits)
  then have st: "r = playfab_ok x (jobj [(''network_id'', String nid), (''members'', members_json (poll_network now eid ?net))])"
    "app' = app\<lparr>party := hm_insert (party app) nid (poll_network now eid ?net)\<rparr>"
    using assms(7) by (simp_all add: party_peers_def assms(5,6))
  have look: "party_lookup app' nid = hm_get (poll_network now eid ?net)"
    by (simp add: st(2) party_lookup_update)
  show ?thesis
    using pt.poll_keeps_caller [OF wf m assms(4,3)] pt.poll_others [OF wf]
    by (simp add: look st(1) party_lookup_joined [of app]) (simp add: st(2) joined_network_def hm_get_insert)
qed

theorem poll_keeps_caller_and_live_witness:
  "party_lookup (snd (party_peers demo_ext (F64_fin 900) demo_party []
     (Object [(''entity_id'', String ''A''), (''network_id'', String ''net-1'')]))) ''net-1'' ''A'' =
   Some (demo_member\<lparr>pm_seen := F64_fin 900\<rparr>)"
proof -
  let ?b = "Object [(''entity_id'', String ''A''), (''network_id'', String ''net-1'')]"
  obtain r app' where st: "party_peers demo_ext (F64_fin 900) demo_party [] ?b = (r, app')" by fastforce
  have "json_str ?b ''network_id'' = Some ''net-1''" "json_str ?b ''entity_id'' = Some ''A''"
    by (simp_all add: json_str_def)
  from poll_keeps_caller_and_live [OF demo_party_facts _ _ this st] show ?thesis by (simp add: st)
qed

end
