(* ===== verification/Lobby_Broker.thy ===== *)
theory Lobby_Broker
  imports Broker_State
begin

text \<open>
  \<open>handle_playfab\<close> of \<open>lan-server/src/main.rs\<close>: sessions and lobbies. Every handler maps the state
  to a response and the next state. An \<open>unwrap\<close> of \<open>None\<close> and a \<open>sort_by\<close> whose comparison is
  not a total order (the standard library then leaves the order open and may panic) are the
  faults of the model.
\<close>

datatype fault = Unwrap_None | Unordered_sort

type_synonym 'a faulty = "fault + 'a"

section \<open>Sessions\<close>

definition request_player :: "ext \<Rightarrow> app \<Rightarrow> value \<Rightarrow> headers \<Rightarrow> string \<Rightarrow> player \<times> app" where
  "request_player x app body headers ticket =
     (case Option.bind (request_entity_id app body headers)
             (\<lambda>i. List.find (\<lambda>p. pl_entity_id p = i) (map snd (sessions app))) of
        Some p \<Rightarrow> (p, app)
      | None \<Rightarrow> player_from_ticket x app ticket)"

definition login_with_steam :: "ext \<Rightarrow> app \<Rightarrow> value \<Rightarrow> response \<times> app" where
  "login_with_steam x app body =
     (let ticket = unwrap_or (or_else (json_str body ''SteamTicket'') (json_str body ''steamTicket'')) [];
          (p, app') = player_from_ticket x app ticket
      in (playfab_ok x (login_result p), app'))"

definition get_entity_token :: "ext \<Rightarrow> app \<Rightarrow> value \<Rightarrow> headers \<Rightarrow> response \<times> app" where
  "get_entity_token x app body headers =
     (let (p, app') = request_player x app body headers (unwrap_or (json_str body ''SteamTicket'') ''anonymous'')
      in (playfab_ok x (jobj [(''EntityToken'', String (pl_entity_token p)),
            (''TokenExpiration'', String (pl_token_expiration p)), (''Entity'', entity_obj p)]), app'))"

section \<open>Creating a lobby\<close>

definition member_entry :: "string \<Rightarrow> value \<Rightarrow> object \<Rightarrow> value" where
  "member_entry mid ent data = jobj [(''Id'', String mid), (''MemberEntity'', ent), (''MemberData'', Object data)]"

text \<open>The first entry of \<open>Members\<close> supplies the member data and may replace the owner as member entity.\<close>

definition creator_entry :: "value \<Rightarrow> value \<Rightarrow> value \<times> object" where
  "creator_entry body owner =
     (case Option.bind (or_else (jget body ''Members'') (jget body ''members'')) as_array of
        Some (first # _) \<Rightarrow>
          (unwrap_or (or_else (jget first ''MemberEntity'') (jget first ''memberEntity'')) owner,
           as_obj_or_empty (or_else (jget first ''MemberData'') (jget first ''memberData'')))
      | _ \<Rightarrow> (owner, []))"

definition new_lobby :: "ext \<Rightarrow> f64 \<Rightarrow> app \<Rightarrow> value \<Rightarrow> player \<Rightarrow> string \<Rightarrow> lobby" where
  "new_lobby x created app body player lobby_id =
     (let owner = unwrap_or (or_else (jget body ''Owner'') (jget body ''owner'')) (entity_obj player);
          (member_entity, data0) = creator_entry body owner;
          data1 = insert_all data0 (as_obj_or_empty (jget body ''MemberData''));
          mid = unwrap_or (json_str member_entity ''Id'') (pl_entity_id player);
          member_data = fill_member_data x data1 mid
      in \<lparr>l_id = lobby_id,
          l_connection = ''lan.'' @ title_id app @ ''.'' @ lobby_id,
          l_owner = owner,
          l_owner_migration_policy = parse_owner_migration_policy body,
          l_max_players = resolve_lobby_max app (or_else (json_i64 body ''MaxPlayers'') (json_i64 body ''maxPlayers'')),
          l_lobby_data = as_obj_or_empty (or_else (jget body ''LobbyData'')
                           (or_else (jget body ''lobbyData'') (jget body ''lobbyProperties''))),
          l_search_data = as_obj_or_empty (or_else (jget body ''SearchData'')
                            (or_else (jget body ''searchData'') (jget body ''searchProperties''))),
          l_access_policy = unwrap_or (json_str body ''AccessPolicy'') ''Public'',
          l_membership_lock = unwrap_or (or_else (json_str body ''MembershipLock'') (json_str body ''membershipLock''))
                                ''Unlocked'',
          l_members = [member_entry mid member_entity member_data],
          l_created = created\<rparr>)"

definition create_lobby :: "ext \<Rightarrow> f64 \<Rightarrow> f64 \<Rightarrow> app \<Rightarrow> value \<Rightarrow> player \<Rightarrow> string \<times> app" where
  "create_lobby x now created app body player =
     (let lobby_id = ''lan-'' @ take 12 (sha1_hex x (x_f64_str x now @ pl_entity_id player));
          app1 = drop_owner_lobbies app (pl_entity_id player);
          lobby = new_lobby x created app1 body player lobby_id
      in (lobby_id, app1\<lparr>lobbies := hm_insert (lobbies app1) lobby_id lobby\<rparr>))"

definition create_and_join ::
  "ext \<Rightarrow> f64 \<Rightarrow> f64 \<Rightarrow> app \<Rightarrow> value \<Rightarrow> headers \<Rightarrow> (response \<times> app) faulty" where
  "create_and_join x now created app body headers =
     (let (player, app1) = request_player x app body headers ''anonymous'';
          (lid, app2) = create_lobby x now created app1 body player
      in case hm_get (lobbies app2) lid of
           None \<Rightarrow> Inl Unwrap_None
         | Some lobby \<Rightarrow>
             Inr (playfab_ok x (jobj [(''LobbyId'', String (l_id lobby)),
                    (''ConnectionString'', String (l_connection lobby)),
                    (''MaxPlayers'', jint (l_max_players lobby))]), app2))"

section \<open>Joining\<close>

fun update_first :: "('a \<Rightarrow> bool) \<Rightarrow> ('a \<Rightarrow> 'a) \<Rightarrow> 'a list \<Rightarrow> 'a list" where
  "update_first P f [] = []"
| "update_first P f (y # ys) = (if P y then f y # ys else y # update_first P f ys)"

definition merge_member_data :: "ext \<Rightarrow> object \<Rightarrow> string \<Rightarrow> value \<Rightarrow> value" where
  "merge_member_data x joined eid m =
     set_field m ''MemberData'' (Object (fill_member_data x (insert_all (as_obj_or_empty (jget m ''MemberData'')) joined) eid))"

definition is_member :: "string \<Rightarrow> value list \<Rightarrow> bool" where
  "is_member eid ms \<longleftrightarrow> (\<exists>m \<in> set ms. member_id m = eid)"

text \<open>One lobby after a join; \<open>None\<close> when it is full.\<close>

definition admit_member :: "ext \<Rightarrow> string \<Rightarrow> value \<Rightarrow> value \<Rightarrow> lobby \<Rightarrow> lobby option" where
  "admit_member x eid ent body lobby =
     (if is_member eid (l_members lobby) then
        Some (lobby\<lparr>l_members := update_first (\<lambda>m. member_id m = eid)
                (merge_member_data x (as_obj_or_empty (jget body ''MemberData'')) eid) (l_members lobby)\<rparr>)
      else if int (length (l_members lobby)) \<ge> l_max_players lobby then None
      else Some (lobby\<lparr>l_members := l_members lobby @
                   [member_entry eid ent (fill_member_data x (as_obj_or_empty (jget body ''MemberData'')) eid)]\<rparr>))"

definition join_lobby :: "ext \<Rightarrow> app \<Rightarrow> value \<Rightarrow> headers \<Rightarrow> (response \<times> app) faulty" where
  "join_lobby x app0 body headers =
     (let (player, app) = request_player x app0 body headers ''anonymous'';
          conn = unwrap_or (or_else (json_str body ''ConnectionString'') (json_str body ''connectionString'')) []
      in case List.find (\<lambda>l. l_connection l = conn) (map snd (lobbies app)) of
           None \<Rightarrow>
             Inr (playfab_err x ''LobbyNotFound''
                    (if conn \<noteq> [] then ''Unknown connection string'' else ''Missing connection string''), app)
         | Some found \<Rightarrow>
             (case hm_get (lobbies app) (l_id found) of
                None \<Rightarrow> Inl Unwrap_None
              | Some lobby \<Rightarrow>
                  (let ent = unwrap_or (jget body ''MemberEntity'') (entity_obj player);
                       eid = unwrap_or (json_str ent ''Id'') (pl_entity_id player)
                   in case admit_member x eid ent body lobby of
                        None \<Rightarrow> Inr (playfab_err x ''LobbyMemberLimitExceeded'' ''Lobby is full'', app)
                      | Some lobby' \<Rightarrow>
                          Inr (playfab_ok x (jobj [(''LobbyId'', String (l_id lobby')),
                                 (''MaxPlayers'', jint (l_max_players lobby'))]),
                               app\<lparr>lobbies := hm_insert (lobbies app) (l_id found) lobby'\<rparr>))))"

section \<open>Searching\<close>

definition find_view :: "ext \<Rightarrow> string option \<Rightarrow> bool \<Rightarrow> lobby \<Rightarrow> lobby_view" where
  "find_view x viewer member lobby =
     \<lparr>v_id = l_id lobby, v_max_players = f64_of_int (l_max_players lobby),
      v_current_members = f64_of_int (int (length (l_members lobby))),
      v_membership_lock = l_membership_lock lobby, v_search_data = search_data_for_find x lobby,
      v_owner_id = lobby_owner_id lobby, v_viewer_id = viewer, v_viewer_is_member = member, v_has_server = False\<rparr>"

definition viewer_is_member :: "string option \<Rightarrow> lobby \<Rightarrow> bool" where
  "viewer_is_member viewer lobby = unwrap_or (map_option (lobby_has_entity lobby) viewer) False"

definition friends_present :: "value \<Rightarrow> bool" where
  "friends_present body \<longleftrightarrow> or_else (jget body ''FriendsFilter'') (jget body ''friendsFilter'') \<noteq> None"

definition find_candidates :: "ext \<Rightarrow> app \<Rightarrow> string option \<Rightarrow> bool \<Rightarrow> lobby_filter \<Rightarrow> lobby list" where
  "find_candidates x app viewer friends flt =
     filter (\<lambda>l. \<not> friends \<and> filter_matches x flt (find_view x viewer (viewer_is_member viewer l) l))
       (map snd (lobbies app))"

definition find_cmp :: "ext \<Rightarrow> string option \<Rightarrow> sort_spec list \<Rightarrow> lobby \<Rightarrow> lobby \<Rightarrow> ordering" where
  "find_cmp x viewer specs a b =
     then_with (cmp_lobbies (find_view x viewer False a) (find_view x viewer False b) specs)
       (unwrap_or (partial_cmp (l_created b) (l_created a)) Equal)"

text \<open>Whether a comparison is a total preorder on the elements of a list.\<close>

definition total_on_list :: "('a \<Rightarrow> 'a \<Rightarrow> ordering) \<Rightarrow> 'a list \<Rightarrow> bool" where
  "total_on_list cmp xs \<longleftrightarrow>
     (\<forall>a \<in> set xs. \<forall>b \<in> set xs. cmp b a = rev_ordering (cmp a b) \<and>
        (\<forall>c \<in> set xs. cmp a b \<noteq> Greater \<and> cmp b c \<noteq> Greater \<longrightarrow> cmp a c \<noteq> Greater))"

definition find_count :: "value \<Rightarrow> int option" where
  "find_count body =
     or_else (json_i64 body ''ClientSearchResultCount'')
       (or_else (json_i64 body ''clientSearchResultCount'')
          (Option.bind (jget body ''Pagination'') (\<lambda>p. json_i64 p ''PageSizeRequested'')))"

definition truncate_count :: "int option \<Rightarrow> 'a list \<Rightarrow> 'a list" where
  "truncate_count limit xs =
     (case limit of Some c \<Rightarrow> if c > 0 then take (nat (min c 1000)) xs else xs | None \<Rightarrow> xs)"

definition find_row :: "ext \<Rightarrow> lobby \<Rightarrow> value" where
  "find_row x lobby =
     jobj [(''LobbyId'', String (l_id lobby)), (''ConnectionString'', String (l_connection lobby)),
       (''CurrentPlayers'', jint (int (length (l_members lobby)))), (''MaxPlayers'', jint (l_max_players lobby)),
       (''MembershipLock'', String ''Unlocked''), (''SearchData'', Object (search_data_for_find x lobby)),
       (''Owner'', l_owner lobby)]"

definition find_response :: "ext \<Rightarrow> lobby list \<Rightarrow> string list \<Rightarrow> response" where
  "find_response x rows warnings =
     (let data = jobj [(''Lobbies'', Array (map (find_row x) rows)), (''Pagination'', jobj [])]
      in playfab_ok x (if warnings = [] then data else set_field data ''Warnings'' (Array (map String warnings))))"

definition find_filter_text :: "value \<Rightarrow> string" where
  "find_filter_text body = unwrap_or (or_else (json_str body ''Filter'') (json_str body ''filter'')) []"

definition find_sort_text :: "value \<Rightarrow> string" where
  "find_sort_text body =
     unwrap_or (or_else (json_str body ''Sort'') (or_else (json_str body ''sort'')
       (or_else (json_str body ''OrderBy'') (json_str body ''orderBy'')))) []"

definition find_lobbies :: "ext \<Rightarrow> app \<Rightarrow> value \<Rightarrow> headers \<Rightarrow> (response \<times> app) faulty" where
  "find_lobbies x app body headers =
     (let viewer = request_entity_id app body headers;
          flt = parse_filter (find_filter_text body);
          (specs, sort_bad) = parse_sort (find_sort_text body);
          friends = friends_present body;
          warnings = f_unsupported flt @ sort_bad @
            (if friends then [''friendsFilter present: broker has no friend graph (fail closed)''] else []);
          candidates = find_candidates x app viewer friends flt;
          cmp = find_cmp x viewer specs
      in if \<not> total_on_list cmp candidates then Inl Unordered_sort
         else Inr (find_response x (truncate_count (find_count body) (sort_by cmp candidates)) warnings, app))"

section \<open>Leaving\<close>

text \<open>The owner after the previous owner left a lobby that still has members.\<close>

definition migrate_owner :: "int \<Rightarrow> value list \<Rightarrow> value" where
  "migrate_owner policy members =
     (if policy = 1 then
        (let next = hd members; eid = member_id next
         in unwrap_or (opt_filter (\<lambda>v. unwrap_or (map_option (\<lambda>s. s \<noteq> []) (json_str v ''Id'')) False)
              (jget next ''MemberEntity'')) (jobj [(''Id'', String eid), (''Type'', String ''title_player_account'')]))
      else Null)"

definition remaining_members :: "string option \<Rightarrow> value list \<Rightarrow> value list" where
  "remaining_members pid members =
     (let kept = (case pid of Some p \<Rightarrow> filter (\<lambda>m. member_id m \<noteq> p) members | None \<Rightarrow> members)
      in if length kept = length members \<and> length members \<le> 1 then [] else kept)"

definition leave_one :: "string option \<Rightarrow> lobby \<Rightarrow> lobby option" where
  "leave_one pid lobby =
     (let members = remaining_members pid (l_members lobby);
          owner_left = unwrap_or (map_option (\<lambda>p. p = lobby_owner_id lobby) pid) False
      in if members = [] then None
         else Some (lobby\<lparr>l_members := members,
                          l_owner := (if owner_left then migrate_owner (l_owner_migration_policy lobby) members
                                      else l_owner lobby)\<rparr>))"

definition leave_lobby :: "ext \<Rightarrow> app \<Rightarrow> value \<Rightarrow> headers \<Rightarrow> response \<times> app" where
  "leave_lobby x app body headers =
     (let lid = unwrap_or (or_else (json_str body ''LobbyId'') (json_str body ''lobbyId'')) []
      in (playfab_ok x (jobj []),
          case hm_get (lobbies app) lid of
            None \<Rightarrow> app
          | Some lobby \<Rightarrow>
              (let app1 = app\<lparr>lobbies := hm_remove (lobbies app) lid\<rparr>;
                   pid = request_entity_id app1 body headers
               in case leave_one pid lobby of
                    None \<Rightarrow> app1
                  | Some lobby' \<Rightarrow> app1\<lparr>lobbies := hm_insert (lobbies app1) lid lobby'\<rparr>)))"

section \<open>Updating\<close>

definition upd_delete :: "value \<Rightarrow> lobby \<Rightarrow> lobby" where
  "upd_delete body lobby =
     lobby\<lparr>l_search_data := foldl bt_remove (l_search_data lobby)
              (json_str_array body [''SearchDataToDelete'', ''searchDataToDelete'']),
           l_lobby_data := foldl bt_remove (l_lobby_data lobby)
              (json_str_array body [''LobbyDataToDelete'', ''lobbyDataToDelete''])\<rparr>"

definition upd_scalars :: "value \<Rightarrow> lobby \<Rightarrow> lobby" where
  "upd_scalars body lobby =
     lobby\<lparr>l_membership_lock := unwrap_or (or_else (json_str body ''MembershipLock'') (json_str body ''membershipLock''))
              (l_membership_lock lobby),
           l_max_players := (case or_else (json_i64 body ''MaxPlayers'') (json_i64 body ''maxPlayers'') of
               Some mx \<Rightarrow> max (clamp_max_players mx) (int (length (l_members lobby)))
             | None \<Rightarrow> l_max_players lobby),
           l_access_policy := unwrap_or (or_else (json_str body ''AccessPolicy'') (json_str body ''accessPolicy''))
              (l_access_policy lobby),
           l_owner := unwrap_or (or_else (jget body ''Owner'') (jget body ''owner'')) (l_owner lobby)\<rparr>"

definition delete_member_keys :: "string list \<Rightarrow> value \<Rightarrow> value" where
  "delete_member_keys ks m =
     (case jget m ''MemberData'' of
        Some (Object md) \<Rightarrow> set_field m ''MemberData'' (Object (foldl bt_remove md ks))
      | _ \<Rightarrow> m)"

definition upd_member_delete :: "value \<Rightarrow> string option \<Rightarrow> lobby \<Rightarrow> lobby" where
  "upd_member_delete body target lobby =
     (let ks = json_str_array body [''MemberDataToDelete'', ''memberDataToDelete'']
      in if ks = [] then lobby
         else (case target of
                 Some t \<Rightarrow> lobby\<lparr>l_members := update_first (\<lambda>m. member_id m = t) (delete_member_keys ks) (l_members lobby)\<rparr>
               | None \<Rightarrow> lobby))"

definition upd_data :: "value \<Rightarrow> lobby \<Rightarrow> lobby" where
  "upd_data body lobby =
     lobby\<lparr>l_lobby_data := insert_all (l_lobby_data lobby)
              (as_obj_or_empty (or_else (jget body ''LobbyData'') (jget body ''lobbyData''))),
           l_search_data := insert_all (l_search_data lobby)
              (as_obj_or_empty (or_else (jget body ''SearchData'') (jget body ''searchData'')))\<rparr>"

definition upd_member_data :: "ext \<Rightarrow> value \<Rightarrow> string option \<Rightarrow> lobby \<Rightarrow> lobby" where
  "upd_member_data x body target lobby =
     (case (Option.bind (jget body ''MemberData'') as_object, target) of
        (Some md, Some eid) \<Rightarrow>
          lobby\<lparr>l_members := update_first (\<lambda>m. member_id m = eid) (merge_member_data x md eid) (l_members lobby)\<rparr>
      | _ \<Rightarrow> lobby)"

definition upsert_member :: "ext \<Rightarrow> lobby \<Rightarrow> value \<Rightarrow> lobby" where
  "upsert_member x lobby mem =
     (let eid = member_id mem
      in if eid = [] then lobby
         else
           (let data = fill_member_data x (as_obj_or_empty (jget mem ''MemberData'')) eid;
                ent = unwrap_or (jget mem ''MemberEntity'')
                        (jobj [(''Id'', String eid), (''Type'', String ''title_player_account'')])
            in if is_member eid (l_members lobby) then
                 lobby\<lparr>l_members := update_first (\<lambda>m. member_id m = eid)
                   (\<lambda>m. set_field (set_field m ''MemberData'' (Object data)) ''MemberEntity'' ent) (l_members lobby)\<rparr>
               else if int (length (l_members lobby)) < l_max_players lobby then
                 lobby\<lparr>l_members := l_members lobby @ [member_entry eid ent data]\<rparr>
               else lobby))"

definition upd_members :: "ext \<Rightarrow> value \<Rightarrow> lobby \<Rightarrow> lobby" where
  "upd_members x body lobby =
     foldl (upsert_member x) lobby (unwrap_or (Option.bind (jget body ''Members'') as_array) [])"

definition update_one :: "ext \<Rightarrow> value \<Rightarrow> string option \<Rightarrow> lobby \<Rightarrow> lobby" where
  "update_one x body updater lobby =
     (let target = or_else (json_str body ''MemberEntity'') updater
      in upd_members x body (upd_member_data x body target (upd_data body
           (upd_member_delete body target (upd_scalars body (upd_delete body lobby))))))"

definition update_lobby :: "ext \<Rightarrow> app \<Rightarrow> value \<Rightarrow> headers \<Rightarrow> response \<times> app" where
  "update_lobby x app body headers =
     (let lid = unwrap_or (or_else (json_str body ''LobbyId'') (json_str body ''lobbyId'')) [];
          updater = request_entity_id app body headers
      in (playfab_ok x (jobj []),
          case hm_get (lobbies app) lid of
            Some lobby \<Rightarrow> app\<lparr>lobbies := hm_insert (lobbies app) lid (update_one x body updater lobby)\<rparr>
          | None \<Rightarrow> app))"

definition get_lobby :: "ext \<Rightarrow> app \<Rightarrow> value \<Rightarrow> response" where
  "get_lobby x app body =
     (case hm_get (lobbies app) (unwrap_or (or_else (json_str body ''LobbyId'') (json_str body ''lobbyId'')) []) of
        Some l \<Rightarrow> playfab_ok x (lobby_public x l)
      | None \<Rightarrow> playfab_err x ''LobbyNotFound'' ''Lobby not found'')"

section \<open>Routing\<close>

definition handle_playfab ::
  "ext \<Rightarrow> f64 \<Rightarrow> f64 \<Rightarrow> app \<Rightarrow> string \<Rightarrow> value \<Rightarrow> headers \<Rightarrow> (response \<times> app) option faulty" where
  "handle_playfab x now created app path body headers =
     (let lower = to_ascii_lowercase (trim_start_matches (CHR ''/'') path)
      in if ends_with lower ''client/loginwithsteam'' \<or> ends_with lower ''loginwithsteam''
         then Inr (Some (login_with_steam x app body))
         else if str_contains (filter (\<lambda>c. c \<noteq> CHR ''_'') lower) ''getentitytoken''
         then Inr (Some (get_entity_token x app body headers))
         else if str_contains lower ''createandjoinlobby'' \<or> ends_with lower ''lobby/createlobby''
         then map_sum id Some (create_and_join x now created app body headers)
         else if ends_with lower ''lobby/joinlobby'' \<or> ends_with lower ''joinlobby''
         then map_sum id Some (join_lobby x app body headers)
         else if str_contains lower ''findlobbies''
         then map_sum id Some (find_lobbies x app body headers)
         else if str_contains lower ''leavelobby''
         then Inr (Some (leave_lobby x app body headers))
         else if str_contains lower ''updatelobby'' \<or> str_contains lower ''postlobby''
         then Inr (Some (update_lobby x app body headers))
         else if str_contains lower ''getlobby''
         then Inr (Some (get_lobby x app body, app))
         else if starts_with lower ''client/'' \<or> starts_with lower ''lobby/'' \<or> starts_with lower ''authentication/''
         then Inr (Some (playfab_ok x (jobj []), app))
         else Inr None)"

section \<open>Members\<close>

definition has_id :: "value \<Rightarrow> bool" where
  "has_id m \<longleftrightarrow> json_str m ''Id'' \<noteq> None"

lemma json_str_jobj: "json_str (jobj kvs) k = Option.bind (map_of (rev kvs) k) as_str"
  by (simp add: json_str_def jget_jobj)

lemma member_id_has_id: "has_id m \<Longrightarrow> json_str m ''Id'' = Some (member_id m)"
  by (auto simp: has_id_def member_id_def)

lemma member_entry_id [simp]: "has_id (member_entry mid ent data)" "member_id (member_entry mid ent data) = mid"
  by (simp_all add: has_id_def member_id_def member_entry_def json_str_jobj)

lemma set_field_id:
  assumes "has_id m" and "k \<noteq> ''Id''"
  shows "has_id (set_field m k v) \<and> member_id (set_field m k v) = member_id m"
proof -
  have "json_str (set_field m k v) ''Id'' = json_str m ''Id''"
    using assms(2) by (cases m) (simp_all add: json_str_def bt_get_insert)
  then show ?thesis using assms(1) by (auto simp: has_id_def member_id_def)
qed

definition keeps_id :: "(value \<Rightarrow> value) \<Rightarrow> bool" where
  "keeps_id f \<longleftrightarrow> (\<forall>m. has_id m \<longrightarrow> has_id (f m) \<and> member_id (f m) = member_id m)"

lemma keeps_id_merge: "keeps_id (merge_member_data x d eid)"
  by (simp add: keeps_id_def merge_member_data_def set_field_id)

lemma keeps_id_delete: "keeps_id (delete_member_keys ks)"
  by (auto simp: keeps_id_def delete_member_keys_def set_field_id split: option.splits "value.splits")

lemma keeps_id_upsert: "keeps_id (\<lambda>m. set_field (set_field m ''MemberData'' d) ''MemberEntity'' e)"
  by (simp add: keeps_id_def set_field_id)

lemma update_first_keeps:
  assumes "keeps_id f" and "\<forall>m \<in> set ms. has_id m"
  shows "map member_id (update_first P f ms) = map member_id ms \<and> (\<forall>m \<in> set (update_first P f ms). has_id m)"
  using assms(2)
proof (induction ms)
  case (Cons m ms)
  then have "has_id (f m) \<and> member_id (f m) = member_id m" using assms(1) by (simp add: keeps_id_def)
  with Cons show ?case by simp
qed simp

lemma length_update_first [simp]: "length (update_first P f ms) = length ms"
  by (induction ms) auto

section \<open>The invariant of a lobby\<close>

definition lobby_ok :: "lobby \<Rightarrow> bool" where
  "lobby_ok l \<longleftrightarrow>
     l_members l \<noteq> [] \<and> int (length (l_members l)) \<le> l_max_players l \<and>
     2 \<le> l_max_players l \<and> l_max_players l \<le> 32 \<and>
     distinct (map member_id (l_members l)) \<and> (\<forall>m \<in> set (l_members l). has_id m)"

lemma lobby_ok_update_first:
  assumes "lobby_ok l" and "keeps_id f"
  shows "lobby_ok (l\<lparr>l_members := update_first P f (l_members l)\<rparr>)"
proof -
  have "update_first P f (l_members l) \<noteq> []"
    using assms(1) by (metis length_0_conv length_update_first lobby_ok_def)
  then show ?thesis
    using assms update_first_keeps [OF assms(2), of "l_members l" P] by (simp add: lobby_ok_def)
qed

lemma lobby_ok_append:
  assumes "lobby_ok l" and "\<not> is_member eid (l_members l)" and "int (length (l_members l)) < l_max_players l"
  shows "lobby_ok (l\<lparr>l_members := l_members l @ [member_entry eid ent d]\<rparr>)"
  using assms by (auto simp: lobby_ok_def is_member_def)

lemma admit_member_ok: "lobby_ok l \<Longrightarrow> admit_member x eid ent body l = Some l' \<Longrightarrow> lobby_ok l'"
  by (auto simp: admit_member_def lobby_ok_update_first keeps_id_merge lobby_ok_append split: if_splits)

lemma upsert_member_ok: "lobby_ok l \<Longrightarrow> lobby_ok (upsert_member x l mem)"
  by (simp add: upsert_member_def Let_def lobby_ok_update_first keeps_id_upsert lobby_ok_append)

lemma upd_members_ok: "lobby_ok l \<Longrightarrow> lobby_ok (upd_members x body l)"
proof -
  have "lobby_ok l \<Longrightarrow> lobby_ok (foldl (upsert_member x) l ms)" for l ms
    by (induction ms arbitrary: l) (simp_all add: upsert_member_ok)
  then show "lobby_ok l \<Longrightarrow> ?thesis" by (simp add: upd_members_def)
qed

lemma upd_scalars_ok: "lobby_ok l \<Longrightarrow> lobby_ok (upd_scalars body l)"
  using clamp_max_players_range
  by (auto simp: lobby_ok_def upd_scalars_def le_max_iff_disj split: option.splits)

lemma update_one_ok: "lobby_ok l \<Longrightarrow> lobby_ok (update_one x body updater l)"
proof -
  assume ok: "lobby_ok l"
  have d: "lobby_ok a \<Longrightarrow> lobby_ok (upd_delete body a)" "lobby_ok a \<Longrightarrow> lobby_ok (upd_data body a)" for a
    by (simp_all add: lobby_ok_def upd_delete_def upd_data_def)
  have m: "lobby_ok a \<Longrightarrow> lobby_ok (upd_member_delete body t a)" "lobby_ok a \<Longrightarrow> lobby_ok (upd_member_data x body t a)"
    for t a
    by (auto simp: upd_member_delete_def upd_member_data_def Let_def lobby_ok_update_first keeps_id_delete
        keeps_id_merge split: option.splits)
  from ok show ?thesis by (simp add: update_one_def Let_def upd_members_ok m d upd_scalars_ok)
qed

lemma remaining_members_subset: "set (remaining_members pid ms) \<subseteq> set ms"
  by (auto simp: remaining_members_def Let_def split: option.splits)

lemma remaining_members_le:
  "length (remaining_members pid ms) \<le> length ms \<and>
   (distinct (map member_id ms) \<longrightarrow> distinct (map member_id (remaining_members pid ms)))"
  by (auto simp: remaining_members_def Let_def distinct_map_filter split: option.splits)

lemma leave_one_ok: "lobby_ok l \<Longrightarrow> leave_one pid l = Some l' \<Longrightarrow> lobby_ok l'"
  using remaining_members_subset [of pid "l_members l"] remaining_members_le [of pid "l_members l"]
  by (fastforce simp: leave_one_def Let_def lobby_ok_def split: if_splits)

lemma new_lobby_ok: "lobby_ok (new_lobby x created app body player lid)"
  by (simp add: new_lobby_def Let_def lobby_ok_def case_prod_beta resolve_lobby_max_range order_trans [OF _ resolve_lobby_max_range(1)])

section \<open>The invariant of the lobby table\<close>

definition entry_ok :: "string \<Rightarrow> string \<Rightarrow> lobby \<Rightarrow> bool" where
  "entry_ok title k l \<longleftrightarrow> l_id l = k \<and> l_connection l = ''lan.'' @ title @ ''.'' @ k \<and> lobby_ok l"

definition lobbies_wf :: "app \<Rightarrow> bool" where
  "lobbies_wf app \<longleftrightarrow> hm_wf (lobbies app) \<and> (\<forall>e \<in> set (lobbies app). entry_ok (title_id app) (fst e) (snd e))"

lemma lobbies_wf_get: "lobbies_wf app \<Longrightarrow> hm_get (lobbies app) k = Some l \<Longrightarrow> entry_ok (title_id app) k l"
  by (auto simp: lobbies_wf_def dest: map_of_SomeD)

lemma lobbies_wf_insert:
  assumes "lobbies_wf app" and "entry_ok (title_id app) k l"
  shows "lobbies_wf (app\<lparr>lobbies := hm_insert (lobbies app) k l\<rparr>)"
proof -
  have "hm_wf (hm_insert (lobbies app) k l)" using assms(1) by (simp add: lobbies_wf_def hm_wf_insert)
  moreover have "entry_ok (title_id app) (fst e) (snd e)" if "e \<in> set (hm_insert (lobbies app) k l)" for e
    using in_set_hm_insert [OF that] assms by (auto simp: lobbies_wf_def)
  ultimately show ?thesis by (simp add: lobbies_wf_def)
qed

lemma lobbies_wf_remove: "lobbies_wf app \<Longrightarrow> lobbies_wf (app\<lparr>lobbies := hm_remove (lobbies app) k\<rparr>)"
  by (simp add: lobbies_wf_def hm_wf_remove set_hm_remove)

lemma request_player_lobbies [simp]:
  "lobbies (snd (request_player x app body headers t)) = lobbies app"
  "title_id (snd (request_player x app body headers t)) = title_id app"
  by (simp_all add: request_player_def player_from_ticket_def Let_def split: option.splits)

lemma lobbies_wf_cong: "lobbies app' = lobbies app \<Longrightarrow> title_id app' = title_id app \<Longrightarrow> lobbies_wf app' = lobbies_wf app"
  by (simp add: lobbies_wf_def)

lemma drop_owner_lobbies_wf: "lobbies_wf app \<Longrightarrow> lobbies_wf (drop_owner_lobbies app own)"
proof -
  have "lobbies_wf a \<Longrightarrow> lobbies_wf (a\<lparr>lobbies := foldl hm_remove (lobbies a) ks\<rparr>)" for a ks
  proof (induction ks arbitrary: a)
    case (Cons k ks)
    from Cons.IH [OF lobbies_wf_remove [OF Cons.prems, of k]] show ?case by simp
  qed simp
  then show "lobbies_wf app \<Longrightarrow> ?thesis" by (simp add: drop_owner_lobbies_def Let_def)
qed

lemma create_lobby_wf: "lobbies_wf app \<Longrightarrow> lobbies_wf (snd (create_lobby x now created app body player))"
  by (auto simp: create_lobby_def Let_def entry_ok_def new_lobby_ok intro!: lobbies_wf_insert drop_owner_lobbies_wf)
    (simp_all add: new_lobby_def Let_def case_prod_beta)


lemma create_and_join_ok:
  assumes "lobbies_wf app"
  shows "case create_and_join x now created app body headers of Inr (r, app') \<Rightarrow> lobbies_wf app' | Inl e \<Rightarrow> False"
proof -
  obtain p app1 where p: "request_player x app body headers ''anonymous'' = (p, app1)" by fastforce
  then have wf1: "lobbies_wf app1"
    using assms request_player_lobbies [of x app body headers "''anonymous''"] by (simp add: lobbies_wf_def)
  obtain lid app2 where c: "create_lobby x now created app1 body p = (lid, app2)" by fastforce
  then have "hm_get (lobbies app2) lid \<noteq> None" "lobbies_wf app2"
    using create_lobby_wf [OF wf1, of x now created body p] by (auto simp: create_lobby_def Let_def hm_get_insert)
  then show ?thesis by (auto simp: create_and_join_def p c)
qed

text \<open>In a well-formed table a connection string names the entry it belongs to.\<close>

lemma find_connection:
  assumes "lobbies_wf app"
  shows "List.find (\<lambda>l. l_connection l = conn) (map snd (lobbies app)) =
    (case strip_prefix (''lan.'' @ title_id app @ ''.'') conn of Some k \<Rightarrow> hm_get (lobbies app) k | None \<Rightarrow> None)"
proof (cases "List.find (\<lambda>l. l_connection l = conn) (map snd (lobbies app))")
  case None
  then have "l_connection l \<noteq> conn" if "(k, l) \<in> set (lobbies app)" for k l
    using that by (force simp: find_None_iff)
  then have "conn \<noteq> ''lan.'' @ title_id app @ ''.'' @ k" if "hm_get (lobbies app) k = Some l" for k l
    using lobbies_wf_get [OF assms that] map_of_SomeD [OF that] by (auto simp: entry_ok_def)
  then have "hm_get (lobbies app) k = None" if "strip_prefix (''lan.'' @ title_id app @ ''.'') conn = Some k" for k
    using that by (cases "hm_get (lobbies app) k")
      (auto simp: strip_prefix_def starts_with_def split: if_splits, metis append.assoc append_Cons append_Nil append_take_drop_id)
  then show ?thesis using None by (auto split: option.splits)
next
  case (Some l)
  then obtain k where "(k, l) \<in> set (lobbies app)" "l_connection l = conn"
    by (auto simp: find_Some_iff) (metis nth_mem prod.collapse)
  with assms have "conn = ''lan.'' @ title_id app @ ''.'' @ k" "hm_get (lobbies app) k = Some l"
    by (force simp: lobbies_wf_def entry_ok_def, simp add: lobbies_wf_def)
  with Some show ?thesis by (simp add: strip_prefix_def starts_with_def)
qed

lemma find_connection_get:
  "lobbies_wf app \<Longrightarrow> List.find (\<lambda>l. l_connection l = conn) (map snd (lobbies app)) = Some l \<Longrightarrow>
   hm_get (lobbies app) (l_id l) = Some l"
  by (auto simp: find_connection dest: lobbies_wf_get simp: entry_ok_def split: option.splits)

lemma admit_member_keeps: "admit_member x eid ent body l = Some l' \<Longrightarrow> l_id l' = l_id l \<and> l_connection l' = l_connection l"
  by (auto simp: admit_member_def split: if_splits)

lemma join_lobby_ok:
  assumes "lobbies_wf app"
  shows "case join_lobby x app body headers of Inr (r, app') \<Rightarrow> lobbies_wf app' | Inl e \<Rightarrow> False"
proof -
  obtain p app1 where p: "request_player x app body headers ''anonymous'' = (p, app1)" by fastforce
  then have wf: "lobbies_wf app1"
    using assms request_player_lobbies [of x app body headers "''anonymous''"] by (simp add: lobbies_wf_def)
  let ?conn = "unwrap_or (or_else (json_str body ''ConnectionString'') (json_str body ''connectionString'')) []"
  show ?thesis
  proof (cases "List.find (\<lambda>l. l_connection l = ?conn) (map snd (lobbies app1))")
    case None
    then show ?thesis using wf by (simp add: join_lobby_def p)
  next
    case (Some l)
    note get = find_connection_get [OF wf Some]
    let ?ent = "unwrap_or (jget body ''MemberEntity'') (entity_obj p)"
    let ?adm = "admit_member x (unwrap_or (json_str ?ent ''Id'') (pl_entity_id p)) ?ent body l"
    have "lobbies_wf (app1\<lparr>lobbies := hm_insert (lobbies app1) (l_id l) l'\<rparr>)" if "?adm = Some l'" for l'
      using lobbies_wf_get [OF wf get] admit_member_ok [OF _ that] admit_member_keeps [OF that]
      by (intro lobbies_wf_insert [OF wf]) (auto simp: entry_ok_def)
    then show ?thesis
      using wf by (cases ?adm) (simp_all add: join_lobby_def p Some get)
  qed
qed

lemma find_lobbies_result:
  "case find_lobbies x app body headers of Inr (r, app') \<Rightarrow> app' = app | Inl e \<Rightarrow> e = Unordered_sort"
  by (simp add: find_lobbies_def Let_def case_prod_beta)

lemma leave_lobby_wf: "lobbies_wf app \<Longrightarrow> lobbies_wf (snd (leave_lobby x app body headers))"
proof -
  assume wf: "lobbies_wf app"
  let ?lid = "unwrap_or (or_else (json_str body ''LobbyId'') (json_str body ''lobbyId'')) []"
  let ?app = "app\<lparr>lobbies := hm_remove (lobbies app) ?lid\<rparr>"
  have "lobbies_wf (?app\<lparr>lobbies := hm_insert (lobbies ?app) ?lid l'\<rparr>)"
    if "hm_get (lobbies app) ?lid = Some l" "leave_one pid l = Some l'" for l l' pid
    using lobbies_wf_get [OF wf that(1)] leave_one_ok [OF _ that(2)] that(2)
    by (intro lobbies_wf_insert [OF lobbies_wf_remove [OF wf]])
      (auto simp: entry_ok_def leave_one_def Let_def split: if_splits)
  then show ?thesis
    using wf lobbies_wf_remove [OF wf, of ?lid] by (simp add: leave_lobby_def Let_def split: option.split)
qed

lemma upd_keeps:
  "l_id (upd_delete body a) = l_id a" "l_connection (upd_delete body a) = l_connection a"
  "l_id (upd_scalars body a) = l_id a" "l_connection (upd_scalars body a) = l_connection a"
  "l_id (upd_member_delete body t a) = l_id a" "l_connection (upd_member_delete body t a) = l_connection a"
  "l_id (upd_data body a) = l_id a" "l_connection (upd_data body a) = l_connection a"
  "l_id (upd_member_data x body t a) = l_id a" "l_connection (upd_member_data x body t a) = l_connection a"
  by (simp_all add: upd_member_data_def upd_data_def upd_member_delete_def upd_scalars_def upd_delete_def Let_def
      split: option.split)

lemma upd_members_keeps: "l_id (upd_members x body a) = l_id a" "l_connection (upd_members x body a) = l_connection a"
proof -
  have "l_id (upsert_member x a m) = l_id a \<and> l_connection (upsert_member x a m) = l_connection a" for a m
    by (simp add: upsert_member_def Let_def)
  then have "l_id (foldl (upsert_member x) a ms) = l_id a \<and> l_connection (foldl (upsert_member x) a ms) = l_connection a" for a ms
    by (induction ms arbitrary: a) simp_all
  then show "l_id (upd_members x body a) = l_id a" "l_connection (upd_members x body a) = l_connection a"
    by (simp_all add: upd_members_def)
qed

lemma update_one_keeps: "l_id (update_one x body u l) = l_id l" "l_connection (update_one x body u l) = l_connection l"
  by (simp_all add: update_one_def Let_def upd_keeps upd_members_keeps)

lemma update_lobby_wf: "lobbies_wf app \<Longrightarrow> lobbies_wf (snd (update_lobby x app body headers))"
  by (auto simp: update_lobby_def Let_def entry_ok_def update_one_keeps update_one_ok split: option.split
      intro!: lobbies_wf_insert dest: lobbies_wf_get)


section \<open>Runs of lobby requests\<close>

definition outcome_ok :: "(response \<times> app) option faulty \<Rightarrow> bool" where
  "outcome_ok res =
     (case res of Inr (Some (r, app')) \<Rightarrow> lobbies_wf app' | Inr None \<Rightarrow> True | Inl e \<Rightarrow> e = Unordered_sort)"

lemma outcome_ok_Some: "lobbies_wf (snd ra) \<Longrightarrow> outcome_ok (Inr (Some ra))"
  by (simp add: outcome_ok_def case_prod_beta)

lemma handle_playfab_ok:
  assumes "lobbies_wf app"
  shows "outcome_ok (handle_playfab x now created app path body headers)"
proof -
  have "lobbies_wf (snd (login_with_steam x app body))" "lobbies_wf (snd (get_entity_token x app body headers))"
    using assms request_player_lobbies [of x app body headers]
    by (simp_all add: login_with_steam_def get_entity_token_def player_from_ticket_def Let_def case_prod_beta lobbies_wf_def)
  moreover have "outcome_ok (map_sum id Some (create_and_join x now created app body headers))"
    "outcome_ok (map_sum id Some (join_lobby x app body headers))"
    "outcome_ok (map_sum id Some (find_lobbies x app body headers))"
    using create_and_join_ok [OF assms, of x now created body headers] join_lobby_ok [OF assms, of x body headers]
      find_lobbies_result [where x = x and app = app and body = body and headers = headers] assms
    by (auto simp: outcome_ok_def split: sum.splits)
  moreover have "outcome_ok (Inr None)" by (simp add: outcome_ok_def)
  ultimately show ?thesis
    using leave_lobby_wf [OF assms, of x body headers] update_lobby_wf [OF assms, of x body headers] assms
    by (simp add: handle_playfab_def Let_def outcome_ok_Some)
qed

definition playfab_apply :: "ext \<Rightarrow> f64 \<times> f64 \<times> string \<times> value \<times> headers \<Rightarrow> app \<Rightarrow> app" where
  "playfab_apply x req app =
     (case req of (now, created, path, body, headers) \<Rightarrow>
        (case handle_playfab x now created app path body headers of Inr (Some (_, app')) \<Rightarrow> app' | _ \<Rightarrow> app))"

lemma playfab_apply_wf: "lobbies_wf app \<Longrightarrow> lobbies_wf (playfab_apply x req app)"
proof -
  assume wf: "lobbies_wf app"
  obtain now created path body headers where "req = (now, created, path, body, headers)" by (metis prod_cases5)
  with handle_playfab_ok [OF wf, of x now created path body headers] wf show ?thesis
    by (simp add: playfab_apply_def outcome_ok_def split: sum.splits option.splits prod.splits)
qed

text \<open>
  Whatever sequence of PlayFab requests a server handles, every lobby stays stored under its
  own id with a connection string derived from it, and has at least one member and at most its
  maximum of members, all with distinct ids.
\<close>

theorem lobby_invariant:
  assumes "lobbies app = []"
  shows "lobbies_wf (fold (playfab_apply x) reqs app)"
proof -
  have "lobbies_wf a \<Longrightarrow> lobbies_wf (fold (playfab_apply x) reqs a)" for a
    by (induction reqs arbitrary: a) (simp_all add: playfab_apply_wf)
  moreover have "lobbies_wf app" using assms by (simp add: lobbies_wf_def)
  ultimately show ?thesis by blast
qed

text \<open>
  On every state reachable by PlayFab requests, no PlayFab request reaches the unwrap of a
  missing lobby.
\<close>

theorem no_unwrap_panic:
  assumes "lobbies_wf app"
  shows "handle_playfab x now created app path body headers \<noteq> Inl Unwrap_None"
  using handle_playfab_ok [OF assms, of x now created path body headers] by (auto simp: outcome_ok_def)

lemma admit_member_None:
  "admit_member x eid ent body l = None \<longleftrightarrow>
     eid \<notin> set (map member_id (l_members l)) \<and> l_max_players l \<le> int (length (l_members l))"
  by (auto simp: admit_member_def is_member_def)

lemma admit_member_Some:
  assumes "lobby_ok l" and "admit_member x eid ent body l = Some l'"
  shows "map member_id (l_members l') = map member_id (l_members l) @
      (if eid \<in> set (map member_id (l_members l)) then [] else [eid]) \<and>
    l_owner l' = l_owner l \<and> l_max_players l' = l_max_players l \<and> l_id l' = l_id l"
proof -
  have "\<forall>m \<in> set (l_members l). has_id m" using assms(1) by (simp add: lobby_ok_def)
  note keep = update_first_keeps [OF keeps_id_merge this]
  have "is_member eid (l_members l) \<longleftrightarrow> eid \<in> set (map member_id (l_members l))"
    by (auto simp: is_member_def)
  with assms(2) keep show ?thesis by (auto simp: admit_member_def split: if_splits)
qed


lemma header_entity_lobbies: "header_entity (app\<lparr>lobbies := m\<rparr>) headers hs = header_entity app headers hs"
  by (induction hs) (simp_all split: option.splits)

lemma request_entity_lobbies:
  "request_entity_id (app\<lparr>lobbies := m\<rparr>) body headers = request_entity_id app body headers"
  by (simp only: request_entity_id_def header_entity_lobbies)



theorem stranger_closes_single_lobby:
  assumes "hm_get (lobbies app) lid = Some l" and "l_members l = [m]" and "member_id m \<noteq> pid"
    and "json_str body ''LobbyId'' = Some lid" and "request_entity_id app body headers = Some pid"
  shows "hm_get (lobbies (snd (leave_lobby x app body headers))) lid = None"
  using assms by (simp add: leave_lobby_def request_entity_lobbies leave_one_def remaining_members_def hm_get_remove)

section \<open>Search results\<close>

lemma total_on_list_iff: "total_on_list cmp xs \<longleftrightarrow> total_cmp (set xs) cmp"
  unfolding total_on_list_def total_cmp_def by blast

lemma total_cmp_image: "total_cmp A cmp \<Longrightarrow> f ` B \<subseteq> A \<Longrightarrow> total_cmp B (\<lambda>a b. cmp (f a) (f b))"
  unfolding total_cmp_def by blast

lemma total_cmp_created: "total_cmp {l. l_created l \<noteq> F64_nan} (\<lambda>a b. unwrap_or (partial_cmp (l_created b) (l_created a)) Equal)"
proof
  fix a b assume "a \<in> {l. l_created l \<noteq> F64_nan}" "b \<in> {l. l_created l \<noteq> F64_nan}"
  then show "unwrap_or (partial_cmp (l_created a) (l_created b)) Equal =
      rev_ordering (unwrap_or (partial_cmp (l_created b) (l_created a)) Equal)"
    using partial_cmp_flip [of "l_created a" "l_created b"]
    by (cases "partial_cmp (l_created b) (l_created a)") simp_all
next
  fix a b c assume abc: "a \<in> {l. l_created l \<noteq> F64_nan}" "b \<in> {l. l_created l \<noteq> F64_nan}" "c \<in> {l. l_created l \<noteq> F64_nan}"
  have "unwrap_or (partial_cmp p q) Equal \<noteq> Greater \<longleftrightarrow> \<not> f64_lt q p" for p q
    by (cases "partial_cmp p q") (auto simp: partial_cmp_Greater [symmetric])
  then show "unwrap_or (partial_cmp (l_created b) (l_created a)) Equal \<noteq> Greater \<Longrightarrow>
      unwrap_or (partial_cmp (l_created c) (l_created b)) Equal \<noteq> Greater \<Longrightarrow>
      unwrap_or (partial_cmp (l_created c) (l_created a)) Equal \<noteq> Greater"
    using not_lt_trans [of "l_created c" "l_created b" "l_created a"] abc by auto
qed

lemma total_find_cmp:
  assumes "\<forall>l \<in> A. l_created l \<noteq> F64_nan \<and> sortable specs (find_view x viewer False l)"
  shows "total_cmp A (find_cmp x viewer specs)"
proof -
  have "total_cmp A (\<lambda>a b. cmp_lobbies (find_view x viewer False a) (find_view x viewer False b) specs)"
    using assms by (intro total_cmp_image [OF total_cmp_lobbies]) auto
  moreover have "total_cmp A (\<lambda>a b. unwrap_or (partial_cmp (l_created b) (l_created a)) Equal)"
    using assms by (intro total_cmp_mono [OF total_cmp_created]) auto
  ultimately show ?thesis
    unfolding find_cmp_def by (rule total_cmp_then_with)
qed


text \<open>
  A filter with a clause outside the supported subset yields no lobby at all and reports the
  clause among the warnings.
\<close>

theorem unsupported_filter_returns_nothing:
  assumes "f_unsupported (parse_filter (find_filter_text body)) \<noteq> []"
  shows "find_lobbies x app body headers =
    Inr (find_response x [] (f_unsupported (parse_filter (find_filter_text body)) @
      snd (parse_sort (find_sort_text body)) @
      (if friends_present body then [''friendsFilter present: broker has no friend graph (fail closed)''] else [])), app)"
proof -
  have "find_candidates x app v f (parse_filter (find_filter_text body)) = []" for v f
    using assms by (simp add: find_candidates_def filter_matches_def)
  then show ?thesis
    by (simp add: find_lobbies_def Let_def case_prod_beta total_on_list_def truncate_count_def split: option.split)
qed


section \<open>Witnesses\<close>

definition demo_player :: player where
  "demo_player = \<lparr>pl_playfab_id = ''P'', pl_entity_id = ''B'', pl_entity_type = ''title_player_account'',
     pl_entity_token = ''tok'', pl_session_ticket = ''tick'', pl_token_expiration = utc_iso (F64_fin 12)\<rparr>"

definition demo_lobby :: lobby where
  "demo_lobby = \<lparr>l_id = ''lan-1'', l_connection = ''lan.1AC1AD.lan-1'', l_owner = Object [(''Id'', String ''A'')],
     l_owner_migration_policy = 0, l_max_players = 2, l_lobby_data = [], l_search_data = [],
     l_access_policy = ''Public'', l_membership_lock = ''Unlocked'', l_members = [member_entry ''A'' Null []],
     l_created = F64_fin 1\<rparr>"

definition demo_lobbies :: app where
  "demo_lobbies = demo_app\<lparr>lobbies := [(''lan-1'', demo_lobby)], sessions := [(''tok'', demo_player)]\<rparr>"

lemma demo_lobbies_facts:
  "lobbies_wf demo_lobbies" "hm_get (lobbies demo_lobbies) ''lan-1'' = Some demo_lobby"
  "l_members demo_lobby = [member_entry ''A'' Null []]"
  by (simp_all add: lobbies_wf_def demo_lobbies_def demo_lobby_def entry_ok_def lobby_ok_def demo_app_def TITLE_DEFAULT_def)

theorem lobby_invariant_witness:
  "lobbies_wf (fold (playfab_apply demo_ext)
     [(F64_fin 1, F64_fin 1, ''/Lobby/CreateLobby'', Object [], []),
      (F64_fin 2, F64_fin 2, ''/Lobby/JoinLobby'', Object [(''ConnectionString'', String ''x'')], [])] demo_app)"
  by (rule lobby_invariant) (simp add: demo_app_def)

theorem no_unwrap_panic_witness:
  "handle_playfab demo_ext (F64_fin 1) (F64_fin 1) demo_lobbies ''/Lobby/JoinLobby''
     (Object [(''ConnectionString'', String ''lan.1AC1AD.lan-1'')]) [] \<noteq> Inl Unwrap_None"
  by (rule no_unwrap_panic [OF demo_lobbies_facts(1)])



theorem stranger_closes_single_lobby_witness:
  "hm_get (lobbies (snd (leave_lobby demo_ext demo_lobbies
     (Object [(''EntityId'', String ''Z''), (''LobbyId'', String ''lan-1'')]) []))) ''lan-1'' = None"
proof -
  let ?b = "Object [(''EntityId'', String ''Z''), (''LobbyId'', String ''lan-1'')]"
  have "json_str ?b ''LobbyId'' = Some ''lan-1''" "request_entity_id demo_lobbies ?b [] = Some ''Z''"
    by (simp_all add: json_str_def request_entity_id_def)
  from stranger_closes_single_lobby [OF demo_lobbies_facts(2,3) _ this] show ?thesis by simp
qed


theorem unsupported_filter_returns_nothing_witness:
  "\<exists>w. w \<noteq> [] \<and> find_lobbies demo_ext demo_lobbies (Object [(''Filter'', String ''bogus'')]) [] =
     Inr (find_response demo_ext [] w, demo_lobbies)"
proof -
  have "f_unsupported (parse_filter (find_filter_text (Object [(''Filter'', String ''bogus'')]))) \<noteq> []"
    by (simp add: find_filter_text_def json_str_def parse_filter_def parse_filter_loop.simps take_bare_def skip_ws_def
        is_ascii_whitespace_def)
  with unsupported_filter_returns_nothing [OF this] show ?thesis by blast
qed

end
