(* ===== verification/Dispatch.thy ===== *)
theory Dispatch
  imports Party_Broker Lobby_Broker
begin

text \<open>
  Routing of \<open>lan-server/src/main.rs\<close>: the Cygames endpoints, the boot configuration, the
  normalisation of request paths and \<open>dispatch\<close>, which asks the three handlers in turn; and the
  start-up configuration (\<open>load_lobby_ini\<close>, the command line). The state lock is held for one
  handler call at a time, so a request is one step of the state.
\<close>

section \<open>Paths\<close>

fun strip_first_prefix :: "string list \<Rightarrow> string \<Rightarrow> string" where
  "strip_first_prefix [] p = p"
| "strip_first_prefix (pre # pres) p =
     (case strip_prefix pre p of
        Some rest \<Rightarrow> ''/'' @ trim_start_matches (CHR ''/'') rest
      | None \<Rightarrow> strip_first_prefix pres p)"

definition api_prefixes :: "string list" where
  "api_prefixes = [''/v1/api/index.php/'', ''/v1/api/'', ''/index.php/'', ''/api/'']"

definition strip_api_prefix :: "string \<Rightarrow> string" where
  "strip_api_prefix path = strip_first_prefix api_prefixes (hd (split_char (CHR ''?'') path))"

definition is_boot_path :: "string \<Rightarrow> bool" where
  "is_boot_path path =
     (let p = to_ascii_lowercase path
      in ends_with p ''.json'' \<or> ends_with p ''.dat'' \<or> ends_with p ''.blob'' \<or> str_contains p ''config'')"

section \<open>Boot configuration and Cygames endpoints\<close>

definition advert_host :: "headers \<Rightarrow> string \<Rightarrow> string" where
  "advert_host headers fallback =
     unwrap_or (opt_filter (\<lambda>h. h \<noteq> []) (map_option (\<lambda>h. hd (split_char (CHR '':'') h)) (hm_get headers ''host'')))
       fallback"

definition url :: "string \<Rightarrow> string \<Rightarrow> u16 \<Rightarrow> string \<Rightarrow> string" where
  "url scheme host port path = scheme @ ''://'' @ host @ '':'' @ show_nat (unat port) @ path"

definition boot_config :: "u64 \<Rightarrow> app \<Rightarrow> headers \<Rightarrow> value" where
  "boot_config secs app headers =
     (let host = advert_host headers ''127.0.0.1'';
          now = wrap_i64 (uint secs)
      in jobj [(''PlayfabTitleId'', String (title_id app)),
           (''PlaylogUrl'', String (url ''http'' host (http_port app) ''/playlog'')),
           (''NetworkStatsUrl'', String (url ''http'' host (http_port app) ''/playlog/network-stats'')),
           (''GameapiUrl'', String (url ''http'' host (http_port app) [])),
           (''WebsocketUrl'', String (url ''ws'' host (ws_port app) ''/'')),
           (''CidpUrl'', String ''x''), (''CidpOfficialUrl'', String ''x''), (''CidpClientId'', String ''x''),
           (''PrivacyPolicyUrl'', String ''x''), (''SurveyUrl'', String ''x''),
           (''ActivateDateSec'', jint (now - 86400)),
           (''DeactivateDateSec'', jint (now + 86400 * 3650)),
           (''MatchingSearchWaitTimeMinSec'', jint 0), (''MatchingSearchWaitTimeMaxSec'', jint 3600),
           (''MatchingRemainingMaxCounter'', jint 10), (''MatchingDefaultSearchLimit'', jint 20),
           (''MatchingEnableFindListSort'', jint 1), (''SearchWaitTimeMinSec'', jint 0),
           (''SearchWaitTimeMaxSec'', jint 3600), (''RemainingMaxCounter'', jint 10)])"

definition handle_cygames :: "ext \<Rightarrow> f64 \<Rightarrow> string \<Rightarrow> app \<Rightarrow> headers \<Rightarrow> response option" where
  "handle_cygames x now path app headers =
     (let p = trim_start_matches (CHR ''/'') path
      in if p = ''sys/get_terms'' \<or> p = ''get_terms''
         then Some (cygames_ok x (jobj [(''pp_version'', jint 1), (''playlog'', jint 1), (''sc'', jint 0)]))
         else if p = ''sys/get_news'' \<or> p = ''get_news''
         then Some (cygames_ok x (jobj [(''list_size'', jint 0), (''list'', Array [])]))
         else if p = ''sys/user_auth'' \<or> p = ''user_auth'' \<or> p = ''sys/external_user_auth'' \<or> p = ''external_user_auth''
         then Some (cygames_ok x (jobj
                [(''auth_token'', String (''lan-auth.'' @ take 16 (sha1_hex x (x_f64_str x now)))),
                 (''ws_url'', String (url ''ws'' (advert_host headers ''127.0.0.1'') (ws_port app) ''/'')),
                 (''ws_api_key'', String ''lan-ws-api-key''), (''cygames_id_linked'', Bool False)]))
         else if p = ''activity/get_invite_list'' \<or> p = ''activity/get_presence_list''
         then Some (cygames_ok x (jobj []))
         else if p = ''cygames_id/link_status'' \<or> p = ''cygames_id/link'' \<or> p = ''cygames_id/unlink'' \<or>
                 (starts_with p ''cygames_id/'' \<and> p \<noteq> ''cygames_id/check_reward'')
         then Some (cygames_ok x (jobj [(''is_pending'', Bool False), (''link_status'', jint 0)]))
         else if p = ''cygames_id/check_reward''
         then Some (cygames_ok x (jobj [(''has_link_reward'', Bool False), (''has_cross_reward'', Bool False)]))
         else if starts_with p ''playlog'' then Some (cygames_ok x (jobj []))
         else None)"

section \<open>Dispatch\<close>

text \<open>The clock readings of one request: two of \<open>now_unix\<close> and one of \<open>now_secs\<close>.\<close>

record clock =
  ck_now :: f64
  ck_created :: f64
  ck_secs :: u64

text \<open>The answer when no handler took the request.\<close>

definition fallback_response :: "ext \<Rightarrow> clock \<Rightarrow> app \<Rightarrow> string \<Rightarrow> string \<Rightarrow> headers \<Rightarrow> response" where
  "fallback_response x ck app meth stripped headers =
     (if meth = ''GET'' \<and> (stripped = ''/'' \<or> stripped = ''/health'') then
        (200, ''application/json'',
         unwrap_or (x_to_vec x (jobj [(''ok'', Bool True), (''title'', String (title_id app))])) [])
      else if meth = ''GET'' \<and> (is_boot_path stripped \<or> stripped = ''/'' \<or> stripped = []) then
        (let raw = unwrap_or (x_to_vec x (boot_config (ck_secs ck) app headers)) []
         in if ends_with stripped ''.blob''
            then (200, ''application/octet-stream'', encode_boot_blob x (ck_secs ck) raw)
            else (200, ''application/json'', raw))
      else if meth = ''POST'' then playfab_ok x (jobj [])
      else cygames_ok x (jobj []))"

definition party_request_path :: "string \<Rightarrow> string" where
  "party_request_path path =
     (let party = trim_start_matches (CHR ''/'') (strip_api_prefix path)
      in case split_once (CHR ''?'') path of
           Some (_, q) \<Rightarrow> if q \<noteq> [] then ''/'' @ party @ ''?'' @ q else ''/'' @ party
         | None \<Rightarrow> ''/'' @ party)"

definition dispatch ::
  "ext \<Rightarrow> clock \<Rightarrow> app \<Rightarrow> string \<Rightarrow> string \<Rightarrow> headers \<Rightarrow> value \<Rightarrow> (response \<times> app) faulty" where
  "dispatch x ck app meth path headers body =
     (let stripped = strip_api_prefix path;
          party = trim_start_matches (CHR ''/'') stripped
      in case handle_cygames x (ck_now ck) stripped app headers of
           Some r \<Rightarrow> Inr (r, app)
         | None \<Rightarrow>
             (case (if starts_with party ''party/''
                    then handle_party x (ck_now ck) app (party_request_path path) body headers else None) of
                Some ra \<Rightarrow> Inr ra
              | None \<Rightarrow>
                  (case handle_playfab x (ck_now ck) (ck_created ck) app stripped body headers of
                     Inl e \<Rightarrow> Inl e
                   | Inr (Some ra) \<Rightarrow> Inr ra
                   | Inr None \<Rightarrow> Inr (fallback_response x ck app meth stripped headers, app))))"

section \<open>Start-up\<close>

record ini_state =
  is_max :: int
  is_override :: bool
  is_section :: string

definition truthy :: "string \<Rightarrow> bool" where
  "truthy v = (let t = to_ascii_lowercase (trim v) in t = ''true'' \<or> t = ''1'' \<or> t = ''yes'')"

definition ini_line :: "ini_state \<Rightarrow> string \<Rightarrow> ini_state" where
  "ini_line st raw =
     (let line = trim (hd (split_char (CHR '';'') raw))
      in if line = [] then st
         else if starts_with line ''['' \<and> ends_with line '']''
         then st\<lparr>is_section := to_ascii_lowercase (trim (take (length line - 2) (drop 1 line)))\<rparr>
         else (case split_once (CHR ''='') line of
                 None \<Rightarrow> st
               | Some (k, v) \<Rightarrow>
                   if is_section st \<noteq> ''lobby'' then st
                   else (let key = to_ascii_lowercase (trim k)
                         in if key = ''max_players'' then st\<lparr>is_max := unwrap_or (parse_i64 (trim v)) (is_max st)\<rparr>
                            else if key = ''override_game_max'' then st\<lparr>is_override := truthy v\<rparr>
                            else st)))"

text \<open>The argument is the file's text, \<open>None\<close> when it cannot be read.\<close>

definition load_lobby_ini :: "string option \<Rightarrow> int \<times> bool" where
  "load_lobby_ini text =
     (let st0 = \<lparr>is_max = DEFAULT_MAX_PLAYERS, is_override = True, is_section = []\<rparr>;
          st = (case text of Some t \<Rightarrow> foldl ini_line st0 (str_lines t) | None \<Rightarrow> st0)
      in (clamp_max_players (is_max st), is_override st))"

record args =
  ar_title :: string
  ar_http_port :: u16
  ar_ws_port :: u16
  ar_ini :: string
  ar_max_players :: "int option"
  ar_decode_blob :: "string option"

text \<open>
  The command line loop. The value of an option is the next argument, consumed even when it
  does not parse; \<open>--decode-blob\<close> ends the loop, the program then decodes that file and exits.
\<close>

fun parse_args :: "args \<Rightarrow> string list \<Rightarrow> args" where
  "parse_args a [] = a"
| "parse_args a [opt] =
     (if opt = ''--max-players'' then a\<lparr>ar_max_players := None\<rparr>
      else if opt = ''--decode-blob'' then a\<lparr>ar_decode_blob := Some []\<rparr> else a)"
| "parse_args a (opt # val # rest) =
     (if opt = ''--title-id'' then parse_args (a\<lparr>ar_title := val\<rparr>) rest
      else if opt = ''--http-port'' then parse_args (a\<lparr>ar_http_port := unwrap_or (parse_u16 val) (ar_http_port a)\<rparr>) rest
      else if opt = ''--ws-port'' then parse_args (a\<lparr>ar_ws_port := unwrap_or (parse_u16 val) (ar_ws_port a)\<rparr>) rest
      else if opt = ''--ini'' then parse_args (a\<lparr>ar_ini := val\<rparr>) rest
      else if opt = ''--max-players'' then parse_args (a\<lparr>ar_max_players := parse_i64 val\<rparr>) rest
      else if opt = ''--decode-blob'' then a\<lparr>ar_decode_blob := Some val\<rparr>
      else parse_args a (val # rest))"

text \<open>The initial state from the arguments and the ini text they select.\<close>

definition initial_app :: "args \<Rightarrow> string option \<Rightarrow> app" where
  "initial_app a ini_text =
     (case load_lobby_ini ini_text of
        (mx, override) \<Rightarrow>
          \<lparr>title_id = ar_title a, http_port = ar_http_port a, ws_port = ar_ws_port a,
           app_max_players = (case ar_max_players a of Some n \<Rightarrow> clamp_max_players n | None \<Rightarrow> mx),
           override_game_max = override, sessions = [], lobbies = [], party = []\<rparr>)"

section \<open>Prefixed paths\<close>

lemma strip_prefix_append [simp]: "strip_prefix pre (pre @ s) = Some s"
  by (simp add: strip_prefix_def starts_with_def)

lemma strip_prefix_None: "strip_prefix pre s = None \<longleftrightarrow> \<not> (\<exists>r. s = pre @ r)"
  by (auto simp: strip_prefix_def starts_with_def) (metis append_take_drop_id)

lemma strip_shortens:
  assumes "\<forall>pre \<in> set pres. 1 < length pre" and "strip_first_prefix pres s = s"
  shows "\<forall>pre \<in> set pres. strip_prefix pre s = None"
  using assms
proof (induction pres)
  case (Cons pre pres)
  show ?case
  proof (cases "strip_prefix pre s")
    case (Some rest)
    then have len: "length s = length pre + length rest"
      by (auto simp: strip_prefix_def starts_with_def split: if_splits) (metis append_take_drop_id length_append length_drop)
    have "length (trim_start_matches (CHR ''/'') rest) \<le> length rest"
      by (simp add: trim_start_matches_def length_dropWhile_le)
    moreover have "s = ''/'' @ trim_start_matches (CHR ''/'') rest" using Cons.prems(2) Some by simp
    then have "length s = Suc (length (trim_start_matches (CHR ''/'') rest))" by (metis length_Cons append_Cons append_Nil)
    moreover have "1 < length pre" using Cons.prems(1) by simp
    ultimately show ?thesis using len by linarith
  next
    case None
    with Cons show ?thesis by simp
  qed
qed simp

lemma api_prefix_strip:
  assumes "pre \<in> set api_prefixes" and "strip_first_prefix api_prefixes (''/'' @ p) = ''/'' @ p"
    and "p = [] \<or> hd p \<noteq> CHR ''/''"
  shows "strip_first_prefix api_prefixes (pre @ p) = ''/'' @ p"
proof -
  have t: "trim_start_matches (CHR ''/'') p = p"
    using assms(3) by (cases p) (simp_all add: trim_start_matches_def)
  have "strip_prefix ''/index.php/'' (''/'' @ p) = None"
    using strip_shortens [OF _ assms(2)] by (simp add: api_prefixes_def)
  then have "\<not> starts_with p ''index.php/''" by (simp add: strip_prefix_def starts_with_def split: if_splits)
  then have n: "strip_prefix ''/v1/api/index.php/'' (''/v1/api/'' @ p) = None"
    by (simp add: strip_prefix_def starts_with_def)
  have m: "strip_prefix ''/v1/api/index.php/'' (''/index.php/'' @ p) = None"
    "strip_prefix ''/v1/api/'' (''/index.php/'' @ p) = None"
    "strip_prefix ''/v1/api/index.php/'' (''/api/'' @ p) = None"
    "strip_prefix ''/v1/api/'' (''/api/'' @ p) = None"
    "strip_prefix ''/index.php/'' (''/api/'' @ p) = None"
    by (simp_all add: strip_prefix_def starts_with_def)
  from assms(1) consider "pre = ''/v1/api/index.php/''" | "pre = ''/v1/api/''" | "pre = ''/index.php/''" | "pre = ''/api/''"
    by (auto simp: api_prefixes_def)
  then show ?thesis
    by cases (simp_all only: api_prefixes_def strip_first_prefix.simps n m strip_prefix_append option.case t)
qed

text \<open>
  A request under any of the API prefixes is answered exactly as the request without the
  prefix, query string included.
\<close>

theorem prefixed_request_same:
  assumes "pre \<in> set api_prefixes" and "strip_first_prefix api_prefixes (''/'' @ p) = ''/'' @ p"
    and "p = [] \<or> hd p \<noteq> CHR ''/''" and "CHR ''?'' \<notin> set p" and "query = [] \<or> query = ''?'' @ q"
  shows "dispatch x ck app meth (pre @ p @ query) headers body =
    dispatch x ck app meth (''/'' @ p @ query) headers body"
proof -
  have pre: "CHR ''?'' \<notin> set pre" using assms(1) by (auto simp: api_prefixes_def)
  have q: "hd (split_char (CHR ''?'') (s @ query)) = s" if "CHR ''?'' \<notin> set s" for s
    using assms(5) split_char_head [of "CHR ''?''" s q] split_char_none [OF that] by auto
  have strip: "strip_api_prefix (pre @ p @ query) = strip_api_prefix (''/'' @ p @ query)"
    using q [of "pre @ p"] q [of "''/'' @ p"] pre assms(2,4) api_prefix_strip [OF assms(1-3)]
    by (simp add: strip_api_prefix_def)
  have "party_request_path (s @ query) =
      ''/'' @ trim_start_matches (CHR ''/'') (strip_api_prefix (s @ query)) @ (if q \<noteq> [] then query else [])"
    if "CHR ''?'' \<notin> set s" for s
    using assms(5) split_once_append [OF that, of q] split_once_none [OF that]
    by (auto simp: party_request_path_def Let_def)
  from this [of "pre @ p"] this [of "''/'' @ p"]
  have path: "party_request_path (pre @ p @ query) = party_request_path (''/'' @ p @ query)"
    using pre assms(4) strip by simp
  show ?thesis unfolding dispatch_def strip path ..
qed

definition demo_clock :: clock where
  "demo_clock = \<lparr>ck_now = F64_fin 0, ck_created = F64_fin 0, ck_secs = 0\<rparr>"

theorem prefixed_request_same_witness:
  "dispatch demo_ext demo_clock demo_app ''POST'' ''/v1/api/index.php/party/join?network_id=net-1'' [] (demo_join ''A'') =
   dispatch demo_ext demo_clock demo_app ''POST'' ''/party/join?network_id=net-1'' [] (demo_join ''A'')"
proof -
  have "strip_first_prefix api_prefixes (''/'' @ ''party/join'') = ''/'' @ ''party/join''"
    by (simp add: api_prefixes_def strip_prefix_def starts_with_def)
  from prefixed_request_same [OF _ this, of "''/v1/api/index.php/''" "''?network_id=net-1''" "''network_id=net-1''"]
  show ?thesis by (simp add: api_prefixes_def)
qed

section \<open>The whole server\<close>

definition server_wf :: "app \<Rightarrow> bool" where
  "server_wf app \<longleftrightarrow> party_wf app \<and> lobbies_wf app"

lemma party_wf_cong: "party app' = party app \<Longrightarrow> app_max_players app' = app_max_players app \<Longrightarrow> party_wf app' = party_wf app"
  by (simp add: party_wf_def configured_mesh_cap_def)

lemma handle_party_lobbies:
  "handle_party x now app path body headers = Some (r, app') \<Longrightarrow> lobbies app' = lobbies app \<and> title_id app' = title_id app"
  by (auto simp: handle_party_def party_join_def party_leave_def party_peers_def Let_def split: prod.splits if_splits option.splits)

definition same_party :: "app \<Rightarrow> app \<Rightarrow> bool" where
  "same_party app app' \<longleftrightarrow> party app' = party app \<and> app_max_players app' = app_max_players app"

lemma request_player_party: "same_party app (snd (request_player x app body headers t))"
  by (simp add: same_party_def request_player_def player_from_ticket_def Let_def split: option.splits)


definition keeps_party :: "app \<Rightarrow> (response \<times> app) option faulty \<Rightarrow> bool" where
  "keeps_party app res = (case res of Inr (Some (_, app')) \<Rightarrow> same_party app app' | _ \<Rightarrow> True)"

lemma keeps_party_Some: "same_party app (snd ra) \<Longrightarrow> keeps_party app (Inr (Some ra))"
  by (simp add: keeps_party_def case_prod_beta)

lemma same_party_trans: "same_party a b \<Longrightarrow> same_party b c \<Longrightarrow> same_party a c"
  by (simp add: same_party_def)

lemma same_party_simps [simp]:
  "same_party a a" "same_party a (b\<lparr>lobbies := m\<rparr>) = same_party a b" "same_party a (b\<lparr>sessions := m'\<rparr>) = same_party a b"
  by (simp_all add: same_party_def)

lemma create_and_join_party: "keeps_party app (map_sum id Some (create_and_join x now created app body headers))"
proof -
  obtain p app1 where p: "request_player x app body headers ''anonymous'' = (p, app1)" by fastforce
  then have "same_party app app1" using request_player_party [of app x body headers "''anonymous''"] by simp
  moreover have "same_party app1 (snd (create_lobby x now created app1 body p))"
    by (simp add: create_lobby_def Let_def drop_owner_lobbies_def)
  ultimately show ?thesis
    by (auto simp: create_and_join_def p keeps_party_def case_prod_beta split: option.split intro: same_party_trans)
qed

lemma join_lobby_party: "keeps_party app (map_sum id Some (join_lobby x app body headers))"
proof -
  obtain p app1 where p: "request_player x app body headers ''anonymous'' = (p, app1)" by fastforce
  then have "same_party app app1" using request_player_party [of app x body headers "''anonymous''"] by simp
  then show ?thesis
    by (simp add: join_lobby_def p keeps_party_def Let_def split: option.split)
qed

lemma handle_playfab_party: "keeps_party app (handle_playfab x now created app path body headers)"
proof -
  have "same_party app (snd (login_with_steam x app body))" "same_party app (snd (get_entity_token x app body headers))"
    using request_player_party [of app x body headers "unwrap_or (json_str body ''SteamTicket'') ''anonymous''"]
    by (simp_all add: login_with_steam_def get_entity_token_def player_from_ticket_def Let_def case_prod_beta)
  moreover have "keeps_party app (map_sum id Some (find_lobbies x app body headers))"
    using find_lobbies_result [where x = x and app = app and body = body and headers = headers]
    by (auto simp: keeps_party_def split: sum.splits)
  moreover have "same_party app (snd (leave_lobby x app body headers))" "same_party app (snd (update_lobby x app body headers))"
    by (simp_all add: leave_lobby_def update_lobby_def Let_def split: option.split)
  moreover have "keeps_party app (Inr None)" by (simp add: keeps_party_def)
  ultimately show ?thesis
    using create_and_join_party [of app x now created body headers] join_lobby_party [of app x body headers]
    by (simp add: handle_playfab_def Let_def keeps_party_Some)
qed

lemma dispatch_wf:
  assumes "server_wf app"
  shows "case dispatch x ck app meth path headers body of Inr (r, app') \<Rightarrow> server_wf app' | Inl e \<Rightarrow> e = Unordered_sort"
proof (cases "handle_cygames x (ck_now ck) (strip_api_prefix path) app headers")
  case None
  note cyg = this
  let ?hp = "if starts_with (trim_start_matches (CHR ''/'') (strip_api_prefix path)) ''party/''
    then handle_party x (ck_now ck) app (party_request_path path) body headers else None"
  show ?thesis
  proof (cases ?hp)
    case None
    have "outcome_ok (handle_playfab x (ck_now ck) (ck_created ck) app (strip_api_prefix path) body headers)"
      "keeps_party app (handle_playfab x (ck_now ck) (ck_created ck) app (strip_api_prefix path) body headers)"
      using assms handle_playfab_ok handle_playfab_party by (auto simp: server_wf_def)
    with None cyg assms show ?thesis
      by (auto simp: dispatch_def outcome_ok_def keeps_party_def same_party_def server_wf_def
          dest: party_wf_cong split: sum.splits option.splits)
  next
    case (Some ra)
    then obtain r app' where ra: "ra = (r, app')"
      and hp: "handle_party x (ck_now ck) app (party_request_path path) body headers = Some (r, app')"
      by (cases ra) (auto split: if_splits)
    have "party_wf app'"
      using party_apply_wf [of app x "(ck_now ck, party_request_path path, body, headers)"] assms hp
      by (simp add: party_apply_def server_wf_def)
    with handle_party_lobbies [OF hp] assms have "server_wf app'"
      by (simp add: server_wf_def lobbies_wf_def)
    with Some cyg ra show ?thesis by (simp add: dispatch_def)
  qed
next
  case (Some r)
  with assms show ?thesis by (simp add: dispatch_def)
qed


definition server_apply :: "ext \<Rightarrow> clock \<times> string \<times> string \<times> headers \<times> value \<Rightarrow> app \<Rightarrow> app" where
  "server_apply x req app =
     (case req of (ck, meth, path, headers, body) \<Rightarrow>
        (case dispatch x ck app meth path headers body of Inr (_, app') \<Rightarrow> app' | Inl _ \<Rightarrow> app))"

lemma server_apply_wf: "server_wf app \<Longrightarrow> server_wf (server_apply x req app)"
proof -
  assume wf: "server_wf app"
  obtain ck meth path headers body where "req = (ck, meth, path, headers, body)" by (metis prod_cases5)
  with dispatch_wf [OF wf, of x ck meth path headers body] wf show ?thesis
    by (auto simp: server_apply_def split: sum.splits)
qed

lemma initial_app_wf: "server_wf (initial_app a ini_text)"
  by (simp add: server_wf_def party_wf_def lobbies_wf_def initial_app_def case_prod_beta)

lemma server_run_wf: "server_wf (fold (server_apply x) reqs (initial_app a ini_text))"
proof -
  have "server_wf s \<Longrightarrow> server_wf (fold (server_apply x) reqs s)" for s
    by (induction reqs arbitrary: s) (simp_all add: server_apply_wf)
  then show ?thesis using initial_app_wf by blast
qed

section \<open>Boot blob\<close>

text \<open>
  Decoding an encoded boot blob gives back the plaintext, for any cipher and base64 coder with
  their documented inverse laws.
\<close>

theorem boot_blob_roundtrip:
  assumes b64: "\<And>bs. x_b64_decode x (as_bytes (x_b64_encode x bs)) = Inr bs"
    and aead: "\<And>k n pt ct. x_encrypt x k n pt = Some ct \<Longrightarrow> x_decrypt x k n ct = Inr pt \<and> length ct = length pt + 16"
    and enc: "x_encrypt x BLOB_KEY (boot_nonce secs) plaintext \<noteq> None"
  shows "decode_boot_blob x (encode_boot_blob x secs plaintext) = Inr plaintext"
proof -
  from enc obtain ct where ct: "x_encrypt x BLOB_KEY (boot_nonce secs) plaintext = Some ct" by auto
  have n: "length (boot_nonce secs) = 12" by (simp add: boot_nonce_def le_bytes64_def)
  show ?thesis
    using aead [OF ct] by (simp add: decode_boot_blob_def encode_boot_blob_def ct b64 n)
qed

theorem boot_blob_roundtrip_witness:
  "decode_boot_blob demo_ext (encode_boot_blob demo_ext 1700000000 [1, 2, 3]) = Inr [1, 2, 3]"
  by (rule boot_blob_roundtrip) (auto simp: demo_ext_def)

end
