(* ===== verification/Http_Server.thy ===== *)
theory Http_Server
  imports Dispatch
begin

text \<open>
  The socket side of \<open>lan-server/src/main.rs\<close>: reading one HTTP request from a stream that
  arrives in pieces, writing a response, WebSocket frames, the per-connection handler and the
  connection budget. A stream is the list of results of successive \<open>read\<close> calls; once the list
  is exhausted the peer has closed. The socket handed to the WebSocket pump is the bytes still to
  come, and every failing \<open>read_exact\<close> ends the pump.
\<close>

section \<open>Responses\<close>

definition http_reason :: "u16 \<Rightarrow> string" where
  "http_reason code =
     (if code = 200 then ''OK'' else if code = 101 then ''Switching Protocols''
      else if code = 204 then ''No Content'' else if code = 400 then ''Bad Request''
      else if code = 404 then ''Not Found'' else if code = 409 then ''Conflict''
      else if code = 500 then ''Internal Server Error'' else if code = 503 then ''Service Unavailable''
      else ''OK'')"

abbreviation crlf :: string where
  "crlf \<equiv> [CHR 0x0D, CHR 0x0A]"

definition send_http :: "u16 \<Rightarrow> string \<Rightarrow> bytes \<Rightarrow> bytes" where
  "send_http code ctype body =
     as_bytes (''HTTP/1.1 '' @ show_nat (unat code) @ '' '' @ http_reason code @ crlf @
       ''Content-Type: '' @ ctype @ crlf @ ''Content-Length: '' @ show_nat (length body) @ crlf @
       ''Connection: close'' @ crlf @ ''Access-Control-Allow-Origin: *'' @ crlf @ crlf) @ body"

section \<open>WebSocket frames\<close>

definition be_bytes16 :: "u16 \<Rightarrow> bytes" where
  "be_bytes16 w = [ucast (drop_bit 8 w), ucast w]"

definition be_bytes64 :: "u64 \<Rightarrow> bytes" where
  "be_bytes64 w = rev (le_bytes64 w)"

text \<open>\<open>from_be_bytes\<close>: the first byte is the most significant.\<close>

definition from_be :: "bytes \<Rightarrow> nat" where
  "from_be bs = foldl (\<lambda>acc b. acc * 256 + unat b) 0 bs"

definition ws_send_binary :: "bytes \<Rightarrow> bytes" where
  "ws_send_binary payload =
     (let n = length payload in
      [0x82] @
      (if n < 126 then [of_nat n]
       else if n < 65536 then 126 # be_bytes16 (of_nat n)
       else 127 # be_bytes64 (of_nat n)) @ payload)"

definition handle_ws_payload :: "ext \<Rightarrow> bytes \<Rightarrow> bytes" where
  "handle_ws_payload x data =
     (let reply =
        (case x_from_slice x data of
           Some v \<Rightarrow>
             (let cmd = unwrap_or (Option.bind (jget v ''command'') as_str) [];
                  params0 = (case jget v ''params'' of Some (Object m) \<Rightarrow> m | _ \<Rightarrow> []);
                  params = (if bt_get params0 ''lobby_search_id'' = None
                            then (case jget v ''lobby_search_id'' of
                                    Some i \<Rightarrow> if i = Null then params0 else bt_insert params0 ''lobby_search_id'' i
                                  | None \<Rightarrow> params0)
                            else params0)
              in Some (jobj [(''command'', String cmd), (''params'', Object params)]))
         | None \<Rightarrow>
             if str_contains data (as_bytes ''join_lobby'')
             then Some (jobj [(''command'', String ''join_lobby''), (''params'', jobj [])])
             else None)
      in case Option.bind reply (x_to_vec x) of Some body \<Rightarrow> ws_send_binary body | None \<Rightarrow> [])"

definition read_exact :: "nat \<Rightarrow> bytes \<Rightarrow> (bytes \<times> bytes) option" where
  "read_exact n input = (if n \<le> length input then Some (take n input, drop n input) else None)"

definition ws_length :: "u8 \<Rightarrow> bytes \<Rightarrow> (nat \<times> bytes) option" where
  "ws_length b input =
     (let len = unat (b AND 0x7f) in
      if len = 126 then map_option (\<lambda>(e, r). (from_be e, r)) (read_exact 2 input)
      else if len = 127 then map_option (\<lambda>(e, r). (from_be e, r)) (read_exact 8 input)
      else Some (len, input))"

definition unmask :: "bytes \<Rightarrow> bytes \<Rightarrow> bytes" where
  "unmask mkey data = map (\<lambda>(i, b). b XOR mkey ! (i mod 4)) (enumerate 0 data)"

text \<open>One frame: opcode, payload and the rest of the stream; \<open>None\<close> wherever the loop breaks.\<close>

definition ws_read_frame :: "bytes \<Rightarrow> (u8 \<times> bytes \<times> bytes) option" where
  "ws_read_frame input =
     Option.bind (read_exact 2 input) (\<lambda>(hdr, r1).
     Option.bind (ws_length (hdr ! 1) r1) (\<lambda>(len, r2).
       if len > 1000000 then None
       else
         (let masked = (hdr ! 1 AND 0x80 \<noteq> 0) in
          Option.bind (if masked then read_exact 4 r2 else Some ([0, 0, 0, 0], r2)) (\<lambda>(mkey, r3).
          Option.bind (read_exact len r3) (\<lambda>(data, r4).
            Some (hdr ! 0 AND 0x0f, (if masked then unmask mkey data else data), r4))))))"

definition ws_answer :: "ext \<Rightarrow> u8 \<Rightarrow> bytes \<Rightarrow> bytes" where
  "ws_answer x opcode data =
     (if opcode = 0x9 then (if length data < 126 then [0x8a, of_nat (length data)] @ data else [])
      else if opcode = 0x1 \<or> opcode = 0x2 then handle_ws_payload x data
      else [])"

lemma read_exact_shorter: "read_exact n input = Some (a, r) \<Longrightarrow> length r + n = length input"
  by (auto simp: read_exact_def split: if_splits)

lemma ws_length_le: "ws_length b input = Some (len, r) \<Longrightarrow> length r \<le> length input"
  by (auto simp: ws_length_def Let_def read_exact_def split: if_splits)

lemma ws_read_frame_shorter: "ws_read_frame input = Some (opcode, data, rest) \<Longrightarrow> length rest < length input"
  by (auto simp: ws_read_frame_def Let_def split: Option.bind_splits if_splits dest!: read_exact_shorter ws_length_le)

function pump_websocket :: "ext \<Rightarrow> bytes \<Rightarrow> bytes" where
  "pump_websocket x input =
     (case ws_read_frame input of
        None \<Rightarrow> []
      | Some (opcode, data, rest) \<Rightarrow>
          if opcode = 0x8 then [] else ws_answer x opcode data @ pump_websocket x rest)"
  by pat_completeness auto
termination
  by (relation "measure (\<lambda>(x, input). length input)") (auto dest: ws_read_frame_shorter)

declare pump_websocket.simps [simp del]

definition handle_ws_upgrade :: "ext \<Rightarrow> headers \<Rightarrow> bytes \<Rightarrow> bytes" where
  "handle_ws_upgrade x headers input =
     (case hm_get headers ''sec-websocket-key'' of
        None \<Rightarrow> send_http 400 ''text/plain'' (as_bytes ''missing Sec-WebSocket-Key'')
      | Some key \<Rightarrow>
          (let accept = x_b64_encode x (x_sha1 x (as_bytes key @ as_bytes WS_GUID));
               proto = (case hm_get headers ''sec-websocket-protocol'' of
                          Some p \<Rightarrow> ''Sec-WebSocket-Protocol: '' @ p @ crlf
                        | None \<Rightarrow> [])
           in as_bytes (''HTTP/1.1 101 Switching Protocols'' @ crlf @ ''Upgrade: websocket'' @ crlf @
                ''Connection: Upgrade'' @ crlf @ ''Sec-WebSocket-Accept: '' @ accept @ crlf @ proto @ crlf) @
              pump_websocket x input))"

section \<open>Reading a request\<close>

definition MAX_BODY_BYTES :: nat where "MAX_BODY_BYTES = 1024 * 1024"
definition CR :: u8 where "CR = 0x0D"
definition LF :: u8 where "LF = 0x0A"
definition HEAD_END :: bytes where "HEAD_END = [CR, LF, CR, LF]"

datatype read_event = Data bytes | Read_error

datatype read_result = Request string string headers bytes | TooLarge | Dropped

definition is_tls_hello :: "bytes \<Rightarrow> bool" where
  "is_tls_hello buf \<longleftrightarrow> length buf \<ge> 3 \<and> buf ! 0 = 0x16 \<and> buf ! 1 = 0x03"

fun read_head :: "bytes \<Rightarrow> read_event list \<Rightarrow> (bytes \<times> read_event list) option" where
  "read_head buf [] = Some (buf, [])"
| "read_head buf (Read_error # es) = None"
| "read_head buf (Data d # es) =
     (if d = [] then Some (buf, es)
      else
        (let buf' = buf @ d in
         if is_tls_hello buf' then None
         else if find_sub HEAD_END buf' \<noteq> None then Some (buf', es)
         else if length buf' > 1024 * 1024 then None
         else read_head buf' es))"

fun read_body :: "nat \<Rightarrow> bytes \<Rightarrow> read_event list \<Rightarrow> bytes option" where
  "read_body want body [] = Some body"
| "read_body want body (e # es) =
     (if want \<le> length body then Some body
      else (case e of
              Read_error \<Rightarrow> None
            | Data d \<Rightarrow> if d = [] then Some body else read_body want (body @ d) es))"

definition parse_header_line :: "headers \<Rightarrow> bytes \<Rightarrow> headers" where
  "parse_header_line hs line =
     (let l = rev (dropWhile (\<lambda>c. c = CHR 0x0D) (rev (utf8_lossy (of_bytes line))))
      in case split_once (CHR '':'') l of
           Some (k, v) \<Rightarrow> hm_insert hs (to_ascii_lowercase (trim k)) (trim v)
         | None \<Rightarrow> hs)"

definition parse_head :: "bytes \<Rightarrow> (string \<times> string \<times> headers) option" where
  "parse_head head =
     (case split_char LF head of
        [] \<Rightarrow> None
      | req # lines \<Rightarrow>
          (case split_whitespace (utf8_lossy (of_bytes req)) of
             meth # path # _ \<Rightarrow> Some (meth, path, foldl parse_header_line [] lines)
           | _ \<Rightarrow> None))"

definition content_length :: "headers \<Rightarrow> nat" where
  "content_length hs = unwrap_or (Option.bind (hm_get hs ''content-length'') parse_usize) 0"

definition finish_request :: "bytes \<Rightarrow> read_event list \<Rightarrow> read_result" where
  "finish_request buf es =
     (case find_sub HEAD_END buf of
        None \<Rightarrow> Dropped
      | Some idx \<Rightarrow>
          (case parse_head (take idx buf) of
             None \<Rightarrow> Dropped
           | Some (meth, path, hs) \<Rightarrow>
               (let want = content_length hs
                in if want > MAX_BODY_BYTES then TooLarge
                   else (case read_body want (drop (idx + 4) buf) es of
                           None \<Rightarrow> Dropped
                         | Some body \<Rightarrow> Request meth path hs (take want body)))))"

definition read_request :: "read_event list \<Rightarrow> read_result" where
  "read_request es =
     (case read_head [] es of
        None \<Rightarrow> Dropped
      | Some (buf, rest) \<Rightarrow> if buf = [] then Dropped else finish_request buf rest)"

section \<open>One connection\<close>

definition is_websocket_upgrade :: "headers \<Rightarrow> bool" where
  "is_websocket_upgrade hs \<longleftrightarrow>
     (case hm_get hs ''upgrade'' of
        Some s \<Rightarrow> (\<exists>p \<in> set (split_char (CHR '','') (to_ascii_lowercase s)). trim p = ''websocket'')
      | None \<Rightarrow> False)"

definition add_peer_ip :: "string option \<Rightarrow> headers \<Rightarrow> headers" where
  "add_peer_ip peer hs =
     (case peer of
        Some ip \<Rightarrow> if hm_get hs ''x-peer-ip'' = None then hm_insert hs ''x-peer-ip'' ip else hs
      | None \<Rightarrow> hs)"

definition options_reply :: bytes where
  "options_reply =
     as_bytes (''HTTP/1.1 204 No Content'' @ crlf @ ''Access-Control-Allow-Origin: *'' @ crlf @
       ''Access-Control-Allow-Headers: *'' @ crlf @ ''Access-Control-Allow-Methods: GET,POST,PUT,DELETE,OPTIONS'' @ crlf @
       ''Content-Length: 0'' @ crlf @ crlf)"

definition json_body :: "ext \<Rightarrow> bytes \<Rightarrow> value" where
  "json_body x raw =
     (if raw = [] then jobj []
      else (case x_from_slice x raw of
              Some v \<Rightarrow> v
            | None \<Rightarrow> jobj [(''_raw'', String (utf8_lossy (of_bytes raw)))]))"

text \<open>The bytes written to the socket and the next state; \<open>ws_input\<close> is what follows the request.\<close>

definition handle_client ::
  "ext \<Rightarrow> clock \<Rightarrow> app \<Rightarrow> string option \<Rightarrow> read_event list \<Rightarrow> bytes \<Rightarrow> (bytes \<times> app) faulty" where
  "handle_client x ck app peer es ws_input =
     (case read_request es of
        Dropped \<Rightarrow> Inr ([], app)
      | TooLarge \<Rightarrow> Inr (send_http 413 ''text/plain'' (as_bytes ''request body too large''), app)
      | Request meth path hs0 raw \<Rightarrow>
          (let hs = add_peer_ip peer hs0
           in if is_websocket_upgrade hs then Inr (handle_ws_upgrade x hs ws_input, app)
              else if meth = ''OPTIONS'' then Inr (options_reply, app)
              else (case dispatch x ck app meth path hs (json_body x raw) of
                      Inl e \<Rightarrow> Inl e
                    | Inr ((code, ctype, out), app') \<Rightarrow> Inr (send_http code ctype out, app'))))"

section \<open>Framing does not depend on how the stream is cut\<close>

lemma HEAD_END_len [simp]: "length HEAD_END = 4" "HEAD_END \<noteq> []"
  by (simp_all add: HEAD_END_def)

lemma read_body_chunks:
  "\<forall>c \<in> set cs. c \<noteq> [] \<Longrightarrow>
   \<exists>b. read_body want body (map Data cs) = Some b \<and> take want b = take want (body @ concat cs)"
proof (induction cs arbitrary: body)
  case (Cons c cs)
  with Cons.IH [of "body @ c"] show ?case by (cases "want \<le> length body") simp_all
qed simp

lemma read_head_found:
  assumes "find_sub HEAD_END (buf @ concat cs) = Some idx" and "\<forall>c \<in> set cs. c \<noteq> []"
    and "find_sub HEAD_END buf = None" and "\<not> is_tls_hello (buf @ concat cs)" and "idx + 3 \<le> 1024 * 1024"
  shows "\<exists>buf2 cs2. read_head buf (map Data cs) = Some (buf2, map Data cs2) \<and> buf2 @ concat cs2 = buf @ concat cs \<and>
    find_sub HEAD_END buf2 = Some idx \<and> set cs2 \<subseteq> set cs"
  using assms
proof (induction cs arbitrary: buf)
  case (Cons c cs)
  have tls: "\<not> is_tls_hello (buf @ c)"
    using Cons.prems(4) by (auto simp: is_tls_hello_def nth_append split: if_splits)
  show ?case
  proof (cases "find_sub HEAD_END (buf @ c)")
    case None
    have "length (buf @ c) \<le> 1024 * 1024"
      using find_sub_spill [of HEAD_END "buf @ c" "concat cs" idx] None Cons.prems by simp
    with Cons.IH [of "buf @ c"] Cons.prems None tls show ?thesis by fastforce
  next
    case (Some i)
    with find_sub_append [OF Some] Cons.prems tls show ?thesis
      by (intro exI [of _ "buf @ c"] exI [of _ cs]) auto
  qed
qed simp

lemma read_head_missing:
  "find_sub HEAD_END (buf @ concat cs) = None \<Longrightarrow> read_head buf (map Data cs) = Some (buf2, es) \<Longrightarrow>
   find_sub HEAD_END buf2 = None"
proof (induction cs arbitrary: buf)
  case (Cons c cs)
  have "find_sub HEAD_END (buf @ c) = None"
    using Cons.prems(1) find_sub_append [of HEAD_END "buf @ c" _ "concat cs"] by (cases "find_sub HEAD_END (buf @ c)") auto
  moreover have "find_sub HEAD_END buf = None"
    using calculation find_sub_append [of HEAD_END buf _ c] by (cases "find_sub HEAD_END buf") auto
  ultimately show ?case using Cons.IH [of "buf @ c"] Cons.prems by (auto simp: Let_def split: if_splits)
qed simp

text \<open>The request a complete byte stream carries.\<close>

definition request_of :: "bytes \<Rightarrow> read_result" where
  "request_of s =
     (case find_sub HEAD_END s of
        None \<Rightarrow> Dropped
      | Some idx \<Rightarrow>
          (case parse_head (take idx s) of
             None \<Rightarrow> Dropped
           | Some (meth, path, hs) \<Rightarrow>
               if content_length hs > MAX_BODY_BYTES then TooLarge
               else Request meth path hs (take (content_length hs) (drop (idx + 4) s))))"

lemma read_request_chunks:
  assumes "\<forall>c \<in> set cs. c \<noteq> []" and "\<not> is_tls_hello (concat cs)"
    and "\<forall>idx. find_sub HEAD_END (concat cs) = Some idx \<longrightarrow> idx + 3 \<le> 1024 * 1024"
  shows "read_request (map Data cs) = request_of (concat cs)"
proof (cases "find_sub HEAD_END (concat cs)")
  case None
  then show ?thesis
    using read_head_missing [of "[]" cs]
    by (auto simp: read_request_def request_of_def finish_request_def split: option.splits)
next
  case (Some idx)
  with read_head_found [of "[]" cs idx] assms obtain buf cs2 where
    h: "read_head [] (map Data cs) = Some (buf, map Data cs2)" "buf @ concat cs2 = concat cs"
      "find_sub HEAD_END buf = Some idx" "set cs2 \<subseteq> set cs" by auto
  have len: "idx + 4 \<le> length buf" using find_sub_bound [OF h(3)] by simp
  then have t: "take idx (concat cs) = take idx buf" "drop (idx + 4) (concat cs) = drop (idx + 4) buf @ concat cs2" "buf \<noteq> []"
    by (auto simp: h(2) [symmetric])
  show ?thesis
  proof (cases "parse_head (take idx buf)")
    case None
    then show ?thesis using h(1,3) Some t by (simp add: read_request_def request_of_def finish_request_def)
  next
    case p: (Some mph)
    obtain meth path hs where "mph = (meth, path, hs)" by (cases mph)
    moreover obtain body where "read_body (content_length hs) (drop (idx + 4) buf) (map Data cs2) = Some body"
      "take (content_length hs) body = take (content_length hs) (drop (idx + 4) buf @ concat cs2)"
      using read_body_chunks [of cs2 "content_length hs"] h(4) assms(1) by blast
    ultimately show ?thesis
      using h(1,3) Some t p by (simp add: read_request_def request_of_def finish_request_def Let_def)
  qed
qed

text \<open>
  C17: reading a request from a stream that arrives in nonempty pieces gives the request that
  the whole byte sequence spells, however it is cut, as long as it is not a TLS hello and its
  head ends within the first mebibyte.
\<close>

theorem read_request_any_chunks:
  assumes "\<forall>c \<in> set cs. c \<noteq> []" and "\<not> is_tls_hello (concat cs)"
    and "\<forall>idx. find_sub HEAD_END (concat cs) = Some idx \<longrightarrow> idx + 3 \<le> 1024 * 1024"
  shows "read_request (map Data cs) = request_of (concat cs)"
  using assms by (rule read_request_chunks)

definition demo_request :: "bytes list" where
  "demo_request = [as_bytes (''POST /party/msg HTTP/1.1'' @ crlf @ ''Content-Le''),
     as_bytes (''ngth: 2'' @ [CHR 0x0D]), as_bytes ([CHR 0x0A] @ crlf @ ''{''), as_bytes ''}''  ]"

theorem read_request_any_chunks_witness:
  "read_request (map Data demo_request) = request_of (concat demo_request) \<and>
   find_sub HEAD_END (concat demo_request) = Some 43"
proof -
  have f: "find_sub HEAD_END (concat demo_request) = Some 43"
    by (simp add: demo_request_def HEAD_END_def CR_def LF_def as_bytes_def u8_of_char_def)
  have "read_request (map Data demo_request) = request_of (concat demo_request)"
    by (rule read_request_any_chunks)
      (simp_all add: f, simp_all add: demo_request_def as_bytes_def is_tls_hello_def u8_of_char_def)
  with f show ?thesis by blast
qed

section \<open>Frames\<close>

lemma horner_digits: "foldl (\<lambda>acc d. acc * 256 + d) 0 (rev (digits256 k n)) = n mod 256 ^ k"
proof (induction k arbitrary: n)
  case (Suc k)
  have "n mod 256 ^ Suc k = 256 * (n div 256 mod 256 ^ k) + n mod 256"
    by (simp add: mod_mult2_eq)
  with Suc show ?case by (simp add: digits256_Suc)
qed (simp add: digits256_def)

lemma from_be_map: "from_be bs = foldl (\<lambda>acc d. acc * 256 + d) 0 (map unat bs)"
  by (simp add: from_be_def foldl_map)

lemma from_be_bytes64: "from_be (be_bytes64 w) = unat w"
proof -
  have "map unat (be_bytes64 w) = rev (digits256 8 (unat w))"
    by (simp add: be_bytes64_def le_bytes64_def digits256_def rev_map unat_byte comp_def del: upt_rec_numeral)
  then show ?thesis
    using unat_bound [of w] by (simp add: from_be_map horner_digits)
qed

lemma from_be_bytes16: "from_be (be_bytes16 w) = unat w"
proof -
  have "map unat (be_bytes16 w) = rev (digits256 2 (unat w))"
    using unat_byte [of 0 w] unat_byte [of 1 w] by (simp add: be_bytes16_def digits256_def numeral_2_eq_2)
  then show ?thesis
    using unat_bound [of w] by (simp add: from_be_map horner_digits)
qed


lemma read_exact_append: "length a = n \<Longrightarrow> read_exact n (a @ r) = Some (a, r)"
  by (simp add: read_exact_def)

lemma byte_and_7f: "n < 128 \<Longrightarrow> unat ((of_nat n :: u8) AND 0x7f) = n" "n < 128 \<Longrightarrow> (of_nat n :: u8) AND 0x80 = 0"
proof -
  assume n: "n < 128"
  have m: "(0x7f :: u8) = Bit_Operations.mask 7" by (simp add: mask_eq_exp_minus_1)
  have "unat (of_nat n :: u8) = n" using n by (simp add: unat_of_nat)
  then have tb: "take_bit 7 (of_nat n :: u8) = of_nat n"
    using n by (simp add: take_bit_of_nat take_bit_nat_eq_self)
  then show "unat ((of_nat n :: u8) AND 0x7f) = n"
    using \<open>unat (of_nat n :: u8) = n\<close> by (simp only: m take_bit_eq_mask [symmetric])
  have e: "(0x80 :: u8) = push_bit 7 1" by simp
  show "(of_nat n :: u8) AND 0x80 = 0"
    by (subst tb [symmetric]) (rule bit_word_eqI, simp add: e bit_simps del: push_bit_of_1)
qed



theorem unmask_involutive: "unmask mkey (unmask mkey data) = data"
proof (rule nth_equalityI)
  show "length (unmask mkey (unmask mkey data)) = length data" by (simp add: unmask_def)
  fix i assume "i < length (unmask mkey (unmask mkey data))"
  then show "unmask mkey (unmask mkey data) ! i = data ! i"
    by (simp add: unmask_def nth_enumerate_eq xor.assoc)
qed

section \<open>Requests are bounded\<close>

theorem request_body_bounded:
  assumes "read_request es = Request meth path hs body"
  shows "length body \<le> MAX_BODY_BYTES \<and> length body \<le> content_length hs"
  using assms
  by (auto simp: read_request_def finish_request_def Let_def min.coboundedI2 split: option.splits if_splits)

section \<open>The connection budget\<close>

text \<open>
  \<open>ConnGuard\<close>: a shared counter, incremented and tested by \<open>acquire\<close>, decremented by a refused
  acquire and by the drop of a granted guard. The atomic steps of any number of threads
  interleave; \<open>cn_refused\<close> counts the threads between their failed test and their decrement.
\<close>

record conns =
  cn_live :: nat
  cn_granted :: nat
  cn_refused :: nat

definition acquire :: "nat \<Rightarrow> conns \<Rightarrow> conns" where
  "acquire cap s =
     (let n = cn_live s + 1
      in if n > cap then s\<lparr>cn_live := n, cn_refused := cn_refused s + 1\<rparr>
         else s\<lparr>cn_live := n, cn_granted := cn_granted s + 1\<rparr>)"

inductive conn_step :: "nat \<Rightarrow> conns \<Rightarrow> conns \<Rightarrow> bool" for cap where
  acquire: "conn_step cap s (acquire cap s)"
| back_out: "0 < cn_refused s \<Longrightarrow> conn_step cap s (s\<lparr>cn_live := cn_live s - 1, cn_refused := cn_refused s - 1\<rparr>)"
| drop_guard: "0 < cn_granted s \<Longrightarrow> conn_step cap s (s\<lparr>cn_live := cn_live s - 1, cn_granted := cn_granted s - 1\<rparr>)"

inductive conn_reachable :: "nat \<Rightarrow> conns \<Rightarrow> bool" for cap where
  conn_start: "conn_reachable cap \<lparr>cn_live = 0, cn_granted = 0, cn_refused = 0\<rparr>"
| conn_next: "conn_reachable cap s \<Longrightarrow> conn_step cap s s' \<Longrightarrow> conn_reachable cap s'"

inductive_cases conn_stepE: "conn_step cap s s'"

text \<open>
  C35: in every interleaving of the atomic steps of any number of connection threads, at most
  the configured number of connections hold a slot and the counter equals the granted slots
  plus the refusals in flight.
\<close>

theorem connection_budget:
  assumes "conn_reachable cap s"
  shows "cn_granted s \<le> cap \<and> cn_live s = cn_granted s + cn_refused s"
  using assms
proof induction
  case (conn_next s s')
  from conn_next(2,3) show ?case by (elim conn_stepE) (auto simp: acquire_def Let_def)
qed simp

theorem connection_budget_witness:
  "conn_reachable 1 \<lparr>cn_live = 2, cn_granted = 1, cn_refused = 1\<rparr> \<and> (1 :: nat) \<le> 1"
proof -
  let ?s0 = "\<lparr>cn_live = 0, cn_granted = 0, cn_refused = 0\<rparr>"
  have "conn_reachable 1 (acquire 1 (acquire 1 ?s0))"
    by (intro conn_next [OF conn_next [OF conn_start conn_step.acquire] conn_step.acquire])
  moreover from connection_budget [OF this] have "cn_granted (acquire 1 (acquire 1 ?s0)) \<le> 1" by simp
  ultimately show ?thesis by (simp add: acquire_def numeral_2_eq_2)
qed


theorem request_body_bounded_witness:
  "length ([] :: bytes) \<le> MAX_BODY_BYTES \<and>
   read_request [Data (as_bytes (''A b'' @ crlf @ crlf))] = Request ''A'' ''b'' [] []"
proof -
  have "split_whitespace (utf8_lossy ''A b'') = [''A'', ''b'']"
    by (simp add: utf8_lossy_valid utf8_valid_ascii is_ascii_def split_whitespace_def split_ws.simps front_ws_def ws_len_def)
  then have r: "read_request [Data (as_bytes (''A b'' @ crlf @ crlf))] = Request ''A'' ''b'' [] []"
    by (simp add: read_request_def is_tls_hello_def finish_request_def parse_head_def HEAD_END_def CR_def LF_def as_bytes_def
        u8_of_char_def content_length_def MAX_BODY_BYTES_def of_bytes_def char_of_u8_def char_of_def bit_0)
  from request_body_bounded [OF this] r show ?thesis by (simp add: MAX_BODY_BYTES_def)
qed

end
