(* ===== verification/Http_Client.thy ===== *)
theory Http_Client
  imports Http_Server
begin

text \<open>
  \<open>common/http.rs\<close>: the shims' blocking HTTP client, and its composition with the server of
  \<^verbatim>\<open>Http_Server\<close>. A socket is again the list of results of successive reads; connecting and
  writing succeed or fail as the outcome parameters say.
\<close>

definition MAX_RESPONSE_BYTES :: nat where "MAX_RESPONSE_BYTES = 4 * 1024 * 1024"

datatype http_error = Connect | Write | NoHead | Body_too_large

record http_response =
  hr_status :: u16
  hr_body :: string

fun read_all :: "nat \<Rightarrow> bytes \<Rightarrow> read_event list \<Rightarrow> http_error + bytes" where
  "read_all max_bytes buf [] = Inr buf"
| "read_all max_bytes buf (Read_error # es) = Inr buf"
| "read_all max_bytes buf (Data d # es) =
     (if d = [] then Inr buf
      else if length buf + length d > max_bytes then Inl Body_too_large
      else read_all max_bytes (buf @ d) es)"

definition response_of :: "bytes \<Rightarrow> http_error + http_response" where
  "response_of buf =
     (case find_sub [CR, LF, CR, LF] buf of
        None \<Rightarrow> Inl NoHead
      | Some idx \<Rightarrow>
          (let toks = split_whitespace (utf8_lossy (of_bytes (take idx buf)))
           in Inr \<lparr>hr_status = unwrap_or (if 1 < length toks then parse_u16 (toks ! 1) else None) 0,
                   hr_body = utf8_lossy (of_bytes (drop (idx + 4) buf))\<rparr>))"

definition read_response :: "read_event list \<Rightarrow> nat \<Rightarrow> http_error + http_response" where
  "read_response es max_bytes =
     (case read_all max_bytes [] es of Inl e \<Rightarrow> Inl e | Inr buf \<Rightarrow> response_of buf)"

definition auth_header :: "string option \<Rightarrow> string" where
  "auth_header auth = (case auth of Some a \<Rightarrow> if a \<noteq> [] then a @ crlf else [] | None \<Rightarrow> [])"

definition request_bytes :: "string \<Rightarrow> u16 \<Rightarrow> string \<Rightarrow> string \<Rightarrow> string \<Rightarrow> string option \<Rightarrow> bytes" where
  "request_bytes host port meth path body auth =
     as_bytes (meth @ '' '' @ path @ '' HTTP/1.1'' @ crlf @
       ''Host: '' @ host @ '':'' @ show_nat (unat port) @ crlf @
       ''Content-Type: application/json'' @ crlf @ auth_header auth @
       ''Content-Length: '' @ show_nat (length body) @ crlf @
       ''Connection: close'' @ crlf @ crlf @ body)"

text \<open>
  The connection of one request: whether \<open>connect\<close> and \<open>write_all\<close> succeed, and what the peer
  answers to the bytes written.
\<close>

record connection =
  cx_connects :: bool
  cx_writes :: bool
  cx_answer :: "bytes \<Rightarrow> read_event list"

definition request_capped ::
  "connection \<Rightarrow> string \<Rightarrow> u16 \<Rightarrow> string \<Rightarrow> string \<Rightarrow> string \<Rightarrow> string option \<Rightarrow> nat \<Rightarrow> http_error + http_response" where
  "request_capped cx host port meth path body auth max_bytes =
     (if \<not> cx_connects cx then Inl Connect
      else
        (let req = request_bytes host port meth path body auth
         in if \<not> cx_writes cx then Inl Write else read_response (cx_answer cx req) max_bytes))"

definition request ::
  "connection \<Rightarrow> string \<Rightarrow> u16 \<Rightarrow> string \<Rightarrow> string \<Rightarrow> string \<Rightarrow> string option \<Rightarrow> http_error + http_response" where
  "request cx host port meth path body auth =
     request_capped cx host port meth path body auth MAX_RESPONSE_BYTES"

section \<open>Header blocks\<close>

abbreviation cr :: char where "cr \<equiv> CHR 0x0D"
abbreviation lf :: char where "lf \<equiv> CHR 0x0A"

text \<open>A line of a header block, and a block of lines ended by an empty line.\<close>

definition head_line :: "string \<Rightarrow> bool" where
  "head_line l \<longleftrightarrow> l \<noteq> [] \<and> cr \<notin> set l \<and> lf \<notin> set l \<and> is_ascii l"

definition head_block :: "string list \<Rightarrow> string" where
  "head_block ls = concat (map (\<lambda>l. l @ crlf) ls)"

lemma find_sub_map: "inj f \<Longrightarrow> find_sub (map f p) (map f s) = find_sub p s"
proof (induction s)
  case (Cons c s)
  have "take (length p) (map f (c # s)) = map f p \<longleftrightarrow> take (length p) (c # s) = p"
    using Cons.prems by (simp add: take_map inj_map_eq_map flip: list.map)
  with Cons show ?case by simp
qed simp

lemma inj_u8_of_char: "inj u8_of_char"
  by (metis injI char_of_u8_of_char)

lemma find_head_end: "find_sub HEAD_END (as_bytes s) = find_sub [cr, lf, cr, lf] s"
proof -
  have "HEAD_END = map u8_of_char [cr, lf, cr, lf]" by (simp add: HEAD_END_def CR_def LF_def u8_of_char_def)
  then show ?thesis using find_sub_map [OF inj_u8_of_char, of "[cr, lf, cr, lf]" s] by (simp add: as_bytes_def)
qed

lemma find_sub_pass: "cr \<notin> set l \<Longrightarrow> find_sub [cr, lf, cr, lf] (l @ s) = map_option (\<lambda>i. length l + i) (find_sub [cr, lf, cr, lf] s)"
  by (induction l; cases "find_sub [cr, lf, cr, lf] s") auto

lemma find_head_block:
  "\<forall>l \<in> set (ls @ [m]). head_line l \<Longrightarrow>
   find_sub [cr, lf, cr, lf] (head_block ls @ m @ crlf @ crlf @ body) = Some (length (head_block ls @ m))"
proof (induction ls)
  case Nil
  then show ?case by (simp add: head_block_def find_sub_pass head_line_def)
next
  case (Cons l ls)
  obtain c r where r: "head_block ls @ m @ crlf @ crlf @ body = c # r" "c \<noteq> cr"
    using Cons.prems by (cases ls; cases m; cases "hd ls") (auto simp: head_block_def head_line_def)
  have "find_sub [cr, lf, cr, lf] (cr # lf # c # r) = map_option (Suc \<circ> Suc) (find_sub [cr, lf, cr, lf] (c # r))"
    using r(2) by (simp add: option.map_comp comp_assoc)
  moreover have "head_block (l # ls) @ m @ crlf @ crlf @ body = l @ cr # lf # c # r"
    using r(1) by (simp add: head_block_def)
  ultimately show ?case
    using Cons r(1) by (simp add: find_sub_pass head_line_def head_block_def)
qed

lemma split_char_map: "inj f \<Longrightarrow> split_char (f c) (map f s) = map (map f) (split_char c s)"
  by (induction s) (auto simp: inj_eq split: list.splits)

lemma split_head_block:
  "\<forall>l \<in> set (ls @ [m]). head_line l \<Longrightarrow>
   split_char LF (as_bytes (head_block ls @ m)) = map (\<lambda>l. as_bytes (l @ [cr])) ls @ [as_bytes m]"
proof -
  assume a: "\<forall>l \<in> set (ls @ [m]). head_line l"
  have "LF = u8_of_char lf" by (simp add: LF_def u8_of_char_def)
  moreover have "split_char lf (head_block ls @ m) = map (\<lambda>l. l @ [cr]) ls @ [m]"
    using a
  proof (induction ls)
    case (Cons l ls)
    then have "split_char lf ((l @ [cr]) @ lf # (head_block ls @ m)) = (l @ [cr]) # split_char lf (head_block ls @ m)"
      by (intro split_char_append) (simp add: head_line_def)
    with Cons show ?case by (simp add: head_block_def)
  qed (simp add: head_block_def head_line_def split_char_none)
  ultimately show ?thesis
    using split_char_map [OF inj_u8_of_char, of lf "head_block ls @ m"] by (simp add: as_bytes_def)
qed

definition add_header :: "headers \<Rightarrow> string \<Rightarrow> headers" where
  "add_header hs l =
     (case split_once (CHR '':'') l of
        Some (k, v) \<Rightarrow> hm_insert hs (to_ascii_lowercase (trim k)) (trim v)
      | None \<Rightarrow> hs)"

lemma dropWhile_cr: "cr \<notin> set l \<Longrightarrow> rev (dropWhile (\<lambda>c. c = cr) (rev l)) = l"
  by (cases l rule: rev_cases) auto

lemma is_ascii_append [simp]: "is_ascii (a @ b) \<longleftrightarrow> is_ascii a \<and> is_ascii b"
  by (auto simp: is_ascii_def)

lemma parse_header_line_eq:
  assumes "head_line l"
  shows "parse_header_line hs (as_bytes (l @ [cr])) = add_header hs l" "parse_header_line hs (as_bytes l) = add_header hs l"
proof -
  have "is_ascii [cr]" by (simp add: is_ascii_def)
  with assms show "parse_header_line hs (as_bytes (l @ [cr])) = add_header hs l" "parse_header_line hs (as_bytes l) = add_header hs l"
    by (simp_all add: head_line_def parse_header_line_def add_header_def utf8_lossy_valid utf8_valid_ascii Let_def dropWhile_cr)
qed

lemma foldl_header_lines:
  "\<forall>l \<in> set ls. head_line l \<Longrightarrow> foldl parse_header_line hs (map (\<lambda>l. as_bytes (l @ [cr])) ls) = foldl add_header hs ls"
  by (induction ls arbitrary: hs) (simp_all add: parse_header_line_eq)

lemma parse_head_block:
  assumes "\<forall>l \<in> set (r # ls @ [m]). head_line l" and "split_whitespace (r @ [cr]) = meth # path # toks"
  shows "parse_head (as_bytes (head_block (r # ls) @ m)) = Some (meth, path, foldl add_header [] (ls @ [m]))"
proof -
  have "is_ascii (r @ [cr])" using assms(1) by (simp add: head_line_def is_ascii_def)
  then have "utf8_lossy (of_bytes (as_bytes (r @ [cr]))) = r @ [cr]" by (simp only: of_bytes_as_bytes utf8_lossy_valid utf8_valid_ascii)
  with assms split_head_block [of "r # ls" m] show ?thesis
    by (simp add: parse_head_def foldl_header_lines parse_header_line_eq del: of_bytes_as_bytes)
qed

section \<open>Tokens\<close>

lemma split_ws_graphic:
  "graphic g \<Longrightarrow> w \<in> {CHR '' '', cr} \<Longrightarrow> tok @ g \<noteq> [] \<Longrightarrow> split_ws tok (g @ w # s) = (tok @ g) # split_ws [] s"
proof (induction g arbitrary: tok)
  case Nil
  then have "front_ws (w # s) = 1" by (auto simp: front_ws_def ws_len_def)
  with Nil show ?case by (simp add: split_ws.simps [of tok "w # s"])
next
  case (Cons c g)
  then have "front_ws (c # g @ w # s) = 0" by (intro front_ws_graphic) simp_all
  with Cons show ?case by (simp add: split_ws.simps [of tok "c # g @ w # s"])
qed

lemma split_ws_Nil [simp]: "split_ws [] [] = []"
  by (simp add: split_ws.simps)

lemma split_request_line:
  assumes "graphic meth" "meth \<noteq> []" "graphic path" "path \<noteq> []"
  shows "split_whitespace ((meth @ '' '' @ path @ '' HTTP/1.1'') @ [cr]) = [meth, path, ''HTTP/1.1'']"
  using assms split_ws_graphic [of "''HTTP/1.1''" cr "[]" "[]"]
  by (simp add: split_whitespace_def split_ws_graphic)

lemma trim_sp: "graphic v \<Longrightarrow> v \<noteq> [] \<Longrightarrow> trim (CHR '' '' # v) = v"
proof -
  assume v: "graphic v" "v \<noteq> []"
  have "front_ws (CHR '' '' # v) = 1" by (simp add: front_ws_def ws_len_def)
  then have "trim_start (CHR '' '' # v) = trim_start v" by (simp add: trim_start.simps [of "CHR '' '' # v"])
  with trim_graphic [OF v(1)] show ?thesis by (simp add: trim_def)
qed

lemma add_header_field:
  assumes "graphic k" "CHR '':'' \<notin> set k" "graphic v" "v \<noteq> []"
  shows "add_header hs (k @ '': '' @ v) = hm_insert hs (to_ascii_lowercase k) v"
  using assms split_once_append [OF assms(2), of "CHR '' '' # v"] by (simp add: add_header_def trim_graphic trim_sp)

section \<open>Content types\<close>

abbreviation ctype_of :: "response \<Rightarrow> string" where
  "ctype_of r \<equiv> fst (snd r)"

definition broker_ctypes :: "string set" where
  "broker_ctypes = {''application/json'', ''application/octet-stream''}"

lemma ctype_replies [simp]:
  "ctype_of (playfab_ok x v) = ''application/json''" "ctype_of (cygames_ok x v) = ''application/json''"
  "ctype_of (playfab_err x e m) = ''application/json''"
  by (simp_all add: playfab_ok_def cygames_ok_def playfab_err_def case_prod_beta)

lemma ctype_party: "handle_party x now app path body headers = Some ra \<Longrightarrow> ctype_of (fst ra) = ''application/json''"
  by (auto simp: handle_party_def party_join_def party_leave_def party_peers_def Let_def split: prod.splits if_splits option.splits)

lemma ctype_cygames: "handle_cygames x now path app headers = Some r \<Longrightarrow> ctype_of r = ''application/json''"
  by (auto simp: handle_cygames_def Let_def split: if_splits)

lemma ctype_playfab_ops:
  "create_and_join x now created app body headers = Inr ra \<Longrightarrow> ctype_of (fst ra) = ''application/json''"
  "join_lobby x app body headers = Inr ra \<Longrightarrow> ctype_of (fst ra) = ''application/json''"
  "find_lobbies x app body headers = Inr ra \<Longrightarrow> ctype_of (fst ra) = ''application/json''"
  "ctype_of (fst (leave_lobby x app body headers)) = ''application/json''"
  "ctype_of (fst (update_lobby x app body headers)) = ''application/json''"
  "ctype_of (fst (login_with_steam x app body)) = ''application/json''"
  "ctype_of (fst (get_entity_token x app body headers)) = ''application/json''"
  "ctype_of (get_lobby x app body) = ''application/json''"
  by (auto simp: create_and_join_def join_lobby_def find_lobbies_def find_response_def leave_lobby_def update_lobby_def
      login_with_steam_def get_entity_token_def get_lobby_def Let_def case_prod_beta split: option.splits if_splits)

lemma ctype_playfab: "handle_playfab x now created app path body headers = Inr (Some ra) \<Longrightarrow> ctype_of (fst ra) = ''application/json''"
  unfolding handle_playfab_def Let_def
  by (auto simp: ctype_playfab_ops map_sum_def split: if_splits sum.splits)

lemma dispatch_ctype:
  assumes "dispatch x ck app meth path headers body = Inr (r, app')"
  shows "ctype_of r \<in> broker_ctypes"
proof -
  have "ctype_of (fallback_response x ck app meth stripped headers) \<in> broker_ctypes" for stripped
    by (simp add: fallback_response_def Let_def broker_ctypes_def)
  moreover have "''application/json'' \<in> broker_ctypes" by (simp add: broker_ctypes_def)
  ultimately show ?thesis
    using assms unfolding dispatch_def Let_def
    by (auto split: option.splits sum.splits if_splits dest!: ctype_party ctype_cygames ctype_playfab)
qed

section \<open>The client reads what the server sends\<close>

lemma read_all_chunks:
  "\<forall>c \<in> set cs. c \<noteq> [] \<Longrightarrow> length (buf @ concat cs) \<le> max_bytes \<Longrightarrow> read_all max_bytes buf (map Data cs) = Inr (buf @ concat cs)"
  by (induction cs arbitrary: buf) simp_all

definition response_lines :: "u16 \<Rightarrow> string \<Rightarrow> nat \<Rightarrow> string list" where
  "response_lines code ctype n =
     [''HTTP/1.1 '' @ show_nat (unat code) @ '' '' @ http_reason code, ''Content-Type: '' @ ctype,
      ''Content-Length: '' @ show_nat n, ''Connection: close'']"

lemma as_bytes_append: "as_bytes (a @ b) = as_bytes a @ as_bytes b"
  by (simp add: as_bytes_def)

lemma send_http_block:
  "send_http code ctype body =
   as_bytes (head_block (response_lines code ctype (length body)) @ ''Access-Control-Allow-Origin: *'' @ crlf @ crlf @ of_bytes body)"
proof -
  have "send_http code ctype body = as_bytes (head_block (response_lines code ctype (length body)) @ ''Access-Control-Allow-Origin: *'' @ crlf @ crlf) @ body"
    by (simp add: send_http_def head_block_def response_lines_def)
  also have "\<dots> = as_bytes ((head_block (response_lines code ctype (length body)) @ ''Access-Control-Allow-Origin: *'' @ crlf @ crlf) @ of_bytes body)"
    by (simp only: as_bytes_append as_bytes_of_bytes)
  finally show ?thesis by (simp only: append_assoc)
qed

lemma graphic_no_crlf: "graphic s \<Longrightarrow> cr \<notin> set s \<and> lf \<notin> set s \<and> is_ascii s"
  by (auto simp: graphic_def is_ascii_def)

lemma response_lines_ok:
  assumes "graphic ctype"
  shows "\<forall>l \<in> set (response_lines code ctype n @ [''Access-Control-Allow-Origin: *'']). head_line l"
proof -
  have "cr \<notin> set (http_reason code) \<and> lf \<notin> set (http_reason code) \<and> is_ascii (http_reason code)"
    by (simp add: http_reason_def is_ascii_def)
  with graphic_no_crlf [OF assms] graphic_no_crlf [OF graphic_show_nat, of n] graphic_no_crlf [OF graphic_show_nat, of "unat code"]
  show ?thesis by (simp add: response_lines_def head_line_def) (simp add: is_ascii_def ball_Un)
qed

lemma response_of_send_http:
  assumes "graphic ctype"
  shows "response_of (send_http code ctype body) = Inr \<lparr>hr_status = code, hr_body = utf8_lossy (of_bytes body)\<rparr>"
proof -
  let ?ls = "response_lines code ctype (length body)" and ?m = "''Access-Control-Allow-Origin: *''"
  let ?h = "head_block ?ls @ ?m"
  note ok = response_lines_ok [OF assms, of code "length body"]
  have idx: "find_sub [CR, LF, CR, LF] (send_http code ctype body) = Some (length ?h)"
    using find_head_end find_head_block [OF ok, of "of_bytes body"] by (simp add: send_http_block HEAD_END_def)
  have parts: "take (length ?h) (send_http code ctype body) = as_bytes ?h"
    "drop (length ?h + 4) (send_http code ctype body) = body"
    by (simp_all add: send_http_block as_bytes_def of_bytes_def comp_def)
  have "is_ascii ?h" using ok by (auto simp: head_block_def head_line_def is_ascii_def)
  then have head: "utf8_lossy (of_bytes (as_bytes ?h)) = ?h" by (simp add: utf8_lossy_valid utf8_valid_ascii)
  have g: "graphic ''HTTP/1.1''" by simp
  have "\<exists>r. ?h = ''HTTP/1.1'' @ CHR '' '' # show_nat (unat code) @ CHR '' '' # r"
    by (simp add: head_block_def response_lines_def)
  then obtain r where "?h = ''HTTP/1.1'' @ CHR '' '' # show_nat (unat code) @ CHR '' '' # r" by blast
  then have toks: "split_whitespace ?h = ''HTTP/1.1'' # show_nat (unat code) # split_ws [] r"
    using split_ws_graphic [OF g, of "CHR '' ''" "[]"] by (simp add: split_whitespace_def split_ws_graphic)
  have "unat code < 2 ^ 16" using unsigned_less [where w = code and 'a = nat] by simp
  then have "parse_u16 (show_nat (unat code)) = Some code" by (simp add: parse_u16_def parse_unsigned_show_nat)
  with idx parts head toks show ?thesis
    by (simp add: response_of_def Let_def del: of_bytes_as_bytes)
qed


section \<open>The server reads what the client sends\<close>

text \<open>The requests the shims make: a graphic method and path, and an entity token or none.\<close>

definition token_auth :: "string option \<Rightarrow> string option" where
  "token_auth tok = map_option (\<lambda>t. ''X-EntityToken: '' @ t) tok"

definition sendable :: "string \<Rightarrow> string \<Rightarrow> string \<Rightarrow> string option \<Rightarrow> bool" where
  "sendable host meth path tok \<longleftrightarrow>
     graphic host \<and> graphic meth \<and> meth \<noteq> [] \<and> graphic path \<and> path \<noteq> [] \<and>
     (case tok of Some t \<Rightarrow> graphic t \<and> t \<noteq> [] | None \<Rightarrow> True)"

definition client_headers :: "string \<Rightarrow> u16 \<Rightarrow> string option \<Rightarrow> nat \<Rightarrow> headers" where
  "client_headers host port tok n =
     [(''host'', host @ '':'' @ show_nat (unat port)), (''content-type'', ''application/json'')] @
     (case tok of Some t \<Rightarrow> [(''x-entitytoken'', t)] | None \<Rightarrow> []) @
     [(''content-length'', show_nat n), (''connection'', ''close'')]"

definition request_line :: "string \<Rightarrow> string \<Rightarrow> string" where
  "request_line meth path = meth @ '' '' @ path @ '' HTTP/1.1''"

definition header_lines :: "string \<Rightarrow> u16 \<Rightarrow> string option \<Rightarrow> nat \<Rightarrow> string list" where
  "header_lines host port tok n =
     [''Host'' @ '': '' @ host @ '':'' @ show_nat (unat port), ''Content-Type'' @ '': '' @ ''application/json''] @
     (case tok of Some t \<Rightarrow> [''X-EntityToken'' @ '': '' @ t] | None \<Rightarrow> []) @ [''Content-Length'' @ '': '' @ show_nat n]"

lemma request_bytes_block:
  "request_bytes host port meth path body (token_auth tok) =
   as_bytes (head_block (request_line meth path # header_lines host port tok (length body)) @ ''Connection: close'' @ crlf @ crlf @ body)"
  by (cases tok) (simp_all add: request_bytes_def token_auth_def auth_header_def head_block_def header_lines_def request_line_def)

lemma header_lines_ok:
  assumes "sendable host meth path tok"
  shows "\<forall>l \<in> set (request_line meth path # header_lines host port tok n @ [''Connection: close'']). head_line l"
  using assms graphic_no_crlf [OF graphic_show_nat, of n] graphic_no_crlf [OF graphic_show_nat, of "unat port"]
    graphic_no_crlf [of host] graphic_no_crlf [of meth] graphic_no_crlf [of path] graphic_no_crlf [of "unwrap_or tok []"]
  by (cases tok) (simp_all add: sendable_def request_line_def header_lines_def head_line_def is_ascii_def ball_Un)

lemma header_names:
  "to_ascii_lowercase ''Host'' = ''host''" "to_ascii_lowercase ''Content-Type'' = ''content-type''"
  "to_ascii_lowercase ''X-EntityToken'' = ''x-entitytoken''" "to_ascii_lowercase ''Content-Length'' = ''content-length''"
  "to_ascii_lowercase ''Connection'' = ''connection''"
  by code_simp+

lemma header_lines_read:
  assumes "sendable host meth path tok"
  shows "foldl add_header [] (header_lines host port tok n @ [''Connection: close'']) = client_headers host port tok n"
proof -
  have f: "add_header hs (''Host'' @ '': '' @ v) = hm_insert hs ''host'' v"
    "add_header hs (''Content-Type'' @ '': '' @ v) = hm_insert hs ''content-type'' v"
    "add_header hs (''X-EntityToken'' @ '': '' @ v) = hm_insert hs ''x-entitytoken'' v"
    "add_header hs (''Content-Length'' @ '': '' @ v) = hm_insert hs ''content-length'' v"
    if "graphic v" "v \<noteq> []" for hs v
    using add_header_field [of "''Host''" v hs] add_header_field [of "''Content-Type''" v hs]
      add_header_field [of "''X-EntityToken''" v hs] add_header_field [of "''Content-Length''" v hs] that
    by (simp_all add: header_names)
  have c: "add_header hs ''Connection: close'' = hm_insert hs ''connection'' ''close''" for hs
    using add_header_field [of "''Connection''" "''close''" hs] by (simp add: header_names)
  have h: "graphic (host @ '':'' @ show_nat (unat port))" using assms by (simp add: sendable_def)
  show ?thesis
  proof (cases tok)
    case None
    have "foldl add_header [] (header_lines host port tok n @ [''Connection: close'']) =
        hm_insert (hm_insert (hm_insert (hm_insert [] ''host'' (host @ '':'' @ show_nat (unat port)))
          ''content-type'' ''application/json'') ''content-length'' (show_nat n)) ''connection'' ''close''"
      unfolding header_lines_def None option.case append.append_Nil append.append_Cons foldl_Cons foldl_Nil
      using f(1) [OF h] f(2) [of "''application/json''"] f(4) [OF graphic_show_nat show_nat_nonempty] c by simp
    then show ?thesis by (simp add: None client_headers_def hm_insert_def)
  next
    case (Some t)
    then have t: "graphic t" "t \<noteq> []" using assms by (simp_all add: sendable_def)
    have "foldl add_header [] (header_lines host port tok n @ [''Connection: close'']) =
        hm_insert (hm_insert (hm_insert (hm_insert (hm_insert [] ''host'' (host @ '':'' @ show_nat (unat port)))
          ''content-type'' ''application/json'') ''x-entitytoken'' t) ''content-length'' (show_nat n)) ''connection'' ''close''"
      unfolding header_lines_def Some option.case append.append_Nil append.append_Cons foldl_Cons foldl_Nil
      using f(1) [OF h] f(2) [of "''application/json''"] f(3) [OF t] f(4) [OF graphic_show_nat show_nat_nonempty] c by simp
    then show ?thesis by (simp add: Some client_headers_def hm_insert_def)
  qed
qed

lemma request_of_request_bytes:
  assumes "sendable host meth path tok" and "length body \<le> MAX_BODY_BYTES"
  shows "request_of (request_bytes host port meth path body (token_auth tok)) =
    Request meth path (client_headers host port tok (length body)) (as_bytes body)"
    and "find_sub HEAD_END (request_bytes host port meth path body (token_auth tok)) =
      Some (length (head_block (request_line meth path # header_lines host port tok (length body)) @ ''Connection: close''))"
proof -
  let ?ls = "header_lines host port tok (length body)" and ?m = "''Connection: close''"
  let ?h = "head_block (request_line meth path # ?ls) @ ?m"
  let ?b = "request_bytes host port meth path body (token_auth tok)"
  note ok = header_lines_ok [OF assms(1), of port "length body"]
  show idx: "find_sub HEAD_END ?b = Some (length ?h)"
    using find_head_end find_head_block [of "request_line meth path # ?ls" ?m body] ok by (simp add: request_bytes_block)
  have parts: "take (length ?h) ?b = as_bytes ?h" "drop (length ?h + 4) ?b = as_bytes body"
    by (simp_all add: request_bytes_block as_bytes_def)
  have "parse_head (as_bytes ?h) = Some (meth, path, client_headers host port tok (length body))"
    using parse_head_block [OF ok] split_request_line [of meth path] assms(1) header_lines_read [OF assms(1)]
    by (simp add: sendable_def request_line_def)
  moreover have "content_length (client_headers host port tok (length body)) = length body"
    using assms(2) by (simp add: content_length_def client_headers_def MAX_BODY_BYTES_def parse_usize_def
        parse_unsigned_show_nat split: option.split)
  ultimately show "request_of ?b = Request meth path (client_headers host port tok (length body)) (as_bytes body)"
    using idx parts assms(2) by (simp add: request_of_def)
qed

end
