(* ===== verification/Json_Scan.thy ===== *)
theory Json_Scan
  imports Rust_Str
begin

text \<open>
  \<open>common/json.rs\<close>: the field scanner the shims use instead of a JSON library. The scanner's
  byte index is represented by the text that remains; a span \<open>start..end\<close> is the text at
  \<open>start\<close> together with the text at \<open>end\<close>. \<open>skip_value\<close> recurses once per nesting level, so it is
  given the number of nested calls the stack has room for: running out of it is the outcome
  \<open>Overflow\<close>, which in the program aborts the process.
\<close>

datatype 'a scan = Ok 'a | Bad | Overflow

definition ARRAY_CAP :: nat where "ARRAY_CAP = 32"
definition OBJECT_CAP :: nat where "OBJECT_CAP = 64"

datatype kind = Str | Scalar | KObject | KArray | KNull

abbreviation dquote :: char where "dquote \<equiv> CHR 0x22"
abbreviation backslash :: char where "backslash \<equiv> CHR 0x5C"

section \<open>Strings\<close>

definition json_ws :: "char \<Rightarrow> bool" where
  "json_ws c \<longleftrightarrow> c = CHR '' '' \<or> c = CHR 0x09 \<or> c = CHR 0x0A \<or> c = CHR 0x0D"

definition jskip_ws :: "string \<Rightarrow> string" where
  "jskip_ws s = dropWhile json_ws s"

definition hex4 :: "string \<Rightarrow> (nat \<times> string) option" where
  "hex4 s =
     (if length s < 4 then None
      else map_option (\<lambda>v. (v, drop 4 s)) (parse_digits hex_val 16 (take 4 s) 0))"

text \<open>\<open>char::from_u32\<close> and the UTF-8 encoding that \<open>String::push\<close> appends.\<close>

definition push_char :: "nat \<Rightarrow> string option" where
  "push_char cp =
     (if cp < 0x80 then Some [char_of cp]
      else if cp < 0x800 then Some [char_of (0xC0 + cp div 0x40), char_of (0x80 + cp mod 0x40)]
      else if 0xD800 \<le> cp \<and> cp < 0xE000 then None
      else if cp < 0x10000 then
        Some [char_of (0xE0 + cp div 0x1000), char_of (0x80 + cp div 0x40 mod 0x40), char_of (0x80 + cp mod 0x40)]
      else if cp < 0x110000 then
        Some [char_of (0xF0 + cp div 0x40000), char_of (0x80 + cp div 0x1000 mod 0x40),
              char_of (0x80 + cp div 0x40 mod 0x40), char_of (0x80 + cp mod 0x40)]
      else None)"

text \<open>The escape after \<open>\u\<close>: one code unit, or a surrogate pair.\<close>

definition unicode_escape :: "string \<Rightarrow> (string \<times> string) option" where
  "unicode_escape s =
     (case hex4 s of
        None \<Rightarrow> None
      | Some (hi, r) \<Rightarrow>
          if 0xD800 \<le> hi \<and> hi < 0xDC00 then
            (case r of
               c1 # c2 # r2 \<Rightarrow>
                 if c1 = backslash \<and> c2 = CHR ''u'' then
                   (case hex4 r2 of
                      None \<Rightarrow> None
                    | Some (lo, r3) \<Rightarrow>
                        if 0xDC00 \<le> lo \<and> lo < 0xE000
                        then map_option (\<lambda>t. (t, r3)) (push_char (0x10000 + (hi - 0xD800) * 0x400 + (lo - 0xDC00)))
                        else None)
                 else None
             | _ \<Rightarrow> None)
          else map_option (\<lambda>t. (t, r)) (push_char hi))"

text \<open>The character after a backslash: what is pushed and the rest.\<close>

definition unescape :: "string \<Rightarrow> (string \<times> string) option" where
  "unescape s =
     (case s of
        [] \<Rightarrow> None
      | e # r \<Rightarrow>
          if e = dquote then Some ([dquote], r)
          else if e = backslash then Some ([backslash], r)
          else if e = CHR ''/'' then Some (''/'', r)
          else if e = CHR ''b'' then Some ([CHR 0x08], r)
          else if e = CHR ''f'' then Some ([CHR 0x0C], r)
          else if e = CHR ''n'' then Some ([CHR 0x0A], r)
          else if e = CHR ''r'' then Some ([CHR 0x0D], r)
          else if e = CHR ''t'' then Some ([CHR 0x09], r)
          else if e = CHR ''u'' then unicode_escape r
          else None)"

definition utf8_len :: "char \<Rightarrow> nat" where
  "utf8_len c =
     (let n = ord_char c in
      if n \<le> 0x7F then 1
      else if 0xC2 \<le> n \<and> n \<le> 0xDF then 2
      else if 0xE0 \<le> n \<and> n \<le> 0xEF then 3
      else if 0xF0 \<le> n \<and> n \<le> 0xF4 then 4
      else 0)"

lemma hex4_shorter: "hex4 s = Some (v, r) \<Longrightarrow> length r < length s"
  by (auto simp: hex4_def split: if_splits)

lemma unicode_escape_shorter: "unicode_escape s = Some (t, r) \<Longrightarrow> length r < length s"
  by (auto simp: unicode_escape_def split: option.splits if_splits list.splits dest!: hex4_shorter)

lemma unescape_shorter: "unescape s = Some (t, r) \<Longrightarrow> length r < length s"
  by (auto simp: unescape_def split: list.splits if_splits dest!: unicode_escape_shorter)

function string_body :: "string \<Rightarrow> string \<Rightarrow> (string \<times> string) option" where
  "string_body out s =
     (case s of
        [] \<Rightarrow> None
      | c # r \<Rightarrow>
          if c = dquote then Some (out, r)
          else if c = backslash then
            (case unescape r of None \<Rightarrow> None | Some (t, r') \<Rightarrow> string_body (out @ t) r')
          else
            (let len = utf8_len c in
             if len = 0 \<or> length s < len then None
             else if utf8_valid (take len s) then string_body (out @ take len s) (drop len s)
             else None))"
  by pat_completeness auto
termination
  by (relation "measure (\<lambda>(out, s). length s)") (auto dest: unescape_shorter simp: Let_def)

declare string_body.simps [simp del]

definition scan_string :: "string \<Rightarrow> (string \<times> string) option" where
  "scan_string s =
     (case s of
        c # r \<Rightarrow> if c = dquote then string_body [] r else None
      | [] \<Rightarrow> None)"

lemma string_body_Cons:
  "string_body out (c # r) =
     (if c = dquote then Some (out, r)
      else if c = backslash then Option.bind (unescape r) (\<lambda>(t, r'). string_body (out @ t) r')
      else if utf8_len c = 0 \<or> length (c # r) < utf8_len c \<or> \<not> utf8_valid (take (utf8_len c) (c # r)) then None
      else string_body (out @ take (utf8_len c) (c # r)) (drop (utf8_len c) (c # r)))"
  by (subst string_body.simps) (auto simp: Let_def split: option.split)

lemma string_body_shorter: "string_body out s = Some (t, r) \<Longrightarrow> length r < length s"
proof (induction "length s" arbitrary: out s rule: less_induct)
  case less
  show ?case
  proof (cases s)
    case Nil
    then show ?thesis using less.prems by (simp add: string_body.simps)
  next
    case (Cons c rest)
    consider "c = dquote" | "c \<noteq> dquote" "c = backslash" | "c \<noteq> dquote" "c \<noteq> backslash" by blast
    then show ?thesis
    proof cases
      case 1
      then show ?thesis using less.prems Cons by (simp add: string_body_Cons)
    next
      case 2
      then obtain u r' where u: "unescape rest = Some (u, r')" "string_body (out @ u) r' = Some (t, r)"
        using less.prems Cons by (auto simp: string_body_Cons split: Option.bind_splits)
      then have "length r' < length s" using unescape_shorter [OF u(1)] Cons by simp
      with less.hyps [OF this u(2)] show ?thesis by simp
    next
      case 3
      let ?d = "drop (utf8_len c) s"
      have b: "utf8_len c \<noteq> 0" "string_body (out @ take (utf8_len c) s) ?d = Some (t, r)"
        using less.prems Cons 3 by (auto simp: string_body_Cons split: if_splits)
      then have "length ?d < length s" using Cons by simp
      with less.hyps [OF this b(2)] show ?thesis by simp
    qed
  qed
qed

lemma scan_string_shorter: "scan_string s = Some (t, r) \<Longrightarrow> length r < length s"
  by (auto simp: scan_string_def split: list.splits if_splits dest: string_body_shorter)

lemma length_jskip_ws: "length (jskip_ws s) \<le> length s"
  by (simp add: jskip_ws_def length_dropWhile_le)

lemma jskip_ws_Cons: "jskip_ws s = c # r \<Longrightarrow> length r < length s"
  using length_jskip_ws [of s] by simp


section \<open>Values\<close>

definition scalar_end :: "char \<Rightarrow> bool" where
  "scalar_end c \<longleftrightarrow> c = CHR '','' \<or> c = CHR 0x7D \<or> c = CHR '']'' \<or> json_ws c"

text \<open>
  \<open>skip_value\<close> and its two loops. The tests that the text got shorter hold always
  (\<open>skip_value_shorter\<close>); they make the recursion terminate by construction.
\<close>

function skip_value :: "nat \<Rightarrow> string \<Rightarrow> string scan"
  and skip_members :: "nat \<Rightarrow> string \<Rightarrow> string scan"
  and skip_elements :: "nat \<Rightarrow> string \<Rightarrow> string scan" where
  "skip_value d s =
     (case jskip_ws s of
        [] \<Rightarrow> Bad
      | c # r \<Rightarrow>
          if c = dquote then (case scan_string (c # r) of Some (_, r') \<Rightarrow> Ok r' | None \<Rightarrow> Bad)
          else if c = CHR 0x7B then skip_members d r
          else if c = CHR ''['' then skip_elements d r
          else if scalar_end c then Bad
          else Ok (dropWhile (\<lambda>x. \<not> scalar_end x) (c # r)))"
| "skip_members d s =
     (case jskip_ws s of
        [] \<Rightarrow> Bad
      | c # r \<Rightarrow>
          if c = CHR 0x7D then Ok r
          else if c = CHR '','' then skip_members d r
          else
            (case scan_string (c # r) of
               None \<Rightarrow> Bad
             | Some (_, r1) \<Rightarrow>
                 (case jskip_ws r1 of
                    [] \<Rightarrow> Bad
                  | c2 # r2 \<Rightarrow>
                      if c2 \<noteq> CHR '':'' then Bad
                      else (case d of
                              0 \<Rightarrow> Overflow
                            | Suc d' \<Rightarrow>
                                (case skip_value d' r2 of
                                   Ok r3 \<Rightarrow> if length r3 < length s then skip_members d r3 else Bad
                                 | Bad \<Rightarrow> Bad
                                 | Overflow \<Rightarrow> Overflow)))))"
| "skip_elements d s =
     (case jskip_ws s of
        [] \<Rightarrow> Bad
      | c # r \<Rightarrow>
          if c = CHR '']'' then Ok r
          else if c = CHR '','' then skip_elements d r
          else (case d of
                  0 \<Rightarrow> Overflow
                | Suc d' \<Rightarrow>
                    (case skip_value d' (c # r) of
                       Ok r3 \<Rightarrow> if length r3 < length s then skip_elements d r3 else Bad
                     | Bad \<Rightarrow> Bad
                     | Overflow \<Rightarrow> Overflow)))"
  by pat_completeness auto
termination
  by (relation "inv_image (less_than <*lex*> less_than)
      (\<lambda>a. case a of Inl (d, s) \<Rightarrow> (d, length s) | Inr (Inl (d, s)) \<Rightarrow> (d, length s) | Inr (Inr (d, s)) \<Rightarrow> (d, length s))")
    (auto dest: jskip_ws_Cons)

declare skip_value.simps [simp del] skip_members.simps [simp del] skip_elements.simps [simp del]

lemma skip_members_Ok:
  assumes "skip_members d s = Ok r"
  shows "(\<exists>t. jskip_ws s = CHR 0x7D # t \<and> r = t) \<or> (\<exists>t. length t < length s \<and> skip_members d t = Ok r)"
proof (cases "jskip_ws s")
  case (Cons c t)
  with jskip_ws_Cons [OF Cons] assms show ?thesis
    by (subst (asm) skip_members.simps)
      (auto split: if_splits option.splits list.splits nat.splits scan.splits)
qed (use assms in \<open>simp add: skip_members.simps\<close>)

lemma skip_elements_Ok:
  assumes "skip_elements d s = Ok r"
  shows "(\<exists>t. jskip_ws s = CHR '']'' # t \<and> r = t) \<or> (\<exists>t. length t < length s \<and> skip_elements d t = Ok r)"
proof (cases "jskip_ws s")
  case (Cons c t)
  with jskip_ws_Cons [OF Cons] assms show ?thesis
    by (subst (asm) skip_elements.simps)
      (auto split: if_splits option.splits list.splits nat.splits scan.splits)
qed (use assms in \<open>simp add: skip_elements.simps\<close>)

lemma skip_members_shorter: "skip_members d s = Ok r \<Longrightarrow> length r < length s"
proof (induction "length s" arbitrary: s rule: less_induct)
  case less
  from skip_members_Ok [OF less.prems] less.hyps show ?case
    by (auto dest: jskip_ws_Cons less_trans)
qed

lemma skip_elements_shorter: "skip_elements d s = Ok r \<Longrightarrow> length r < length s"
proof (induction "length s" arbitrary: s rule: less_induct)
  case less
  from skip_elements_Ok [OF less.prems] less.hyps show ?case
    by (auto dest: jskip_ws_Cons less_trans)
qed

lemma skip_value_shorter: "skip_value d s = Ok r \<Longrightarrow> length r < length s"
proof (cases "jskip_ws s")
  case (Cons c t)
  assume ok: "skip_value d s = Ok r"
  have "length (dropWhile (\<lambda>x. \<not> scalar_end x) (c # t)) \<le> length t" if "\<not> scalar_end c"
    using that by (simp add: length_dropWhile_le)
  with ok Cons jskip_ws_Cons [OF Cons] length_jskip_ws [of s] show ?thesis
    by (simp add: skip_value.simps split: if_splits option.splits prod.splits)
      (auto dest!: scan_string_shorter skip_members_shorter skip_elements_shorter)
qed (simp add: skip_value.simps)


section \<open>Fields\<close>

function find_value_start :: "string \<Rightarrow> string \<Rightarrow> string option" where
  "find_value_start key s =
     (case s of
        [] \<Rightarrow> None
      | c # r \<Rightarrow>
          if c = dquote then
            (case scan_string s of
               None \<Rightarrow> None
             | Some (text, r1) \<Rightarrow>
                 (case jskip_ws r1 of
                    c2 # r2 \<Rightarrow> if c2 = CHR '':'' \<and> text = key then Some (jskip_ws r2) else find_value_start key (c2 # r2)
                  | [] \<Rightarrow> find_value_start key []))
          else find_value_start key r)"
  by pat_completeness auto
termination
proof (relation "measure (\<lambda>(key, s). length s)", goal_cases)
  case (3 key s c r a t r1 c2 r2)
  then have "length r1 < length s" by (auto dest: scan_string_shorter)
  with 3 length_jskip_ws [of r1] show ?case by simp
qed auto

declare find_value_start.simps [simp del]

definition kind_at :: "char \<Rightarrow> kind" where
  "kind_at c =
     (if c = dquote then Str else if c = CHR 0x7B then KObject else if c = CHR ''['' then KArray else Scalar)"

text \<open>The text between two scanner positions.\<close>

definition between :: "string \<Rightarrow> string \<Rightarrow> string" where
  "between s r = take (length s - length r) s"

definition span :: "nat \<Rightarrow> string \<Rightarrow> string \<Rightarrow> (kind \<times> string \<times> string) scan" where
  "span d blob key =
     (case find_value_start key blob of
        None \<Rightarrow> Bad
      | Some [] \<Rightarrow> Bad
      | Some (c # t) \<Rightarrow>
          (case skip_value d (c # t) of
             Ok r \<Rightarrow>
               Ok (if c = CHR ''t'' \<or> c = CHR ''f'' then Scalar
                   else if c = CHR ''n'' then (if between (c # t) r = ''null'' then KNull else Scalar)
                   else kind_at c, c # t, r)
           | Bad \<Rightarrow> Bad
           | Overflow \<Rightarrow> Overflow))"

fun scan_bind :: "'a scan \<Rightarrow> ('a \<Rightarrow> 'b scan) \<Rightarrow> 'b scan" where
  "scan_bind (Ok v) f = f v"
| "scan_bind Bad f = Bad"
| "scan_bind Overflow f = Overflow"

definition of_option :: "'a option \<Rightarrow> 'a scan" where
  "of_option v = (case v of Some y \<Rightarrow> Ok y | None \<Rightarrow> Bad)"

definition json_str_field :: "nat \<Rightarrow> string \<Rightarrow> string \<Rightarrow> string scan" where
  "json_str_field d blob key =
     scan_bind (span d blob key) (\<lambda>(kind, s, r).
       case kind of
         Str \<Rightarrow> of_option (map_option fst (scan_string s))
       | Scalar \<Rightarrow> Ok (between s r)
       | _ \<Rightarrow> Bad)"

definition json_num_field :: "nat \<Rightarrow> string \<Rightarrow> string \<Rightarrow> string scan" where
  "json_num_field d blob key =
     scan_bind (span d blob key) (\<lambda>(kind, s, r).
       let raw = between s r in
       if kind \<noteq> Scalar then Bad
       else if raw = [] \<or> \<not> list_all (\<lambda>c. is_ascii_digit c \<or> c \<in> set ''+-.eE'') raw then Bad
       else Ok raw)"

definition json_u32_field :: "nat \<Rightarrow> string \<Rightarrow> string \<Rightarrow> u32 scan" where
  "json_u32_field d blob key = scan_bind (json_str_field d blob key) (\<lambda>t. of_option (parse_u32 t))"

definition json_i64_field :: "nat \<Rightarrow> string \<Rightarrow> string \<Rightarrow> int scan" where
  "json_i64_field d blob key = scan_bind (json_str_field d blob key) (\<lambda>t. of_option (parse_i64 t))"

definition obj_insert :: "(string, string) hmap \<Rightarrow> string \<Rightarrow> string \<Rightarrow> (string, string) hmap" where
  "obj_insert out k v = (if k \<noteq> [] \<and> length out < OBJECT_CAP then hm_insert out k v else out)"

text \<open>The value text of a scalar or string member, \<open>None\<close> when the string does not decode.\<close>

definition member_text :: "string \<Rightarrow> string \<Rightarrow> string option" where
  "member_text s r =
     (if hd s = dquote then map_option fst (scan_string s)
      else Some (if between s r = ''null'' then [] else between s r))"

function obj_loop :: "nat \<Rightarrow> (string, string) hmap \<Rightarrow> string \<Rightarrow> (string, string) hmap scan" where
  "obj_loop d out s =
     (case jskip_ws s of
        [] \<Rightarrow> Ok out
      | c # r \<Rightarrow>
          if c = CHR 0x7D then Ok out
          else if c = CHR '','' then obj_loop d out r
          else
            (case scan_string (c # r) of
               None \<Rightarrow> Ok out
             | Some (k, r1) \<Rightarrow>
                 (case jskip_ws r1 of
                    [] \<Rightarrow> Ok out
                  | c2 # r2 \<Rightarrow>
                      if c2 \<noteq> CHR '':'' then Ok out
                      else if jskip_ws r2 = [] then Ok out
                      else
                        (case skip_value d (jskip_ws r2) of
                           Overflow \<Rightarrow> Overflow
                         | Bad \<Rightarrow> Ok out
                         | Ok r4 \<Rightarrow>
                             if hd (jskip_ws r2) = CHR 0x7B \<or> hd (jskip_ws r2) = CHR ''['' then obj_loop d out r4
                             else (case member_text (jskip_ws r2) r4 of
                                     None \<Rightarrow> Ok out
                                   | Some v \<Rightarrow> obj_loop d (obj_insert out k v) r4)))))"
  by pat_completeness auto
termination
proof (relation "measure (\<lambda>(d, out, s). length s)", goal_cases)
  case (2 d out s c r)
  then show ?case by (auto dest: jskip_ws_Cons)
next
  case (3 d out s c r a k r1 c2 r2 r4)
  then have "length r1 < length (c # r)" "length r4 < length (jskip_ws r2)" "length r2 < length r1"
    by (auto dest!: scan_string_shorter skip_value_shorter dest: jskip_ws_Cons)
  with 3(1) length_jskip_ws [of s] length_jskip_ws [of r2] show ?case by simp
next
  case (4 d out s c r a k r1 c2 r2 r4 v)
  then have "length r1 < length (c # r)" "length r4 < length (jskip_ws r2)" "length r2 < length r1"
    by (auto dest!: scan_string_shorter skip_value_shorter dest: jskip_ws_Cons)
  with 4(1) length_jskip_ws [of s] length_jskip_ws [of r2] show ?case by simp
qed simp

declare obj_loop.simps [simp del]

definition json_obj :: "nat \<Rightarrow> string \<Rightarrow> string \<Rightarrow> (string, string) hmap scan" where
  "json_obj d blob key =
     (case span d blob key of
        Overflow \<Rightarrow> Overflow
      | Ok (KObject, s, _) \<Rightarrow> obj_loop d [] (tl s)
      | _ \<Rightarrow> Ok [])"

function arr_loop :: "nat \<Rightarrow> string list \<Rightarrow> string \<Rightarrow> string list scan" where
  "arr_loop d out s =
     (case jskip_ws s of
        [] \<Rightarrow> Ok out
      | c # r \<Rightarrow>
          if c = CHR '']'' then Ok out
          else if c = CHR '','' then arr_loop d out r
          else
            (case skip_value d (c # r) of
               Overflow \<Rightarrow> Overflow
             | Bad \<Rightarrow> Ok out
             | Ok r2 \<Rightarrow>
                 (let out' = out @ [between (c # r) r2]
                  in if length out' \<ge> ARRAY_CAP then Ok out' else arr_loop d out' r2)))"
  by pat_completeness auto
termination
proof (relation "measure (\<lambda>(d, out, s). length s)", goal_cases)
  case (2 d out s c r)
  then show ?case by (auto dest: jskip_ws_Cons)
next
  case (3 d out s c r r2 out')
  then have "length r2 < length (c # r)" by (auto dest!: skip_value_shorter)
  with 3(1) length_jskip_ws [of s] show ?case by simp
qed simp

declare arr_loop.simps [simp del]

definition json_arr_objects :: "nat \<Rightarrow> string \<Rightarrow> string \<Rightarrow> string list scan" where
  "json_arr_objects d blob key =
     (case span d blob key of
        Overflow \<Rightarrow> Overflow
      | Ok (KArray, s, _) \<Rightarrow> arr_loop d [] (tl s)
      | _ \<Rightarrow> Ok [])"

definition escape_char :: "char \<Rightarrow> string" where
  "escape_char c =
     (if c = dquote then [backslash, dquote]
      else if c = backslash then [backslash, backslash]
      else if c = CHR 0x0A then backslash # ''n''
      else if c = CHR 0x0D then backslash # ''r''
      else if c = CHR 0x09 then backslash # ''t''
      else if ord_char c < 0x20 then backslash # ''u00'' @ show_hex02 (u8_of_char c)
      else [c])"

definition json_escape :: "string \<Rightarrow> string" where
  "json_escape s = concat (map escape_char s)"


section \<open>Escaping is undone by the scanner\<close>

lemma second_cont: "second_ok a b \<Longrightarrow> is_cont b"
  by (auto simp: second_ok_def is_cont_def)

lemma utf8_step_len:
  assumes "utf8_step_str (c # r) = (True, n)"
  shows "n = utf8_len c \<and> n \<le> length (c # r) \<and> (\<forall>b \<in> set (take (n - 1) r). is_cont (ord_char b)) \<and>
    utf8_step_str (take n (c # r)) = (True, n)"
proof -
  let ?a = "ord_char c"
  have u: "utf8_step ?a (map ord_char (take 3 r)) = (True, n)" using assms by (simp add: utf8_step_str_def)
  consider "?a < 0x80" | "0xC2 \<le> ?a" "?a \<le> 0xDF" | "0xE0 \<le> ?a" "?a \<le> 0xEF" | "0xF0 \<le> ?a" "?a \<le> 0xF4"
    using u by (fastforce simp: utf8_step_def split: if_splits)
  then show ?thesis
  proof cases
    case 1
    then show ?thesis using u by (simp add: utf8_step_def utf8_len_def utf8_step_str_def)
  next
    case 2
    then obtain x t where r: "r = x # t" using u by (cases r) (auto simp: utf8_step_def cont_at_def)
    then have "n = 2 \<and> is_cont (ord_char x)"
      using u 2 by (simp add: utf8_step_def cont_at_def split: if_splits)
    then show ?thesis using 2 by (simp add: r utf8_len_def utf8_step_str_def utf8_step_def cont_at_def)
  next
    case 3
    then obtain x y t where r: "r = x # y # t"
      using u by (cases r; cases "tl r") (auto simp: utf8_step_def cont_at_def split: if_splits)
    then have "n = 3 \<and> second_ok ?a (ord_char x) \<and> is_cont (ord_char y)"
      using u 3 by (simp add: utf8_step_def cont_at_def split: if_splits)
    then show ?thesis
      using 3 second_cont [of ?a "ord_char x"] by (simp add: r utf8_len_def utf8_step_str_def utf8_step_def cont_at_def)
  next
    case 4
    then obtain x y z t where r: "r = x # y # z # t"
      using u by (cases r; cases "tl r"; cases "tl (tl r)") (auto simp: utf8_step_def cont_at_def split: if_splits)
    then have "n = 4 \<and> second_ok ?a (ord_char x) \<and> is_cont (ord_char y) \<and> is_cont (ord_char z)"
      using u 4 by (simp add: utf8_step_def cont_at_def numeral_3_eq_3 numeral_2_eq_2 split: if_splits)
    then show ?thesis
      using 4 second_cont [of ?a "ord_char x"]
      by (simp add: r utf8_len_def utf8_step_str_def utf8_step_def cont_at_def numeral_2_eq_2)
  qed
qed

lemma escape_high: "0x80 \<le> ord_char c \<Longrightarrow> escape_char c = [c]"
  by (auto simp: escape_char_def)

lemma json_escape_high: "\<forall>c \<in> set t. 0x80 \<le> ord_char c \<Longrightarrow> json_escape t = t"
  by (induction t) (simp_all add: json_escape_def escape_high)

lemma json_escape_append: "json_escape (a @ b) = json_escape a @ json_escape b"
  by (simp add: json_escape_def)

lemma control_escape:
  assumes "ord_char c < 0x20"
  shows "unescape (''u00'' @ show_hex02 (u8_of_char c) @ r) = Some ([c], r)"
proof -
  let ?b = "u8_of_char c"
  have b: "unat ?b = ord_char c" using assms by (simp add: u8_of_char_def unat_of_nat)
  have "hex_val (CHR ''0'') = Some 0" by (simp add: hex_val_def)
  then have "hex4 (''00'' @ show_hex02 ?b @ r) = Some (unat ?b, r)"
    using assms b by (simp add: hex4_def show_hex02_def hex_val_digit)
  then show ?thesis
    using assms b by (simp add: unescape_def unicode_escape_def push_char_def)
qed

lemma ascii_step: "ord_char c < 0x80 \<Longrightarrow> utf8_len c = 1 \<and> utf8_valid [c]"
  by (simp add: utf8_len_def utf8_valid_ascii is_ascii_def)

lemma string_body_escaped_ascii:
  assumes "ord_char c < 0x80"
  shows "string_body out (escape_char c @ s) = string_body (out @ [c]) s"
proof -
  consider "c = dquote" | "c = backslash" | "c = CHR 0x0A" | "c = CHR 0x0D" | "c = CHR 0x09"
    | "c \<notin> {dquote, backslash, CHR 0x0A, CHR 0x0D, CHR 0x09}" "ord_char c < 0x20"
    | "c \<notin> {dquote, backslash, CHR 0x0A, CHR 0x0D, CHR 0x09}" "\<not> ord_char c < 0x20" by blast
  then show ?thesis
  proof cases
    case 6
    then have "escape_char c @ s = backslash # (''u00'' @ show_hex02 (u8_of_char c) @ s)"
      by (simp add: escape_char_def)
    then show ?thesis
      using control_escape [OF 6(2), of s] by (simp only: string_body_Cons) simp
  next
    case 7
    then show ?thesis
      using ascii_step [OF assms] by (simp add: escape_char_def string_body_Cons)
  qed (simp_all add: escape_char_def string_body_Cons unescape_def)
qed

lemma string_body_escape:
  "utf8_valid s \<Longrightarrow> string_body out (json_escape s @ dquote # rest) = Some (out @ s, rest)"
proof (induction s arbitrary: out rule: utf8_valid.induct)
  case (1 s)
  show ?case
  proof (cases s)
    case Nil
    then show ?thesis by (simp add: json_escape_def string_body_Cons)
  next
    case (Cons c r)
    obtain ok n where st: "utf8_step_str s = (ok, n)" by fastforce
    have v: "ok" "utf8_valid (drop n s)"
      using 1(2) st by (simp_all add: Cons utf8_valid.simps [of "c # r"])
    note IH = 1(1) [OF _ st [symmetric] v(2)]
    have st': "utf8_step_str (c # r) = (True, n)" using st v Cons by simp
    note len = utf8_step_len [OF st']
    show ?thesis
    proof (cases "ord_char c < 0x80")
      case True
      then have n: "n = 1" using len by (simp add: utf8_len_def)
      have "json_escape s @ dquote # rest = escape_char c @ json_escape (drop n s) @ dquote # rest"
        by (simp add: Cons n json_escape_def)
      then show ?thesis
        using string_body_escaped_ascii [OF True] IH [of "out @ [c]"] Cons n by simp
    next
      case False
      have n: "0 < n" using utf8_step_str_bounds(1) [of s] st by simp
      have high: "\<forall>b \<in> set (take n s). 0x80 \<le> ord_char b"
      proof -
        obtain m where m: "n = Suc m" using n by (cases n) auto
        have "\<forall>b \<in> set (take m r). is_cont (ord_char b)" by (metis diff_Suc_1 len m)
        then show ?thesis using False by (simp add: Cons m is_cont_def)
      qed
      have "json_escape s = take n s @ json_escape (drop n s)"
        using json_escape_high [OF high] json_escape_append [of "take n s" "drop n s"] by simp
      moreover have "utf8_valid (take n s)"
      proof -
        have "utf8_step_str (take n s) = (True, n)" using len unfolding Cons by blast
        then show ?thesis
          by (subst utf8_valid.simps) (simp add: utf8_valid.simps [of "[]"])
      qed
      moreover have "c \<noteq> dquote" "c \<noteq> backslash" using False by auto
      moreover have "utf8_len c = n" "n \<le> length s" using len Cons by auto
      ultimately have "string_body out (json_escape s @ dquote # rest) =
          string_body (out @ take n s) (json_escape (drop n s) @ dquote # rest)"
        using n Cons string_body_Cons [of out c "tl (json_escape s @ dquote # rest)"]
        by (cases n) auto
      with IH [of "out @ take n s"] Cons show ?thesis by simp
    qed
  qed
qed

text \<open>
  Scanning a quoted, escaped text gives back the text and stops right after the closing quote.
\<close>

theorem json_escape_roundtrip:
  assumes "utf8_valid s"
  shows "scan_string (dquote # json_escape s @ dquote # rest) = Some (s, rest)"
  using string_body_escape [OF assms, of "[]" rest] by (simp add: scan_string_def)


theorem json_escape_roundtrip_witness:
  "scan_string (dquote # json_escape (''a'' @ [dquote, CHR 0x01, CHR 0xC3, CHR 0xA9]) @ dquote # ''}'') =
     Some (''a'' @ [dquote, CHR 0x01, CHR 0xC3, CHR 0xA9], ''}'')"
proof (rule json_escape_roundtrip)
  have e: "utf8_valid [CHR 0xC3, CHR 0xA9]"
    by (subst utf8_valid.simps) (simp add: utf8_step_str_def utf8_step_def cont_at_def is_cont_def utf8_valid.simps [of "[]"])
  show "utf8_valid (''a'' @ [dquote, CHR 0x01, CHR 0xC3, CHR 0xA9])"
    using e by (simp add: utf8_valid.simps [of "_ # _ # _ # _"] utf8_step_str_def utf8_step_def)
qed

section \<open>Field lookup\<close>

text \<open>A flat object of string members, as the shims and the broker write them.\<close>

definition quoted :: "string \<Rightarrow> string" where
  "quoted s = dquote # json_escape s @ [dquote]"

fun members_text :: "(string \<times> string) list \<Rightarrow> string" where
  "members_text [] = [CHR 0x7D]"
| "members_text [(k, v)] = quoted k @ '':'' @ quoted v @ [CHR 0x7D]"
| "members_text ((k, v) # m) = quoted k @ '':'' @ quoted v @ '','' @ members_text m"

definition object_text :: "(string \<times> string) list \<Rightarrow> string" where
  "object_text m = CHR 0x7B # members_text m"

lemma scan_quoted: "utf8_valid s \<Longrightarrow> scan_string (quoted s @ rest) = Some (s, rest)"
  using string_body_escape [of s "[]" rest] by (simp add: quoted_def scan_string_def)

lemma quoted_Cons: "\<exists>t. quoted s @ rest = dquote # t"
  by (simp add: quoted_def)

lemma find_plain: "c \<noteq> dquote \<Longrightarrow> find_value_start key (c # r) = find_value_start key r"
  by (subst find_value_start.simps) simp

lemma jskip_id: "\<not> json_ws c \<Longrightarrow> jskip_ws (c # r) = c # r"
  by (simp add: jskip_ws_def)

lemma not_ws [simp]: "\<not> json_ws (CHR '':'')" "\<not> json_ws (CHR '','')" "\<not> json_ws (CHR 0x7D)" "\<not> json_ws dquote"
  by (simp_all add: json_ws_def)

lemma find_quoted:
  assumes "utf8_valid s" and "\<not> json_ws c"
  shows "find_value_start key (quoted s @ c # r) =
    (if c = CHR '':'' \<and> s = key then Some (jskip_ws r) else find_value_start key (c # r))"
proof -
  obtain t where t: "quoted s @ c # r = dquote # t" using quoted_Cons by blast
  have "scan_string (dquote # t) = Some (s, c # r)" using scan_quoted [OF assms(1), of "c # r"] by (simp add: t)
  then show ?thesis
    by (subst find_value_start.simps) (simp add: t jskip_id [OF assms(2)])
qed

lemma find_member:
  assumes "utf8_valid k" and "utf8_valid v" and "c = CHR '','' \<or> c = CHR 0x7D"
  shows "find_value_start key (quoted k @ '':'' @ quoted v @ c # rest) =
    (if k = key then Some (quoted v @ c # rest) else find_value_start key rest)"
proof -
  obtain t where t: "quoted v @ c # rest = dquote # t" using quoted_Cons by blast
  have c: "\<not> json_ws c" "c \<noteq> CHR '':''" "c \<noteq> dquote" using assms(3) by auto
  have "jskip_ws (quoted v @ c # rest) = quoted v @ c # rest" by (simp add: t jskip_id)
  then show ?thesis
    using find_quoted [OF assms(1), of "CHR '':''" key "quoted v @ c # rest"]
      find_quoted [OF assms(2) c(1), of key rest] find_plain [of "CHR '':''" key "quoted v @ c # rest"]
      find_plain [OF c(3), of key rest] c(2) by simp
qed

lemma find_members:
  "\<forall>(k, v) \<in> set m. utf8_valid k \<and> utf8_valid v \<Longrightarrow>
   find_value_start key (members_text m) =
     (case map_of m key of None \<Rightarrow> None
      | Some v \<Rightarrow> find_value_start key (members_text m)) \<and>
   (\<forall>v. map_of m key = Some v \<longrightarrow> (\<exists>c rest. find_value_start key (members_text m) = Some (quoted v @ c # rest)))"
proof (induction m rule: members_text.induct)
  case 1
  then show ?case by (simp add: find_plain find_value_start.simps [of key "[]"])
next
  case (2 k v)
  then have "find_value_start key (members_text [(k, v)]) =
      (if k = key then Some (quoted v @ [CHR 0x7D]) else find_value_start key [])"
    using find_member [of k v "CHR 0x7D" key "[]"] by simp
  then show ?case by (auto simp: find_value_start.simps [of key "[]"])
next
  case (3 k v x m)
  let ?m = "x # m"
  have "find_value_start key (members_text ((k, v) # ?m)) =
      (if k = key then Some (quoted v @ CHR '','' # members_text ?m) else find_value_start key (members_text ?m))"
    using 3(2) find_member [of k v "CHR '',''" key "members_text ?m"] by simp
  with 3 show ?case by (cases "k = key") (auto split: option.splits)
qed

text \<open>
  Looking a key up in a written JSON object of string members returns the value of that
  member, whatever characters keys and values contain.
\<close>

theorem json_str_field_lookup:
  assumes "\<forall>(k, v) \<in> set m. utf8_valid k \<and> utf8_valid v"
  shows "json_str_field d (object_text m) key = (case map_of m key of Some v \<Rightarrow> Ok v | None \<Rightarrow> Bad)"
proof -
  have o: "find_value_start key (object_text m) = find_value_start key (members_text m)"
    by (simp add: object_text_def find_plain)
  show ?thesis
  proof (cases "map_of m key")
    case None
    with find_members [OF assms, of key] show ?thesis by (simp add: json_str_field_def span_def o)
  next
    case (Some v)
    then have v: "utf8_valid v" using assms by (auto dest: map_of_SomeD)
    obtain c rest where f: "find_value_start key (members_text m) = Some (quoted v @ c # rest)"
      using find_members [OF assms, of key] Some by blast
    obtain t where t: "quoted v @ c # rest = dquote # t" using quoted_Cons by blast
    have "scan_string (dquote # t) = Some (v, c # rest)" using scan_quoted [OF v, of "c # rest"] by (simp add: t)
    then show ?thesis
      by (simp add: json_str_field_def span_def o f t skip_value.simps jskip_id kind_at_def of_option_def Some)
  qed
qed

theorem json_str_field_lookup_witness:
  "json_str_field 0 (object_text [(''note'', ''LobbyId:x''), (''LobbyId'', ''lan-1'')]) ''LobbyId'' = Ok ''lan-1''"
  by (subst json_str_field_lookup) (simp_all add: utf8_valid_ascii is_ascii_def)

section \<open>Nesting\<close>

lemma skip_nested: "skip_value d (replicate (Suc (Suc d)) (CHR ''['') @ s) = Overflow"
proof (induction d)
  case 0
  show ?case
    by (simp add: skip_value.simps skip_elements.simps jskip_ws_def json_ws_def)
next
  case (Suc d)
  have "skip_value (Suc d) (CHR ''['' # t) = skip_elements (Suc d) t" for t
    by (subst skip_value.simps) (simp add: jskip_ws_def json_ws_def)
  moreover have "skip_elements (Suc d) (CHR ''['' # t) = (case skip_value d (CHR ''['' # t) of
      Ok r3 \<Rightarrow> if length r3 < length (CHR ''['' # t) then skip_elements (Suc d) r3 else Bad
    | Bad \<Rightarrow> Bad | Overflow \<Rightarrow> Overflow)" for t
    by (subst skip_elements.simps) (simp add: jskip_ws_def json_ws_def)
  ultimately show ?case using Suc by simp
qed

theorem nesting_exhausts_stack:
  assumes "utf8_valid key"
  shows "json_str_field d (CHR 0x7B # quoted key @ '':'' @ replicate (d + 2) (CHR ''['')) key = Overflow"
proof -
  let ?v = "replicate (d + 2) (CHR ''['')"
  have v: "jskip_ws ?v = ?v" by (simp add: jskip_ws_def json_ws_def)
  have "find_value_start key (CHR 0x7B # quoted key @ '':'' @ ?v) = Some ?v"
    using find_quoted [OF assms, of "CHR '':''" key ?v] v by (simp add: find_plain del: replicate_Suc replicate.simps)
  moreover have "skip_value d ?v = Overflow" using skip_nested [of d "[]"] by simp
  ultimately show ?thesis by (simp add: json_str_field_def span_def)
qed

theorem nesting_exhausts_stack_witness:
  "json_str_field 3 ([CHR 0x7B, dquote] @ ''data'' @ [dquote] @ '':[[[[['') ''data'' = Overflow"
  using nesting_exhausts_stack [of "''data''" 3]
  by (simp add: utf8_valid_ascii is_ascii_def quoted_def json_escape_def escape_char_def numeral_eq_Suc)


text \<open>One frame per byte of text is always room enough.\<close>

lemma skip_no_overflow:
  "length s \<le> Suc d \<Longrightarrow> skip_value d s \<noteq> Overflow"
  "length s \<le> d \<Longrightarrow> skip_members d s \<noteq> Overflow"
  "length s \<le> d \<Longrightarrow> skip_elements d s \<noteq> Overflow"
proof (induction d s and d s and d s rule: skip_value_skip_members_skip_elements.induct)
  case (1 d s)
  show ?case
  proof (cases "jskip_ws s")
    case (Cons c r)
    have "length r \<le> d" using jskip_ws_Cons [OF Cons] 1(3) by simp
    with 1(1,2) [OF Cons] Cons show ?thesis
      by (subst skip_value.simps) (simp split: option.split)
  qed (simp add: skip_value.simps)
next
  case (2 d s)
  show ?case
  proof (cases "jskip_ws s")
    case (Cons c r)
    have r: "length r \<le> d" "length (c # r) \<le> length s" using jskip_ws_Cons [OF Cons] 2(4) by simp_all
    show ?thesis
    proof (cases "scan_string (c # r)")
      case (Some kr)
      obtain k r1 where k: "kr = (k, r1)" by fastforce
      note sc = Some [unfolded k]
      show ?thesis
      proof (cases "jskip_ws r1")
        case r1: (Cons c2 r2)
        have r2: "length r2 + 2 \<le> length s" using scan_string_shorter [OF sc] jskip_ws_Cons [OF r1] r(2) by simp
        then obtain d' where d: "d = Suc d'" using 2(4) by (cases d) auto
        have "length r2 \<le> Suc d'" using r2 2(4) d by simp
        then have sv: "skip_value d' r2 \<noteq> Overflow"
          if "c \<noteq> CHR 0x7D" "c \<noteq> CHR '',''" "c2 = CHR '':''"
          using 2(2) [OF Cons that(1,2) sc refl r1 _ d] that(3) by simp
        have sm: "skip_members d x \<noteq> Overflow"
          if "c \<noteq> CHR 0x7D" "c \<noteq> CHR '',''" "c2 = CHR '':''" "skip_value d' r2 = Ok x" "length x < length s" for x
          using 2(3) [OF Cons that(1,2) sc refl r1 _ d that(4,5)] that(3,5) 2(4) by simp
        show ?thesis
          using 2(1) [OF Cons] 2(4) Cons r r1 sc d sv sm
          by (subst skip_members.simps) (auto simp: k split: scan.split)
      qed (use 2(1) Cons r sc in \<open>subst skip_members.simps, simp add: k\<close>)
    qed (use 2(1) Cons r in \<open>subst skip_members.simps, simp\<close>)
  qed (simp add: skip_members.simps)
next
  case (3 d s)
  show ?case
  proof (cases "jskip_ws s")
    case (Cons c r)
    have r: "length r \<le> d" "length (c # r) \<le> length s" using jskip_ws_Cons [OF Cons] 3(4) by simp_all
    then obtain d' where d: "d = Suc d'" using 3(4) by (cases d) auto
    have "length (c # r) \<le> Suc d'" using r 3(4) d by simp
    with 3 Cons r d show ?thesis
      by (subst skip_elements.simps) (auto split: scan.split)
  qed (simp add: skip_elements.simps)
qed

lemma find_value_start_length: "find_value_start key s = Some t \<Longrightarrow> length t \<le> length s"
proof (induction key s rule: find_value_start.induct)
  case (1 key s)
  show ?case
  proof (cases s)
    case (Cons c r)
    show ?thesis
    proof (cases "c = dquote")
      case True
      then obtain tx r1 where sc: "scan_string s = Some (tx, r1)"
        using 1(4) Cons by (subst (asm) find_value_start.simps) (auto split: option.splits)
      have l: "length (jskip_ws r1) < length s"
        using scan_string_shorter [OF sc] length_jskip_ws [of r1] by linarith
      show ?thesis
      proof (cases "jskip_ws r1")
        case Nil
        have "find_value_start key [] = None" by (simp add: find_value_start.simps)
        with 1(4) Cons True sc Nil show ?thesis by (subst (asm) find_value_start.simps) simp
      next
        case j: (Cons c2 r2)
        have ih: "length t \<le> length (c2 # r2)"
          if "\<not> (c2 = CHR '':'' \<and> tx = key)" "find_value_start key (c2 # r2) = Some t"
          using 1(2) [OF Cons True sc refl j that(1)] that(2) by simp
        show ?thesis
          using 1(4) Cons True sc j ih l length_jskip_ws [of r2]
          by (subst (asm) find_value_start.simps) (auto split: if_splits)
      qed
    next
      case False
      with 1(3) [OF Cons False] 1(4) Cons show ?thesis
        by (subst (asm) find_value_start.simps) simp
    qed
  qed (use 1(4) in \<open>simp add: find_value_start.simps\<close>)
qed

lemma span_no_overflow: "length s \<le> Suc d \<Longrightarrow> span d s key \<noteq> Overflow"
  using skip_no_overflow(1) [of _ d] find_value_start_length [of key s]
  by (auto simp: span_def simp del: list.size split: option.split list.split scan.split)

lemma span_length: "span d blob key = Ok (k, s, r) \<Longrightarrow> length s \<le> length blob"
  using find_value_start_length [of key blob]
  by (auto simp: span_def split: option.splits list.splits scan.splits)

lemma obj_insert_bounded:
  "hm_wf out \<Longrightarrow> length out \<le> OBJECT_CAP \<Longrightarrow> hm_wf (obj_insert out k v) \<and> length (obj_insert out k v) \<le> OBJECT_CAP"
  by (simp add: obj_insert_def hm_wf_insert le_trans [OF length_hm_insert])

lemma obj_loop_bounded:
  "length s \<le> Suc d \<Longrightarrow> hm_wf out \<Longrightarrow> length out \<le> OBJECT_CAP \<Longrightarrow>
   \<exists>m. obj_loop d out s = Ok m \<and> hm_wf m \<and> length m \<le> OBJECT_CAP"
proof (induction d out s rule: obj_loop.induct)
  case (1 d out s)
  show ?case
  proof (cases "jskip_ws s")
    case (Cons c r)
    note l = jskip_ws_Cons [OF Cons]
    show ?thesis
    proof (cases "\<exists>k r1 r2 r4. c \<noteq> CHR 0x7D \<and> c \<noteq> CHR '','' \<and> scan_string (c # r) = Some (k, r1) \<and>
        jskip_ws r1 = CHR '':'' # r2 \<and> jskip_ws r2 \<noteq> [] \<and> skip_value d (jskip_ws r2) = Ok r4")
      case True
      then obtain k r1 r2 r4 where c: "c \<noteq> CHR 0x7D" "c \<noteq> CHR '',''" and sc: "scan_string (c # r) = Some (k, r1)"
        and j: "jskip_ws r1 = CHR '':'' # r2" "jskip_ws r2 \<noteq> []" and ok: "skip_value d (jskip_ws r2) = Ok r4"
        by blast
      have r4: "length r4 \<le> Suc d"
        using skip_value_shorter [OF ok] length_jskip_ws [of r2] jskip_ws_Cons [OF j(1)]
          scan_string_shorter [OF sc] l 1(4) by simp
      show ?thesis
        using 1(2) [OF Cons c sc refl j(1) _ j(2) ok] 1(3) [OF Cons c sc refl j(1) _ j(2) ok] r4 1(5,6)
          obj_insert_bounded [OF 1(5,6)] Cons c sc j ok
        by (subst obj_loop.simps) (auto split: option.split)
    next
      case False
      have "skip_value d (jskip_ws q) \<noteq> Overflow"
        if "scan_string (c # r) = Some (k, r1)" "jskip_ws r1 = CHR '':'' # q" for k r1 q
        using skip_no_overflow(1) [of "jskip_ws q" d] scan_string_shorter [OF that(1)]
          jskip_ws_Cons [OF that(2)] length_jskip_ws [of q] l 1(4) by simp
      with False show ?thesis
        using 1(1) [OF Cons] 1(4-6) Cons l
        by (subst obj_loop.simps) (auto split: option.split list.split scan.split)
    qed
  qed (use 1 in \<open>simp add: obj_loop.simps\<close>)
qed

lemma arr_loop_bounded:
  "length s \<le> Suc d \<Longrightarrow> length out < ARRAY_CAP \<Longrightarrow> \<exists>xs. arr_loop d out s = Ok xs \<and> length xs \<le> ARRAY_CAP"
proof (induction d out s rule: arr_loop.induct)
  case (1 d out s)
  show ?case
  proof (cases "jskip_ws s")
    case (Cons c r)
    note l = jskip_ws_Cons [OF Cons]
    show ?thesis
    proof (cases "skip_value d (c # r)")
      case (Ok r2)
      have "length r2 < length (c # r)" using Ok by (rule skip_value_shorter)
      with 1(1,2) [OF Cons] Ok 1(3,4) Cons l show ?thesis
        by (subst arr_loop.simps) (simp add: Let_def)
    next
      case Overflow
      with skip_no_overflow(1) [of "c # r" d] 1(3) l show ?thesis by simp
    qed (use 1 Cons l in \<open>subst arr_loop.simps, simp\<close>)
  qed (use 1 in \<open>simp add: arr_loop.simps\<close>)
qed

text \<open>
  C37: on a blob no longer than the stack is deep every accessor of the scanner returns,
  objects with at most 64 distinct keys and arrays with at most 32 elements.
\<close>

theorem scanner_answers_bounded:
  assumes "length blob \<le> Suc d"
  shows "json_str_field d blob key \<noteq> Overflow \<and> json_num_field d blob key \<noteq> Overflow \<and>
    (\<exists>m. json_obj d blob key = Ok m \<and> hm_wf m \<and> length m \<le> OBJECT_CAP) \<and>
    (\<exists>xs. json_arr_objects d blob key = Ok xs \<and> length xs \<le> ARRAY_CAP)"
proof (cases "span d blob key")
  case (Ok v)
  obtain k s r where v: "v = (k, s, r)" by (cases v)
  have s: "length (tl s) \<le> Suc d" using span_length [OF Ok [unfolded v]] assms by simp
  from obj_loop_bounded [OF s, of "[]"] arr_loop_bounded [OF s, of "[]"] Ok show ?thesis
    by (cases k)
      (simp_all add: v json_str_field_def json_num_field_def json_obj_def json_arr_objects_def
        of_option_def Let_def ARRAY_CAP_def split: option.split)
next
  case Bad
  then show ?thesis
    by (simp add: json_str_field_def json_num_field_def json_obj_def json_arr_objects_def)
qed (use span_no_overflow [OF assms] in simp)

theorem scanner_answers_bounded_witness:
  "\<exists>xs. json_arr_objects 12 ([CHR 0x7B, dquote, CHR ''a'', dquote] @ '':[[1],2]'') ''a'' = Ok xs \<and> length xs \<le> ARRAY_CAP"
  using scanner_answers_bounded [of "[CHR 0x7B, dquote, CHR ''a'', dquote] @ '':[[1],2]''" 12 "''a''"] by simp

section \<open>Written objects\<close>

lemma skip_quoted: "utf8_valid v \<Longrightarrow> skip_value d (quoted v @ rest) = Ok rest"
proof -
  assume v: "utf8_valid v"
  obtain t where t: "quoted v @ rest = dquote # t" using quoted_Cons by blast
  show ?thesis using scan_quoted [OF v, of rest] by (simp add: t skip_value.simps jskip_id)
qed

text \<open>One member of an object, as the loops read it.\<close>

lemma skip_member_text:
  assumes "utf8_valid k" and "utf8_valid v"
  shows "skip_members (Suc d) (quoted k @ '':'' @ quoted v @ c # rest) = skip_members (Suc d) (c # rest)"
proof -
  obtain t where t: "quoted k @ '':'' @ quoted v @ c # rest = dquote # t" using quoted_Cons by blast
  have "scan_string (dquote # t) = Some (k, '':'' @ quoted v @ c # rest)" using scan_quoted [OF assms(1)] t by metis
  moreover have "length (c # rest) < length (dquote # t)" unfolding t [symmetric] by simp
  ultimately show ?thesis
    unfolding t by (subst skip_members.simps) (simp add: jskip_id skip_quoted [OF assms(2)])
qed

lemma obj_member_text:
  assumes "utf8_valid k" and "utf8_valid v"
  shows "obj_loop d out (quoted k @ '':'' @ quoted v @ c # rest) = obj_loop d (obj_insert out k v) (c # rest)"
proof -
  obtain t where t: "quoted k @ '':'' @ quoted v @ c # rest = dquote # t" using quoted_Cons by blast
  obtain u where u: "quoted v @ c # rest = dquote # u" using quoted_Cons by blast
  have "scan_string (dquote # t) = Some (k, CHR '':'' # dquote # u)" using scan_quoted [OF assms(1)] t u by (metis append_Cons append_Nil)
  moreover have "skip_value d (dquote # u) = Ok (c # rest)" using skip_quoted [OF assms(2), of d "c # rest"] by (simp add: u)
  moreover have "member_text (dquote # u) (c # rest) = Some v"
    using scan_quoted [OF assms(2), of "c # rest"] by (simp add: member_text_def u)
  ultimately show ?thesis unfolding t by (subst obj_loop.simps) (simp add: jskip_id)
qed

lemma skip_members_text:
  "\<forall>(k, v) \<in> set m. utf8_valid k \<and> utf8_valid v \<Longrightarrow> skip_members (Suc d) (members_text m @ rest) = Ok rest"
proof (induction m rule: members_text.induct)
  case 1
  show ?case by (subst skip_members.simps) (simp add: jskip_id)
next
  case (2 k v)
  then show ?case using skip_member_text [of k v d "CHR 0x7D" rest] by (simp add: skip_members.simps [of _ "CHR 0x7D # rest"] jskip_id)
next
  case (3 k v x m)
  then show ?case
    using skip_member_text [of k v d "CHR '',''" "members_text (x # m) @ rest"]
    by (simp add: skip_members.simps [of _ "CHR '','' # _"] jskip_id)
qed

lemma obj_loop_members:
  "\<forall>(k, v) \<in> set m. utf8_valid k \<and> utf8_valid v \<Longrightarrow>
   obj_loop d out (members_text m @ rest) = Ok (fold (\<lambda>(k, v) o1. obj_insert o1 k v) m out)"
proof (induction m arbitrary: out rule: members_text.induct)
  case 1
  show ?case by (subst obj_loop.simps) (simp add: jskip_id)
next
  case (2 k v)
  then show ?case
    using obj_member_text [of k v d out "CHR 0x7D" rest] by (simp add: obj_loop.simps [of _ _ "CHR 0x7D # rest"] jskip_id)
next
  case (3 k v x m)
  then show ?case
    using obj_member_text [of k v d out "CHR '',''" "members_text (x # m) @ rest"]
    by (simp add: obj_loop.simps [of _ _ "CHR '','' # _"] jskip_id)
qed

text \<open>What the capped inserts make of a list of members: the last value of every key.\<close>

lemma obj_inserts:
  assumes "\<forall>(k, v) \<in> set m. k \<noteq> []" and "length out + length m \<le> OBJECT_CAP"
  shows "hm_get (fold (\<lambda>(k, v) o1. obj_insert o1 k v) m out) = hm_get out ++ map_of (rev m)"
  using assms
proof (induction m arbitrary: out)
  case (Cons x m)
  obtain k v where x: "x = (k, v)" by (cases x)
  have "length (hm_insert out k v) \<le> Suc (length out)" by (induction out) (auto simp: hm_insert_def)
  then have "length (obj_insert out k v) \<le> Suc (length out)" by (simp add: obj_insert_def)
  then have "hm_get (fold (\<lambda>(k, v) o1. obj_insert o1 k v) m (obj_insert out k v)) = hm_get (obj_insert out k v) ++ map_of (rev m)"
    using Cons by (intro Cons.IH) auto
  moreover have "hm_get (obj_insert out k v) = (hm_get out)(k \<mapsto> v)"
    using Cons.prems by (auto simp: x obj_insert_def hm_get_insert fun_eq_iff)
  ultimately show ?case by (simp add: x map_add_def fun_eq_iff split: option.split)
qed simp

lemma find_object_member:
  "utf8_valid key \<Longrightarrow> find_value_start key (CHR 0x7B # quoted key @ '':'' @ object_text m @ rest) = Some (object_text m @ rest)"
  using find_quoted [of key "CHR '':''" key "object_text m @ rest"]
  by (simp add: find_plain object_text_def jskip_id json_ws_def)

lemma json_obj_written:
  assumes "\<forall>(k, v) \<in> set m. utf8_valid k \<and> utf8_valid v" and "utf8_valid key"
  shows "json_obj (Suc d) (CHR 0x7B # quoted key @ '':'' @ object_text m @ rest) key =
    Ok (fold (\<lambda>(k, v) o1. obj_insert o1 k v) m [])"
proof -
  have "skip_value (Suc d) (object_text m @ rest) = Ok rest"
    using skip_members_text [OF assms(1), of d rest]
    by (simp add: object_text_def skip_value.simps [of _ "CHR 0x7B # _"] jskip_id json_ws_def)
  then show ?thesis
    using find_object_member [OF assms(2), of m rest] obj_loop_members [OF assms(1), of "Suc d" "[]" rest]
    by (simp add: json_obj_def span_def object_text_def kind_at_def)
qed

lemma find_members_skip:
  "\<forall>(k, v) \<in> set m. utf8_valid k \<and> utf8_valid v \<and> k \<noteq> key \<Longrightarrow>
   find_value_start key (members_text m @ rest) = find_value_start key rest"
proof (induction m rule: members_text.induct)
  case (2 k v)
  then show ?case using find_member [of k v "CHR 0x7D" key rest] by simp
next
  case (3 k v x m)
  then show ?case using find_member [of k v "CHR '',''" key "members_text (x # m) @ rest"] by simp
qed (simp add: find_plain)



end
