(* ===== verification/Lan_Cfg.thy ===== *)
theory Lan_Cfg
  imports Rust_Str
begin

text \<open>
  \<open>common/lan_cfg.rs\<close>: the configuration that the shims and the server read from \<open>lan.ini\<close> and
  from the environment. What the process sees of the machine (environment variables, readable
  files, the directory of the executable and the working directory) is the record \<open>host_env\<close>.
  The \<open>OnceLock\<close> cells are the option that the cached operations take and return.
\<close>

record lan_cfg =
  lc_host :: string
  lc_port :: u16
  lc_ws_port :: u16
  lc_advertise_ip :: "string option"
  lc_udp_port :: u16
  lc_debug :: bool

definition show_u16 :: "u16 \<Rightarrow> string" where
  "show_u16 n = show_nat (unat n)"

definition origin :: "lan_cfg \<Rightarrow> string" where
  "origin c = ''http://'' @ lc_host c @ '':'' @ show_u16 (lc_port c)"

definition host_port :: "lan_cfg \<Rightarrow> string" where
  "host_port c = lc_host c @ '':'' @ show_u16 (lc_port c)"

definition ws_url :: "lan_cfg \<Rightarrow> string" where
  "ws_url c = ''ws://'' @ lc_host c @ '':'' @ show_u16 (lc_ws_port c) @ ''/''"

text \<open>The machine as the loader sees it; \<open>None\<close> is an unset variable or an unreadable file.\<close>

record host_env =
  he_var :: "string \<Rightarrow> string option"
  he_read :: "string \<Rightarrow> string option"
  he_exe_dir :: "string option"
  he_cwd :: "string option"
  he_join :: "string \<Rightarrow> string \<Rightarrow> string"

section \<open>Loading\<close>

definition parse_bool_ini :: "string \<Rightarrow> bool option" where
  "parse_bool_ini v =
     (let t = to_ascii_lowercase (trim v) in
      if t \<in> set [''1'', ''true'', ''yes'', ''on''] then Some True
      else if t \<in> set [''0'', ''false'', ''no'', ''off''] then Some False
      else None)"

definition default_cfg :: lan_cfg where
  "default_cfg = \<lparr>lc_host = ''127.0.0.1'', lc_port = 8080, lc_ws_port = 8081,
     lc_advertise_ip = None, lc_udp_port = 0, lc_debug = False\<rparr>"

text \<open>The \<open>match (section, key)\<close> of the loader.\<close>

definition set_entry :: "string \<Rightarrow> string \<Rightarrow> string \<Rightarrow> lan_cfg \<Rightarrow> lan_cfg" where
  "set_entry section k v c =
     (if section = ''server'' \<and> k = ''host'' then c\<lparr>lc_host := v\<rparr>
      else if section = ''server'' \<and> k = ''port'' then c\<lparr>lc_port := unwrap_or (parse_u16 v) (lc_port c)\<rparr>
      else if section = ''server'' \<and> k = ''ws_port'' then c\<lparr>lc_ws_port := unwrap_or (parse_u16 v) (lc_ws_port c)\<rparr>
      else if section = ''party'' \<and> k = ''advertise_ip'' then
        (if v \<noteq> [] then c\<lparr>lc_advertise_ip := Some v\<rparr> else c)
      else if section = ''party'' \<and> k = ''udp_port'' then c\<lparr>lc_udp_port := unwrap_or (parse_u16 v) (lc_udp_port c)\<rparr>
      else if (section = ''debug'' \<and> k = ''enabled'') \<or> k = ''debug'' then
        c\<lparr>lc_debug := unwrap_or (parse_bool_ini v) (lc_debug c)\<rparr>
      else c)"

definition cfg_line :: "string \<times> lan_cfg \<Rightarrow> string \<Rightarrow> string \<times> lan_cfg" where
  "cfg_line st raw =
     (let (section, c) = st;
          line = trim (hd (split_char (CHR '';'') raw))
      in if line = [] then st
         else if starts_with line ''['' \<and> ends_with line '']'' then
           (to_ascii_lowercase (trim (butlast (tl line))), c)
         else
           (case split_once (CHR ''='') line of
              None \<Rightarrow> st
            | Some (k, v) \<Rightarrow> (section, set_entry section (to_ascii_lowercase (trim k)) (trim v) c)))"

definition apply_ini :: "string \<Rightarrow> lan_cfg \<Rightarrow> lan_cfg" where
  "apply_ini text c = snd (foldl cfg_line ([], c) (str_lines text))"

definition apply_debug_env :: "string option \<Rightarrow> lan_cfg \<Rightarrow> lan_cfg" where
  "apply_debug_env var c =
     (case Option.bind var parse_bool_ini of Some b \<Rightarrow> c\<lparr>lc_debug := b\<rparr> | None \<Rightarrow> c)"

definition apply_stub_env :: "string option \<Rightarrow> lan_cfg \<Rightarrow> lan_cfg" where
  "apply_stub_env var c =
     (case var of
        None \<Rightarrow> c
      | Some raw0 \<Rightarrow>
          (let raw = trim raw0 in
           case rsplit_once (CHR '':'') raw of
             Some (h, p) \<Rightarrow>
               (let c1 = (if h \<noteq> [] then c\<lparr>lc_host := h\<rparr> else c)
                in case parse_u16 p of Some n \<Rightarrow> c1\<lparr>lc_port := n\<rparr> | None \<Rightarrow> c1)
           | None \<Rightarrow> if raw \<noteq> [] then c\<lparr>lc_host := raw\<rparr> else c))"

definition lan_ini_dirs :: "host_env \<Rightarrow> string list" where
  "lan_ini_dirs e =
     (case he_exe_dir e of Some d \<Rightarrow> [d] | None \<Rightarrow> []) @ (case he_cwd e of Some d \<Rightarrow> [d] | None \<Rightarrow> [])"

fun first_readable :: "host_env \<Rightarrow> string list \<Rightarrow> string option" where
  "first_readable e [] = None"
| "first_readable e (p # ps) = (case he_read e p of Some s \<Rightarrow> Some s | None \<Rightarrow> first_readable e ps)"

definition read_lan_ini :: "host_env \<Rightarrow> string option" where
  "read_lan_ini e =
     (case Option.bind (he_var e ''GBFR_LAN_INI'') (he_read e) of
        Some s \<Rightarrow> Some s
      | None \<Rightarrow> first_readable e (map (\<lambda>d. he_join e d ''lan.ini'') (lan_ini_dirs e)))"

definition load_lan_cfg :: "host_env \<Rightarrow> lan_cfg" where
  "load_lan_cfg e =
     apply_stub_env (he_var e ''GBFR_LAN_STUB'')
       (apply_debug_env (he_var e ''GBFR_LAN_DEBUG'')
         (case read_lan_ini e of Some text \<Rightarrow> apply_ini text default_cfg | None \<Rightarrow> default_cfg))"

text \<open>\<open>lan_cfg\<close> and \<open>debug_enabled\<close>: the first use fills the cell.\<close>

definition get_lan_cfg :: "host_env \<Rightarrow> lan_cfg option \<Rightarrow> lan_cfg \<times> lan_cfg option" where
  "get_lan_cfg e cell = (let c = (case cell of Some c \<Rightarrow> c | None \<Rightarrow> load_lan_cfg e) in (c, Some c))"

definition debug_enabled :: "host_env \<Rightarrow> bool option \<Rightarrow> lan_cfg option \<Rightarrow> bool \<times> bool option \<times> lan_cfg option" where
  "debug_enabled e flag cell =
     (case flag of
        Some b \<Rightarrow> (b, Some b, cell)
      | None \<Rightarrow> (let (c, cell') = get_lan_cfg e cell in (lc_debug c, Some (lc_debug c), cell')))"

definition rewrite_http_url_to_stub :: "lan_cfg \<Rightarrow> string \<Rightarrow> string" where
  "rewrite_http_url_to_stub c u =
     (let lower = to_ascii_lowercase u in
      if \<not> (starts_with lower ''http://'' \<or> starts_with lower ''https://'') then u
      else
        (let rest = (case split_once_str ''://'' u of Some (_, r) \<Rightarrow> r | None \<Rightarrow> []);
             path = (if CHR ''/'' \<in> set rest then dropWhile (\<lambda>ch. ch \<noteq> CHR ''/'') rest else ''/'')
         in origin c @ path))"

section \<open>A written configuration is read back\<close>

lemma lower_keys:
  "to_ascii_lowercase ''host'' = ''host''" "to_ascii_lowercase ''port'' = ''port''"
  "to_ascii_lowercase ''ws_port'' = ''ws_port''" "to_ascii_lowercase ''advertise_ip'' = ''advertise_ip''"
  "to_ascii_lowercase ''udp_port'' = ''udp_port''" "to_ascii_lowercase ''enabled'' = ''enabled''"
  "to_ascii_lowercase ''server'' = ''server''" "to_ascii_lowercase ''party'' = ''party''"
  "to_ascii_lowercase ''debug'' = ''debug''" "to_ascii_lowercase ''true'' = ''true''" "to_ascii_lowercase ''false'' = ''false''"
  by (simp_all add: to_ascii_lowercase_def ascii_lower_def)

text \<open>A value an ini line can carry: graphic characters, no comment sign.\<close>

definition ini_value :: "string \<Rightarrow> bool" where
  "ini_value v \<longleftrightarrow> graphic v \<and> CHR '';'' \<notin> set v"

lemma ini_value_show_u16 [simp]: "ini_value (show_u16 n)"
  by (auto simp: ini_value_def show_u16_def is_ascii_digit_def dest!: show_nat_digits)

lemma cfg_line_entry:
  assumes "ini_value k" "k \<noteq> []" "CHR ''='' \<notin> set k" "hd k \<noteq> CHR ''[''" "to_ascii_lowercase k = k" "ini_value v"
  shows "cfg_line (section, c) (k @ CHR ''='' # v) = (section, set_entry section k v c)"
proof -
  let ?l = "k @ CHR ''='' # v"
  have "graphic ?l" "hd (split_char (CHR '';'') ?l) = ?l"
    using assms by (simp_all add: ini_value_def split_char_none)
  moreover have "\<not> starts_with ?l ''[''"
    using assms(2,4) by (cases k) (simp_all add: starts_with_def)
  moreover have "split_once (CHR ''='') ?l = Some (k, v)" using assms(3) by (rule split_once_append)
  ultimately show ?thesis
    using assms by (simp add: cfg_line_def trim_graphic ini_value_def)
qed

lemma cfg_line_section:
  assumes "ini_value s" "to_ascii_lowercase s = s"
  shows "cfg_line (section, c) (''['' @ s @ '']'') = (s, c)"
proof -
  let ?l = "''['' @ s @ '']''"
  have "graphic ?l" "hd (split_char (CHR '';'') ?l) = ?l" "starts_with ?l ''[''" "ends_with ?l '']''"
    using assms by (simp_all add: ini_value_def split_char_none starts_with_def ends_with_def)
  then show ?thesis
    using assms trim_graphic [of ?l] by (simp add: cfg_line_def trim_graphic ini_value_def butlast_append)
qed

lemma parse_u16_show [simp]: "parse_u16 (show_u16 n) = Some n"
proof -
  have "unat n < 2 ^ 16" using unsigned_less [where w = n and 'a = nat] by simp
  then show ?thesis by (simp add: parse_u16_def show_u16_def parse_unsigned_show_nat)
qed

text \<open>The file that spells out a configuration.\<close>

definition ini_lines :: "lan_cfg \<Rightarrow> string list" where
  "ini_lines c =
     [''[server]'', ''host='' @ lc_host c, ''port='' @ show_u16 (lc_port c), ''ws_port='' @ show_u16 (lc_ws_port c),
      ''[party]'', ''advertise_ip='' @ unwrap_or (lc_advertise_ip c) [], ''udp_port='' @ show_u16 (lc_udp_port c),
      ''[debug]'', ''enabled='' @ (if lc_debug c then ''true'' else ''false'')]"

definition ini_text :: "lan_cfg \<Rightarrow> string" where
  "ini_text c = concat (map (\<lambda>l. l @ [CHR 0x0A]) (ini_lines c))"

lemma fold_ini_lines:
  assumes "ini_value (lc_host c)" "ini_value (unwrap_or (lc_advertise_ip c) [])" "lc_advertise_ip c \<noteq> Some []"
  shows "foldl cfg_line ([], default_cfg) (ini_lines c) = (''debug'', c)"
proof -
  have e: "cfg_line (sec, c') (''host='' @ v) = (sec, set_entry sec ''host'' v c')"
    "cfg_line (sec, c') (''port='' @ v) = (sec, set_entry sec ''port'' v c')"
    "cfg_line (sec, c') (''ws_port='' @ v) = (sec, set_entry sec ''ws_port'' v c')"
    "cfg_line (sec, c') (''advertise_ip='' @ v) = (sec, set_entry sec ''advertise_ip'' v c')"
    "cfg_line (sec, c') (''udp_port='' @ v) = (sec, set_entry sec ''udp_port'' v c')"
    "cfg_line (sec, c') (''enabled='' @ v) = (sec, set_entry sec ''enabled'' v c')"
    if "ini_value v" for sec c' v
    using that cfg_line_entry [of "''host''" v sec c'] cfg_line_entry [of "''port''" v sec c']
      cfg_line_entry [of "''ws_port''" v sec c'] cfg_line_entry [of "''advertise_ip''" v sec c']
      cfg_line_entry [of "''udp_port''" v sec c'] cfg_line_entry [of "''enabled''" v sec c']
    by (simp_all add: lower_keys) (simp_all add: ini_value_def)
  have s: "cfg_line (sec, c') ''[server]'' = (''server'', c')" "cfg_line (sec, c') ''[party]'' = (''party'', c')"
    "cfg_line (sec, c') ''[debug]'' = (''debug'', c')" for sec c'
    using cfg_line_section [of "''server''" sec c'] cfg_line_section [of "''party''" sec c']
      cfg_line_section [of "''debug''" sec c']
    by (simp_all add: lower_keys) (simp_all add: ini_value_def)
  have b: "ini_value (if lc_debug c then ''true'' else ''false'')"
    "parse_bool_ini (if lc_debug c then ''true'' else ''false'') = Some (lc_debug c)"
    by (simp_all add: ini_value_def parse_bool_ini_def Let_def trim_graphic lower_keys)
  show ?thesis
    using assms(3) unfolding ini_lines_def
    by (simp only: foldl_Cons foldl_Nil e [OF assms(1)] e [OF assms(2)] e [OF b(1)] e [OF ini_value_show_u16] s)
      (cases "lc_advertise_ip c"; simp add: set_entry_def b(2) default_cfg_def)
qed

text \<open>
  Loading a lan.ini file that spells out a configuration, with no overriding environment
  variables, gives back that configuration.
\<close>

theorem lan_cfg_roundtrip:
  assumes "read_lan_ini e = Some (ini_text c)"
    and "ini_value (lc_host c)" and "\<forall>ip. lc_advertise_ip c = Some ip \<longrightarrow> ip \<noteq> [] \<and> ini_value ip"
    and "he_var e ''GBFR_LAN_DEBUG'' = None" and "he_var e ''GBFR_LAN_STUB'' = None"
  shows "load_lan_cfg e = c"
proof -
  have ip: "ini_value (unwrap_or (lc_advertise_ip c) [])" "lc_advertise_ip c \<noteq> Some []"
    using assms(3) by (cases "lc_advertise_ip c"; auto simp: ini_value_def)+
  have "CHR 0x0A \<notin> set l \<and> (l = [] \<or> last l \<noteq> CHR 0x0D)" if "graphic l" for l
    using that by (cases l rule: rev_cases) (auto simp: graphic_def)
  moreover have "\<forall>l \<in> set (ini_lines c). graphic l"
    using assms(2) ip(1) by (auto simp: ini_lines_def ini_value_def show_u16_def)
  ultimately have "str_lines (ini_text c) = ini_lines c"
    unfolding ini_text_def by (intro str_lines_unlines) blast
  with fold_ini_lines [OF assms(2) ip] assms(1,4,5) show ?thesis
    by (simp add: load_lan_cfg_def apply_ini_def apply_debug_env_def apply_stub_env_def)
qed

definition demo_cfg :: lan_cfg where
  "demo_cfg = \<lparr>lc_host = ''10.0.0.2'', lc_port = 8080, lc_ws_port = 9001, lc_advertise_ip = Some ''10.0.0.7'',
     lc_udp_port = 7777, lc_debug = True\<rparr>"

definition demo_env :: "(string \<Rightarrow> string option) \<Rightarrow> host_env" where
  "demo_env var = \<lparr>he_var = var, he_read = (\<lambda>p. if p = ''C:/lan.ini'' then Some (ini_text demo_cfg) else None),
     he_exe_dir = Some ''C:'', he_cwd = None, he_join = (\<lambda>d f. d @ ''/'' @ f)\<rparr>"

lemma read_demo: "Option.bind (var ''GBFR_LAN_INI'') (he_read (demo_env var)) = None \<Longrightarrow> read_lan_ini (demo_env var) = Some (ini_text demo_cfg)"
  by (simp add: read_lan_ini_def lan_ini_dirs_def demo_env_def split: option.split)

theorem lan_cfg_roundtrip_witness: "load_lan_cfg (demo_env (\<lambda>_. None)) = demo_cfg"
proof (rule lan_cfg_roundtrip)
  show "read_lan_ini (demo_env (\<lambda>_. None)) = Some (ini_text demo_cfg)" by (rule read_demo) simp
qed (simp_all add: demo_env_def demo_cfg_def ini_value_def)

section \<open>Precedence and rewriting\<close>

text \<open>\<open>GBFR_LAN_STUB=host:port\<close> decides the broker address, whatever the file says.\<close>

lemma stub_env_overrides:
  assumes "he_var e ''GBFR_LAN_STUB'' = Some (h @ '':'' @ show_u16 p)" and "graphic h" and "h \<noteq> []"
  shows "lc_host (load_lan_cfg e) = h \<and> lc_port (load_lan_cfg e) = p"
proof -
  have "CHR '':'' \<notin> set (rev (show_u16 p))"
    by (auto simp: show_u16_def is_ascii_digit_def dest!: show_nat_digits)
  from split_once_append [OF this, of "rev h"]
  have "rsplit_once (CHR '':'') (h @ '':'' @ show_u16 p) = Some (h, show_u16 p)" by (simp add: rsplit_once_def)
  moreover have "trim (h @ '':'' @ show_u16 p) = h @ '':'' @ show_u16 p"
    using assms(2) by (intro trim_graphic) (simp add: show_u16_def)
  ultimately show ?thesis using assms(1,3) by (simp add: load_lan_cfg_def apply_stub_env_def Let_def)
qed

lemma find_sub_skip: "p \<noteq> [] \<Longrightarrow> hd p \<notin> set s \<Longrightarrow> find_sub p (s @ p @ r) = Some (length s)"
proof (induction s)
  case Nil
  then show ?case by (cases p) simp_all
next
  case (Cons c s)
  then have "take (length p) (c # s @ p @ r) \<noteq> p" by (cases p) auto
  with Cons show ?case by simp
qed

text \<open>A rewritten URL points at the broker and is a fixed point.\<close>

lemma rewrite_idempotent:
  assumes "CHR ''/'' \<notin> set (lc_host c)"
  shows "rewrite_http_url_to_stub c (rewrite_http_url_to_stub c u) = rewrite_http_url_to_stub c u"
proof (cases "starts_with (to_ascii_lowercase u) ''http://'' \<or> starts_with (to_ascii_lowercase u) ''https://''")
  case True
  have *: "rewrite_http_url_to_stub c (origin c @ p) = origin c @ p" if "p \<noteq> []" "hd p = CHR ''/''" for p
  proof -
    obtain q where p: "p = CHR ''/'' # q" using \<open>p \<noteq> []\<close> \<open>hd p = _\<close> by (cases p) auto
    have d: "CHR ''/'' \<notin> set (show_u16 n)" for n
      by (auto simp: show_u16_def is_ascii_digit_def dest!: show_nat_digits)
    have "split_once_str ''://'' (''http'' @ ''://'' @ host_port c @ p) = Some (''http'', host_port c @ p)"
      using find_sub_skip [of "''://''" "''http''" "host_port c @ p"] by (simp add: split_once_str_def)
    then have "split_once_str ''://'' (origin c @ p) = Some (''http'', host_port c @ p)"
      by (simp add: origin_def host_port_def)
    moreover have "dropWhile (\<lambda>ch. ch \<noteq> CHR ''/'') (host_port c @ p) = p"
      using assms d [of "lc_port c"] p by (subst dropWhile_append2) (auto simp: host_port_def)
    moreover have "starts_with (to_ascii_lowercase (origin c @ p)) ''http://''"
      by (simp add: origin_def to_ascii_lowercase_def ascii_lower_def starts_with_def)
    ultimately show ?thesis using p by (simp add: rewrite_http_url_to_stub_def Let_def)
  qed
  obtain p where "rewrite_http_url_to_stub c u = origin c @ p" "p \<noteq> []" "hd p = CHR ''/''"
  proof -
    let ?r = "case split_once_str ''://'' u of Some (_, r) \<Rightarrow> r | None \<Rightarrow> []"
    let ?p = "if CHR ''/'' \<in> set ?r then dropWhile (\<lambda>ch. ch \<noteq> CHR ''/'') ?r else ''/''"
    have "?p \<noteq> []" "hd ?p = CHR ''/''"
      using hd_dropWhile [of "\<lambda>ch. ch \<noteq> CHR ''/''" ?r] by (simp_all add: dropWhile_eq_Nil_conv)
    moreover have "rewrite_http_url_to_stub c u = origin c @ ?p"
      using True unfolding rewrite_http_url_to_stub_def Let_def by argo
    ultimately show thesis using that by blast
  qed
  with * show ?thesis by simp
next
  case False
  then show ?thesis by (simp add: rewrite_http_url_to_stub_def Let_def)
qed

end
