(* ===== verification/Party_Desc.thy ===== *)
theory Party_Desc
  imports Wire Reliable
begin

text \<open>
  \<open>party-shim/src/lib.rs\<close>: the network descriptor, its text form \<open>LAN1.<id>.<ip>\<close>, the identifier
  of a new network and the small conversions of the runtime. A C string argument is the bytes
  before its terminator, or \<open>None\<close> for a null pointer; an output pointer is passed as whether it
  is null, and what the call writes through it is returned.
\<close>

section \<open>Constants and the descriptor\<close>

definition SUCCESS :: u32 where "SUCCESS = 0"
definition ERR :: u32 where "ERR = 0x80004005"
definition IDENT_LEN :: nat where "IDENT_LEN = 37"
definition REGION_LEN :: nat where "REGION_LEN = 20"
definition OPAQUE_LEN :: nat where "OPAQUE_LEN = 300"
definition SERIALIZED_MAX :: nat where "SERIALIZED_MAX = 449"
definition RECV_GUARANTEED :: u32 where "RECV_GUARANTEED = 0x1"
definition RECV_SEQUENTIAL :: u32 where "RECV_SEQUENTIAL = 0x2"

record descriptor =
  d_identifier :: bytes
  d_region :: bytes
  d_opaque :: bytes

definition zero_desc :: descriptor where
  "zero_desc = \<lparr>d_identifier = replicate IDENT_LEN 0, d_region = replicate REGION_LEN 0, d_opaque = replicate OPAQUE_LEN 0\<rparr>"

definition descriptor_new :: "string \<Rightarrow> descriptor" where
  "descriptor_new ident =
     (let ib = as_bytes ident;
          n = min (length ib) (IDENT_LEN - 1)
      in zero_desc\<lparr>d_identifier := blit 0 (take n ib) (d_identifier zero_desc),
                   d_region := blit 0 (as_bytes ''lan'') (d_region zero_desc)\<rparr>)"

definition id_str :: "descriptor \<Rightarrow> string" where
  "id_str d =
     (let n = (if 0 \<in> set (d_identifier d) then length (takeWhile (\<lambda>b. b \<noteq> 0) (d_identifier d)) else IDENT_LEN - 1)
      in utf8_lossy (of_bytes (take n (d_identifier d))))"

definition desc_set_advert_ip :: "descriptor \<Rightarrow> ipv4 \<Rightarrow> descriptor" where
  "desc_set_advert_ip d ip = (case ip of (a, b, c, e) \<Rightarrow> d\<lparr>d_opaque := blit 2 [a, b, c, e] (d_opaque d)\<rparr>)"

definition desc_set_port :: "descriptor \<Rightarrow> u16 \<Rightarrow> descriptor" where
  "desc_set_port d port = d\<lparr>d_opaque := blit 0 [ucast port, ucast (drop_bit 8 port)] (d_opaque d)\<rparr>"

definition desc_advert_ip :: "descriptor \<Rightarrow> ipv4 option" where
  "desc_advert_ip d =
     (let ip = (d_opaque d ! 2, d_opaque d ! 3, d_opaque d ! 4, d_opaque d ! 5)
      in if ip = (0, 0, 0, 0) \<or> fst ip = 127 then None else Some ip)"

definition rewrite_peer_ip :: "string \<Rightarrow> descriptor \<Rightarrow> string" where
  "rewrite_peer_ip raw desc =
     (if \<not> is_loopback_ip raw then raw
      else (case desc_advert_ip desc of Some ip \<Rightarrow> ip_string ip | None \<Rightarrow> raw))"

section \<open>Text form\<close>

definition read_cstr :: "bytes option \<Rightarrow> string" where
  "read_cstr p = (case p of None \<Rightarrow> [] | Some bs \<Rightarrow> utf8_lossy (of_bytes (take 4096 (takeWhile (\<lambda>b. b \<noteq> 0) bs))))"

fun hex_ip :: "ipv4 \<Rightarrow> string" where
  "hex_ip (a, b, c, d) = show_hex02 a @ show_hex02 b @ show_hex02 c @ show_hex02 d"

definition lan1_text :: "descriptor \<Rightarrow> ipv4 \<Rightarrow> string" where
  "lan1_text d lan_ip = ''LAN1.'' @ id_str d @ ''.'' @ hex_ip (unwrap_or (desc_advert_ip d) lan_ip)"

text \<open>The return code and the bytes written to the output buffer, terminator included.\<close>

definition serialize_desc :: "descriptor \<Rightarrow> ipv4 \<Rightarrow> bool \<Rightarrow> u32 \<times> bytes" where
  "serialize_desc d lan_ip out_null =
     (if out_null then (ERR, [])
      else
        (let bs = as_bytes (lan1_text d lan_ip)
         in if length bs \<ge> SERIALIZED_MAX then (ERR, []) else (SUCCESS, bs @ [0])))"

text \<open>The return code and the descriptor left behind the output pointer, if there is one.\<close>

definition deserialize_desc :: "bytes option \<Rightarrow> bool \<Rightarrow> u32 \<times> descriptor option" where
  "deserialize_desc s out_null =
     (if s = None \<or> out_null then (ERR, None)
      else
        (let raw = read_cstr s
         in if \<not> starts_with raw ''LAN1.'' then (ERR, Some zero_desc)
            else (case parse_lan1 raw of
                    (ident, ip) \<Rightarrow>
                      (SUCCESS, Some (case ip of
                                        Some a \<Rightarrow> desc_set_advert_ip (descriptor_new ident) a
                                      | None \<Rightarrow> descriptor_new ident)))))"

section \<open>Identifiers and options\<close>

text \<open>\<open>{:0wx}\<close> of a number below \<open>16 ^ w\<close>.\<close>

definition show_hex_pad :: "nat \<Rightarrow> nat \<Rightarrow> string" where
  "show_hex_pad w n = map (\<lambda>i. hex_digit (n div 16 ^ (w - 1 - i) mod 16)) [0..<w]"

text \<open>\<open>t\<close> is the clock in nanoseconds, \<open>n\<close> the process-wide counter.\<close>

definition uuid_ident :: "nat \<Rightarrow> u64 \<Rightarrow> string" where
  "uuid_ident t n =
     show_hex_pad 8 (t div 2 ^ 32 mod 2 ^ 32) @ ''-'' @ show_hex_pad 4 (t div 2 ^ 16 mod 2 ^ 16) @ ''-4'' @
     show_hex_pad 3 (t mod 2 ^ 12) @ ''-8'' @ show_hex_pad 3 (unat n mod 2 ^ 12) @ ''-'' @
     show_hex_pad 12 (unat (n * 0x9e37) mod 2 ^ 48)"

definition recv_opts_for :: "u32 \<Rightarrow> u32" where
  "recv_opts_for send_opts =
     (if PARTY_RELIABLE then send_opts AND (RECV_GUARANTEED OR RECV_SEQUENTIAL)
      else if send_opts AND SEND_SEQUENTIAL \<noteq> 0 then RECV_SEQUENTIAL
      else 0)"

definition wire_packet :: "string \<Rightarrow> bytes \<Rightarrow> u8 \<Rightarrow> u32 \<Rightarrow> u32 \<Rightarrow> u32 \<Rightarrow> bytes \<Rightarrow> bytes" where
  "wire_packet net_id local_ent kind options seq ack payload =
     packet net_id local_ent kind options seq ack payload PARTY_RELIABLE"

section \<open>Round trip of the text form\<close>

lemma hex_digit_graphic: "d < 16 \<Longrightarrow> graphic [hex_digit d] \<and> hex_digit d \<noteq> CHR ''.'' \<and> hex_digit d \<noteq> CHR ''+''"
proof -
  assume "d < 16"
  then have "33 \<le> ord_char (hex_digit d) \<and> ord_char (hex_digit d) < 127 \<and> ord_char (hex_digit d) \<noteq> 46 \<and> ord_char (hex_digit d) \<noteq> 43"
    by (auto simp: hex_digit_def)
  then show ?thesis by auto
qed

lemma parse_digits_hex02:
  "parse_digits hex_val 16 (show_hex02 b @ s) acc = parse_digits hex_val 16 s (acc * 256 + unat b)"
proof -
  have "unat b < 256" using unsigned_less [of b] by simp
  then show ?thesis by (simp add: show_hex02_def less_mult_imp_div_less algebra_simps)
qed

lemma octet_of:
  assumes "n < 2 ^ 32" and "n div 2 ^ k mod 256 = unat (b :: u8)"
  shows "ucast (drop_bit k (of_nat n :: u32)) = b"
proof -
  have "unat (drop_bit k (of_nat n :: u32)) = n div 2 ^ k"
    using assms(1) by (subst unsigned_drop_bit_eq) (simp add: unsigned_of_nat take_bit_eq_mod drop_bit_eq_div)
  with assms(2) show ?thesis by (simp add: word_unat_eq_iff unsigned_ucast_eq take_bit_eq_mod)
qed

lemma octets_div:
  fixes a b c d :: nat
  assumes "a < 256" "b < 256" "c < 256" "d < 256"
  shows "(((a * 256 + b) * 256 + c) * 256 + d) div 2 ^ 24 mod 256 = a"
    "(((a * 256 + b) * 256 + c) * 256 + d) div 2 ^ 16 mod 256 = b"
    "(((a * 256 + b) * 256 + c) * 256 + d) div 2 ^ 8 mod 256 = c"
    "(((a * 256 + b) * 256 + c) * 256 + d) div 2 ^ 0 mod 256 = d"
proof -
  have step: "y < 256 \<Longrightarrow> (x * 256 + y) div (256 * k) = x div k" for x y k :: nat
    by (simp add: div_mult2_eq)
  have last: "y < 256 \<Longrightarrow> (x * 256 + y) div 256 = x" "y < 256 \<Longrightarrow> (x * 256 + y) mod 256 = y" for x y :: nat
    by simp_all
  have pow: "2 ^ 24 = 256 * (256 * (256 :: nat))" "2 ^ 16 = 256 * (256 :: nat)" "2 ^ 8 = (256 :: nat)" by simp_all
  show "(((a * 256 + b) * 256 + c) * 256 + d) div 2 ^ 24 mod 256 = a"
    unfolding pow step [OF assms(4)] step [OF assms(3)] last(1) [OF assms(2)] using assms(1) by simp
  show "(((a * 256 + b) * 256 + c) * 256 + d) div 2 ^ 16 mod 256 = b"
    unfolding pow step [OF assms(4)] last(1) [OF assms(3)] by (rule last(2) [OF assms(2)])
  show "(((a * 256 + b) * 256 + c) * 256 + d) div 2 ^ 8 mod 256 = c"
    unfolding pow last(1) [OF assms(4)] by (rule last(2) [OF assms(3)])
  show "(((a * 256 + b) * 256 + c) * 256 + d) div 2 ^ 0 mod 256 = d"
    unfolding power_0 div_by_1 by (rule last(2) [OF assms(4)])
qed

lemma parse_hex_ip: "map_option ipv4_of_u32 (parse_hex_u32 (hex_ip ip)) = Some ip"
proof -
  obtain a b c d where ip: "ip = (a, b, c, d)" by (metis prod_cases4)
  have bounds: "unat a < 256" "unat b < 256" "unat c < 256" "unat d < 256"
    using unsigned_less [of a] unsigned_less [of b] unsigned_less [of c] unsigned_less [of d] by simp_all
  let ?n = "((unat a * 256 + unat b) * 256 + unat c) * 256 + unat d"
  have lt: "?n < 2 ^ 32" using bounds by simp
  have "parse_digits hex_val 16 (hex_ip ip) 0 = Some ?n"
    using parse_digits_hex02 [of d "[]"] by (simp add: ip parse_digits_hex02)
  moreover have "hex_ip ip \<noteq> []" "hd (hex_ip ip) \<noteq> CHR ''+''"
    using hex_digit_graphic [of "unat a div 16"] bounds by (simp_all add: ip show_hex02_def less_mult_imp_div_less)
  ultimately have "parse_hex_u32 (hex_ip ip) = Some (of_nat ?n)"
    using lt by (cases "hex_ip ip") (auto simp: parse_hex_u32_def parse_unsigned_def)
  moreover have "ipv4_of_u32 (of_nat ?n) = ip"
    using octet_of [OF lt octets_div(1) [OF bounds]] octet_of [OF lt octets_div(2) [OF bounds]]
      octet_of [OF lt octets_div(3) [OF bounds]] octet_of [OF lt octets_div(4) [OF bounds]]
    by (simp only: ip ipv4_of_u32_def drop_bit_0 id_apply)
  ultimately show ?thesis by simp
qed


lemma no_nul_graphic: "graphic s \<Longrightarrow> 0 \<notin> set (as_bytes s)"
proof
  assume g: "graphic s" and "0 \<in> set (as_bytes s)"
  then obtain c where c: "c \<in> set s" "u8_of_char c = 0" by (auto simp: as_bytes_def)
  then have "c = char_of_u8 0" by (metis char_of_u8_of_char)
  then have "ord_char c = 0" by (simp add: char_of_u8_def)
  with g c(1) show False by (auto simp: graphic_def)
qed

lemma takeWhile_nul: "0 \<notin> set bs \<Longrightarrow> takeWhile (\<lambda>b. b \<noteq> 0) (bs @ 0 # cs) = bs"
  by (induction bs) auto

lemma identifier_new:
  assumes "length s \<le> 36"
  shows "d_identifier (descriptor_new s) = as_bytes s @ replicate (37 - length s) 0"
  using assms by (simp add: descriptor_new_def zero_desc_def IDENT_LEN_def blit_def Let_def)

lemma lossy_graphic: "graphic s \<Longrightarrow> utf8_lossy s = s"
  by (simp add: utf8_lossy_valid utf8_valid_ascii graphic_ascii)

lemma id_str_new:
  assumes "graphic s" and "length s \<le> 36"
  shows "id_str (descriptor_new s) = s"
proof -
  have "d_identifier (descriptor_new s) = as_bytes s @ 0 # replicate (36 - length s) 0"
    using assms(2) by (simp add: identifier_new Suc_diff_le flip: replicate_Suc)
  with assms(1) show ?thesis by (simp add: id_str_def Let_def takeWhile_nul no_nul_graphic lossy_graphic)
qed

lemma id_str_set [simp]: "id_str (desc_set_advert_ip d ip) = id_str d" "id_str (desc_set_port d port) = id_str d"
  by (simp_all add: id_str_def desc_set_advert_ip_def desc_set_port_def split: prod.split)

lemma graphic_hex_ip: "graphic (hex_ip ip) \<and> CHR ''.'' \<notin> set (hex_ip ip) \<and> length (hex_ip ip) = 8"
proof -
  obtain a b c d where "ip = (a, b, c, d)" by (metis prod_cases4)
  moreover have "graphic (show_hex02 x) \<and> CHR ''.'' \<notin> set (show_hex02 x) \<and> length (show_hex02 x) = 2" for x
  proof -
    have "unat x < 256" using unsigned_less [of x] by simp
    then show ?thesis using hex_digit_graphic [of "unat x div 16"] hex_digit_graphic [of "unat x mod 16"]
      by (auto simp: show_hex02_def less_mult_imp_div_less)
  qed
  ultimately show ?thesis by simp
qed

lemma advert_ip_set:
  assumes "length (d_opaque d) = OPAQUE_LEN"
  shows "desc_advert_ip (desc_set_advert_ip d ip) = (if ip = (0, 0, 0, 0) \<or> fst ip = 127 then None else Some ip)"
  using assms by (simp add: desc_advert_ip_def desc_set_advert_ip_def Let_def nth_blit OPAQUE_LEN_def numeral_eq_Suc split: prod.split)

lemma opaque_new [simp]: "length (d_opaque (descriptor_new s)) = OPAQUE_LEN"
  by (simp add: descriptor_new_def zero_desc_def Let_def)

lemma read_cstr_text: "graphic s \<Longrightarrow> length s \<le> 4096 \<Longrightarrow> read_cstr (Some (as_bytes s @ [0])) = s"
  by (simp add: read_cstr_def takeWhile_nul no_nul_graphic lossy_graphic)

lemma parse_lan1_text:
  assumes "graphic ident" "CHR ''.'' \<notin> set ident"
  shows "parse_lan1 (''LAN1.'' @ ident @ ''.'' @ hex_ip ip) = (ident, Some ip)"
  using assms graphic_hex_ip [of ip] parse_hex_ip [of ip]
  by (auto simp: parse_lan1_def strip_prefix_def starts_with_def split_char_append split_char_none Let_def)

theorem descriptor_text_roundtrip:
  assumes "graphic (id_str d)" and "CHR ''.'' \<notin> set (id_str d)" and "length (id_str d) \<le> 36"
    and ip: "ip = unwrap_or (desc_advert_ip d) lan_ip" and "serialize_desc d lan_ip False = (code, bs)"
  shows "code = SUCCESS \<and>
    (\<exists>d'. deserialize_desc (Some bs) False = (SUCCESS, Some d') \<and> id_str d' = id_str d \<and>
       desc_advert_ip d' = (if ip = (0, 0, 0, 0) \<or> fst ip = 127 then None else Some ip))"
proof -
  let ?t = "lan1_text d lan_ip"
  have t: "?t = ''LAN1.'' @ id_str d @ ''.'' @ hex_ip ip" by (simp add: lan1_text_def ip)
  then have g: "graphic ?t" and len: "length ?t \<le> 50" using assms(1,3) graphic_hex_ip [of ip] by simp_all
  have "bs = as_bytes ?t @ [0]" "code = SUCCESS" using assms(5) len
    by (auto simp: serialize_desc_def SERIALIZED_MAX_def Let_def)
  moreover have "deserialize_desc (Some (as_bytes ?t @ [0])) False =
      (SUCCESS, Some (desc_set_advert_ip (descriptor_new (id_str d)) ip))"
  proof -
    have "read_cstr (Some (as_bytes ?t @ [0])) = ?t" using g len by (simp add: read_cstr_text)
    moreover have "starts_with ?t ''LAN1.''" by (simp add: t starts_with_def)
    moreover have "parse_lan1 ?t = (id_str d, Some ip)" unfolding t by (rule parse_lan1_text [OF assms(1,2)])
    ultimately show ?thesis by (simp add: deserialize_desc_def)
  qed
  ultimately show ?thesis using assms by (simp add: id_str_new advert_ip_set)
qed


lemma show_hex_pad_graphic:
  "graphic (show_hex_pad w n) \<and> CHR ''.'' \<notin> set (show_hex_pad w n) \<and> length (show_hex_pad w n) = w"
proof -
  have "33 \<le> ord_char (hex_digit (k mod 16)) \<and> ord_char (hex_digit (k mod 16)) < 127 \<and> hex_digit (k mod 16) \<noteq> CHR ''.''" for k
    using hex_digit_graphic [of "k mod 16"] by simp
  then show ?thesis by (auto simp: show_hex_pad_def graphic_def) metis
qed

lemma uuid_ident_plain:
  "graphic (uuid_ident t n) \<and> CHR ''.'' \<notin> set (uuid_ident t n) \<and> length (uuid_ident t n) = 36"
  using show_hex_pad_graphic by (simp add: uuid_ident_def)

lemma set_port_opaque [simp]: "length (d_opaque d) = OPAQUE_LEN \<Longrightarrow> length (d_opaque (desc_set_port d port)) = OPAQUE_LEN"
  by (simp add: desc_set_port_def OPAQUE_LEN_def)

end
