(* ===== verification/Party_Queue.thy ===== *)
theory Party_Queue
  imports Party_Desc Json_Scan
begin

text \<open>
  \<open>party-shim/src/lib.rs\<close>: the three queues of the runtime. The state-change queue of the handle
  (\<open>queue_sc\<close>, the batch that \<open>PartyStartProcessingStateChanges\<close> builds, its reclaim in
  \<open>PartyFinishProcessingStateChanges\<close>, the delivery ledger), the outbox of the transport thread
  and the request queue of the broker thread. A pointer to a box of the shim is a natural
  number, 0 is null; a state change is a constructor per type with the fields the code writes at
  the offsets of its record.
\<close>

section \<open>State changes, ledger and handle\<close>

type_synonym ptr = nat
type_synonym instant = int

datatype state_change =
    CreateNewNetworkCompleted ptr descriptor ptr
  | ConnectToNetworkCompleted descriptor ptr
  | AuthenticateLocalUserCompleted ptr ptr
  | CreateEndpointCompleted ptr ptr ptr
  | EndpointCreated ptr ptr
  | LeaveNetworkCompleted ptr
  | EndpointMessageReceived ptr ptr ptr u32 bytes

fun sc_type :: "state_change \<Rightarrow> nat" where
  "sc_type (CreateNewNetworkCompleted user desc net) = 2"
| "sc_type (ConnectToNetworkCompleted desc net) = 3"
| "sc_type (AuthenticateLocalUserCompleted net user) = 4"
| "sc_type (CreateEndpointCompleted net user ep) = 10"
| "sc_type (EndpointCreated net ep) = 12"
| "sc_type (LeaveNetworkCompleted net) = 19"
| "sc_type (EndpointMessageReceived net sender local opts payload) = 21"

definition SC_PENDING_CAP :: nat where "SC_PENDING_CAP = 128"
definition TYPE12_HOLD_TIMEOUT_MS :: int where "TYPE12_HOLD_TIMEOUT_MS = 10000"
definition BATCH_CAP :: nat where "BATCH_CAP = 32"
definition DIAG_ONE_MSG_PER_BATCH :: bool where "DIAG_ONE_MSG_PER_BATCH = False"

record ledger =
  lg_queued :: "u64 list"
  lg_handed :: "u64 list"
  lg_reclaimed :: "u64 list"
  lg_batches :: u64
  lg_last_batch :: u64
  lg_last_reclaimed :: u64
  lg_deferred21 :: u64
  lg_cap_hits :: u64
  lg_dropped :: u64

definition ledger_default :: ledger where
  "ledger_default = \<lparr>lg_queued = replicate 32 0, lg_handed = replicate 32 0, lg_reclaimed = replicate 32 0,
     lg_batches = 0, lg_last_batch = 0, lg_last_reclaimed = 0, lg_deferred21 = 0, lg_cap_hits = 0, lg_dropped = 0\<rparr>"

definition bump :: "nat \<Rightarrow> u64 list \<Rightarrow> u64 list" where
  "bump ty row = (if ty < length row then row[ty := row ! ty + 1] else row)"

record handle =
  h_users :: "ptr list"
  h_networks :: "ptr list"
  h_pending :: "state_change list"
  h_in_flight :: "state_change list"
  h_ledger :: ledger
  h_batch_outstanding :: bool
  h_last_peer_poll :: instant

section \<open>Queueing\<close>

definition pending_cap_drop :: "handle \<Rightarrow> bool \<times> handle" where
  "pending_cap_drop h =
     (if length (h_pending h) < SC_PENDING_CAP then (False, h)
      else (True, h\<lparr>h_ledger := (h_ledger h)\<lparr>lg_dropped := lg_dropped (h_ledger h) + 1\<rparr>\<rparr>))"

definition queue_sc :: "state_change \<Rightarrow> handle \<Rightarrow> handle" where
  "queue_sc p h =
     (if sc_type p = 21 \<and> fst (pending_cap_drop h) then snd (pending_cap_drop h)
      else h\<lparr>h_ledger := (h_ledger h)\<lparr>lg_queued := bump (sc_type p) (lg_queued (h_ledger h))\<rparr>,
             h_pending := h_pending h @ [p]\<rparr>)"

section \<open>Batches\<close>

text \<open>
  The loop that fills \<open>in_flight\<close>. \<open>hold\<close> is \<open>type12_holding && !type12_timed_out\<close>; the third and
  fourth arguments are \<open>in_flight\<close> and \<open>deferred21\<close>.
\<close>

definition has12 :: "state_change list \<Rightarrow> bool" where
  "has12 fl \<longleftrightarrow> list_ex (\<lambda>q. sc_type q = 12) fl"

fun drain_batch ::
  "bool \<Rightarrow> state_change list \<Rightarrow> state_change list \<Rightarrow> state_change list \<Rightarrow> ledger \<Rightarrow>
   state_change list \<times> state_change list \<times> state_change list \<times> ledger" where
  "drain_batch hold [] fl df lg = ([], fl, df, lg)"
| "drain_batch hold (p # ps) fl df lg =
     (if length fl \<ge> BATCH_CAP then (p # ps, fl, df, lg\<lparr>lg_cap_hits := lg_cap_hits lg + 1\<rparr>)
      else if sc_type p = 21 \<and> (has12 fl \<or> hold) then drain_batch hold ps fl (df @ [p]) lg
      else
        (let lg' = lg\<lparr>lg_handed := bump (sc_type p) (lg_handed lg)\<rparr>;
             fl' = fl @ [p]
         in if sc_type p = 12 then (ps, fl', df, lg')
            else if sc_type p = 21 \<and> DIAG_ONE_MSG_PER_BATCH then (ps, fl', df, lg')
            else drain_batch hold ps fl' df lg'))"

definition build_batch :: "bool \<Rightarrow> handle \<Rightarrow> handle" where
  "build_batch hold h =
     (case drain_batch hold (h_pending h) [] [] (h_ledger h) of
        (rest, fl, df, lg) \<Rightarrow>
          h\<lparr>h_pending := df @ rest, h_in_flight := fl,
            h_ledger := lg\<lparr>lg_deferred21 := lg_deferred21 lg + of_nat (length df),
                           lg_batches := lg_batches lg + (if fl \<noteq> [] then 1 else 0),
                           lg_last_batch := of_nat (length fl)\<rparr>,
            h_batch_outstanding := (fl \<noteq> [])\<rparr>)"

definition start_batch :: "bool \<Rightarrow> handle \<Rightarrow> handle" where
  "start_batch hold h = (if \<not> h_batch_outstanding h then build_batch hold h else h)"

text \<open>The part of \<open>PartyFinishProcessingStateChanges\<close> that works on the handle.\<close>

definition finish_batch :: "state_change list \<Rightarrow> handle \<Rightarrow> handle" where
  "finish_batch returned h =
     h\<lparr>h_in_flight := [], h_batch_outstanding := False,
       h_ledger := (h_ledger h)\<lparr>lg_last_reclaimed := of_nat (length returned),
         lg_reclaimed := fold (\<lambda>p. bump (sc_type p)) returned (lg_reclaimed (h_ledger h))\<rparr>\<rparr>"

section \<open>Outbox\<close>

definition OUTBOX_BATCH :: nat where "OUTBOX_BATCH = 128"

record out_job =
  j_net :: ptr
  j_ep :: ptr
  j_kind :: u8
  j_target_count :: u32
  j_options :: u32
  j_payload :: bytes

definition enqueue_out :: "out_job \<Rightarrow> out_job list \<Rightarrow> out_job list" where
  "enqueue_out job q = q @ [job]"

fun pop_jobs :: "out_job list \<Rightarrow> out_job list \<Rightarrow> out_job list \<times> out_job list" where
  "pop_jobs jobs [] = (jobs, [])"
| "pop_jobs jobs (j # q) = (if length jobs < OUTBOX_BATCH then pop_jobs (jobs @ [j]) q else (jobs, j # q))"

fun split_jobs :: "ptr \<Rightarrow> out_job list \<Rightarrow> out_job list \<Rightarrow> out_job list \<Rightarrow> out_job list \<times> out_job list" where
  "split_jobs net jobs rest [] = (jobs, rest)"
| "split_jobs net jobs rest (j # q) =
     (if j_net j = net then split_jobs net (jobs @ [j]) rest q else split_jobs net jobs (rest @ [j]) q)"

section \<open>Broker requests\<close>

definition BROKER_QUEUE_CAP :: nat where "BROKER_QUEUE_CAP = 512"

datatype broker_task =
    Register string string u16 bool
  | Leave string string
  | PollPeers string u64 u64

record peer_entry =
  pe_entity :: string
  pe_ip :: string
  pe_udp_port :: u16

record peer_poll_result =
  pr_seq :: u64
  pr_members :: "peer_entry list"

text \<open>The first queued registration of the same network and entity takes the new port.\<close>

fun coalesce :: "string \<Rightarrow> string \<Rightarrow> u16 \<Rightarrow> bool \<Rightarrow> broker_task list \<Rightarrow> broker_task list option" where
  "coalesce nid ent port quiet [] = None"
| "coalesce nid ent port quiet (Register n e p qi # q) =
     (if n = nid \<and> e = ent then Some (Register n e port quiet # q)
      else map_option (\<lambda>q'. Register n e p qi # q') (coalesce nid ent port quiet q))"
| "coalesce nid ent port quiet (t # q) = map_option (\<lambda>q'. t # q') (coalesce nid ent port quiet q)"

fun drop_oldest_register :: "broker_task list \<Rightarrow> broker_task list" where
  "drop_oldest_register [] = []"
| "drop_oldest_register (Register n e p qi # q) = q"
| "drop_oldest_register (t # q) = t # drop_oldest_register q"

fun enqueue_broker :: "broker_task \<Rightarrow> broker_task list \<Rightarrow> broker_task list" where
  "enqueue_broker (Register nid ent port quiet) q =
     (case coalesce nid ent port quiet q of
        Some q' \<Rightarrow> q'
      | None \<Rightarrow>
          (if length q \<ge> BROKER_QUEUE_CAP then drop_oldest_register q else q) @ [Register nid ent port quiet])"
| "enqueue_broker t q = q @ [t]"

definition peer_of_obj :: "nat \<Rightarrow> string \<Rightarrow> peer_entry option scan" where
  "peer_of_obj d obj =
     (case json_str_field d obj ''entity_id'' of
        Overflow \<Rightarrow> Overflow
      | Bad \<Rightarrow> Ok None
      | Ok eid \<Rightarrow>
          (case json_str_field d obj ''ip'' of
             Overflow \<Rightarrow> Overflow
           | ip \<Rightarrow>
               (case json_str_field d obj ''udp_port'' of
                  Overflow \<Rightarrow> Overflow
                | port \<Rightarrow>
                    Ok (Some \<lparr>pe_entity = eid, pe_ip = (case ip of Ok a \<Rightarrow> a | _ \<Rightarrow> ''127.0.0.1''),
                              pe_udp_port = (case port of Ok t \<Rightarrow> unwrap_or (parse_u16 t) 0 | _ \<Rightarrow> 0)\<rparr>))))"

fun peers_of_objs :: "nat \<Rightarrow> string list \<Rightarrow> peer_entry list scan" where
  "peers_of_objs d [] = Ok []"
| "peers_of_objs d (obj # objs) =
     scan_bind (peer_of_obj d obj) (\<lambda>p.
       scan_bind (peers_of_objs d objs) (\<lambda>ps. Ok (case p of Some m \<Rightarrow> m # ps | None \<Rightarrow> ps)))"

definition peers_of_text :: "nat \<Rightarrow> string option \<Rightarrow> peer_entry list scan" where
  "peers_of_text d text =
     (case text of
        None \<Rightarrow> Ok []
      | Some t \<Rightarrow> scan_bind (json_arr_objects d t ''members'') (peers_of_objs d))"

text \<open>\<open>method\<close>, path and body of the request that \<open>broker_run\<close> issues.\<close>

fun broker_request :: "ipv4 \<Rightarrow> broker_task \<Rightarrow> string \<times> string \<times> string" where
  "broker_request lan_ip (Register nid ent port quiet) =
     (''POST'', ''/party/join'',
      [CHR 0x7B, dquote] @ ''network_id'' @ [dquote, CHR '':'', dquote] @ nid @ [dquote, CHR '','', dquote] @
      ''entity_id'' @ [dquote, CHR '':'', dquote] @ ent @ [dquote, CHR '','', dquote] @
      ''udp_port'' @ [dquote, CHR '':''] @ show_nat (unat port) @ [CHR '','', dquote] @
      ''ip'' @ [dquote, CHR '':'', dquote] @ ip_string lan_ip @ [dquote, CHR 0x7D])"
| "broker_request lan_ip (Leave nid ent) =
     (''POST'', ''/party/leave'',
      [CHR 0x7B, dquote] @ ''network_id'' @ [dquote, CHR '':'', dquote] @ nid @ [dquote, CHR '','', dquote] @
      ''entity_id'' @ [dquote, CHR '':'', dquote] @ ent @ [dquote, CHR 0x7D])"
| "broker_request lan_ip (PollPeers nid epoch seq) = (''GET'', ''/party/peers?network_id='' @ nid, [])"

definition take_peer_result ::
  "u64 \<Rightarrow> (u64, peer_poll_result) hmap \<Rightarrow> peer_poll_result option \<times> (u64, peer_poll_result) hmap" where
  "take_peer_result epoch g = (hm_get g epoch, hm_remove g epoch)"

definition drop_stale_peer_results ::
  "u64 list \<Rightarrow> (u64, peer_poll_result) hmap \<Rightarrow> (u64, peer_poll_result) hmap" where
  "drop_stale_peer_results live g = filter (\<lambda>(epoch, _). epoch \<in> set live) g"

section \<open>What a batch takes from the queue\<close>

abbreviation is_msg :: "state_change \<Rightarrow> bool" where
  "is_msg p \<equiv> sc_type p = 21"

abbreviation is_ctl :: "state_change \<Rightarrow> bool" where
  "is_ctl p \<equiv> sc_type p \<noteq> 21"

definition count_type :: "nat \<Rightarrow> state_change list \<Rightarrow> nat" where
  "count_type ty ps = length (filter (\<lambda>p. sc_type p = ty) ps)"

lemma count_type_simps [simp]:
  "count_type ty [] = 0" "count_type ty (xs @ ys) = count_type ty xs + count_type ty ys"
  "count_type ty (p # ps) = (if sc_type p = ty then 1 else 0) + count_type ty ps"
  by (simp_all add: count_type_def)

lemma has12_append [simp]: "has12 (fl @ [p]) \<longleftrightarrow> has12 fl \<or> sc_type p = 12"
  by (auto simp: has12_def)

lemma drain_batch_spec:
  assumes "drain_batch hold ps fl df lg = (rest, fl', df', lg')" and "\<not> has12 fl"
  shows "\<exists>B D. fl' = fl @ B \<and> df' = df @ D \<and>
    filter is_msg B @ D @ filter is_msg rest = filter is_msg ps \<and>
    filter is_ctl B @ filter is_ctl rest = filter is_ctl ps \<and>
    list_all is_msg D \<and> (hold \<longrightarrow> filter is_msg B = []) \<and> (\<not> hold \<longrightarrow> D = [] \<and> B @ rest = ps) \<and>
    (\<forall>p \<in> set (butlast B). sc_type p \<noteq> 12) \<and> (length fl \<le> BATCH_CAP \<longrightarrow> length fl' \<le> BATCH_CAP) \<and>
    lg_handed lg' = fold (\<lambda>p. bump (sc_type p)) B (lg_handed lg) \<and>
    lg_queued lg' = lg_queued lg \<and> lg_reclaimed lg' = lg_reclaimed lg"
  using assms
proof (induction hold ps fl df lg rule: drain_batch.induct)
  case (1 hold fl df lg)
  then show ?case by simp
next
  case (2 hold p ps fl df lg)
  let ?lg = "lg\<lparr>lg_handed := bump (sc_type p) (lg_handed lg)\<rparr>"
  consider (full) "BATCH_CAP \<le> length fl" | (held) "length fl < BATCH_CAP" "is_msg p" "hold"
    | (twelve) "length fl < BATCH_CAP" "sc_type p = 12"
    | (take) "length fl < BATCH_CAP" "is_msg p \<longrightarrow> \<not> hold" "sc_type p \<noteq> 12"
    by linarith
  then show ?case
  proof cases
    case full
    with 2(3) show ?thesis by auto
  next
    case held
    with 2 have "drain_batch hold ps fl (df @ [p]) lg = (rest, fl', df', lg')" by simp
    from 2(1) [OF _ _ this] 2 held obtain B D where
      "fl' = fl @ B \<and> df' = (df @ [p]) @ D \<and>
       filter is_msg B @ D @ filter is_msg rest = filter is_msg ps \<and>
       filter is_ctl B @ filter is_ctl rest = filter is_ctl ps \<and>
       list_all is_msg D \<and> filter is_msg B = [] \<and>
       (\<forall>p \<in> set (butlast B). sc_type p \<noteq> 12) \<and> (length fl \<le> BATCH_CAP \<longrightarrow> length fl' \<le> BATCH_CAP) \<and>
       lg_handed lg' = fold (\<lambda>p. bump (sc_type p)) B (lg_handed lg) \<and>
       lg_queued lg' = lg_queued lg \<and> lg_reclaimed lg' = lg_reclaimed lg" by auto
    with held show ?thesis by - (rule exI [of _ B], rule exI [of _ "p # D"], auto)
  next
    case twelve
    with 2(3,4) show ?thesis by - (rule exI [of _ "[p]"], rule exI [of _ "[]"], auto simp: BATCH_CAP_def)
  next
    case take
    with 2(3,4) have step: "drain_batch hold ps (fl @ [p]) df ?lg = (rest, fl', df', lg')"
      by (auto simp: DIAG_ONE_MSG_PER_BATCH_def Let_def split: if_splits)
    have guards: "\<not> BATCH_CAP \<le> length fl" "\<not> (is_msg p \<and> (has12 fl \<or> hold))" "sc_type p \<noteq> 12"
      "\<not> (is_msg p \<and> DIAG_ONE_MSG_PER_BATCH)" "\<not> has12 (fl @ [p])"
      using take 2(4) by (auto simp: DIAG_ONE_MSG_PER_BATCH_def)
    from 2(2) [OF guards(1,2) refl refl guards(3,4) step guards(5)] show ?thesis
    proof (elim exE conjE, goal_cases)
      case (1 B D)
      from take(2) have "is_msg p \<Longrightarrow> \<not> hold" by simp
      with 1 take(1,3) show ?case by - (rule exI [of _ "p # B"], rule exI [of _ D], auto)
    qed
  qed
qed

lemma build_batch_spec:
  fixes h hold
  defines "h' \<equiv> build_batch hold h"
  shows "filter is_msg (h_in_flight h') @ filter is_msg (h_pending h') = filter is_msg (h_pending h) \<and>
    filter is_ctl (h_in_flight h') @ filter is_ctl (h_pending h') = filter is_ctl (h_pending h) \<and>
    (hold \<longrightarrow> filter is_msg (h_in_flight h') = []) \<and> (\<not> hold \<longrightarrow> h_in_flight h' @ h_pending h' = h_pending h) \<and>
    (\<forall>p \<in> set (butlast (h_in_flight h')). sc_type p \<noteq> 12) \<and> length (h_in_flight h') \<le> BATCH_CAP \<and>
    lg_handed (h_ledger h') = fold (\<lambda>p. bump (sc_type p)) (h_in_flight h') (lg_handed (h_ledger h)) \<and>
    lg_queued (h_ledger h') = lg_queued (h_ledger h) \<and> lg_reclaimed (h_ledger h') = lg_reclaimed (h_ledger h)"
proof -
  obtain rest fl df lg where d: "drain_batch hold (h_pending h) [] [] (h_ledger h) = (rest, fl, df, lg)"
    by (metis prod_cases4)
  have "\<not> has12 []" by (simp add: has12_def)
  from drain_batch_spec [OF d this] show ?thesis
  proof (elim exE conjE, goal_cases)
    case (1 B D)
    then have "filter is_msg D = D" "filter is_ctl D = []" by (auto simp: list_all_iff filter_empty_conv)
    moreover have "h_pending h' = df @ rest" "h_in_flight h' = fl" "lg_handed (h_ledger h') = lg_handed lg"
      "lg_queued (h_ledger h') = lg_queued lg" "lg_reclaimed (h_ledger h') = lg_reclaimed lg"
      by (simp_all add: h'_def build_batch_def d)
    ultimately show ?case using 1 by auto
  qed
qed

lemma build_batch_other [simp]:
  "h_users (build_batch hold h) = h_users h" "h_networks (build_batch hold h) = h_networks h"
  "h_last_peer_poll (build_batch hold h) = h_last_peer_poll h"
  "h_batch_outstanding (build_batch hold h) = (h_in_flight (build_batch hold h) \<noteq> [])"
  by (simp_all add: build_batch_def split: prod.split)

lemma drain_batch_grows: "drain_batch hold ps fl df lg = (rest, fl', df', lg') \<Longrightarrow> fl \<noteq> [] \<Longrightarrow> fl' \<noteq> []"
  by (induction hold ps fl df lg rule: drain_batch.induct) (auto simp: Let_def split: if_splits)

lemma build_batch_nonempty:
  assumes "h_pending h \<noteq> []"
  shows "h_in_flight (build_batch False h) \<noteq> []"
proof -
  obtain p ps where p: "h_pending h = p # ps" using assms by (cases "h_pending h") auto
  obtain rest fl df lg where d: "drain_batch False (p # ps) [] [] (h_ledger h) = (rest, fl, df, lg)"
    by (metis prod_cases4)
  then have "fl \<noteq> []" using drain_batch_grows [of False ps "[p]"]
    by (auto simp: has12_def BATCH_CAP_def Let_def split: if_splits)
  then show ?thesis by (simp add: build_batch_def p d del: drain_batch.simps)
qed

section \<open>The stream of state changes\<close>

definition accepts :: "state_change \<Rightarrow> handle \<Rightarrow> bool" where
  "accepts p h \<longleftrightarrow> is_ctl p \<or> length (h_pending h) < SC_PENDING_CAP"

lemma queue_sc_accepts:
  "queue_sc p h = (if accepts p h
     then h\<lparr>h_ledger := (h_ledger h)\<lparr>lg_queued := bump (sc_type p) (lg_queued (h_ledger h))\<rparr>, h_pending := h_pending h @ [p]\<rparr>
     else h\<lparr>h_ledger := (h_ledger h)\<lparr>lg_dropped := lg_dropped (h_ledger h) + 1\<rparr>\<rparr>)"
  by (auto simp: queue_sc_def accepts_def pending_cap_drop_def)

text \<open>
  The runs of the state-change queue: the handle, the changes accepted into it so far and the
  changes handed to the title so far. \<open>Start\<close> before \<open>Finish\<close> hands out nothing new.
\<close>

inductive sc_run :: "handle \<Rightarrow> state_change list \<Rightarrow> state_change list \<Rightarrow> bool" where
  init: "h_pending h = [] \<Longrightarrow> h_in_flight h = [] \<Longrightarrow> \<not> h_batch_outstanding h \<Longrightarrow>
    h_ledger h = ledger_default \<Longrightarrow> sc_run h [] []"
| queue: "sc_run h qs hs \<Longrightarrow> sc_run (queue_sc p h) (qs @ (if accepts p h then [p] else [])) hs"
| start: "sc_run h qs hs \<Longrightarrow>
    sc_run (start_batch hold h) qs (hs @ (if h_batch_outstanding h then [] else h_in_flight (start_batch hold h)))"
| finish: "sc_run h qs hs \<Longrightarrow> sc_run (finish_batch returned h) qs hs"
| other: "sc_run h qs hs \<Longrightarrow> h_pending h' = h_pending h \<Longrightarrow> h_in_flight h' = h_in_flight h \<Longrightarrow>
    h_ledger h' = h_ledger h \<Longrightarrow> h_batch_outstanding h' = h_batch_outstanding h \<Longrightarrow> sc_run h' qs hs"

lemma bump_nth: "length row = 32 \<Longrightarrow> i < 32 \<Longrightarrow> bump ty row ! i = row ! i + (if ty = i then 1 else 0)"
  by (auto simp: bump_def)

lemma length_bump [simp]: "length (bump ty row) = length row"
  by (simp add: bump_def)

lemma length_fold_bump [simp]: "length (fold (\<lambda>p. bump (sc_type p)) ps row) = length row"
  by (induction ps arbitrary: row) simp_all

lemma fold_bump_nth:
  "length row = 32 \<Longrightarrow> i < 32 \<Longrightarrow> fold (\<lambda>p. bump (sc_type p)) ps row ! i = row ! i + of_nat (count_type i ps)"
  by (induction ps arbitrary: row) (simp_all add: bump_nth)

definition sc_inv :: "handle \<Rightarrow> state_change list \<Rightarrow> state_change list \<Rightarrow> bool" where
  "sc_inv h qs hs \<longleftrightarrow>
     filter is_msg qs = filter is_msg hs @ filter is_msg (h_pending h) \<and>
     filter is_ctl qs = filter is_ctl hs @ filter is_ctl (h_pending h) \<and>
     length (h_in_flight h) \<le> BATCH_CAP \<and> (\<forall>p \<in> set (butlast (h_in_flight h)). sc_type p \<noteq> 12) \<and>
     (h_batch_outstanding h \<longrightarrow> h_in_flight h \<noteq> []) \<and>
     count_type 21 (h_pending h) \<le> SC_PENDING_CAP \<and>
     length (lg_queued (h_ledger h)) = 32 \<and> length (lg_handed (h_ledger h)) = 32 \<and>
     (\<forall>ty < 32. lg_queued (h_ledger h) ! ty = of_nat (count_type ty qs) \<and>
                lg_handed (h_ledger h) ! ty = of_nat (count_type ty hs))"

lemma count_type_le: "count_type ty ps \<le> length ps"
  by (simp add: count_type_def)

lemma count_type_msg: "count_type 21 ps = length (filter is_msg ps)"
  by (simp add: count_type_def)

lemma sc_inv_queue: "sc_inv h qs hs \<Longrightarrow> sc_inv (queue_sc p h) (qs @ (if accepts p h then [p] else [])) hs"
  using count_type_le [of 21 "h_pending h"]
  by (auto simp: sc_inv_def queue_sc_accepts bump_nth accepts_def SC_PENDING_CAP_def)

lemma sc_inv_start:
  assumes "sc_inv h qs hs"
  shows "sc_inv (start_batch hold h) qs (hs @ (if h_batch_outstanding h then [] else h_in_flight (start_batch hold h)))"
proof (cases "h_batch_outstanding h")
  case True
  with assms show ?thesis by (simp add: start_batch_def)
next
  case False
  have "length (filter is_msg (h_pending (build_batch hold h))) \<le> length (filter is_msg (h_pending h))"
    using build_batch_spec [where h = h and hold = hold] by (metis le_add2 length_append)
  with assms False build_batch_spec [where h = h and hold = hold] show ?thesis
    by (auto simp: sc_inv_def start_batch_def count_type_msg fold_bump_nth)
qed

lemma sc_run_inv: "sc_run h qs hs \<Longrightarrow> sc_inv h qs hs"
proof (induction rule: sc_run.induct)
  case (init h)
  then show ?case by (simp add: sc_inv_def ledger_default_def)
next
  case (finish h qs hs returned)
  then show ?case by (simp add: sc_inv_def finish_batch_def)
next
  case (other h qs hs h')
  then show ?case by (simp add: sc_inv_def)
qed (simp_all only: sc_inv_queue sc_inv_start)

text \<open>
  C7: over any sequence of queueing, Start and Finish calls, the messages handed to the title
  followed by those pending are the messages accepted, in order and each once, and likewise
  for the control changes; a batch has at most 32 changes with a type-12 only last, at most
  128 messages are pending, and the ledger counts are exact.
\<close>

theorem sc_streams_in_order:
  assumes "sc_run h qs hs"
  shows "filter is_msg hs @ filter is_msg (h_pending h) = filter is_msg qs \<and>
    filter is_ctl hs @ filter is_ctl (h_pending h) = filter is_ctl qs \<and>
    length (h_in_flight h) \<le> 32 \<and> (\<forall>p \<in> set (butlast (h_in_flight h)). sc_type p \<noteq> 12) \<and>
    length (filter is_msg (h_pending h)) \<le> 128 \<and>
    (\<forall>ty < 32. lg_queued (h_ledger h) ! ty = of_nat (count_type ty qs) \<and>
               lg_handed (h_ledger h) ! ty = of_nat (count_type ty hs))"
  using sc_run_inv [OF assms]
  by (simp add: sc_inv_def BATCH_CAP_def SC_PENDING_CAP_def flip: count_type_msg)

abbreviation demo_handle :: handle where
  "demo_handle \<equiv> \<lparr>h_users = [], h_networks = [], h_pending = [], h_in_flight = [], h_ledger = ledger_default,
     h_batch_outstanding = False, h_last_peer_poll = 0\<rparr>"

theorem sc_streams_in_order_witness:
  "\<exists>h qs hs. sc_run h qs hs \<and> length (h_in_flight h) \<le> 32 \<and>
     hs = [EndpointCreated 1 2] \<and> filter is_msg hs @ filter is_msg (h_pending h) = [EndpointMessageReceived 1 2 3 0 [7]]"
proof -
  let ?q1 = "queue_sc (EndpointMessageReceived 1 2 3 0 [7]) demo_handle"
  let ?q2 = "queue_sc (EndpointCreated 1 2) ?q1"
  let ?h = "start_batch True ?q2"
  have acc: "accepts (EndpointMessageReceived 1 2 3 0 [7]) demo_handle" "accepts (EndpointCreated 1 2) ?q1"
    by (simp_all add: accepts_def SC_PENDING_CAP_def)
  have "sc_run demo_handle [] []" by (rule sc_run.init) simp_all
  from sc_run.queue [OF this, of "EndpointMessageReceived 1 2 3 0 [7]"] acc
  have "sc_run ?q1 [EndpointMessageReceived 1 2 3 0 [7]] []" by simp
  from sc_run.start [OF sc_run.queue [OF this, of "EndpointCreated 1 2"], of True] acc
  have run: "sc_run ?h [EndpointMessageReceived 1 2 3 0 [7], EndpointCreated 1 2] [EndpointCreated 1 2]"
    by (simp add: queue_sc_accepts start_batch_def build_batch_def has12_def BATCH_CAP_def Let_def)
  show ?thesis
    by (rule exI [of _ ?h], rule exI [of _ "[EndpointMessageReceived 1 2 3 0 [7], EndpointCreated 1 2]"],
        rule exI [of _ "[EndpointCreated 1 2]"]) (use run sc_streams_in_order [OF run] in simp)
qed

section \<open>The queue drains\<close>

text \<open>One round of the title's pump: \<open>Start\<close>, then \<open>Finish\<close> with the whole batch.\<close>

definition pump :: "handle \<Rightarrow> handle" where
  "pump h = finish_batch (h_in_flight (start_batch False h)) (start_batch False h)"

primrec pump_log :: "nat \<Rightarrow> handle \<Rightarrow> state_change list" where
  "pump_log 0 h = []"
| "pump_log (Suc n) h = h_in_flight (start_batch False h) @ pump_log n (pump h)"

lemma pump_sel [simp]:
  "\<not> h_batch_outstanding h \<Longrightarrow> h_pending (pump h) = h_pending (build_batch False h)"
  "h_batch_outstanding (pump h) = False"
  by (simp_all add: pump_def finish_batch_def start_batch_def)

lemma pump_shrinks:
  assumes "\<not> h_batch_outstanding h" and "length (h_pending h) \<le> Suc n"
  shows "length (h_pending (pump h)) \<le> n"
proof -
  let ?b = "build_batch False h"
  have len: "length (h_in_flight ?b) + length (h_pending ?b) = length (h_pending h)"
    using build_batch_spec [where h = h and hold = False] by (metis length_append)
  have "length (h_pending ?b) \<le> n"
  proof (cases "h_pending h = []")
    case True
    with len show ?thesis by simp
  next
    case False
    then have "0 < length (h_in_flight ?b)" using build_batch_nonempty by blast
    with len assms(2) show ?thesis by linarith
  qed
  with assms(1) show ?thesis by simp
qed

lemma pump_log_all:
  "\<not> h_batch_outstanding h \<Longrightarrow> length (h_pending h) \<le> n \<Longrightarrow>
   pump_log n h = h_pending h \<and> h_pending ((pump ^^ n) h) = []"
proof (induction n arbitrary: h)
  case (Suc n)
  then have "pump_log n (pump h) = h_pending (pump h)" "h_pending ((pump ^^ n) (pump h)) = []"
    using pump_shrinks by auto
  with build_batch_spec [where h = h and hold = False] Suc(2) show ?case
    by (simp add: start_batch_def funpow_swap1)
qed simp



section \<open>Outbox and broker queue\<close>

lemma pop_jobs_eq:
  "length jobs \<le> OUTBOX_BATCH \<Longrightarrow>
   pop_jobs jobs q = (jobs @ take (OUTBOX_BATCH - length jobs) q, drop (OUTBOX_BATCH - length jobs) q)"
proof (induction jobs q rule: pop_jobs.induct)
  case (2 jobs j q)
  show ?case
  proof (cases "length jobs < OUTBOX_BATCH")
    case True
    then have "OUTBOX_BATCH - length jobs = Suc (OUTBOX_BATCH - length (jobs @ [j]))" by simp
    with 2 True show ?thesis by simp
  qed (use 2 in simp)
qed simp

lemma split_jobs_eq:
  "split_jobs np jobs rest q = (jobs @ filter (\<lambda>j. j_net j = np) q, rest @ filter (\<lambda>j. j_net j \<noteq> np) q)"
  by (induction np jobs rest q rule: split_jobs.induct) auto

fun is_register :: "broker_task \<Rightarrow> bool" where
  "is_register (Register n e p qi) = True"
| "is_register t = False"

lemma coalesce_keeps:
  "coalesce nid ent port quiet q = Some q' \<Longrightarrow>
   filter (\<lambda>t. \<not> is_register t) q' = filter (\<lambda>t. \<not> is_register t) q \<and> length q' = length q"
  by (induction nid ent port quiet q arbitrary: q' rule: coalesce.induct) (auto split: if_splits)

lemma drop_oldest_register_keeps:
  "filter (\<lambda>t. \<not> is_register t) (drop_oldest_register q) = filter (\<lambda>t. \<not> is_register t) q"
  by (induction q rule: drop_oldest_register.induct) auto

text \<open>Leaves and polls are never dropped or reordered among themselves.\<close>

lemma enqueue_broker_keeps:
  "filter (\<lambda>t. \<not> is_register t) (enqueue_broker t q) =
   filter (\<lambda>t. \<not> is_register t) q @ (if is_register t then [] else [t])"
  by (cases t) (auto simp: drop_oldest_register_keeps dest: coalesce_keeps split: option.split)

fun registers :: "string \<Rightarrow> string \<Rightarrow> broker_task \<Rightarrow> bool" where
  "registers nid ent (Register n e p qi) = (n = nid \<and> e = ent)"
| "registers nid ent t = False"

text \<open>
  A registration that follows a queued leave is merged into a registration queued before the
  leave, so the leave is the last request the broker sees and the member stays unregistered
  until the next keep-alive.
\<close>

theorem rejoin_overtaken_by_leave:
  assumes "list_ex (registers nid ent) q"
  shows "last (enqueue_broker (Register nid ent port quiet) (enqueue_broker (Leave nid ent) q)) = Leave nid ent"
proof -
  have "\<exists>q'. coalesce nid ent port quiet (q @ [Leave nid ent]) = Some (q' @ [Leave nid ent])"
    using assms by (induction nid ent port quiet q rule: coalesce.induct) auto
  then show ?thesis by auto
qed

end
