(* ===== verification/Party_Runtime.thy ===== *)
theory Party_Runtime
  imports Party_Queue "HOL-Library.Monad_Syntax"
begin

text \<open>
  \<open>party-shim/src/lib.rs\<close>: the runtime around the reliable transport. The world holds the global
  handle, the boxes the shim allocates and never frees (users, networks, endpoints; address 0 is
  null), the queues shared with the transport and broker threads, and a trace of the datagrams
  and broker requests that have left the process. Each export and each cycle of a worker thread
  is one atomic step, as the global handle mutex makes it. \<open>None\<close> is the death of the process:
  a null network pointer dereferenced, or the JSON scanner out of stack. The diagnostic counters
  and log lines are left out.
\<close>

section \<open>Boxes and world\<close>

datatype sock_addr = V4 ipv4 u16 | V6 string u16

datatype recv_event = Datagram bytes sock_addr | Recv_failed

record endpoint =
  e_entity :: bytes
  e_uid :: u16
  e_network :: ptr
  e_ip :: string
  e_udp_port :: u16
  e_last_seq :: u32
  e_seq_seen :: bool
  e_tx :: sender
  e_rx :: receiver

text \<open>A bound socket is its receive buffer; a closed one is \<open>None\<close>.\<close>

record pnet =
  n_descriptor :: descriptor
  n_invitation :: bytes
  n_local_user :: ptr
  n_local_endpoint :: ptr
  n_remotes :: "(string, ptr) hmap"
  n_udp :: "recv_event list option"
  n_udp_port :: u16
  n_connect_completed :: bool
  n_last_register :: instant
  n_pending_rx :: "(string \<times> bytes \<times> u32 \<times> u32) list"
  n_pending_peers :: "(string \<times> string \<times> u16) list"
  n_type10_delivered :: bool
  n_type12_delivered :: bool
  n_type12_hold_start :: "instant option"
  n_type12_hold_timeout_logged :: bool
  n_poll_requested :: bool
  n_poll_epoch :: u64
  n_poll_inflight :: bool
  n_poll_sent_at :: instant
  n_poll_applied_seq :: u64

record world =
  w_live :: bool
  w_h :: handle
  w_users :: "ptr \<Rightarrow> bytes"
  w_nets :: "ptr \<Rightarrow> pnet"
  w_eps :: "ptr \<Rightarrow> endpoint"
  w_next :: ptr
  w_outbox :: "out_job list"
  w_transport_up :: bool
  w_broker_up :: bool
  w_broker_q :: "broker_task list"
  w_results :: "(u64, peer_poll_result) hmap"
  w_next_uid :: u16
  w_next_sc :: u64
  w_next_epoch :: u64
  w_next_poll_seq :: u64
  w_send_seq :: u32
  w_wire :: "(ptr \<times> bytes \<times> sock_addr) list"
  w_http :: "(string \<times> string \<times> string) list"

text \<open>
  What one step reads from outside: the monotonic clock in nanoseconds, the system clock, the
  address \<open>lan_ip\<close> finds, the port \<open>bind_udp\<close> gets, the walk over the title's member list, the
  broker's answer to a request, the stack left for the JSON scanner, and whether a bracketed
  host is an IPv6 literal.
\<close>

record host =
  hs_instant :: instant
  hs_now_ms :: u64
  hs_unix_nanos :: nat
  hs_lan_ip :: ipv4
  hs_bind :: "u16 option"
  hs_has_member :: "string \<Rightarrow> bool"
  hs_http :: "string \<Rightarrow> string \<Rightarrow> string \<Rightarrow> (u16 \<times> string) option"
  hs_stack :: nat
  hs_ipv6 :: "string \<Rightarrow> bool"

definition elapsed_ns :: "host \<Rightarrow> instant \<Rightarrow> int" where
  "elapsed_ns hs t = max 0 (hs_instant hs - t)"

definition PEER_POLL_TIMEOUT_MS :: int where "PEER_POLL_TIMEOUT_MS = 10000"
definition RECV_BATCH :: nat where "RECV_BATCH = 256"
definition TRANSPORT_POLL_MS :: u64 where "TRANSPORT_POLL_MS = 2"

definition upd_net :: "ptr \<Rightarrow> (pnet \<Rightarrow> pnet) \<Rightarrow> world \<Rightarrow> world" where
  "upd_net np f w = w\<lparr>w_nets := (w_nets w)(np := f (w_nets w np))\<rparr>"

definition upd_ep :: "ptr \<Rightarrow> (endpoint \<Rightarrow> endpoint) \<Rightarrow> world \<Rightarrow> world" where
  "upd_ep p f w = w\<lparr>w_eps := (w_eps w)(p := f (w_eps w p))\<rparr>"

definition upd_h :: "(handle \<Rightarrow> handle) \<Rightarrow> world \<Rightarrow> world" where
  "upd_h f w = w\<lparr>w_h := f (w_h w)\<rparr>"

definition cstring_or :: "string \<Rightarrow> string \<Rightarrow> bytes" where
  "cstring_or dflt s = (if CHR 0x00 \<in> set s then as_bytes dflt else as_bytes s)"

definition to_string_lossy :: "bytes \<Rightarrow> string" where
  "to_string_lossy b = utf8_lossy (of_bytes b)"

definition local_entity :: "world \<Rightarrow> pnet \<Rightarrow> string" where
  "local_entity w n = (if n_local_user n = 0 then [] else to_string_lossy (w_users w (n_local_user n)))"

definition remote_ptr :: "pnet \<Rightarrow> string \<Rightarrow> ptr" where
  "remote_ptr n ent = unwrap_or (hm_get (n_remotes n) ent) 0"

section \<open>Broker thread\<close>

definition broker_run :: "host \<Rightarrow> broker_task \<Rightarrow> world \<Rightarrow> world option" where
  "broker_run hs t w =
     (case broker_request (hs_lan_ip hs) t of
        (meth, path, body) \<Rightarrow>
          (let w1 = w\<lparr>w_http := w_http w @ [(meth, path, body)]\<rparr>
           in case t of
                PollPeers nid epoch seq \<Rightarrow>
                  (case peers_of_text (hs_stack hs) (map_option snd (hs_http hs meth path body)) of
                     Ok ms \<Rightarrow> Some (w1\<lparr>w_results := hm_insert (w_results w1) epoch \<lparr>pr_seq = seq, pr_members = ms\<rparr>\<rparr>)
                   | _ \<Rightarrow> None)
              | _ \<Rightarrow> Some w1))"

fun broker_run_all :: "host \<Rightarrow> broker_task list \<Rightarrow> world \<Rightarrow> world option" where
  "broker_run_all hs [] w = Some w"
| "broker_run_all hs (t # ts) w = do { w' \<leftarrow> broker_run hs t w; broker_run_all hs ts w' }"

definition dispatch_broker :: "host \<Rightarrow> broker_task \<Rightarrow> world \<Rightarrow> world option" where
  "dispatch_broker hs t w =
     (if \<not> w_broker_up w then broker_run_all hs (w_broker_q w @ [t]) (w\<lparr>w_broker_q := []\<rparr>)
      else Some (w\<lparr>w_broker_q := enqueue_broker t (w_broker_q w)\<rparr>))"

text \<open>One turn of \<open>broker_loop\<close>.\<close>

definition broker_turn :: "host \<Rightarrow> world \<Rightarrow> world option" where
  "broker_turn hs w = (case w_broker_q w of [] \<Rightarrow> Some w | t # q \<Rightarrow> broker_run hs t (w\<lparr>w_broker_q := q\<rparr>))"

definition register_member_impl :: "host \<Rightarrow> ptr \<Rightarrow> string \<Rightarrow> bool \<Rightarrow> world \<Rightarrow> world option" where
  "register_member_impl hs np ent quiet w =
     dispatch_broker hs (Register (id_str (n_descriptor (w_nets w np))) ent (n_udp_port (w_nets w np)) quiet) w"

section \<open>Sending\<close>

definition parse_dec_octet :: "string \<Rightarrow> u8 option" where
  "parse_dec_octet s =
     (if s = [] \<or> length s > 3 \<or> \<not> list_all is_ascii_digit s \<or> (length s > 1 \<and> hd s = CHR ''0'') then None
      else map_option of_nat (opt_filter (\<lambda>n. n < 256) (parse_digits digit_val 10 s 0)))"

definition parse_ipv4 :: "string \<Rightarrow> ipv4 option" where
  "parse_ipv4 s =
     (case map parse_dec_octet (split_char (CHR ''.'') s) of
        [Some a, Some b, Some c, Some d] \<Rightarrow> Some (a, b, c, d)
      | _ \<Rightarrow> None)"

definition ep_addr :: "host \<Rightarrow> endpoint \<Rightarrow> sock_addr option" where
  "ep_addr hs e =
     (if e_udp_port e = 0 then None
      else (case parse_ipv4 (e_ip e) of
              Some a \<Rightarrow> Some (V4 a (e_udp_port e))
            | None \<Rightarrow> if hs_ipv6 hs (e_ip e) then Some (V6 (e_ip e) (e_udp_port e)) else None))"

definition emit :: "ptr \<Rightarrow> bytes \<Rightarrow> sock_addr \<Rightarrow> world \<Rightarrow> world" where
  "emit np pkt addr w = w\<lparr>w_wire := w_wire w @ [(np, pkt, addr)]\<rparr>"

definition local_ent_bytes :: "world \<Rightarrow> pnet \<Rightarrow> bytes" where
  "local_ent_bytes w n = (if n_local_user n = 0 then [] else w_users w (n_local_user n))"

definition send_one :: "host \<Rightarrow> ptr \<Rightarrow> u8 \<Rightarrow> bytes \<Rightarrow> u32 \<Rightarrow> ptr \<Rightarrow> world \<Rightarrow> world" where
  "send_one hs np kind payload options ep w =
     (case ep_addr hs (w_eps w ep) of
        None \<Rightarrow> w
      | Some addr \<Rightarrow>
          (let n = w_nets w np; e = w_eps w ep;
               (out, tx) = (if kind = KIND_MSG then sender_send (e_tx e) payload options (hs_now_ms hs)
                            else (\<lparr>o_seq = 0, o_payload = payload, o_options = options, o_evicted = None\<rparr>, e_tx e));
               (ack, rx) = piggyback_ack (e_rx e);
               pkt = wire_packet (id_str (n_descriptor n)) (local_ent_bytes w n) kind options (o_seq out) ack (o_payload out)
           in emit np pkt addr (upd_ep ep (\<lambda>e. e\<lparr>e_tx := tx, e_rx := rx\<rparr>) w)))"

definition legacy_send_one :: "host \<Rightarrow> ptr \<Rightarrow> bytes \<Rightarrow> ptr \<Rightarrow> world \<Rightarrow> world" where
  "legacy_send_one hs np pkt ep w =
     (case ep_addr hs (w_eps w ep) of None \<Rightarrow> w | Some addr \<Rightarrow> emit np pkt addr w)"

definition send_udp_all :: "host \<Rightarrow> ptr \<Rightarrow> u8 \<Rightarrow> bytes \<Rightarrow> u32 \<Rightarrow> world \<Rightarrow> world" where
  "send_udp_all hs np kind payload options w =
     (let n = w_nets w np in
      case n_udp n of
        None \<Rightarrow> w
      | Some _ \<Rightarrow>
          if \<not> PARTY_RELIABLE then
            (let sq = options AND SEND_SEQUENTIAL \<noteq> 0;
                 seq = (if sq then w_send_seq w else 0);
                 w1 = (if sq then w\<lparr>w_send_seq := w_send_seq w + 1\<rparr> else w);
                 pkt = wire_packet (id_str (n_descriptor n)) (local_ent_bytes w n) kind options seq 0 payload
             in fold (legacy_send_one hs np pkt) (map snd (n_remotes n)) w1)
          else fold (send_one hs np kind payload options) (map snd (n_remotes n)) w)"

definition send_transport_msg :: "host \<Rightarrow> ptr \<Rightarrow> ptr \<Rightarrow> u32 \<Rightarrow> bytes \<Rightarrow> u32 \<Rightarrow> world \<Rightarrow> world" where
  "send_transport_msg hs np ep target_count payload options w =
     (if w_transport_up w then
        w\<lparr>w_outbox := enqueue_out \<lparr>j_net = np, j_ep = ep, j_kind = KIND_MSG, j_target_count = target_count,
            j_options = options, j_payload = payload\<rparr> (w_outbox w)\<rparr>
      else send_udp_all hs np KIND_MSG payload options w)"

definition send_transport_control :: "host \<Rightarrow> ptr \<Rightarrow> u8 \<Rightarrow> world \<Rightarrow> world" where
  "send_transport_control hs np kind w =
     (if w_transport_up w then
        w\<lparr>w_outbox := enqueue_out \<lparr>j_net = np, j_ep = 0, j_kind = kind, j_target_count = 0,
            j_options = 0, j_payload = []\<rparr> (w_outbox w)\<rparr>
      else send_udp_all hs np kind [] 0 w)"

definition process_out_job :: "host \<Rightarrow> out_job \<Rightarrow> world \<Rightarrow> world" where
  "process_out_job hs j w =
     (if j_net j = 0 then w else send_udp_all hs (j_net j) (j_kind j) (j_payload j) (j_options j) w)"

definition service_outbox :: "host \<Rightarrow> world \<Rightarrow> world" where
  "service_outbox hs w =
     (case pop_jobs [] (w_outbox w) of
        (jobs, rest) \<Rightarrow> fold (process_out_job hs) jobs (w\<lparr>w_outbox := rest\<rparr>))"

definition drain_outbox_for :: "host \<Rightarrow> ptr \<Rightarrow> world \<Rightarrow> world" where
  "drain_outbox_for hs np w =
     (case split_jobs np [] [] (w_outbox w) of
        (jobs, rest) \<Rightarrow> fold (process_out_job hs) jobs (w\<lparr>w_outbox := rest\<rparr>))"

section \<open>Remote endpoints\<close>

definition adopt_address :: "string \<Rightarrow> u16 \<Rightarrow> endpoint \<Rightarrow> endpoint" where
  "adopt_address ip port e =
     (if port \<noteq> 0 \<and> (e_ip e \<noteq> ip \<or> e_udp_port e \<noteq> port) then e\<lparr>e_ip := ip, e_udp_port := port\<rparr> else e)"

definition new_endpoint :: "bytes \<Rightarrow> u16 \<Rightarrow> ptr \<Rightarrow> string \<Rightarrow> u16 \<Rightarrow> endpoint" where
  "new_endpoint ent uid np ip port =
     \<lparr>e_entity = ent, e_uid = uid, e_network = np, e_ip = ip, e_udp_port = port, e_last_seq = 0,
      e_seq_seen = False, e_tx = sender_new, e_rx = receiver_new\<rparr>"

definition alloc_endpoint :: "bytes \<Rightarrow> ptr \<Rightarrow> string \<Rightarrow> u16 \<Rightarrow> world \<Rightarrow> ptr \<times> world" where
  "alloc_endpoint ent np ip port w =
     (w_next w, w\<lparr>w_eps := (w_eps w)(w_next w := new_endpoint ent (w_next_uid w) np ip port),
        w_next := w_next w + 1, w_next_uid := w_next_uid w + 1\<rparr>)"

definition add_remote :: "host \<Rightarrow> ptr \<Rightarrow> string \<Rightarrow> string \<Rightarrow> u16 \<Rightarrow> world \<Rightarrow> world" where
  "add_remote hs np eid ip port w =
     (case alloc_endpoint (cstring_or ''x'' eid) np ip port w of
        (ep, w1) \<Rightarrow>
          (let w2 = upd_net np (\<lambda>n. n\<lparr>n_remotes := hm_insert (n_remotes n) eid ep\<rparr>) w1;
               w3 = send_transport_control hs np KIND_HELLO w2
           in upd_h (queue_sc (EndpointCreated np ep)) w3))"

definition ensure_remote :: "host \<Rightarrow> ptr \<Rightarrow> string \<Rightarrow> string \<Rightarrow> u16 \<Rightarrow> world \<Rightarrow> bool \<times> world" where
  "ensure_remote hs np eid ip port w =
     (let n = w_nets w np in
      if np = 0 \<or> eid = [] then (False, w)
      else if \<not> n_connect_completed n then (False, w)
      else if eid = local_entity w n then (False, w)
      else if n_local_endpoint n = 0 \<or> \<not> n_type10_delivered n then (False, w)
      else (case hm_get (n_remotes n) eid of
              Some ep \<Rightarrow> (False, if ep = 0 then w else upd_ep ep (adopt_address ip port) w)
            | None \<Rightarrow>
                if \<not> hs_has_member hs eid then (False, w)
                else if length (n_remotes n) \<ge> 8 then (False, w)
                else (True, add_remote hs np eid ip port w)))"

definition poll_peers_request :: "host \<Rightarrow> ptr \<Rightarrow> world \<Rightarrow> world option" where
  "poll_peers_request hs np w =
     (if np = 0 \<or> \<not> n_connect_completed (w_nets w np) then Some w
      else do {
        w1 \<leftarrow> (if elapsed_ns hs (n_last_register (w_nets w np)) \<ge> 10 * 10 ^ 9 then
                (let w0 = upd_net np (\<lambda>n. n\<lparr>n_last_register := hs_instant hs\<rparr>) w;
                     ent = local_entity w0 (w_nets w0 np)
                 in if ent \<noteq> [] then register_member_impl hs np ent True w0 else Some w0)
              else Some w);
        (if n_poll_inflight (w_nets w1 np) \<and>
            elapsed_ns hs (n_poll_sent_at (w_nets w1 np)) < PEER_POLL_TIMEOUT_MS * 10 ^ 6 then Some w1
         else
           (let seq = w_next_poll_seq w1;
                w2 = (upd_net np (\<lambda>n. n\<lparr>n_poll_inflight := True, n_poll_sent_at := hs_instant hs\<rparr>) w1)
                       \<lparr>w_next_poll_seq := seq + 1\<rparr>
            in dispatch_broker hs (PollPeers (id_str (n_descriptor (w_nets w2 np))) (n_poll_epoch (w_nets w2 np)) seq) w2))
      })"

definition apply_member :: "host \<Rightarrow> ptr \<Rightarrow> peer_entry \<Rightarrow> world \<Rightarrow> world" where
  "apply_member hs np m w =
     snd (ensure_remote hs np (pe_entity m) (rewrite_peer_ip (pe_ip m) (n_descriptor (w_nets w np))) (pe_udp_port m) w)"

definition poll_peers_apply :: "host \<Rightarrow> ptr \<Rightarrow> world \<Rightarrow> world" where
  "poll_peers_apply hs np w =
     (if np = 0 \<or> \<not> n_connect_completed (w_nets w np) then w
      else (case take_peer_result (n_poll_epoch (w_nets w np)) (w_results w) of
              (None, _) \<Rightarrow> w
            | (Some res, rest) \<Rightarrow>
                (let w1 = upd_net np (\<lambda>n. n\<lparr>n_poll_inflight := False\<rparr>) (w\<lparr>w_results := rest\<rparr>)
                 in if pr_seq res \<le> n_poll_applied_seq (w_nets w1 np) then w1
                    else fold (apply_member hs np) (pr_members res)
                           (upd_net np (\<lambda>n. n\<lparr>n_poll_applied_seq := pr_seq res\<rparr>) w1))))"

section \<open>Receiving\<close>

definition deliver_type21 :: "ptr \<Rightarrow> ptr \<Rightarrow> bytes \<Rightarrow> u32 \<Rightarrow> world \<Rightarrow> world" where
  "deliver_type21 np ep payload recv_opts w =
     (case pending_cap_drop (w_h w) of
        (True, h) \<Rightarrow> w\<lparr>w_h := h\<rparr>
      | (False, _) \<Rightarrow>
          upd_h (queue_sc (EndpointMessageReceived np ep (n_local_endpoint (w_nets w np)) recv_opts payload)) w)"

definition deliver_reliable :: "host \<Rightarrow> ptr \<Rightarrow> ptr \<Rightarrow> u32 \<Rightarrow> u32 \<Rightarrow> bytes \<Rightarrow> world \<Rightarrow> bool \<times> world" where
  "deliver_reliable hs np ep seq send_opts payload w =
     (case on_message (e_rx (w_eps w ep)) seq send_opts payload (hs_now_ms hs) of
        (outcome, rx) \<Rightarrow>
          (let w1 = upd_ep ep (\<lambda>e. e\<lparr>e_rx := rx\<rparr>) w
           in case outcome of
                Delivered msgs \<Rightarrow>
                  (True, fold (\<lambda>m. deliver_type21 np ep (m_payload m) (recv_opts_for (m_options m))) msgs w1)
              | _ \<Rightarrow> (False, w1)))"

definition deliver_frame :: "host \<Rightarrow> ptr \<Rightarrow> ptr \<Rightarrow> u32 \<Rightarrow> u32 \<Rightarrow> bytes \<Rightarrow> world \<Rightarrow> world" where
  "deliver_frame hs np ep seq send_opts payload w =
     (if PARTY_RELIABLE then snd (deliver_reliable hs np ep seq send_opts payload w)
      else deliver_type21 np ep payload (recv_opts_for send_opts) w)"

text \<open>The replay loop; the result is what it leaves in the buffer.\<close>

fun flush_frames ::
  "host \<Rightarrow> ptr \<Rightarrow> (string \<times> bytes \<times> u32 \<times> u32) list \<Rightarrow> world \<Rightarrow> (string \<times> bytes \<times> u32 \<times> u32) list \<times> world" where
  "flush_frames hs np [] w = ([], w)"
| "flush_frames hs np ((ent, payload, send_opts, seq) # fs) w =
     (let n = w_nets w np in
      if n_local_endpoint n = 0 \<or> \<not> n_type12_delivered n \<or> remote_ptr n ent = 0
      then ((ent, payload, send_opts, seq) # fs, w)
      else flush_frames hs np fs (deliver_frame hs np (remote_ptr n ent) seq send_opts payload w))"

definition flush_pending_rx :: "host \<Rightarrow> ptr \<Rightarrow> world \<Rightarrow> world" where
  "flush_pending_rx hs np w =
     (if np = 0 then w
      else (case flush_frames hs np (n_pending_rx (w_nets w np)) w of
              (rest, w1) \<Rightarrow> upd_net np (\<lambda>n. n\<lparr>n_pending_rx := rest\<rparr>) w1))"

definition queue_pending_peer :: "ptr \<Rightarrow> string \<Rightarrow> string \<Rightarrow> u16 \<Rightarrow> world \<Rightarrow> world" where
  "queue_pending_peer np eid ip port w =
     (if np = 0 \<or> list_ex (\<lambda>(e, _, _). e = eid) (n_pending_peers (w_nets w np)) \<or>
         length (n_pending_peers (w_nets w np)) \<ge> 16 then w
      else upd_net np (\<lambda>n. n\<lparr>n_pending_peers := n_pending_peers n @ [(eid, ip, port)]\<rparr>) w)"

definition drain_pending_peers :: "host \<Rightarrow> ptr \<Rightarrow> world \<Rightarrow> world" where
  "drain_pending_peers hs np w =
     (if np = 0 then w
      else fold (\<lambda>(eid, ip, port) w. snd (ensure_remote hs np eid ip port w)) (n_pending_peers (w_nets w np))
             (upd_net np (\<lambda>n. n\<lparr>n_pending_peers := []\<rparr>) w))"

definition request_peer_poll :: "ptr \<Rightarrow> world \<Rightarrow> world" where
  "request_peer_poll np w = (if np \<noteq> 0 then upd_net np (\<lambda>n. n\<lparr>n_poll_requested := True\<rparr>) w else w)"

text \<open>Who sent the datagram: refresh the address of a known peer, hand a new one to the tick.\<close>

definition note_source :: "host \<Rightarrow> ptr \<Rightarrow> string \<Rightarrow> sock_addr \<Rightarrow> world \<Rightarrow> world" where
  "note_source hs np ent src w =
     (case src of
        V6 _ _ \<Rightarrow> w
      | V4 a port \<Rightarrow>
          if \<not> n_connect_completed (w_nets w np) then w
          else if hm_get (n_remotes (w_nets w np)) ent \<noteq> None then snd (ensure_remote hs np ent (ip_string a) port w)
          else queue_pending_peer np ent (ip_string a) port w)"

definition note_ack :: "ptr \<Rightarrow> string \<Rightarrow> u32 \<Rightarrow> world \<Rightarrow> world" where
  "note_ack np ent ack w =
     (let ep = remote_ptr (w_nets w np) ent
      in if PARTY_RELIABLE \<and> ack \<noteq> 0 \<and> ep \<noteq> 0
         then upd_ep ep (\<lambda>e. e\<lparr>e_tx := snd (sender_on_ack (e_tx e) ack)\<rparr>) w else w)"

definition buffer_rx :: "ptr \<Rightarrow> (string \<times> bytes \<times> u32 \<times> u32) \<Rightarrow> world \<Rightarrow> world" where
  "buffer_rx np fr w =
     upd_net np (\<lambda>n. n\<lparr>n_pending_rx :=
       (if length (n_pending_rx n) \<ge> 128 then tl (n_pending_rx n) else n_pending_rx n) @ [fr]\<rparr>) w"

definition legacy_older :: "u32 \<Rightarrow> endpoint \<Rightarrow> bool" where
  "legacy_older seq e \<longleftrightarrow> e_seq_seen e \<and> (seq = e_last_seq e \<or> seq - e_last_seq e > 0x80000000)"

definition recv_message :: "host \<Rightarrow> ptr \<Rightarrow> string \<Rightarrow> bytes \<Rightarrow> u32 \<Rightarrow> u32 \<Rightarrow> world \<Rightarrow> world" where
  "recv_message hs np ent payload send_opts seq w0 =
     (let ep = remote_ptr (w_nets w0 np) ent;
          w = (if ep = 0 then request_peer_poll np w0 else w0);
          enforce = (\<not> PARTY_RELIABLE \<and> ep \<noteq> 0 \<and> send_opts AND SEND_SEQUENTIAL \<noteq> 0)
      in if enforce \<and> legacy_older seq (w_eps w ep) then w
         else
           (let w1 = (if enforce then upd_ep ep (\<lambda>e. e\<lparr>e_last_seq := seq, e_seq_seen := True\<rparr>) w else w);
                n = w_nets w1 np
            in if ep = 0 \<or> n_local_endpoint n = 0 \<or> \<not> n_type12_delivered n
               then buffer_rx np (ent, payload, send_opts, seq) w1
               else if n_pending_rx n \<noteq> [] then
                 flush_pending_rx hs np
                   (upd_net np (\<lambda>n. n\<lparr>n_pending_rx := n_pending_rx n @ [(ent, payload, send_opts, seq)]\<rparr>) w1)
               else deliver_frame hs np ep seq send_opts payload w1))"

definition recv_datagram :: "host \<Rightarrow> ptr \<Rightarrow> bytes \<Rightarrow> sock_addr \<Rightarrow> world \<Rightarrow> world" where
  "recv_datagram hs np buf src w =
     (case parse buf PARTY_RELIABLE of
        Inl _ \<Rightarrow> w
      | Inr pk \<Rightarrow>
          (let ent = entity buf;
               w1 = note_source hs np ent src w;
               w2 = note_ack np ent (pk_ack pk) w1
           in if pk_kind pk = KIND_HELLO then request_peer_poll np w2
              else if pk_kind pk \<noteq> KIND_MSG then w2
              else recv_message hs np ent (take (pk_payload_len pk) (drop (header_len PARTY_RELIABLE) buf))
                     (pk_options pk) (pk_seq pk) w2))"

text \<open>The receive loop of one socket: the budget left, the datagrams left in the socket.\<close>

fun recv_loop :: "host \<Rightarrow> ptr \<Rightarrow> nat \<Rightarrow> recv_event list \<Rightarrow> world \<Rightarrow> nat \<times> recv_event list \<times> world" where
  "recv_loop hs np 0 evs w = (0, evs, w)"
| "recv_loop hs np (Suc budget) [] w = (Suc budget, [], w)"
| "recv_loop hs np (Suc budget) (Recv_failed # evs) w = (Suc budget, evs, w)"
| "recv_loop hs np (Suc budget) (Datagram buf src # evs) w =
     recv_loop hs np budget evs (recv_datagram hs np buf src w)"

definition recv_net :: "host \<Rightarrow> ptr \<Rightarrow> nat \<times> world \<Rightarrow> nat \<times> world" where
  "recv_net hs np st =
     (case st of
        (budget, w) \<Rightarrow>
          (let w1 = flush_pending_rx hs np w
           in case n_udp (w_nets w1 np) of
                None \<Rightarrow> (budget, w1)
              | Some evs \<Rightarrow>
                  (case recv_loop hs np budget evs w1 of
                     (budget', evs', w2) \<Rightarrow> (budget', upd_net np (\<lambda>n. n\<lparr>n_udp := Some evs'\<rparr>) w2))))"

definition recv_udp :: "host \<Rightarrow> world \<Rightarrow> world option" where
  "recv_udp hs w =
     (if 0 \<in> set (h_networks (w_h w)) then None
      else Some (snd (fold (recv_net hs) (h_networks (w_h w)) (RECV_BATCH, w))))"

section \<open>Timers\<close>

definition retransmit_one :: "ptr \<Rightarrow> ptr \<Rightarrow> sock_addr \<Rightarrow> retransmit \<Rightarrow> world \<Rightarrow> world" where
  "retransmit_one np ep addr r w =
     (if r_gave_up r then w
      else (case piggyback_ack (e_rx (w_eps w ep)) of
              (ack, rx) \<Rightarrow>
                emit np (wire_packet (id_str (n_descriptor (w_nets w np))) (local_ent_bytes w (w_nets w np))
                           KIND_MSG (r_options r) (r_seq r) ack (r_payload r)) addr
                  (upd_ep ep (\<lambda>e. e\<lparr>e_rx := rx\<rparr>) w)))"

definition service_endpoint :: "host \<Rightarrow> ptr \<Rightarrow> ptr \<Rightarrow> world \<Rightarrow> world" where
  "service_endpoint hs np ep w =
     (case ep_addr hs (w_eps w ep) of
        None \<Rightarrow> w
      | Some addr \<Rightarrow>
          (case sender_due (e_tx (w_eps w ep)) (hs_now_ms hs) of
             (rs, tx) \<Rightarrow>
               (let w1 = fold (retransmit_one np ep addr) rs (upd_ep ep (\<lambda>e. e\<lparr>e_tx := tx\<rparr>) w)
                in case forced_ack (e_rx (w_eps w1 ep)) (hs_now_ms hs) of
                     (None, rx) \<Rightarrow> upd_ep ep (\<lambda>e. e\<lparr>e_rx := rx\<rparr>) w1
                   | (Some ack, rx) \<Rightarrow>
                       emit np (wire_packet (id_str (n_descriptor (w_nets w1 np))) (local_ent_bytes w1 (w_nets w1 np))
                                  KIND_ACK 0 0 ack []) addr
                         (upd_ep ep (\<lambda>e. e\<lparr>e_rx := rx\<rparr>) w1))))"

definition service_net :: "host \<Rightarrow> ptr \<Rightarrow> world \<Rightarrow> world" where
  "service_net hs np w =
     (case n_udp (w_nets w np) of
        None \<Rightarrow> w
      | Some _ \<Rightarrow> fold (service_endpoint hs np) (map snd (n_remotes (w_nets w np))) w)"

definition reliable_service :: "host \<Rightarrow> world \<Rightarrow> world option" where
  "reliable_service hs w =
     (if \<not> PARTY_RELIABLE then Some w
      else if 0 \<in> set (h_networks (w_h w)) then None
      else Some (fold (service_net hs) (h_networks (w_h w)) w))"

definition endpoint_deadlines :: "endpoint \<Rightarrow> u64 list" where
  "endpoint_deadlines e = List.map_filter (\<lambda>d. d) [next_rto_ms (e_tx e), next_ack_due_ms (e_rx e)]"

definition transport_deadlines :: "world \<Rightarrow> u64 list" where
  "transport_deadlines w =
     concat (map (\<lambda>np. if np = 0 then [] else
       concat (map (\<lambda>(_, ep). if ep = 0 then [] else endpoint_deadlines (w_eps w ep)) (n_remotes (w_nets w np))))
       (h_networks (w_h w)))"

definition next_transport_wait_ms :: "world \<Rightarrow> u64 \<Rightarrow> u64" where
  "next_transport_wait_ms w now =
     (let until = (case transport_deadlines w of
                     [] \<Rightarrow> TRANSPORT_POLL_MS
                   | d # ds \<Rightarrow> saturating_sub (fold min ds d) now)
      in min (max until 1) TRANSPORT_POLL_MS)"

text \<open>One turn of \<open>transport_loop\<close>, with the time it then waits.\<close>

definition transport_cycle :: "host \<Rightarrow> world \<Rightarrow> (world \<times> u64) option" where
  "transport_cycle hs w =
     (if \<not> w_live w then Some (w, TRANSPORT_POLL_MS)
      else do {
        w1 \<leftarrow> recv_udp hs (service_outbox hs w);
        w2 \<leftarrow> reliable_service hs w1;
        Some (w2, next_transport_wait_ms w2 (hs_now_ms hs))
      })"

end
