(* ===== verification/Party_Exports.thy ===== *)
theory Party_Exports
  imports Party_Runtime
begin

text \<open>
  \<open>party-shim/src/lib.rs\<close>: the exported functions the title calls. Each takes the world and
  returns its code, what it writes through its output pointers and the new world; \<open>None\<close> is the
  death of the process. An output pointer is passed as whether it is null, an input string as
  its bytes or \<open>None\<close> for null.
\<close>

section \<open>Initialisation and users\<close>

definition handle_new :: "host \<Rightarrow> handle" where
  "handle_new hs = \<lparr>h_users = [], h_networks = [], h_pending = [], h_in_flight = [], h_ledger = ledger_default,
     h_batch_outstanding = False, h_last_peer_poll = hs_instant hs - 10 * 10 ^ 9\<rparr>"

definition PartyInitialize :: "host \<Rightarrow> bool \<Rightarrow> world \<Rightarrow> u32 \<times> world" where
  "PartyInitialize hs out_null w =
     (if out_null then (ERR, w) else (SUCCESS, w\<lparr>w_live := True, w_h := handle_new hs\<rparr>))"

definition with_handle :: "(world \<Rightarrow> world) \<Rightarrow> world \<Rightarrow> world" where
  "with_handle f w = (if w_live w then f w else w)"

definition PartyCreateLocalUser :: "bytes option \<Rightarrow> bool \<Rightarrow> world \<Rightarrow> (u32 \<times> ptr) \<times> world" where
  "PartyCreateLocalUser entity_id out_null w =
     (if out_null then ((ERR, 0), w)
      else
        (let p = w_next w;
             w1 = w\<lparr>w_users := (w_users w)(p := cstring_or ''user'' (read_cstr entity_id)), w_next := p + 1\<rparr>
         in ((SUCCESS, p), with_handle (upd_h (\<lambda>h. h\<lparr>h_users := h_users h @ [p]\<rparr>)) w1)))"

definition PartyLocalUserGetEntityId :: "ptr \<Rightarrow> bool \<Rightarrow> world \<Rightarrow> u32 \<times> bytes option" where
  "PartyLocalUserGetEntityId user out_null w =
     (if user = 0 \<or> out_null then (ERR, None) else (SUCCESS, Some (w_users w user)))"

definition PartyDestroyLocalUser :: "ptr \<Rightarrow> world \<Rightarrow> u32 \<times> world" where
  "PartyDestroyLocalUser user w =
     (SUCCESS, with_handle (upd_h (\<lambda>h. h\<lparr>h_users := filter (\<lambda>u. u \<noteq> user) (h_users h)\<rparr>)) w)"

section \<open>Networks\<close>

definition new_pnet :: "host \<Rightarrow> descriptor \<Rightarrow> ptr \<Rightarrow> u16 \<Rightarrow> u64 \<Rightarrow> pnet" where
  "new_pnet hs desc user port epoch =
     \<lparr>n_descriptor = desc, n_invitation = as_bytes ''lan-invite'', n_local_user = user, n_local_endpoint = 0,
      n_remotes = [], n_udp = Some [], n_udp_port = port, n_connect_completed = False,
      n_last_register = hs_instant hs, n_pending_rx = [], n_pending_peers = [], n_type10_delivered = False,
      n_type12_delivered = False, n_type12_hold_start = None, n_type12_hold_timeout_logged = False,
      n_poll_requested = False, n_poll_epoch = epoch, n_poll_inflight = False, n_poll_sent_at = hs_instant hs,
      n_poll_applied_seq = 0\<rparr>"

definition alloc_net :: "host \<Rightarrow> descriptor \<Rightarrow> ptr \<Rightarrow> u16 \<Rightarrow> world \<Rightarrow> ptr \<times> world" where
  "alloc_net hs desc user port w =
     (w_next w, w\<lparr>w_nets := (w_nets w)(w_next w := new_pnet hs desc user port (w_next_epoch w)),
        w_next := w_next w + 1, w_next_epoch := w_next_epoch w + 1\<rparr>)"

text \<open>The code, and the descriptor written to \<open>out_desc\<close>.\<close>

definition PartyCreateNewNetwork :: "host \<Rightarrow> ptr \<Rightarrow> bool \<Rightarrow> world \<Rightarrow> ((u32 \<times> descriptor option) \<times> world) option" where
  "PartyCreateNewNetwork hs user out_null w =
     (let ident = uuid_ident (hs_unix_nanos hs) (w_next_sc w);
          w0 = w\<lparr>w_next_sc := w_next_sc w + 1\<rparr>
      in case hs_bind hs of
           None \<Rightarrow> Some ((ERR, None), w0)
         | Some port \<Rightarrow>
             (let desc = desc_set_advert_ip (desc_set_port (descriptor_new ident) port) (hs_lan_ip hs)
              in case alloc_net hs desc user port w0 of
                   (np, w1) \<Rightarrow>
                     (let ent = local_entity w1 (w_nets w1 np)
                      in do {
                           w2 \<leftarrow> (if ent \<noteq> [] then register_member_impl hs np ent False w1 else Some w1);
                           Some ((SUCCESS, if out_null then None else Some desc),
                             with_handle (upd_h (\<lambda>h. queue_sc (CreateNewNetworkCompleted user desc np)
                               (h\<lparr>h_networks := h_networks h @ [np]\<rparr>))) w2)
                         })))"

definition emit_connect_completed :: "ptr \<Rightarrow> world \<Rightarrow> world" where
  "emit_connect_completed np w =
     (if np = 0 \<or> n_connect_completed (w_nets w np) then w
      else upd_h (queue_sc (ConnectToNetworkCompleted (n_descriptor (w_nets w np)) np))
             (upd_net np (\<lambda>n. n\<lparr>n_connect_completed := True\<rparr>) w))"

text \<open>The first network of the handle with this identifier; a null pointer on the way is fatal.\<close>

fun find_network :: "world \<Rightarrow> string \<Rightarrow> ptr list \<Rightarrow> ptr option option" where
  "find_network w ident [] = Some None"
| "find_network w ident (np # nps) =
     (if np = 0 then None
      else if id_str (n_descriptor (w_nets w np)) = ident then Some (Some np)
      else find_network w ident nps)"

definition connect_network :: "host \<Rightarrow> descriptor \<Rightarrow> world \<Rightarrow> (ptr \<times> world) option" where
  "connect_network hs desc w = do {
     found \<leftarrow> find_network w (id_str desc) (h_networks (w_h w));
     (case found of
        Some np \<Rightarrow> do {
          w1 \<leftarrow> poll_peers_request hs np (emit_connect_completed np w);
          Some (np, w1)
        }
      | None \<Rightarrow>
          (case hs_bind hs of
             None \<Rightarrow> Some (0, w)
           | Some port \<Rightarrow>
               (let user = (if h_users (w_h w) = [] then 0 else last (h_users (w_h w)))
                in case alloc_net hs desc user port w of
                     (np, w1) \<Rightarrow> do {
                       w2 \<leftarrow> (if user \<noteq> 0 then register_member_impl hs np (to_string_lossy (w_users w1 user)) False w1
                              else Some w1);
                       w3 \<leftarrow> poll_peers_request hs np
                              (emit_connect_completed np (upd_h (\<lambda>h. h\<lparr>h_networks := h_networks h @ [np]\<rparr>) w2));
                       Some (np, send_transport_control hs np KIND_HELLO w3)
                     })))
   }"

definition PartyConnectToNetwork :: "host \<Rightarrow> descriptor option \<Rightarrow> world \<Rightarrow> ((u32 \<times> ptr) \<times> world) option" where
  "PartyConnectToNetwork hs desc w =
     (case desc of
        None \<Rightarrow> Some ((ERR, 0), w)
      | Some d \<Rightarrow>
          if \<not> w_live w then Some ((ERR, 0), w)
          else do {
            (np, w1) \<leftarrow> connect_network hs d w;
            Some (if np = 0 then ((ERR, 0), w1) else ((SUCCESS, np), w1))
          })"

definition PartyNetworkAuthenticateLocalUser :: "ptr \<Rightarrow> ptr \<Rightarrow> world \<Rightarrow> u32 \<times> world" where
  "PartyNetworkAuthenticateLocalUser np user w =
     (SUCCESS,
      with_handle (upd_h (\<lambda>h. queue_sc (AuthenticateLocalUserCompleted np user)
        (if np \<in> set (h_networks h) then h else h\<lparr>h_networks := h_networks h @ [np]\<rparr>))) w)"

definition PartyNetworkGetNetworkDescriptor :: "ptr \<Rightarrow> bool \<Rightarrow> world \<Rightarrow> u32 \<times> descriptor option" where
  "PartyNetworkGetNetworkDescriptor np out_null w =
     (if np = 0 \<or> out_null then (ERR, None) else (SUCCESS, Some (n_descriptor (w_nets w np))))"

definition PartySerializeNetworkDescriptor :: "host \<Rightarrow> descriptor option \<Rightarrow> bool \<Rightarrow> u32 \<times> bytes" where
  "PartySerializeNetworkDescriptor hs desc out_null =
     (case desc of None \<Rightarrow> (ERR, []) | Some d \<Rightarrow> serialize_desc d (hs_lan_ip hs) out_null)"

definition PartyGetNetworks :: "world \<Rightarrow> (u32 \<times> ptr list) option" where
  "PartyGetNetworks w =
     (if w_live w then Some (min (of_nat (length (h_networks (w_h w)))) 8, h_networks (w_h w)) else None)"

section \<open>Endpoints\<close>

definition PartyNetworkCreateEndpoint :: "host \<Rightarrow> ptr \<Rightarrow> ptr \<Rightarrow> world \<Rightarrow> (u32 \<times> ptr) \<times> world" where
  "PartyNetworkCreateEndpoint hs np user w =
     (case alloc_endpoint (if user = 0 then as_bytes ''ep'' else w_users w user) np [] 0 w of
        (ep, w1) \<Rightarrow>
          ((SUCCESS, ep),
           with_handle (\<lambda>w.
             (let w2 = (if np \<noteq> 0 then upd_net np (\<lambda>n. n\<lparr>n_local_endpoint := ep, n_local_user := user\<rparr>) w else w);
                  w3 = upd_h (queue_sc (CreateEndpointCompleted np user ep)) w2
              in if np \<noteq> 0 then flush_pending_rx hs np w3 else w3)) w1))"

definition PartyEndpointGetEntityId :: "ptr \<Rightarrow> bool \<Rightarrow> world \<Rightarrow> u32 \<times> bytes option" where
  "PartyEndpointGetEntityId ep out_null w =
     (if ep = 0 \<or> out_null then (ERR, None) else (SUCCESS, Some (e_entity (w_eps w ep))))"

definition PartyEndpointGetUniqueIdentifier :: "ptr \<Rightarrow> bool \<Rightarrow> world \<Rightarrow> u32 \<times> u16 option" where
  "PartyEndpointGetUniqueIdentifier ep out_null w =
     (if ep = 0 \<or> out_null then (ERR, None) else (SUCCESS, Some (e_uid (w_eps w ep))))"

text \<open>
  \<open>buffers\<close> is the array of data buffers, \<open>None\<close> for a null pointer; a buffer without data
  pointer is \<open>None\<close>. Only the first is read.
\<close>

definition PartyEndpointSendMessage ::
  "host \<Rightarrow> ptr \<Rightarrow> u32 \<Rightarrow> u32 \<Rightarrow> u32 \<Rightarrow> bytes option list option \<Rightarrow> world \<Rightarrow> u32 \<times> world" where
  "PartyEndpointSendMessage hs ep target_count options buffer_count buffers w =
     (case buffers of
        None \<Rightarrow> (ERR, w)
      | Some bs \<Rightarrow>
          if ep = 0 \<or> buffer_count = 0 \<or> buffer_count > 8 then (ERR, w)
          else if target_count > 8 then (ERR, w)
          else (case hd bs of
                  None \<Rightarrow> (ERR, w)
                | Some payload \<Rightarrow>
                    if payload = [] \<or> length payload > 64 * 1024 then (ERR, w)
                    else if e_network (w_eps w ep) = 0 then (ERR, w)
                    else (SUCCESS, send_transport_msg hs (e_network (w_eps w ep)) ep target_count payload options w)))"

section \<open>State changes\<close>

definition hold_condition :: "pnet \<Rightarrow> bool" where
  "hold_condition n \<longleftrightarrow> n_type10_delivered n \<and> \<not> n_type12_delivered n \<and> n_remotes n \<noteq> []"

definition held_ms :: "host \<Rightarrow> pnet \<Rightarrow> int" where
  "held_ms hs n = elapsed_ns hs (unwrap_or (n_type12_hold_start n) (hs_instant hs)) div 10 ^ 6"

definition hold_step :: "host \<Rightarrow> ptr \<Rightarrow> bool \<times> bool \<times> int \<times> world \<Rightarrow> bool \<times> bool \<times> int \<times> world" where
  "hold_step hs np st =
     (case st of
        (holding, timed_out, oldest, w) \<Rightarrow>
          (let n = w_nets w np in
           if np = 0 then st
           else if \<not> hold_condition n then
             (holding, timed_out, oldest,
              upd_net np (\<lambda>n. n\<lparr>n_type12_hold_start := None, n_type12_hold_timeout_logged := False\<rparr>) w)
           else
             (let held = held_ms hs n;
                  w1 = upd_net np (\<lambda>n. n\<lparr>n_type12_hold_start :=
                         Some (unwrap_or (n_type12_hold_start n) (hs_instant hs))\<rparr>) w
              in if held \<ge> TYPE12_HOLD_TIMEOUT_MS then
                   (holding, True, max oldest held, upd_net np (\<lambda>n. n\<lparr>n_type12_hold_timeout_logged := True\<rparr>) w1)
                 else (True, timed_out, max oldest held, w1))))"

definition note_type12_hold :: "host \<Rightarrow> world \<Rightarrow> bool \<times> bool \<times> int \<times> world" where
  "note_type12_hold hs w = fold (hold_step hs) (h_networks (w_h w)) (False, False, 0, w)"

fun force_announce :: "world \<Rightarrow> ptr list \<Rightarrow> bool option" where
  "force_announce w [] = Some False"
| "force_announce w (np # nps) =
     (if np = 0 then None
      else if (n_type10_delivered (w_nets w np) \<and> n_remotes (w_nets w np) = [] \<and> n_local_endpoint (w_nets w np) \<noteq> 0)
              \<or> n_poll_requested (w_nets w np) then Some True
      else force_announce w nps)"

fun request_polls :: "host \<Rightarrow> ptr list \<Rightarrow> world \<Rightarrow> world option" where
  "request_polls hs [] w = Some w"
| "request_polls hs (np # nps) w = do {
     w1 \<leftarrow> poll_peers_request hs np (if np \<noteq> 0 then upd_net np (\<lambda>n. n\<lparr>n_poll_requested := False\<rparr>) w else w);
     request_polls hs nps w1
   }"

definition tick_polls :: "host \<Rightarrow> world \<Rightarrow> world option" where
  "tick_polls hs w = do {
     force \<leftarrow> force_announce w (h_networks (w_h w));
     (if force \<or> elapsed_ns hs (h_last_peer_poll (w_h w)) > 200 * 10 ^ 6
      then request_polls hs (h_networks (w_h w)) (upd_h (\<lambda>h. h\<lparr>h_last_peer_poll := hs_instant hs\<rparr>) w)
      else Some w)
   }"

definition tick_results :: "host \<Rightarrow> world \<Rightarrow> world" where
  "tick_results hs w =
     (if w_results w \<noteq> [] then
        (let nets = h_networks (w_h w);
             live = map (\<lambda>np. n_poll_epoch (w_nets w np)) (filter (\<lambda>np. np \<noteq> 0) nets);
             w1 = w\<lparr>w_results := drop_stale_peer_results live (w_results w)\<rparr>
         in fold (poll_peers_apply hs) nets w1)
      else w)"

definition tick_peers :: "host \<Rightarrow> world \<Rightarrow> world" where
  "tick_peers hs w =
     (if list_ex (\<lambda>np. np \<noteq> 0 \<and> n_pending_peers (w_nets w np) \<noteq> []) (h_networks (w_h w))
      then fold (drain_pending_peers hs) (h_networks (w_h w)) w else w)"

definition tick_batch :: "host \<Rightarrow> world \<Rightarrow> world" where
  "tick_batch hs w =
     (if h_batch_outstanding (w_h w) then w
      else (case note_type12_hold hs w of
              (holding, timed_out, _, w1) \<Rightarrow> upd_h (build_batch (holding \<and> \<not> timed_out)) w1))"

definition PartyStartProcessingStateChanges ::
  "host \<Rightarrow> bool \<Rightarrow> world \<Rightarrow> ((u32 \<times> state_change list option) \<times> world) option" where
  "PartyStartProcessingStateChanges hs out_null w =
     (if out_null then Some ((ERR, None), w)
      else if \<not> w_live w then Some ((SUCCESS, None), w)
      else do {
        w1 \<leftarrow> (if w_transport_up w then Some w
              else do { w1 \<leftarrow> recv_udp hs (service_outbox hs w); reliable_service hs w1 });
        w2 \<leftarrow> tick_polls hs w1;
        (let w3 = tick_batch hs (tick_peers hs (tick_results hs w2))
         in Some ((SUCCESS, Some (h_in_flight (w_h w3))), w3))
      })"

text \<open>The array the title returns, null entries as \<open>None\<close>; at most 64 entries are read.\<close>

definition returned_changes :: "u32 \<Rightarrow> state_change option list \<Rightarrow> state_change list" where
  "returned_changes count changes = List.map_filter (\<lambda>p. p) (take (min (unat count) 64) changes)"

fun mark_delivered :: "state_change \<Rightarrow> world \<Rightarrow> world" where
  "mark_delivered (CreateEndpointCompleted np user ep) w =
     (if np \<noteq> 0 then upd_net np (\<lambda>n. n\<lparr>n_type10_delivered := True\<rparr>) w else w)"
| "mark_delivered (EndpointCreated np ep) w =
     (if np \<noteq> 0 then upd_net np (\<lambda>n. n\<lparr>n_type12_delivered := True\<rparr>) w else w)"
| "mark_delivered p w = w"

definition PartyFinishProcessingStateChanges ::
  "u32 \<Rightarrow> state_change option list option \<Rightarrow> world \<Rightarrow> u32 \<times> world" where
  "PartyFinishProcessingStateChanges count changes w =
     (case changes of
        None \<Rightarrow> (SUCCESS, w)
      | Some cs \<Rightarrow>
          if count = 0 then (SUCCESS, w)
          else
            (let ps = returned_changes count cs
             in (SUCCESS, with_handle (\<lambda>w. upd_h (finish_batch ps) (fold mark_delivered ps w)) w)))"

section \<open>Leaving\<close>

definition reset_pairing :: "ptr \<Rightarrow> world \<Rightarrow> world" where
  "reset_pairing ep w =
     (if ep = 0 then w else upd_ep ep (\<lambda>e. e\<lparr>e_tx := snd (drop_all (e_tx e)), e_rx := receiver_new\<rparr>) w)"

definition close_network :: "ptr \<Rightarrow> world \<Rightarrow> world" where
  "close_network np w =
     (let w1 = upd_net np (\<lambda>n. n\<lparr>n_udp := None, n_connect_completed := False\<rparr>) w
      in fold reset_pairing (map snd (n_remotes (w_nets w1 np))) w1)"

definition shim_leave_network :: "host \<Rightarrow> ptr \<Rightarrow> world \<Rightarrow> world option" where
  "shim_leave_network hs np w = do {
     (let w1 = upd_h (queue_sc (LeaveNetworkCompleted np)) w
      in do {
        w2 \<leftarrow> (if np \<in> set (h_networks (w_h w1)) then
               (if np = 0 then None
                else
                  (let ent = local_entity w1 (w_nets w1 np)
                   in do {
                     w2 \<leftarrow> (if ent \<noteq> [] then dispatch_broker hs (Leave (id_str (n_descriptor (w_nets w1 np))) ent) w1
                            else Some w1);
                     Some (close_network np (drain_outbox_for hs np w2))
                   }))
             else Some w1);
        Some (upd_h (\<lambda>h. h\<lparr>h_networks := filter (\<lambda>n. n \<noteq> np) (h_networks h)\<rparr>) w2)
      })
   }"

definition PartyNetworkLeaveNetwork :: "host \<Rightarrow> ptr \<Rightarrow> world \<Rightarrow> (u32 \<times> world) option" where
  "PartyNetworkLeaveNetwork hs np w =
     (if w_live w then map_option (\<lambda>w'. (SUCCESS, w')) (shim_leave_network hs np w) else Some (SUCCESS, w))"

definition PartyCleanup :: "host \<Rightarrow> world \<Rightarrow> u32 \<times> world" where
  "PartyCleanup hs w =
     (SUCCESS,
      if w_live w then
        (let nets = filter (\<lambda>np. np \<noteq> 0) (h_networks (w_h w))
         in (fold close_network nets (fold (drain_outbox_for hs) nets w))\<lparr>w_live := False\<rparr>)
      else w)"

end
