(* ===== verification/Party_Inv.thy ===== *)
theory Party_Inv
  imports Party_Exports
begin

text \<open>
  Invariants of the Party runtime. The locale \<open>world_law\<close> states what a predicate on worlds has to
  satisfy at the primitive updates of the runtime; every export and every cycle of a worker
  thread then keeps it. It is interpreted for the bounds and the pointer structure of the boxes,
  and for the runs of the state-change queue.
\<close>

section \<open>Primitive updates\<close>

definition sc_same :: "handle \<Rightarrow> handle \<Rightarrow> bool" where
  "sc_same h h' \<longleftrightarrow> h_pending h' = h_pending h \<and> h_in_flight h' = h_in_flight h \<and>
     h_ledger h' = h_ledger h \<and> h_batch_outstanding h' = h_batch_outstanding h"

definition ep_step :: "endpoint \<Rightarrow> endpoint \<Rightarrow> bool" where
  "ep_step e e' \<longleftrightarrow> e_network e' = e_network e \<and> (sender_wf (e_tx e) \<longrightarrow> sender_wf (e_tx e')) \<and>
     (receiver_wf (e_rx e) \<longrightarrow> receiver_wf (e_rx e'))"

definition peers_ok :: "(string \<times> string \<times> u16) list \<Rightarrow> bool" where
  "peers_ok ps \<longleftrightarrow> length ps \<le> 16 \<and> distinct (map fst ps)"

definition net_step :: "pnet \<Rightarrow> pnet \<Rightarrow> bool" where
  "net_step n n' \<longleftrightarrow> n_remotes n' = n_remotes n \<and> (peers_ok (n_pending_peers n) \<longrightarrow> peers_ok (n_pending_peers n'))"

lemma piggyback_ack_wf [simp]: "piggyback_ack r = (ack, r') \<Longrightarrow> receiver_wf r \<Longrightarrow> receiver_wf r'"
  by (auto simp: piggyback_ack_def receiver_wf_def Let_def)

lemma forced_ack_wf [simp]: "forced_ack r now = (ack, r') \<Longrightarrow> receiver_wf r \<Longrightarrow> receiver_wf r'"
  by (auto simp: forced_ack_def receiver_wf_def Let_def split: option.splits if_splits)

lemma receiver_new_wf: "receiver_wf receiver_new"
  by (simp add: receiver_wf_def receiver_new_def OOO_CAP_def bt_wf_def)

lemma deliver_type21_eq:
  "deliver_type21 np ep payload opts w =
   upd_h (queue_sc (EndpointMessageReceived np ep (n_local_endpoint (w_nets w np)) opts payload)) w"
  by (auto simp: deliver_type21_def upd_h_def queue_sc_def pending_cap_drop_def)

locale world_law =
  fixes I :: "world \<Rightarrow> bool"
  assumes same: "I w \<Longrightarrow> w_h w' = w_h w \<Longrightarrow> w_nets w' = w_nets w \<Longrightarrow> w_eps w' = w_eps w \<Longrightarrow>
      w_next w' = w_next w \<Longrightarrow> I w'"
    and lists: "I w \<Longrightarrow> (\<And>h. sc_same h (f h)) \<Longrightarrow> I (upd_h f w)"
    and queue: "I w \<Longrightarrow> I (upd_h (queue_sc sc) w)"
    and batch: "I w \<Longrightarrow> \<not> h_batch_outstanding (w_h w) \<Longrightarrow> I (upd_h (build_batch hold) w)"
    and finish: "I w \<Longrightarrow> I (upd_h (finish_batch ps) w)"
    and init: "I w \<Longrightarrow> I (w\<lparr>w_h := handle_new hs\<rparr>)"
    and ep: "I w \<Longrightarrow> ep_step (w_eps w p) (g (w_eps w p)) \<Longrightarrow> I (upd_ep p g w)"
    and net: "I w \<Longrightarrow> net_step (w_nets w np) (k (w_nets w np)) \<Longrightarrow> I (upd_net np k w)"
    and new_ep: "I w \<Longrightarrow> I (snd (alloc_endpoint ent np ip port w))"
    and new_remote: "I w \<Longrightarrow> eid \<noteq> [] \<Longrightarrow> hm_get (n_remotes (w_nets w np)) eid = None \<Longrightarrow>
      length (n_remotes (w_nets w np)) < 8 \<Longrightarrow>
      I (upd_net np (\<lambda>n. n\<lparr>n_remotes := hm_insert (n_remotes n) eid (w_next w)\<rparr>) (snd (alloc_endpoint ent np ip port w)))"
    and new_net: "I w \<Longrightarrow> I (snd (alloc_net hs desc user port w))"
    and new_user: "I w \<Longrightarrow> I (w\<lparr>w_users := u, w_next := w_next w + 1\<rparr>)"
begin

lemma fold_keeps: "(\<And>x w. I w \<Longrightarrow> I (f x w)) \<Longrightarrow> I w \<Longrightarrow> I (fold f xs w)"
  by (induction xs arbitrary: w) simp_all

lemma emit_keeps: "I w \<Longrightarrow> I (emit np pkt addr w)"
  by (erule same) (simp_all add: emit_def)

lemma broker_run_keeps: "broker_run hs t w = Some w' \<Longrightarrow> I w \<Longrightarrow> I w'"
  by (erule same) (auto simp: broker_run_def Let_def split: prod.splits broker_task.splits scan.splits)

lemma broker_run_all_keeps: "broker_run_all hs ts w = Some w' \<Longrightarrow> I w \<Longrightarrow> I w'"
  by (induction ts arbitrary: w) (auto split: Option.bind_splits intro: broker_run_keeps)

lemma dispatch_broker_keeps: "dispatch_broker hs t w = Some w' \<Longrightarrow> I w \<Longrightarrow> I w'"
  by (auto simp: dispatch_broker_def split: if_splits elim!: broker_run_all_keeps elim: same)

lemma register_keeps: "register_member_impl hs np ent quiet w = Some w' \<Longrightarrow> I w \<Longrightarrow> I w'"
  unfolding register_member_impl_def by (rule dispatch_broker_keeps)

lemma send_one_keeps: "I w \<Longrightarrow> I (send_one hs np kind payload options ep w)"
  by (auto simp: send_one_def ep_step_def Let_def sender_send_wf split: option.splits prod.splits
      intro!: emit_keeps ep) (metis sender_send_wf snd_conv)

lemma send_udp_all_keeps: "I w \<Longrightarrow> I (send_udp_all hs np kind payload options w)"
  by (simp add: send_udp_all_def PARTY_RELIABLE_def fold_keeps send_one_keeps Let_def split: option.split)

lemma send_control_keeps: "I w \<Longrightarrow> I (send_transport_control hs np kind w)"
  by (auto simp: send_transport_control_def send_udp_all_keeps elim: same)

lemma send_msg_keeps: "I w \<Longrightarrow> I (send_transport_msg hs np ep tc payload options w)"
  by (auto simp: send_transport_msg_def send_udp_all_keeps elim: same)

lemma process_out_job_keeps: "I w \<Longrightarrow> I (process_out_job hs j w)"
  by (simp add: process_out_job_def send_udp_all_keeps)

lemma process_jobs_keeps: "I w \<Longrightarrow> I (fold (process_out_job hs) jobs (w\<lparr>w_outbox := rest\<rparr>))"
  by (rule fold_keeps) (auto simp: process_out_job_keeps elim: same)

lemma service_outbox_keeps: "I w \<Longrightarrow> I (service_outbox hs w)"
  by (simp add: service_outbox_def process_jobs_keeps split: prod.split)

lemma drain_outbox_for_keeps: "I w \<Longrightarrow> I (drain_outbox_for hs np w)"
  by (simp add: drain_outbox_for_def process_jobs_keeps split: prod.split)

lemma add_remote_keeps:
  "I w \<Longrightarrow> eid \<noteq> [] \<Longrightarrow> hm_get (n_remotes (w_nets w np)) eid = None \<Longrightarrow> length (n_remotes (w_nets w np)) < 8 \<Longrightarrow>
   I (add_remote hs np eid ip port w)"
  using new_remote [of w eid np "cstring_or ''x'' eid" ip port]
  by (auto simp: add_remote_def alloc_endpoint_def Let_def intro!: queue send_control_keeps)

lemma ensure_remote_keeps: "I w \<Longrightarrow> I (snd (ensure_remote hs np eid ip port w))"
  by (auto simp: ensure_remote_def Let_def adopt_address_def ep_step_def add_remote_keeps intro!: ep split: option.split)

lemma poll_peers_request_keeps: "poll_peers_request hs np w = Some w' \<Longrightarrow> I w \<Longrightarrow> I w'"
proof -
  assume run: "poll_peers_request hs np w = Some w'" and I: "I w"
  have reg: "I (upd_net np (\<lambda>n. n\<lparr>n_last_register := t\<rparr>) w)" for t
    using I by (rule net) (simp add: net_step_def)
  have last: "I w2" if "dispatch_broker hs t ((upd_net np (\<lambda>n. n\<lparr>n_poll_inflight := True, n_poll_sent_at := t0\<rparr>) w1)
      \<lparr>w_next_poll_seq := sq\<rparr>) = Some w2" "I w1" for t t0 w1 sq w2
    using that(1)
  proof (rule dispatch_broker_keeps)
    have "I (upd_net np (\<lambda>n. n\<lparr>n_poll_inflight := True, n_poll_sent_at := t0\<rparr>) w1)"
      using that(2) by (rule net) (simp add: net_step_def)
    then show "I ((upd_net np (\<lambda>n. n\<lparr>n_poll_inflight := True, n_poll_sent_at := t0\<rparr>) w1)\<lparr>w_next_poll_seq := sq\<rparr>)"
      by (rule same) simp_all
  qed
  from run I reg show ?thesis
    by (auto simp: poll_peers_request_def Let_def split: if_splits Option.bind_splits dest: register_keeps last)
qed

lemma poll_peers_apply_keeps: "I w \<Longrightarrow> I (poll_peers_apply hs np w)"
proof -
  assume "I w"
  then have "I (w\<lparr>w_results := r\<rparr>)" for r by (rule same) simp_all
  then have "I (upd_net np (\<lambda>n. n\<lparr>n_poll_inflight := False\<rparr>) (w\<lparr>w_results := r\<rparr>))" for r
    by (rule net) (simp add: net_step_def)
  moreover from this have "I (upd_net np (\<lambda>n. n\<lparr>n_poll_applied_seq := s\<rparr>)
      (upd_net np (\<lambda>n. n\<lparr>n_poll_inflight := False\<rparr>) (w\<lparr>w_results := r\<rparr>)))" for r s
    by (rule net) (simp add: net_step_def)
  ultimately show ?thesis using \<open>I w\<close>
    by (auto simp: poll_peers_apply_def take_peer_result_def apply_member_def Let_def ensure_remote_keeps
        intro!: fold_keeps split: option.split)
qed

lemma deliver_type21_keeps: "I w \<Longrightarrow> I (deliver_type21 np ep payload opts w)"
  by (simp add: deliver_type21_eq queue)

lemma deliver_frame_keeps: "I w \<Longrightarrow> I (deliver_frame hs np ep seq opts payload w)"
proof -
  assume "I w"
  obtain outcome rx where m: "on_message (e_rx (w_eps w ep)) seq opts payload (hs_now_ms hs) = (outcome, rx)"
    by fastforce
  have "I (upd_ep ep (\<lambda>e. e\<lparr>e_rx := rx\<rparr>) w)"
    using \<open>I w\<close> by (rule local.ep) (use on_message_wf [of "e_rx (w_eps w ep)" seq opts payload "hs_now_ms hs"] m in \<open>simp add: ep_step_def\<close>)
  then show ?thesis
    by (auto simp: deliver_frame_def deliver_reliable_def m PARTY_RELIABLE_def deliver_type21_keeps Let_def intro!: fold_keeps
        split: recv_outcome.split)
qed

lemma flush_frames_keeps: "I w \<Longrightarrow> I (snd (flush_frames hs np fs w))"
  by (induction hs np fs w rule: flush_frames.induct) (simp_all add: Let_def deliver_frame_keeps)

lemma flush_pending_rx_keeps: "I w \<Longrightarrow> I (flush_pending_rx hs np w)"
  using flush_frames_keeps [of w hs np "n_pending_rx (w_nets w np)"]
  by (auto simp: flush_pending_rx_def net_step_def intro!: net split: prod.split)

lemma queue_pending_peer_keeps: "I w \<Longrightarrow> I (queue_pending_peer np eid ip port w)"
  by (auto simp: queue_pending_peer_def net_step_def peers_ok_def list_ex_iff intro!: net) fastforce

lemma drain_pending_peers_keeps: "I w \<Longrightarrow> I (drain_pending_peers hs np w)"
  by (auto simp: drain_pending_peers_def net_step_def peers_ok_def ensure_remote_keeps intro!: fold_keeps net)

lemma request_peer_poll_keeps: "I w \<Longrightarrow> I (request_peer_poll np w)"
  by (auto simp: request_peer_poll_def net_step_def intro!: net)

lemma note_source_keeps: "I w \<Longrightarrow> I (note_source hs np ent src w)"
  by (simp add: note_source_def ensure_remote_keeps queue_pending_peer_keeps split: sock_addr.split)

lemma note_ack_keeps: "I w \<Longrightarrow> I (note_ack np ent ack w)"
  by (auto simp: note_ack_def ep_step_def Let_def sender_on_ack_wf intro!: ep)

lemma recv_message_keeps: "I w \<Longrightarrow> I (recv_message hs np ent payload opts seq w)"
  by (auto simp: recv_message_def PARTY_RELIABLE_def Let_def buffer_rx_def net_step_def request_peer_poll_keeps
      intro!: net deliver_frame_keeps flush_pending_rx_keeps)

lemma recv_datagram_keeps: "I w \<Longrightarrow> I (recv_datagram hs np buf src w)"
  by (simp add: recv_datagram_def Let_def recv_message_keeps request_peer_poll_keeps note_ack_keeps note_source_keeps
      split: sum.split)

lemma recv_loop_keeps: "I w \<Longrightarrow> I (snd (snd (recv_loop hs np budget evs w)))"
  by (induction hs np budget evs w rule: recv_loop.induct) (simp_all add: recv_datagram_keeps)

lemma recv_net_keeps: "I (snd st) \<Longrightarrow> I (snd (recv_net hs np st))"
proof (cases st)
  case (Pair budget w)
  assume "I (snd st)"
  with Pair have "I (flush_pending_rx hs np w)" by (simp add: flush_pending_rx_keeps)
  with recv_loop_keeps [OF this] show ?thesis
    by (auto simp: recv_net_def Pair Let_def net_step_def intro!: net split: option.split prod.split)
      (metis snd_conv)
qed

lemma recv_udp_keeps: "recv_udp hs w = Some w' \<Longrightarrow> I w \<Longrightarrow> I w'"
proof -
  have "I (snd st) \<Longrightarrow> I (snd (fold (recv_net hs) nps st))" for nps st
    by (induction nps arbitrary: st) (simp_all add: recv_net_keeps)
  then show "recv_udp hs w = Some w' \<Longrightarrow> I w \<Longrightarrow> I w'" by (auto simp: recv_udp_def split: if_splits)
qed

lemma retransmit_one_keeps: "I w \<Longrightarrow> I (retransmit_one np ep addr r w)"
  by (auto simp: retransmit_one_def ep_step_def intro!: emit_keeps local.ep split: prod.split)

lemma service_endpoint_keeps: "I w \<Longrightarrow> I (service_endpoint hs np ep w)"
proof (cases "ep_addr hs (w_eps w ep)")
  case (Some addr)
  assume "I w"
  obtain rs tx where d: "sender_due (e_tx (w_eps w ep)) (hs_now_ms hs) = (rs, tx)" by fastforce
  let ?w1 = "fold (retransmit_one np ep addr) rs (upd_ep ep (\<lambda>e. e\<lparr>e_tx := tx\<rparr>) w)"
  have "I (upd_ep ep (\<lambda>e. e\<lparr>e_tx := tx\<rparr>) w)"
    using \<open>I w\<close> by (rule local.ep) (use sender_due_wf [of "e_tx (w_eps w ep)" "hs_now_ms hs"] d in \<open>simp add: ep_step_def\<close>)
  then have w1: "I ?w1" by (rule fold_keeps [rotated]) (rule retransmit_one_keeps)
  then have "I (upd_ep ep (\<lambda>e. e\<lparr>e_rx := rx\<rparr>) ?w1)" if "forced_ack (e_rx (w_eps ?w1 ep)) (hs_now_ms hs) = (a, rx)" for a rx
    by (rule local.ep) (use that in \<open>auto simp: ep_step_def\<close>)
  with w1 show ?thesis by (auto simp: service_endpoint_def Some d Let_def intro!: emit_keeps split: prod.split option.split)
qed (simp add: service_endpoint_def)

lemma reliable_service_keeps: "reliable_service hs w = Some w' \<Longrightarrow> I w \<Longrightarrow> I w'"
  by (auto simp: reliable_service_def service_net_def service_endpoint_keeps intro!: fold_keeps split: if_splits option.split)

lemma transport_cycle_keeps: "transport_cycle hs w = Some (w', wait) \<Longrightarrow> I w \<Longrightarrow> I w'"
  by (auto simp: transport_cycle_def split: if_splits Option.bind_splits
      dest: recv_udp_keeps [OF _ service_outbox_keeps] reliable_service_keeps)

text \<open>Exports.\<close>

lemma initialize_keeps: "I w \<Longrightarrow> I (snd (PartyInitialize hs out_null w))"
proof -
  assume "I w"
  then have "I (w\<lparr>w_h := handle_new hs\<rparr>)" by (rule init)
  then have "I (w\<lparr>w_live := True, w_h := handle_new hs\<rparr>)" by (rule same) simp_all
  with \<open>I w\<close> show ?thesis by (simp add: PartyInitialize_def)
qed

lemma with_handle_keeps: "(I w \<Longrightarrow> I (f w)) \<Longrightarrow> I w \<Longrightarrow> I (with_handle f w)"
  by (simp add: with_handle_def)

lemma create_user_keeps: "I w \<Longrightarrow> I (snd (PartyCreateLocalUser ent out_null w))"
  by (auto simp: PartyCreateLocalUser_def Let_def sc_same_def intro!: with_handle_keeps lists)
    (simp_all only: Suc_eq_plus1 new_user)

lemma destroy_user_keeps: "I w \<Longrightarrow> I (snd (PartyDestroyLocalUser user w))"
  by (auto simp: PartyDestroyLocalUser_def sc_same_def intro!: with_handle_keeps lists)

lemma queue_push_keeps:
  assumes "I w" and "\<And>h. sc_same h (f h)"
  shows "I (upd_h (\<lambda>h. queue_sc sc (f h)) w)"
  using queue [OF lists [OF assms], of sc] by (simp add: upd_h_def)

lemma create_network_keeps:
  assumes "PartyCreateNewNetwork hs user out_null w = Some (r, w')" and "I w"
  shows "I w'"
proof -
  have w0: "I (w\<lparr>w_next_sc := s\<rparr>)" for s using assms(2) by (rule same) simp_all
  have alloc: "I w1" if "alloc_net hs desc user port (w\<lparr>w_next_sc := s\<rparr>) = (np, w1)" for desc port s np w1
    using new_net [OF w0] that by (metis snd_conv)
  from assms(1) show ?thesis
    by (auto simp: PartyCreateNewNetwork_def Let_def w0 sc_same_def split: option.splits prod.splits if_splits Option.bind_splits
        intro!: with_handle_keeps queue_push_keeps dest!: alloc register_keeps)
qed

lemma emit_connect_completed_keeps: "I w \<Longrightarrow> I (emit_connect_completed np w)"
  by (auto simp: emit_connect_completed_def net_step_def intro!: queue net)

lemma connect_network_keeps:
  assumes "connect_network hs desc w = Some (np, w')" and "I w"
  shows "I w'"
proof -
  have alloc: "I w1" if "alloc_net hs desc user port w = (np, w1)" for user port np w1
    using new_net [OF assms(2)] that by (metis snd_conv)
  have push: "I (emit_connect_completed np (upd_h (\<lambda>h. h\<lparr>h_networks := h_networks h @ [np]\<rparr>) w2))" if "I w2" for np w2
    using that by (auto simp: sc_same_def intro!: emit_connect_completed_keeps lists)
  from assms show ?thesis
    by (auto simp: connect_network_def Let_def split: option.splits prod.splits if_splits Option.bind_splits
        intro!: send_control_keeps dest!: alloc register_keeps
        dest: poll_peers_request_keeps [OF _ push] poll_peers_request_keeps [OF _ emit_connect_completed_keeps])
qed

lemma connect_keeps: "PartyConnectToNetwork hs desc w = Some (r, w') \<Longrightarrow> I w \<Longrightarrow> I w'"
  by (auto simp: PartyConnectToNetwork_def split: option.splits if_splits Option.bind_splits dest: connect_network_keeps)

lemma authenticate_keeps: "I w \<Longrightarrow> I (snd (PartyNetworkAuthenticateLocalUser np user w))"
  by (auto simp: PartyNetworkAuthenticateLocalUser_def sc_same_def intro!: with_handle_keeps queue_push_keeps)

lemma create_endpoint_keeps: "I w \<Longrightarrow> I (snd (PartyNetworkCreateEndpoint hs np user w))"
proof -
  assume "I w"
  let ?a = "alloc_endpoint (if user = 0 then as_bytes ''ep'' else w_users w user) np [] 0 w"
  have "I (snd ?a)" using \<open>I w\<close> by (rule new_ep)
  then show ?thesis
    by (cases ?a) (auto simp: PartyNetworkCreateEndpoint_def Let_def net_step_def
        intro!: with_handle_keeps flush_pending_rx_keeps queue net)
qed

lemma send_message_keeps: "I w \<Longrightarrow> I (snd (PartyEndpointSendMessage hs ep tc options bc bufs w))"
  by (auto simp: PartyEndpointSendMessage_def send_msg_keeps split: option.split)

lemma request_polls_keeps: "request_polls hs nps w = Some w' \<Longrightarrow> I w \<Longrightarrow> I w'"
proof (induction nps arbitrary: w)
  case (Cons np nps)
  have "I (if np \<noteq> 0 then upd_net np (\<lambda>n. n\<lparr>n_poll_requested := False\<rparr>) w else w)"
    using Cons(3) by (auto simp: net_step_def intro!: net)
  with Cons show ?case by (auto split: Option.bind_splits dest: poll_peers_request_keeps)
qed simp

lemma tick_polls_keeps: "tick_polls hs w = Some w' \<Longrightarrow> I w \<Longrightarrow> I w'"
  by (auto simp: tick_polls_def sc_same_def split: if_splits Option.bind_splits dest!: request_polls_keeps [OF _ lists])

lemma tick_results_keeps: "I w \<Longrightarrow> I (tick_results hs w)"
  by (auto simp: tick_results_def Let_def poll_peers_apply_keeps intro!: fold_keeps elim: same)

lemma tick_peers_keeps: "I w \<Longrightarrow> I (tick_peers hs w)"
  by (auto simp: tick_peers_def drain_pending_peers_keeps intro!: fold_keeps)

lemma hold_step_keeps: "I (snd (snd (snd st))) \<Longrightarrow> I (snd (snd (snd (hold_step hs np st))))"
  by (auto simp: hold_step_def Let_def net_step_def intro!: net split: prod.split)

lemma hold_step_handle: "w_h (snd (snd (snd (hold_step hs np st)))) = w_h (snd (snd (snd st)))"
  by (auto simp: hold_step_def Let_def upd_net_def split: prod.split)

lemma tick_batch_keeps: "I w \<Longrightarrow> I (tick_batch hs w)"
proof -
  assume "I w"
  have keep: "I (snd (snd (snd st))) \<Longrightarrow> I (snd (snd (snd (fold (hold_step hs) nps st))))" for nps st
    by (induction nps arbitrary: st) (simp_all add: hold_step_keeps)
  have hand: "w_h (snd (snd (snd (fold (hold_step hs) nps st)))) = w_h (snd (snd (snd st)))" for nps st
    by (induction nps arbitrary: st) (simp_all add: hold_step_handle)
  obtain b t m w1 where n: "note_type12_hold hs w = (b, t, m, w1)" by (metis prod_cases4)
  then have "I w1" "w_h w1 = w_h w"
    using \<open>I w\<close> keep [of "(False, False, 0, w)"] hand [of "h_networks (w_h w)" "(False, False, 0, w)"]
    by (simp_all add: note_type12_hold_def) (metis snd_conv)+
  with \<open>I w\<close> show ?thesis by (simp add: tick_batch_def n batch)
qed

lemma start_keeps: "PartyStartProcessingStateChanges hs out_null w = Some (r, w') \<Longrightarrow> I w \<Longrightarrow> I w'"
  by (auto simp: PartyStartProcessingStateChanges_def Let_def split: if_splits Option.bind_splits
      intro!: tick_batch_keeps tick_peers_keeps tick_results_keeps
      dest!: tick_polls_keeps recv_udp_keeps [OF _ service_outbox_keeps] reliable_service_keeps)

lemma mark_delivered_keeps: "I w \<Longrightarrow> I (mark_delivered p w)"
  by (cases p) (auto simp: net_step_def intro!: net)

lemma finish_keeps: "I w \<Longrightarrow> I (snd (PartyFinishProcessingStateChanges count changes w))"
  by (auto simp: PartyFinishProcessingStateChanges_def Let_def mark_delivered_keeps
      intro!: with_handle_keeps finish fold_keeps split: option.split)

lemma close_network_keeps: "I w \<Longrightarrow> I (close_network np w)"
  by (auto simp: close_network_def Let_def reset_pairing_def net_step_def ep_step_def drop_all_wf receiver_new_wf
      intro!: fold_keeps net ep)

lemma leave_keeps: "PartyNetworkLeaveNetwork hs np w = Some (r, w') \<Longrightarrow> I w \<Longrightarrow> I w'"
  by (auto simp: PartyNetworkLeaveNetwork_def shim_leave_network_def Let_def sc_same_def split: if_splits Option.bind_splits
      intro!: lists close_network_keeps drain_outbox_for_keeps queue dest!: dispatch_broker_keeps [OF _ queue])

lemma cleanup_keeps: "I w \<Longrightarrow> I (snd (PartyCleanup hs w))"
proof -
  assume "I w"
  then have "I (fold close_network nets (fold (drain_outbox_for hs) nets w))" for nets
    by (intro fold_keeps close_network_keeps drain_outbox_for_keeps)
  then have "I ((fold close_network nets (fold (drain_outbox_for hs) nets w))\<lparr>w_live := False\<rparr>)" for nets
    by (rule same) simp_all
  with \<open>I w\<close> show ?thesis by (simp add: PartyCleanup_def Let_def)
qed

end

section \<open>Runs of the runtime\<close>

text \<open>
  The steps of a process: the exports, a cycle of each worker thread, a datagram that reaches a
  bound socket, and the start or death of the worker threads.
\<close>

datatype party_op =
    Op_initialize bool
  | Op_create_user "bytes option" bool
  | Op_destroy_user ptr
  | Op_create_network ptr bool
  | Op_connect "descriptor option"
  | Op_authenticate ptr ptr
  | Op_create_endpoint ptr ptr
  | Op_send_message ptr u32 u32 u32 "bytes option list option"
  | Op_start bool
  | Op_finish u32 "state_change option list option"
  | Op_leave ptr
  | Op_cleanup
  | Op_transport
  | Op_broker
  | Op_arrive ptr recv_event
  | Op_threads bool bool

definition arrive :: "ptr \<Rightarrow> recv_event \<Rightarrow> world \<Rightarrow> world" where
  "arrive np ev w = upd_net np (\<lambda>n. n\<lparr>n_udp := map_option (\<lambda>evs. evs @ [ev]) (n_udp n)\<rparr>) w"

fun party_step :: "host \<Rightarrow> party_op \<Rightarrow> world \<Rightarrow> world option" where
  "party_step hs (Op_initialize out_null) w = Some (snd (PartyInitialize hs out_null w))"
| "party_step hs (Op_create_user ent out_null) w = Some (snd (PartyCreateLocalUser ent out_null w))"
| "party_step hs (Op_destroy_user user) w = Some (snd (PartyDestroyLocalUser user w))"
| "party_step hs (Op_create_network user out_null) w = map_option snd (PartyCreateNewNetwork hs user out_null w)"
| "party_step hs (Op_connect desc) w = map_option snd (PartyConnectToNetwork hs desc w)"
| "party_step hs (Op_authenticate np user) w = Some (snd (PartyNetworkAuthenticateLocalUser np user w))"
| "party_step hs (Op_create_endpoint np user) w = Some (snd (PartyNetworkCreateEndpoint hs np user w))"
| "party_step hs (Op_send_message ep tc options bc bufs) w = Some (snd (PartyEndpointSendMessage hs ep tc options bc bufs w))"
| "party_step hs (Op_start out_null) w = map_option snd (PartyStartProcessingStateChanges hs out_null w)"
| "party_step hs (Op_finish count changes) w = Some (snd (PartyFinishProcessingStateChanges count changes w))"
| "party_step hs (Op_leave np) w = map_option snd (PartyNetworkLeaveNetwork hs np w)"
| "party_step hs Op_cleanup w = Some (snd (PartyCleanup hs w))"
| "party_step hs Op_transport w = map_option fst (transport_cycle hs w)"
| "party_step hs Op_broker w = broker_turn hs w"
| "party_step hs (Op_arrive np ev) w = Some (arrive np ev w)"
| "party_step hs (Op_threads transport broker) w = Some (w\<lparr>w_transport_up := transport, w_broker_up := broker\<rparr>)"

inductive party_reach :: "world \<Rightarrow> world \<Rightarrow> bool" for w0 where
  start: "party_reach w0 w0"
| step: "party_reach w0 w \<Longrightarrow> party_step hs opn w = Some w' \<Longrightarrow> party_reach w0 w'"

context world_law begin

lemma broker_turn_keeps: "broker_turn hs w = Some w' \<Longrightarrow> I w \<Longrightarrow> I w'"
proof -
  assume "I w"
  then have "I (w\<lparr>w_broker_q := q\<rparr>)" for q by (rule same) simp_all
  with \<open>I w\<close> show "broker_turn hs w = Some w' \<Longrightarrow> I w'"
    by (auto simp: broker_turn_def split: list.splits dest: broker_run_keeps)
qed

lemma arrive_keeps: "I w \<Longrightarrow> I (arrive np ev w)"
  by (auto simp: arrive_def net_step_def intro!: net)

lemmas step_keeps = initialize_keeps create_user_keeps destroy_user_keeps authenticate_keeps create_endpoint_keeps
  send_message_keeps finish_keeps cleanup_keeps arrive_keeps

lemma party_step_keeps: "party_step hs opn w = Some w' \<Longrightarrow> I w \<Longrightarrow> I w'"
  by (cases opn)
    (auto simp: step_keeps dest: create_network_keeps connect_keeps start_keeps leave_keeps transport_cycle_keeps broker_turn_keeps
      elim: same)

lemma party_reach_keeps: "party_reach w0 w \<Longrightarrow> I w0 \<Longrightarrow> I w"
  by (induction rule: party_reach.induct) (auto dest: party_step_keeps)

end

section \<open>Boxes, bounds and pairings\<close>

definition box_ok :: "ptr \<Rightarrow> (ptr \<Rightarrow> ptr) \<Rightarrow> ptr \<Rightarrow> pnet \<Rightarrow> bool" where
  "box_ok nx owner np n \<longleftrightarrow>
     hm_wf (n_remotes n) \<and> length (n_remotes n) \<le> 8 \<and> distinct (map snd (n_remotes n)) \<and>
     (\<forall>(eid, p) \<in> set (n_remotes n). eid \<noteq> [] \<and> 0 < p \<and> p < nx \<and> owner p = np) \<and>
     peers_ok (n_pending_peers n)"

definition world_ok :: "world \<Rightarrow> bool" where
  "world_ok w \<longleftrightarrow> 0 < w_next w \<and>
     (\<forall>p. sender_wf (e_tx (w_eps w p)) \<and> receiver_wf (e_rx (w_eps w p))) \<and>
     (\<forall>np. box_ok (w_next w) (\<lambda>p. e_network (w_eps w p)) np (w_nets w np))"

lemma box_ok_mono:
  assumes "box_ok nx owner np n" and "nx \<le> nx'" and "\<And>p. p < nx \<Longrightarrow> owner' p = owner p"
  shows "box_ok nx' owner' np n"
  using assms by (fastforce simp: box_ok_def)

lemma box_ok_step: "box_ok nx owner np n \<Longrightarrow> net_step n n' \<Longrightarrow> box_ok nx owner np n'"
  by (auto simp: box_ok_def net_step_def)

lemma box_ok_insert:
  assumes "box_ok nx owner np n" and "eid \<noteq> []" and "hm_get (n_remotes n) eid = None" and "length (n_remotes n) < 8"
    and "0 < nx" and "owner' nx = np" and "\<And>p. p < nx \<Longrightarrow> owner' p = owner p"
  shows "box_ok (nx + 1) owner' np (n\<lparr>n_remotes := hm_insert (n_remotes n) eid nx\<rparr>)"
proof -
  have fresh: "hm_insert (n_remotes n) eid nx = n_remotes n @ [(eid, nx)]" and "eid \<notin> fst ` set (n_remotes n)"
    using assms(3) by (auto simp: hm_insert_new map_of_eq_None_iff)
  moreover have "nx \<notin> snd ` set (n_remotes n)" using assms(1) by (auto simp: box_ok_def)
  ultimately show ?thesis using assms by (fastforce simp: box_ok_def)
qed

lemma box_ok_new [simp]: "box_ok nx owner np (new_pnet hs desc user port epoch)"
  by (simp add: box_ok_def new_pnet_def peers_ok_def)

interpretation runtime: world_law world_ok
proof (unfold_locales, goal_cases)
  case (1 w w') then show ?case by (simp add: world_ok_def)
next
  case (2 w f) then show ?case by (simp add: world_ok_def upd_h_def)
next
  case (3 w sc) then show ?case by (simp add: world_ok_def upd_h_def)
next
  case (4 w hold) then show ?case by (simp add: world_ok_def upd_h_def)
next
  case (5 w ps) then show ?case by (simp add: world_ok_def upd_h_def)
next
  case (6 w hs) then show ?case by (simp add: world_ok_def)
next
  case (7 w p g)
  then have "(\<lambda>q. e_network ((if q = p then g (w_eps w p) else w_eps w q))) = (\<lambda>q. e_network (w_eps w q))"
    by (auto simp: ep_step_def)
  with 7 show ?case by (auto simp: world_ok_def upd_ep_def ep_step_def fun_upd_def)
next
  case (8 w np k) then show ?case by (auto simp: world_ok_def upd_net_def intro: box_ok_step)
next
  case (9 w ent np ip port)
  then show ?case
    by (auto simp: world_ok_def alloc_endpoint_def new_endpoint_def sender_new_wf receiver_new_wf intro: box_ok_mono)
next
  case (10 w eid np ent ip port)
  then show ?case
    by (auto simp: world_ok_def alloc_endpoint_def new_endpoint_def upd_net_def sender_new_wf receiver_new_wf
        simp flip: Suc_eq_plus1 intro: box_ok_mono intro!: box_ok_insert [where nx = "w_next w", simplified])
next
  case (11 w hs desc user port)
  then show ?case
    by (auto simp: world_ok_def alloc_net_def intro: box_ok_mono)
next
  case (12 w u) then show ?case by (auto simp: world_ok_def intro: box_ok_mono)
qed


interpretation stream: world_law "\<lambda>w. \<exists>qs hs. sc_run (w_h w) qs hs"
proof (unfold_locales, goal_cases)
  case (2 w f)
  then obtain qs hs where "sc_run (w_h w) qs hs" by blast
  from sc_run.other [OF this, of "f (w_h w)"] 2(2) [of "w_h w"] show ?case by (auto simp: upd_h_def sc_same_def)
next
  case (3 w sc)
  then show ?case by (auto simp: upd_h_def dest: sc_run.queue [where p = sc])
next
  case (4 w hold)
  then obtain qs hs where "sc_run (w_h w) qs hs" by blast
  from sc_run.start [OF this, of hold] 4(2) show ?case by (auto simp: upd_h_def start_batch_def)
next
  case (5 w ps)
  then show ?case by (auto simp: upd_h_def dest: sc_run.finish [where returned = ps])
next
  case (6 w hs)
  have "sc_run (handle_new hs) [] []" by (rule sc_run.init) (simp_all add: handle_new_def)
  then show ?case by auto
qed (simp_all add: upd_ep_def upd_net_def alloc_endpoint_def alloc_net_def)

text \<open>The process before its first call: no handle, empty queues, blank boxes.\<close>

definition world_init :: world where
  "world_init = \<lparr>w_live = False, w_h = \<lparr>h_users = [], h_networks = [], h_pending = [], h_in_flight = [],
       h_ledger = ledger_default, h_batch_outstanding = False, h_last_peer_poll = 0\<rparr>,
     w_users = (\<lambda>_. []),
     w_nets = (\<lambda>_. \<lparr>n_descriptor = zero_desc, n_invitation = [], n_local_user = 0, n_local_endpoint = 0, n_remotes = [],
       n_udp = None, n_udp_port = 0, n_connect_completed = False, n_last_register = 0, n_pending_rx = [],
       n_pending_peers = [], n_type10_delivered = False, n_type12_delivered = False, n_type12_hold_start = None,
       n_type12_hold_timeout_logged = False, n_poll_requested = False, n_poll_epoch = 0, n_poll_inflight = False,
       n_poll_sent_at = 0, n_poll_applied_seq = 0\<rparr>),
     w_eps = (\<lambda>_. new_endpoint [] 0 0 [] 0), w_next = 1, w_outbox = [], w_transport_up = False,
     w_broker_up = False, w_broker_q = [], w_results = [], w_next_uid = 1, w_next_sc = 1, w_next_epoch = 1,
     w_next_poll_seq = 1, w_send_seq = 1, w_wire = [], w_http = []\<rparr>"

lemma world_init_ok: "world_ok world_init"
  by (simp add: world_ok_def world_init_def new_endpoint_def sender_new_wf receiver_new_wf box_ok_def peers_ok_def)

lemma world_init_run: "sc_run (w_h world_init) [] []"
  by (rule sc_run.init) (simp_all add: world_init_def)

lemma count_type_split: "count_type ty ps = count_type ty (filter is_msg ps) + count_type ty (filter is_ctl ps)"
  by (induction ps) auto

lemma sc_run_ledger:
  assumes "sc_run h qs hs" and "ty < 32"
  shows "lg_queued (h_ledger h) ! ty = lg_handed (h_ledger h) ! ty + of_nat (count_type ty (h_pending h))"
proof -
  have inv: "sc_inv h qs hs" using assms(1) by (rule sc_run_inv)
  then have "count_type ty qs = count_type ty hs + count_type ty (h_pending h)"
    using count_type_split [of ty qs] count_type_split [of ty hs] count_type_split [of ty "h_pending h"]
    by (simp add: sc_inv_def)
  with inv assms(2) show ?thesis by (simp add: sc_inv_def)
qed

text \<open>
  C4: in every state a process reaches by any interleaving of exports, transport cycles,
  broker turns, arriving datagrams and thread deaths, each network has at most 8 remote peers
  with distinct ids, each with its own allocated endpoint of that network, and at most 16
  distinct peer candidates; every pairing satisfies the sender and receiver invariants; at
  most 32 changes are in flight and at most 128 messages queued; and the ledger counts of
  queued changes are those handed out plus those pending.
\<close>

theorem party_run_invariant:
  assumes "party_reach world_init w"
  shows "world_ok w \<and> length (h_in_flight (w_h w)) \<le> 32 \<and> count_type 21 (h_pending (w_h w)) \<le> 128 \<and>
    (\<forall>ty < 32. lg_queued (h_ledger (w_h w)) ! ty =
       lg_handed (h_ledger (w_h w)) ! ty + of_nat (count_type ty (h_pending (w_h w))))"
proof -
  obtain qs hs where run: "sc_run (w_h w) qs hs" using stream.party_reach_keeps [OF assms] world_init_run by blast
  have "length (h_in_flight (w_h w)) \<le> 32 \<and> count_type 21 (h_pending (w_h w)) \<le> 128"
    using sc_run_inv [OF run] by (simp add: sc_inv_def BATCH_CAP_def SC_PENDING_CAP_def)
  with sc_run_ledger [OF run] runtime.party_reach_keeps [OF assms world_init_ok] show ?thesis by blast
qed

definition demo_host :: host where
  "demo_host = \<lparr>hs_instant = 0, hs_now_ms = 1000, hs_unix_nanos = 5, hs_lan_ip = (192, 168, 0, 7), hs_bind = Some 27015,
     hs_has_member = (\<lambda>_. True), hs_http = (\<lambda>_ _ _. None), hs_stack = 100, hs_ipv6 = (\<lambda>_. False)\<rparr>"

theorem party_run_invariant_witness:
  "\<exists>w. party_reach world_init w \<and> w_live w \<and> count_type 10 (h_pending (w_h w)) = 1 \<and> world_ok w"
proof -
  let ?w1 = "snd (PartyInitialize demo_host False world_init)"
  let ?w2 = "snd (PartyCreateLocalUser (Some (as_bytes ''host'')) False ?w1)"
  let ?w3 = "snd (PartyNetworkCreateEndpoint demo_host 0 1 ?w2)"
  have "party_reach world_init ?w1"
    by (rule party_reach.step [OF party_reach.start, of demo_host "Op_initialize False"]) simp
  then have "party_reach world_init ?w2"
    by (rule party_reach.step [of _ _ demo_host "Op_create_user (Some (as_bytes ''host'')) False"]) simp
  then have "party_reach world_init ?w3"
    by (rule party_reach.step [of _ _ demo_host "Op_create_endpoint 0 1"]) simp
  moreover have "w_live ?w3" "count_type 10 (h_pending (w_h ?w3)) = 1"
    by (simp_all add: PartyInitialize_def PartyCreateLocalUser_def PartyNetworkCreateEndpoint_def with_handle_def
        alloc_endpoint_def upd_h_def handle_new_def queue_sc_accepts accepts_def Let_def)
  ultimately show ?thesis using party_run_invariant by blast
qed

end
