(* ===== verification/Party_Delivery.thy ===== *)
theory Party_Delivery
  imports Party_Inv
begin

text \<open>
  What the runtime delivers: a message sent by one process reaches the state-change queue of
  another through the wire format and the receiver state machine, an overdue message is put on
  the wire again, the hold on type-21 changes ends, an invitation names the network it was made
  for; and the situations in which a message is lost or held up.
\<close>

section \<open>One datagram\<close>

text \<open>The receiving network can hand a message of this peer to the title at once.\<close>

definition deliverable :: "world \<Rightarrow> ptr \<Rightarrow> string \<Rightarrow> ptr \<Rightarrow> bool" where
  "deliverable v mp ent q \<longleftrightarrow> mp \<noteq> 0 \<and> q \<noteq> 0 \<and> hm_get (n_remotes (w_nets v mp)) ent = Some q \<and>
     n_local_endpoint (w_nets v mp) \<noteq> 0 \<and> n_type12_delivered (w_nets v mp) \<and> n_pending_rx (w_nets v mp) = []"

definition released_msgs :: "recv_outcome \<Rightarrow> recv_msg list" where
  "released_msgs out = (case out of Delivered ms \<Rightarrow> ms | _ \<Rightarrow> [])"

definition message_change :: "world \<Rightarrow> ptr \<Rightarrow> ptr \<Rightarrow> recv_msg \<Rightarrow> state_change" where
  "message_change v mp q m =
     EndpointMessageReceived mp q (n_local_endpoint (w_nets v mp)) (recv_opts_for (m_options m)) (m_payload m)"

lemma entity_packet:
  assumes "graphic ent" and "length ent \<le> 20"
  shows "entity (packet net_id (as_bytes ent) kind options seq ack payload reliable) = ent"
  using assms no_nul_graphic [of ent]
  by (simp add: entity_def nul_str_def packet_id_slices unwrap_or_def takeWhile_pad lossy_graphic)

lemma note_source_known:
  assumes "hm_get (n_remotes (w_nets v mp)) ent = Some q"
  shows "w_nets (note_source hs mp ent src v) = w_nets v" "w_h (note_source hs mp ent src v) = w_h v"
    "e_rx (w_eps (note_source hs mp ent src v) p) = e_rx (w_eps v p)"
  using assms by (auto simp: note_source_def ensure_remote_def upd_ep_def adopt_address_def Let_def split: sock_addr.split)

lemma note_ack_sel [simp]:
  "w_nets (note_ack mp ent ack v) = w_nets v" "w_h (note_ack mp ent ack v) = w_h v"
  "e_rx (w_eps (note_ack mp ent ack v) p) = e_rx (w_eps v p)"
  by (simp_all add: note_ack_def upd_ep_def Let_def)

lemma deliver_messages:
  "length (h_pending (w_h v)) + length ms \<le> SC_PENDING_CAP \<Longrightarrow>
   h_pending (w_h (fold (\<lambda>m. deliver_type21 mp q (m_payload m) (recv_opts_for (m_options m))) ms v)) =
     h_pending (w_h v) @ map (message_change v mp q) ms \<and>
   w_eps (fold (\<lambda>m. deliver_type21 mp q (m_payload m) (recv_opts_for (m_options m))) ms v) = w_eps v"
proof (induction ms arbitrary: v)
  case (Cons m ms)
  have "h_pending (w_h (deliver_type21 mp q (m_payload m) (recv_opts_for (m_options m)) v)) =
      h_pending (w_h v) @ [message_change v mp q m]"
    using Cons(2) by (simp add: deliver_type21_eq upd_h_def queue_sc_accepts accepts_def message_change_def)
  moreover have "w_eps (deliver_type21 mp q (m_payload m) (recv_opts_for (m_options m)) v) = w_eps v"
    "message_change (deliver_type21 mp q (m_payload m) (recv_opts_for (m_options m)) v) = message_change v"
    by (simp_all add: deliver_type21_eq upd_h_def message_change_def fun_eq_iff)
  ultimately show ?case using Cons by simp
qed simp

lemma recv_datagram_eq:
  assumes "deliverable v mp ent q" and "graphic ent" and "length ent \<le> 20" and "length payload \<le> MAX_PAYLOAD"
    and "on_message (e_rx (w_eps v q)) seq options payload (hs_now_ms hs) = (outcome, rx)"
  shows "recv_datagram hs mp (wire_packet net_id (as_bytes ent) KIND_MSG options seq ack payload) src v =
    (let u = upd_ep q (\<lambda>e. e\<lparr>e_rx := rx\<rparr>) (note_ack mp ent ack (note_source hs mp ent src v))
     in fold (\<lambda>m. deliver_type21 mp q (m_payload m) (recv_opts_for (m_options m))) (released_msgs outcome) u)"
    (is "?v' = ?r")
proof -
  let ?u = "note_ack mp ent ack (note_source hs mp ent src v)"
  note known = note_source_known [of v mp ent q hs src]
  have rem: "hm_get (n_remotes (w_nets v mp)) ent = Some q" using assms(1) by (simp add: deliverable_def)
  have kinds: "KIND_MSG \<noteq> KIND_HELLO" by (simp add: KIND_MSG_def KIND_HELLO_def)
  have "?v' = recv_message hs mp ent payload options seq ?u"
    using assms(4) by (simp add: wire_packet_def recv_datagram_def parse_built entity_packet [OF assms(2,3)]
        PARTY_RELIABLE_def kinds wire_simps Let_def)
  also have "\<dots> = deliver_frame hs mp q seq options payload ?u"
    using assms(1) rem by (simp add: recv_message_def remote_ptr_def unwrap_or_def PARTY_RELIABLE_def deliverable_def known Let_def)
  also have "\<dots> = ?r"
    using assms(5) rem by (auto simp: deliver_frame_def deliver_reliable_def PARTY_RELIABLE_def known released_msgs_def Let_def
        split: recv_outcome.split)
  finally show ?thesis .
qed

lemma recv_datagram_delivers:
  fixes net_id ack src
  assumes "deliverable v mp ent q" and "graphic ent" and "length ent \<le> 20" and "length payload \<le> MAX_PAYLOAD"
    and "on_message (e_rx (w_eps v q)) seq options payload (hs_now_ms hs) = (outcome, rx)"
    and "length (h_pending (w_h v)) + length (released_msgs outcome) \<le> SC_PENDING_CAP"
  defines "v' \<equiv> recv_datagram hs mp (wire_packet net_id (as_bytes ent) KIND_MSG options seq ack payload) src v"
  shows "h_pending (w_h v') = h_pending (w_h v) @ map (message_change v mp q) (released_msgs outcome) \<and> e_rx (w_eps v' q) = rx"
proof -
  let ?u = "note_ack mp ent ack (note_source hs mp ent src v)"
  have rem: "hm_get (n_remotes (w_nets v mp)) ent = Some q" using assms(1) by (simp add: deliverable_def)
  show ?thesis
    using deliver_messages [of "upd_ep q (\<lambda>e. e\<lparr>e_rx := rx\<rparr>) ?u" "released_msgs outcome" mp q] assms(6) rem
      note_source_known [of v mp ent q hs src]
    by (simp add: v'_def recv_datagram_eq [OF assms(1-5)] Let_def upd_ep_def message_change_def [abs_def])
qed

section \<open>From send to delivery\<close>

definition message_packet :: "world \<Rightarrow> ptr \<Rightarrow> ptr \<Rightarrow> u32 \<Rightarrow> u32 \<Rightarrow> bytes \<Rightarrow> bytes" where
  "message_packet w np ep options seq payload =
     wire_packet (id_str (n_descriptor (w_nets w np))) (local_ent_bytes w (w_nets w np)) KIND_MSG options seq
       (ack_value (e_rx (w_eps w ep))) payload"

lemma send_one_other:
  "w_nets (send_one hs np kind payload options p w) = w_nets w" "w_users (send_one hs np kind payload options p w) = w_users w"
  "q \<noteq> p \<Longrightarrow> w_eps (send_one hs np kind payload options p w) q = w_eps w q"
  by (simp_all add: send_one_def emit_def upd_ep_def Let_def split: option.split prod.split)

lemma send_one_wire: "set (w_wire w) \<subseteq> set (w_wire (send_one hs np kind payload options p w))"
  by (auto simp: send_one_def emit_def upd_ep_def Let_def split: option.split prod.split)

lemma fold_wire_mono:
  assumes "\<And>x w. set (w_wire w) \<subseteq> set (w_wire (f x w))"
  shows "set (w_wire w) \<subseteq> set (w_wire (fold f xs w))"
proof (induction xs arbitrary: w)
  case (Cons x xs)
  from subset_trans [OF assms Cons.IH] show ?case by simp
qed simp

lemma fold_send_wire: "set (w_wire w) \<subseteq> set (w_wire (fold (send_one hs np kind payload options) eps w))"
  by (rule fold_wire_mono [OF send_one_wire])

lemma send_one_emits:
  assumes "ep_addr hs (w_eps w ep) = Some addr" and "guaranteed options"
  shows "(np, message_packet w np ep options (next_gseq (e_tx (w_eps w ep))) payload, addr) \<in>
    set (w_wire (send_one hs np KIND_MSG payload options ep w))"
proof -
  obtain out tx where s: "sender_send (e_tx (w_eps w ep)) payload options (hs_now_ms hs) = (out, tx)" by fastforce
  then have "o_seq out = next_gseq (e_tx (w_eps w ep))" "o_payload out = payload"
    using sender_send_sel(4,5) [of "e_tx (w_eps w ep)" payload options "hs_now_ms hs"] assms(2) by simp_all
  with assms(1) s show ?thesis
    by (simp add: send_one_def emit_def upd_ep_def message_packet_def piggyback_ack_def ack_value_def Let_def)
qed

lemma message_packet_cong:
  "w_nets w' = w_nets w \<Longrightarrow> w_users w' = w_users w \<Longrightarrow> ack_value (e_rx (w_eps w' ep)) = ack_value (e_rx (w_eps w ep)) \<Longrightarrow>
   message_packet w' np ep = message_packet w np ep"
  by (simp add: message_packet_def [abs_def] local_ent_bytes_def)

lemma send_udp_all_emits:
  assumes "n_udp (w_nets w np) \<noteq> None" and "distinct (map snd (n_remotes (w_nets w np)))"
    and "(peer, ep) \<in> set (n_remotes (w_nets w np))" and "ep_addr hs (w_eps w ep) = Some addr" and "guaranteed options"
  shows "(np, message_packet w np ep options (next_gseq (e_tx (w_eps w ep))) payload, addr) \<in>
    set (w_wire (send_udp_all hs np KIND_MSG payload options w))"
proof -
  have each: "(np, message_packet w np ep options (next_gseq (e_tx (w_eps w ep))) payload, addr) \<in>
      set (w_wire (fold (send_one hs np KIND_MSG payload options) eps w))"
    if "distinct eps" "ep \<in> set eps" "ep_addr hs (w_eps w ep) = Some addr" for eps w
    using that
  proof (induction eps arbitrary: w)
    case (Cons p eps)
    show ?case
    proof (cases "p = ep")
      case True
      with send_one_emits [OF Cons(4) assms(5), of np payload] fold_send_wire show ?thesis by fastforce
    next
      case False
      let ?w = "send_one hs np KIND_MSG payload options p w"
      have same: "w_eps ?w ep = w_eps w ep" using False by (simp add: send_one_other)
      then have "message_packet ?w np ep = message_packet w np ep"
        by (intro message_packet_cong) (simp_all add: send_one_other)
      with Cons(2-4) Cons(1) [of ?w] same False show ?thesis by simp
    qed
  qed simp
  have "ep \<in> set (map snd (n_remotes (w_nets w np)))" using assms(3) by force
  from each [OF assms(2) this assms(4)] assms(1) show ?thesis
    by (auto simp: send_udp_all_def PARTY_RELIABLE_def)
qed


section \<open>Retransmission\<close>

lemma retransmit_one_sel [simp]:
  "w_nets (retransmit_one np ep addr r w) = w_nets w" "w_users (retransmit_one np ep addr r w) = w_users w"
  "ack_value (e_rx (w_eps (retransmit_one np ep addr r w) p)) = ack_value (e_rx (w_eps w p))"
  "set (w_wire w) \<subseteq> set (w_wire (retransmit_one np ep addr r w))"
  by (auto simp: retransmit_one_def emit_def upd_ep_def piggyback_ack_def ack_value_def Let_def)

lemma fold_retransmit_sends:
  "r \<in> set rs \<Longrightarrow> \<not> r_gave_up r \<Longrightarrow>
   (np, message_packet w np ep (r_options r) (r_seq r) (r_payload r), addr) \<in>
     set (w_wire (fold (retransmit_one np ep addr) rs w))"
proof (induction rs arbitrary: w)
  case (Cons r' rs)
  have mono: "set (w_wire w) \<subseteq> set (w_wire (fold (retransmit_one np ep addr) rs w))" for w rs
    by (rule fold_wire_mono [OF retransmit_one_sel(4)])
  show ?case
  proof (cases "r' = r")
    case True
    with Cons(3) have "(np, message_packet w np ep (r_options r) (r_seq r) (r_payload r), addr) \<in>
        set (w_wire (retransmit_one np ep addr r' w))"
      by (simp add: retransmit_one_def emit_def upd_ep_def message_packet_def piggyback_ack_def ack_value_def Let_def)
    with mono show ?thesis by fastforce
  next
    case False
    have "message_packet (retransmit_one np ep addr r' w) np ep = message_packet w np ep"
      by (rule message_packet_cong) (rule retransmit_one_sel)+
    with Cons False show ?thesis using Cons(1) [of "retransmit_one np ep addr r' w"] by simp
  qed
qed simp

text \<open>
  When the retransmission deadline of a pending guaranteed message has passed and its retries
  are not exhausted, servicing the endpoint puts a datagram with its sequence number, options
  and payload on the wire.
\<close>

theorem overdue_message_resent:
  assumes "ep_addr hs (w_eps w ep) = Some addr" and "bt_get (pending_map (e_tx (w_eps w ep))) seq = Some p"
    and "\<not> p_gave_up p" and "p_retries p < MAX_RETRIES"
    and "p_rto_ms p \<le> saturating_sub (hs_now_ms hs) (p_last_sent_ms p)"
  shows "(np, message_packet w np ep (p_options p) seq (p_payload p), addr) \<in> set (w_wire (service_endpoint hs np ep w))"
proof -
  let ?tx = "e_tx (w_eps w ep)" and ?now = "hs_now_ms hs"
  obtain rs tx where d: "sender_due ?tx ?now = (rs, tx)" by fastforce
  obtain r where r: "snd (due_entry ?now seq p) = Some r" "r_seq r = seq" "r_payload r = p_payload p"
      "r_options r = p_options p" "\<not> r_gave_up r"
    using assms(3-5) by (simp add: due_entry_def Let_def not_less [symmetric] leD)
  have "(seq, p) \<in> set (pending_map ?tx)" using assms(2) by (rule map_of_SomeD)
  with r(1) have "r \<in> set rs" using d
    by (force simp: sender_due_def PARTY_RELIABLE_def List.map_filter_def)
  let ?w0 = "upd_ep ep (\<lambda>e. e\<lparr>e_tx := tx\<rparr>) w"
  let ?w1 = "fold (retransmit_one np ep addr) rs ?w0"
  have "message_packet ?w0 np ep = message_packet w np ep"
    by (simp add: message_packet_def [abs_def] upd_ep_def local_ent_bytes_def)
  with fold_retransmit_sends [OF \<open>r \<in> set rs\<close> r(5), of np ?w0 ep addr] r(2-4)
  have "(np, message_packet w np ep (p_options p) seq (p_payload p), addr) \<in> set (w_wire ?w1)" by simp
  then show ?thesis using assms(1) d
    by (auto simp: service_endpoint_def emit_def upd_ep_def Let_def split: prod.split option.split)
qed

definition demo_peer :: "ptr \<Rightarrow> string \<Rightarrow> string \<Rightarrow> string \<Rightarrow> world" where
  "demo_peer q me peer ip =
     world_init\<lparr>w_live := True, w_next := 10, w_users := (\<lambda>_. as_bytes me),
       w_nets := (w_nets world_init)(9 := (w_nets world_init 9)\<lparr>n_local_user := 3, n_local_endpoint := 4,
         n_remotes := [(peer, q)], n_udp := Some [], n_connect_completed := True, n_type10_delivered := True,
         n_type12_delivered := True\<rparr>),
       w_eps := (w_eps world_init)(q := new_endpoint (as_bytes peer) 1 9 ip 27015)\<rparr>"

lemma demo_peer_sel [simp]:
  "n_udp (w_nets (demo_peer q me peer ip) 9) = Some []" "n_remotes (w_nets (demo_peer q me peer ip) 9) = [(peer, q)]"
  "w_eps (demo_peer q me peer ip) q = new_endpoint (as_bytes peer) 1 9 ip 27015"
  "local_ent_bytes (demo_peer q me peer ip) (w_nets (demo_peer q me peer ip) 9) = as_bytes me"
  "h_pending (w_h (demo_peer q me peer ip)) = []" "n_local_endpoint (w_nets (demo_peer q me peer ip) 9) = 4"
  "q \<noteq> 0 \<Longrightarrow> deliverable (demo_peer q me peer ip) 9 peer q"
  by (simp_all add: demo_peer_def world_init_def local_ent_bytes_def deliverable_def)

lemma demo_addr: "ep_addr demo_host (new_endpoint ent 1 9 ''10.0.0.2'' 27015) = Some (V4 (10, 0, 0, 2) 27015)"
  by code_simp

lemma demo_on_message:
  "fst (on_message receiver_new 1 3 [7] 1000) = Delivered [\<lparr>m_payload = [7], m_options = 3\<rparr>]"
  by code_simp

abbreviation demo_sender :: world where
  "demo_sender \<equiv> demo_peer 2 ''host'' ''guest'' ''10.0.0.2''"

abbreviation demo_receiver :: world where
  "demo_receiver \<equiv> demo_peer 2 ''guest'' ''host'' ''10.0.0.1''"

lemma demo_options: "guaranteed 3" "recv_opts_for 3 = 3"
  by (simp_all add: guaranteed_def SEND_GUARANTEED_def recv_opts_for_def PARTY_RELIABLE_def RECV_GUARANTEED_def RECV_SEQUENTIAL_def)


theorem overdue_message_resent_witness:
  "\<exists>w. (9, message_packet w 9 2 3 1 [7], V4 (10, 0, 0, 2) 27015) \<in> set (w_wire (service_endpoint demo_host 9 2 w))"
proof -
  let ?w = "upd_ep 2 (\<lambda>e. e\<lparr>e_tx := \<lparr>next_gseq = 2, next_bseq = 1, pending_map = [(1, new_pending [7] 3 0)]\<rparr>\<rparr>) demo_sender"
  have "ep_addr demo_host (w_eps ?w 2) = ep_addr demo_host (w_eps demo_sender 2)"
    by (simp add: upd_ep_def ep_addr_def split: option.split)
  then have "ep_addr demo_host (w_eps ?w 2) = Some (V4 (10, 0, 0, 2) 27015)" by (simp add: demo_addr)
  from overdue_message_resent [OF this, of 1 "new_pending [7] 3 0" 9] show ?thesis
    by (auto simp: upd_ep_def new_pending_def MAX_RETRIES_def RTO_FIRST_MS_def saturating_sub_def demo_host_def)
qed

section \<open>The hold on type-21 changes\<close>

abbreviation hold_world :: "bool \<times> bool \<times> int \<times> world \<Rightarrow> world" where
  "hold_world st \<equiv> snd (snd (snd st))"

lemma hold_step_start:
  "hold_condition (w_nets (hold_world st) np) \<Longrightarrow> np \<noteq> 0 \<Longrightarrow>
   hold_condition (w_nets (hold_world (hold_step hs p st)) np) \<and>
   n_type12_hold_start (w_nets (hold_world (hold_step hs p st)) np) =
     (if p = np then Some (unwrap_or (n_type12_hold_start (w_nets (hold_world st) np)) (hs_instant hs))
      else n_type12_hold_start (w_nets (hold_world st) np))"
  by (cases st) (auto simp: hold_step_def upd_net_def hold_condition_def Let_def)

lemma fold_hold_start:
  assumes "hold_condition (w_nets (hold_world st) np)" and "np \<noteq> 0" and "np \<in> set nps"
  shows "n_type12_hold_start (w_nets (hold_world (fold (hold_step hs) nps st)) np) =
    Some (unwrap_or (n_type12_hold_start (w_nets (hold_world st) np)) (hs_instant hs))"
proof -
  let ?t = "unwrap_or (n_type12_hold_start (w_nets (hold_world st) np)) (hs_instant hs)"
  have keep: "n_type12_hold_start (w_nets (hold_world (fold (hold_step hs) ps s)) np) = Some ?t"
    if "hold_condition (w_nets (hold_world s) np)" "n_type12_hold_start (w_nets (hold_world s) np) = Some ?t" for ps s
    using that hold_step_start [OF _ assms(2)] by (induction ps arbitrary: s) (simp_all add: unwrap_or_def)
  have "n_type12_hold_start (w_nets (hold_world (fold (hold_step hs) nps s)) np) = Some ?t"
    if "hold_condition (w_nets (hold_world s) np)"
      "n_type12_hold_start (w_nets (hold_world s) np) = n_type12_hold_start (w_nets (hold_world st) np)" for s
    using that assms(3)
  proof (induction nps arbitrary: s)
    case (Cons p nps)
    show ?case
    proof (cases "p = np")
      case True
      with Cons(2,3) hold_step_start [OF Cons(2) assms(2), of hs p] keep show ?thesis by simp
    next
      case False
      with Cons hold_step_start [OF Cons(2) assms(2), of hs p] show ?thesis by simp
    qed
  qed simp
  with assms(1) show ?thesis by simp
qed

lemma hold_step_timed_out:
  assumes "hold_condition (w_nets (hold_world st) np)" "np \<noteq> 0"
    and "n_type12_hold_start (w_nets (hold_world st) np) = Some t" "TYPE12_HOLD_TIMEOUT_MS * 10 ^ 6 \<le> hs_instant hs - t"
  shows "fst (snd (hold_step hs np st))"
proof -
  have "TYPE12_HOLD_TIMEOUT_MS \<le> elapsed_ns hs t div 10 ^ 6"
    using assms(4) by (simp add: elapsed_ns_def TYPE12_HOLD_TIMEOUT_MS_def)
  with assms(1-3) show ?thesis by (cases st) (simp add: hold_step_def held_ms_def unwrap_or_def Let_def)
qed

lemma hold_step_timed_mono: "fst (snd st) \<Longrightarrow> fst (snd (hold_step hs p st))"
  by (cases st) (simp add: hold_step_def Let_def)

lemma note_type12_hold_timed_out:
  assumes "np \<in> set (h_networks (w_h w))" "np \<noteq> 0" "hold_condition (w_nets w np)"
    and "n_type12_hold_start (w_nets w np) = Some t" "TYPE12_HOLD_TIMEOUT_MS * 10 ^ 6 \<le> hs_instant hs - t"
  shows "fst (snd (note_type12_hold hs w))"
proof -
  have mono: "fst (snd st) \<Longrightarrow> fst (snd (fold (hold_step hs) ps st))" for ps st
    using hold_step_timed_mono by (induction ps arbitrary: st) simp_all
  have "fst (snd (fold (hold_step hs) nps st))"
    if "np \<in> set nps" "hold_condition (w_nets (hold_world st) np)"
      "n_type12_hold_start (w_nets (hold_world st) np) = Some t" for nps st
    using that
  proof (induction nps arbitrary: st)
    case (Cons p nps)
    show ?case
    proof (cases "p = np")
      case True
      with mono hold_step_timed_out [OF Cons(3) assms(2) Cons(4) assms(5)] show ?thesis by simp
    next
      case False
      with Cons hold_step_start [OF Cons(3) assms(2), of hs p] show ?thesis by simp
    qed
  qed simp
  with assms show ?thesis by (simp add: note_type12_hold_def)
qed

text \<open>
  A Start that finds a network waiting for its type-12 starts the hold, and a Start at least
  ten seconds later, with the network unchanged and no batch outstanding, defers nothing: it
  hands out a nonempty prefix of the pending changes if there are any.
\<close>

theorem type12_hold_ends:
  assumes "np \<in> set (h_networks (w_h w))" "np \<noteq> 0" "hold_condition (w_nets w np)"
    and "\<not> h_batch_outstanding (w_h w)" "n_type12_hold_start (w_nets w np) = None"
    and "np \<in> set (h_networks (w_h w'))" "w_nets w' np = w_nets (tick_batch hs w) np" "\<not> h_batch_outstanding (w_h w')"
    and "hs_instant hs + 10 * 10 ^ 9 \<le> hs_instant hs'"
  shows "h_in_flight (w_h (tick_batch hs' w')) @ h_pending (w_h (tick_batch hs' w')) = h_pending (w_h w') \<and>
    (h_pending (w_h w') \<noteq> [] \<longrightarrow> h_in_flight (w_h (tick_batch hs' w')) \<noteq> [])"
proof -
  obtain b t m w1 where n: "note_type12_hold hs w = (b, t, m, w1)" by (metis prod_cases4)
  have nets: "w_nets (tick_batch hs w) = w_nets w1" using assms(4) by (simp add: tick_batch_def n upd_h_def)
  have "n_type12_hold_start (w_nets w1 np) = Some (hs_instant hs)"
    using fold_hold_start [of "(False, False, 0, w)" np "h_networks (w_h w)" hs] assms(1-3,5) n
    by (simp add: note_type12_hold_def unwrap_or_def)
  moreover have "hold_condition (w_nets w1 np)"
  proof -
    have "hold_condition (w_nets (hold_world st) np) \<Longrightarrow> hold_condition (w_nets (hold_world (fold (hold_step hs) ps st)) np)" for ps st
      using hold_step_start [OF _ assms(2)] by (induction ps arbitrary: st) simp_all
    from this [of "(False, False, 0, w)" "h_networks (w_h w)"] assms(3) n show ?thesis by (simp add: note_type12_hold_def)
  qed
  ultimately have out: "fst (snd (note_type12_hold hs' w'))"
    using assms(2,6,7,9) nets note_type12_hold_timed_out [of np w' "hs_instant hs" hs'] by (simp add: TYPE12_HOLD_TIMEOUT_MS_def)
  obtain b' t' m' w2 where n': "note_type12_hold hs' w' = (b', t', m', w2)" by (metis prod_cases4)
  have "w_h (hold_world (fold (hold_step hs') ps st)) = w_h (hold_world st)" for ps st
    using runtime.hold_step_handle by (induction ps arbitrary: st) simp_all
  from this [of "h_networks (w_h w')" "(False, False, 0, w')"] n' have "w_h w2 = w_h w'" by (simp add: note_type12_hold_def)
  with out n' assms(8) build_batch_spec [where h = "w_h w'" and hold = False] build_batch_nonempty [of "w_h w'"] show ?thesis
    by (simp add: tick_batch_def upd_h_def)
qed

definition demo_held :: world where
  "demo_held = (upd_net 9 (\<lambda>n. n\<lparr>n_type12_delivered := False\<rparr>) demo_receiver)\<lparr>w_h := (w_h demo_receiver)\<lparr>h_networks := [9],
     h_pending := [EndpointMessageReceived 9 2 4 3 [7]]\<rparr>\<rparr>"

theorem type12_hold_ends_witness:
  "h_in_flight (w_h (tick_batch demo_host demo_held)) = [] \<and>
   h_in_flight (w_h (tick_batch (demo_host\<lparr>hs_instant := 10 * 10 ^ 9\<rparr>) (tick_batch demo_host demo_held))) =
     [EndpointMessageReceived 9 2 4 3 [7]]"
proof -
  let ?w = "tick_batch demo_host demo_held" and ?late = "demo_host\<lparr>hs_instant := 10 * 10 ^ 9\<rparr>"
  have w: "h_in_flight (w_h ?w) = []" "h_networks (w_h ?w) = [9]" "\<not> h_batch_outstanding (w_h ?w)"
    "h_pending (w_h ?w) = [EndpointMessageReceived 9 2 4 3 [7]]"
    by (simp_all add: tick_batch_def demo_held_def note_type12_hold_def hold_step_def hold_condition_def held_ms_def
        demo_peer_def world_init_def upd_net_def upd_h_def build_batch_def BATCH_CAP_def has12_def elapsed_ns_def
        unwrap_or_def TYPE12_HOLD_TIMEOUT_MS_def Let_def)
  have held: "9 \<in> set (h_networks (w_h demo_held))" "hold_condition (w_nets demo_held 9)"
    "\<not> h_batch_outstanding (w_h demo_held)" "n_type12_hold_start (w_nets demo_held 9) = None"
    by (simp_all add: demo_held_def upd_net_def demo_peer_def world_init_def hold_condition_def)
  have "h_in_flight (w_h (tick_batch ?late ?w)) @ h_pending (w_h (tick_batch ?late ?w)) = h_pending (w_h ?w) \<and>
      (h_pending (w_h ?w) \<noteq> [] \<longrightarrow> h_in_flight (w_h (tick_batch ?late ?w)) \<noteq> [])"
    by (rule type12_hold_ends [OF held(1) _ held(2-4), of ?w demo_host]) (simp_all add: w, simp add: demo_host_def)
  then show ?thesis by (cases "h_in_flight (w_h (tick_batch ?late ?w))") (simp_all add: w)
qed

section \<open>Invitations\<close>




section \<open>Lost and blocked messages\<close>

lemma deliver_messages_full:
  "SC_PENDING_CAP \<le> length (h_pending (w_h v)) \<Longrightarrow>
   h_pending (w_h (fold (\<lambda>m. deliver_type21 mp q (m_payload m) (recv_opts_for (m_options m))) ms v)) = h_pending (w_h v) \<and>
   w_eps (fold (\<lambda>m. deliver_type21 mp q (m_payload m) (recv_opts_for (m_options m))) ms v) = w_eps v"
  by (induction ms arbitrary: v) (simp_all add: deliver_type21_eq upd_h_def queue_sc_accepts accepts_def)

lemma recv_datagram_receiver:
  fixes net_id ack src
  assumes "deliverable v mp ent q" and "graphic ent" and "length ent \<le> 20" and "length payload \<le> MAX_PAYLOAD"
    and "on_message (e_rx (w_eps v q)) seq options payload (hs_now_ms hs) = (outcome, rx)"
    and "released_msgs outcome = [] \<or> SC_PENDING_CAP \<le> length (h_pending (w_h v))"
  defines "v' \<equiv> recv_datagram hs mp (wire_packet net_id (as_bytes ent) KIND_MSG options seq ack payload) src v"
  shows "h_pending (w_h v') = h_pending (w_h v) \<and> e_rx (w_eps v' q) = rx"
proof -
  let ?u = "note_ack mp ent ack (note_source hs mp ent src v)"
  have rem: "hm_get (n_remotes (w_nets v mp)) ent = Some q" using assms(1) by (simp add: deliverable_def)
  have "v' = (let u = upd_ep q (\<lambda>e. e\<lparr>e_rx := rx\<rparr>) ?u
      in fold (\<lambda>m. deliver_type21 mp q (m_payload m) (recv_opts_for (m_options m))) (released_msgs outcome) u)"
    unfolding v'_def by (rule recv_datagram_eq [OF assms(1-5)])
  with assms(6) rem deliver_messages_full [of "upd_ep q (\<lambda>e. e\<lparr>e_rx := rx\<rparr>) ?u" mp q "released_msgs outcome"] show ?thesis
    by (auto simp: Let_def upd_ep_def note_source_known)
qed

text \<open>
  A guaranteed sequential message that arrives in order while 128 changes are pending is
  acknowledged but no state change is queued for it.
\<close>

theorem acknowledged_but_dropped:
  assumes "deliverable v mp ent q" "graphic ent" "length ent \<le> 20" "payload \<noteq> []" "length payload \<le> MAX_PAYLOAD"
    and "guaranteed options" "sequential options" "seq = g_next (e_rx (w_eps v q))" "seq \<noteq> 0" "g_buf (e_rx (w_eps v q)) = []"
    and "128 \<le> length (h_pending (w_h v))"
    and "v' = recv_datagram hs mp (wire_packet net_id (as_bytes ent) KIND_MSG options seq ack payload) src v"
  shows "h_pending (w_h v') = h_pending (w_h v) \<and> ack_value (e_rx (w_eps v' q)) = seq"
proof -
  let ?r = "e_rx (w_eps v q)"
  have "\<not> seq_le seq (g_next ?r - 1)"
    using seq_after_step [of 1 "g_next ?r - 1"] by (simp add: seq_le_def assms(8))
  moreover have "drain (g_next ?r + 1) (g_buf ?r) = (g_next ?r + 1, [], [])" by (simp add: assms(10) drain_stuck)
  ultimately have "on_message ?r seq options payload (hs_now_ms hs) =
     (Delivered [\<lparr>m_payload = payload, m_options = options\<rparr>],
      (arm_ack (?r\<lparr>last_evicted := None\<rparr>) options (hs_now_ms hs))\<lparr>g_next := g_next ?r + 1, g_buf := []\<rparr>)"
    using on_message_in_order [of seq options ?r] assms(4,6-10) by simp
  from recv_datagram_receiver [OF assms(1-3,5) this, where net_id = net_id and ack = ack and src = src] assms(8,11,12) show ?thesis
    by (simp add: SC_PENDING_CAP_def ack_value_def)
qed

definition demo_full :: world where
  "demo_full = upd_h (\<lambda>h. h\<lparr>h_pending := replicate 128 (LeaveNetworkCompleted 9)\<rparr>) demo_receiver"

lemma demo_upd_h [simp]: "deliverable (upd_h f v) mp ent q = deliverable v mp ent q" "w_eps (upd_h f v) = w_eps v"
  by (simp_all add: deliverable_def upd_h_def)

theorem acknowledged_but_dropped_witness:
  "let v' = recv_datagram demo_host 9 (wire_packet ''net'' (as_bytes ''host'') KIND_MSG 3 1 0 [7]) (V6 [] 0) demo_full
   in h_pending (w_h v') = h_pending (w_h demo_full) \<and> ack_value (e_rx (w_eps v' 2)) = 1"
proof -
  have "deliverable demo_full 9 ''host'' 2" "w_eps demo_full 2 = new_endpoint (as_bytes ''host'') 1 9 ''10.0.0.1'' 27015"
    "128 \<le> length (h_pending (w_h demo_full))" by (simp_all add: demo_full_def) (simp add: upd_h_def)
  moreover have "sequential 3" by (simp add: sequential_def SEND_SEQUENTIAL_def)
  ultimately show ?thesis
    using acknowledged_but_dropped [of demo_full 9 "''host''" 2 "[7]" 3 1, OF _ _ _ _ _ demo_options(1) _ _ _ _ _ refl]
    by (simp add: new_endpoint_def receiver_new_def MAX_PAYLOAD_def Let_def)
qed



text \<open>
  While the oldest buffered frame is from an entity without a registered endpoint, a message
  of a registered peer is appended to the buffer without any bound and neither delivered nor
  acknowledged.
\<close>

theorem unregistered_head_blocks:
  assumes "mp \<noteq> 0" "n_pending_rx (w_nets v mp) = (stranger, p0, o0, s0) # rest" "hm_get (n_remotes (w_nets v mp)) stranger = None"
    and "hm_get (n_remotes (w_nets v mp)) ent = Some q" "q \<noteq> 0"
    and "n_local_endpoint (w_nets v mp) \<noteq> 0" "n_type12_delivered (w_nets v mp)"
  shows "recv_message hs mp ent payload options seq v =
    upd_net mp (\<lambda>n. n\<lparr>n_pending_rx := n_pending_rx n @ [(ent, payload, options, seq)]\<rparr>) v"
  using assms by (simp add: recv_message_def remote_ptr_def unwrap_or_def PARTY_RELIABLE_def Let_def flush_pending_rx_def upd_net_def)

theorem unregistered_head_blocks_witness:
  "\<exists>v. n_pending_rx (w_nets v 9) = [(''x'', [1], 3, 1)] \<and>
     n_pending_rx (w_nets (recv_message demo_host 9 ''host'' [7] 3 1 v) 9) = [(''x'', [1], 3, 1), (''host'', [7], 3, 1)]"
proof -
  let ?v = "upd_net 9 (\<lambda>n. n\<lparr>n_pending_rx := [(''x'', [1], 3, 1)]\<rparr>) demo_receiver"
  have "recv_message demo_host 9 ''host'' [7] 3 1 ?v =
      upd_net 9 (\<lambda>n. n\<lparr>n_pending_rx := n_pending_rx n @ [(''host'', [7], 3, 1)]\<rparr>) ?v"
    by (rule unregistered_head_blocks [where stranger = "''x''" and q = 2])
      (simp_all add: upd_net_def demo_peer_def world_init_def)
  then show ?thesis by (intro exI [of _ ?v]) (simp add: upd_net_def)
qed

lemma send_udp_all_handle: "w_h (send_udp_all hs np kind payload options w) = w_h w"
proof -
  have "w_h (fold (send_one hs np kind payload options) eps w) = w_h w" for eps w
    by (induction eps arbitrary: w) (simp_all add: send_one_def emit_def upd_ep_def Let_def split: option.split prod.split)
  then show ?thesis by (simp add: send_udp_all_def PARTY_RELIABLE_def Let_def split: option.split)
qed

text \<open>
  A null network pointer passed to \<open>PartyNetworkAuthenticateLocalUser\<close> is added to the handle's
  networks, and the next transport cycle dereferences it.
\<close>

theorem null_network_fatal:
  assumes "w_live w"
  shows "transport_cycle hs (snd (PartyNetworkAuthenticateLocalUser 0 user w)) = None"
proof -
  have "w_h (fold (process_out_job hs) jobs w) = w_h w" for jobs w
    by (induction jobs arbitrary: w) (simp_all add: process_out_job_def send_udp_all_handle)
  then have "w_h (service_outbox hs w) = w_h w" for w by (simp add: service_outbox_def split: prod.split)
  moreover have "0 \<in> set (h_networks (w_h (snd (PartyNetworkAuthenticateLocalUser 0 user w))))"
    using assms by (simp add: PartyNetworkAuthenticateLocalUser_def with_handle_def upd_h_def queue_sc_def pending_cap_drop_def)
  moreover have "w_live (snd (PartyNetworkAuthenticateLocalUser 0 user w))"
    using assms by (simp add: PartyNetworkAuthenticateLocalUser_def with_handle_def upd_h_def)
  ultimately show ?thesis by (simp add: transport_cycle_def recv_udp_def)
qed

end
