(* ===== verification/Party_Probe.thy ===== *)
theory Party_Probe
  imports Party_Inv
begin

text \<open>
  \<open>party-shim/src/lib.rs\<close>: the probes that read the memory of the game. The member list decides when
  a remote endpoint may be announced; the others feed the diagnostic lines, of which this theory
  holds what is read, not the text.

  The process is the record \<open>proc_mem\<close>: what \<open>VirtualQuery\<close> answers for an address, the byte at an
  address or nothing where an access faults, and the base of the executable. Addresses are \<open>usize\<close>
  words whose addition wraps. The outer \<open>None\<close> of every probe is an access violation; an unreadable
  field, where the code has a value for it, is the inner \<open>None\<close>. What the probes rely on is
  \<open>query_sound\<close>: a region that \<open>VirtualQuery\<close> reports as committed and readable can be read.
\<close>

section \<open>The gate\<close>

definition MEM_COMMIT :: u32 where "MEM_COMMIT = 0x1000"
definition PAGE_GUARD :: u32 where "PAGE_GUARD = 0x100"

record region =
  rg_base :: nat
  rg_size :: nat
  rg_state :: u32
  rg_protect :: u32

record proc_mem =
  pm_query :: "u64 \<Rightarrow> region option"
  pm_byte :: "u64 \<Rightarrow> u8 option"
  pm_base :: u64

definition page_has_read :: "u32 \<Rightarrow> bool" where
  "page_has_read protect \<longleftrightarrow> protect AND PAGE_GUARD = 0 \<and> protect AND 0xff \<in> set [0x02, 0x04, 0x08, 0x20, 0x40, 0x80]"

definition readable :: "proc_mem \<Rightarrow> u64 \<Rightarrow> nat \<Rightarrow> bool" where
  "readable m p n \<longleftrightarrow>
     \<not> (p = 0 \<or> n = 0 \<or> 2 ^ 64 \<le> unat p + n) \<and>
     (case pm_query m p of
        None \<Rightarrow> False
      | Some r \<Rightarrow> rg_state r = MEM_COMMIT \<and> page_has_read (rg_protect r) \<and>
          rg_base r \<le> unat p \<and> unat p + n \<le> min (rg_base r + rg_size r) (2 ^ 64 - 1))"

text \<open>Raw reads, which fault outside accessible memory.\<close>

definition raw_bytes :: "proc_mem \<Rightarrow> u64 \<Rightarrow> nat \<Rightarrow> bytes option" where
  "raw_bytes m p n = those (map (\<lambda>i. pm_byte m (p + of_nat i)) [0..<n])"

definition raw :: "proc_mem \<Rightarrow> u64 \<Rightarrow> nat \<Rightarrow> nat option" where
  "raw m p n = map_option le_nat (raw_bytes m p n)"

definition raw8 :: "proc_mem \<Rightarrow> u64 \<Rightarrow> u8 option" where "raw8 m p = map_option of_nat (raw m p 1)"
definition raw16 :: "proc_mem \<Rightarrow> u64 \<Rightarrow> u16 option" where "raw16 m p = map_option of_nat (raw m p 2)"
definition raw32 :: "proc_mem \<Rightarrow> u64 \<Rightarrow> u32 option" where "raw32 m p = map_option of_nat (raw m p 4)"
definition rawptr :: "proc_mem \<Rightarrow> u64 \<Rightarrow> u64 option" where "rawptr m p = map_option of_nat (raw m p 8)"

text \<open>The gated reads, and a gated read with a default.\<close>

definition probe_rd32 :: "proc_mem \<Rightarrow> u64 \<Rightarrow> u32 option option" where
  "probe_rd32 m p = (if readable m p 4 then map_option Some (raw32 m p) else Some None)"

definition probe_rd8 :: "proc_mem \<Rightarrow> u64 \<Rightarrow> u8 option option" where
  "probe_rd8 m p = (if readable m p 1 then map_option Some (raw8 m p) else Some None)"

definition probe_rdptr :: "proc_mem \<Rightarrow> u64 \<Rightarrow> u64 option option" where
  "probe_rdptr m p = (if readable m p 8 then map_option Some (rawptr m p) else Some None)"

definition ptr_or0 :: "proc_mem \<Rightarrow> u64 \<Rightarrow> u64 option" where
  "ptr_or0 m p = map_option (\<lambda>v. unwrap_or v 0) (probe_rdptr m p)"

definition field32 :: "proc_mem \<Rightarrow> u64 \<Rightarrow> u64 \<Rightarrow> u32 option" where
  "field32 m obj off =
     (if obj = 0 then Some (- 1) else map_option (\<lambda>v. unwrap_or v (- 1)) (probe_rd32 m (obj + off)))"

text \<open>The entries of a vector, at the given stride.\<close>

fun each_entry :: "(u64 \<Rightarrow> 'a option) \<Rightarrow> nat \<Rightarrow> u64 \<Rightarrow> nat \<Rightarrow> 'a list option" where
  "each_entry f stride e 0 = Some []"
| "each_entry f stride e (Suc left) =
     do { x \<leftarrow> f e; rest \<leftarrow> each_entry f stride (e + of_nat stride) left; Some (x # rest) }"

section \<open>The member list\<close>

definition MEMBER_LIST_GLOBAL_RVA :: u64 where "MEMBER_LIST_GLOBAL_RVA = 0x7c52ce0"

definition read_std_string :: "proc_mem \<Rightarrow> u64 \<Rightarrow> string option" where
  "read_std_string m obj =
     (if \<not> readable m (obj + 0x18) 8 \<or> \<not> readable m (obj + 0x10) 8 then Some []
      else
        do { cap \<leftarrow> rawptr m (obj + 0x18);
             len \<leftarrow> rawptr m (obj + 0x10);
             if len = 0 \<or> 64 < len then Some []
             else if 15 < cap \<and> \<not> readable m obj 8 then Some []
             else
               do { p \<leftarrow> (if 15 < cap then rawptr m obj else Some obj);
                    if p = 0 \<or> \<not> readable m p (unat len) then Some []
                    else map_option (\<lambda>bs. utf8_lossy (of_bytes bs)) (raw_bytes m p (unat len)) } })"

definition member_list_container :: "proc_mem \<Rightarrow> u64 option option" where
  "member_list_container m =
     (if pm_base m = 0 \<or> \<not> readable m (pm_base m + MEMBER_LIST_GLOBAL_RVA) 8 then Some None
      else
        do { members \<leftarrow> rawptr m (pm_base m + MEMBER_LIST_GLOBAL_RVA);
             if members = 0 \<or> \<not> readable m (members + 0x50) 24 then Some None else Some (Some members) })"

text \<open>The shape check of a vector with the given stride: its begin and the number of its entries.\<close>

definition entry_range :: "proc_mem \<Rightarrow> nat \<Rightarrow> u64 \<Rightarrow> u64 \<Rightarrow> (u64 \<times> nat) option" where
  "entry_range m stride b e =
     (if b = 0 \<or> e < b \<or> unat (e - b) mod stride \<noteq> 0 \<or> stride * 16 < unat (e - b) then None
      else if \<not> readable m b (unat (e - b)) then None
      else Some (b, unat (e - b) div stride))"

definition member_entries :: "proc_mem \<Rightarrow> (u64 \<times> nat) option option" where
  "member_entries m =
     do { c \<leftarrow> member_list_container m;
          case c of
            None \<Rightarrow> Some None
          | Some members \<Rightarrow>
              do { b \<leftarrow> rawptr m (members + 0x50);
                   e \<leftarrow> rawptr m (members + 0x58);
                   Some (entry_range m 0x20 b e) } }"

text \<open>The work object of an entry, 0 when a pointer on the way is null or unreadable.\<close>

definition entry_work :: "proc_mem \<Rightarrow> u64 \<Rightarrow> u64 option" where
  "entry_work m e =
     do { inner \<leftarrow> ptr_or0 m (e + 0x18);
          if inner = 0 then Some 0 else ptr_or0 m (inner + 0x18) }"

fun has_entity_walk :: "proc_mem \<Rightarrow> string \<Rightarrow> u64 \<Rightarrow> nat \<Rightarrow> bool option" where
  "has_entity_walk m eid e 0 = Some False"
| "has_entity_walk m eid e (Suc left) =
     do { flagobj \<leftarrow> entry_work m e;
          hit \<leftarrow> (if flagobj = 0 then Some False else map_option (\<lambda>s. s = eid) (read_std_string m (flagobj + 0x38)));
          if hit then Some True else has_entity_walk m eid (e + 0x20) left }"

definition member_list_has_entity :: "proc_mem \<Rightarrow> string \<Rightarrow> bool option" where
  "member_list_has_entity m eid =
     do { r \<leftarrow> member_entries m;
          case r of None \<Rightarrow> Some False | Some (b, n) \<Rightarrow> has_entity_walk m eid b n }"

record member_slot =
  ms_id :: u32
  ms_flag70 :: u8
  ms_unique :: u32
  ms_a0 :: u32
  ms_rank :: u32
  ms_eid :: string

definition read_slot :: "proc_mem \<Rightarrow> u64 \<Rightarrow> member_slot option" where
  "read_slot m e =
     do { work \<leftarrow> entry_work m e;
          flag70 \<leftarrow> (if work = 0 then Some 0xff else map_option (\<lambda>v. unwrap_or v 0xff) (probe_rd8 m (work + 0x70)));
          ident \<leftarrow> field32 m work 0x68;
          unique \<leftarrow> field32 m work 8;
          a0 \<leftarrow> field32 m work 0xa0;
          rank \<leftarrow> field32 m work 0x6c;
          eid \<leftarrow> (if work = 0 then Some [] else read_std_string m (work + 0x38));
          Some \<lparr>ms_id = ident, ms_flag70 = flag70, ms_unique = unique, ms_a0 = a0, ms_rank = rank, ms_eid = eid\<rparr> }"

definition collect_member_slots :: "proc_mem \<Rightarrow> member_slot list option" where
  "collect_member_slots m =
     do { r \<leftarrow> member_entries m;
          case r of None \<Rightarrow> Some [] | Some (b, n) \<Rightarrow> each_entry (read_slot m) 0x20 b n }"

section \<open>The ready list\<close>

definition READY_LIST_GLOBAL_RVA :: u64 where "READY_LIST_GLOBAL_RVA = 0x71afb30"
definition READY_STRIDE :: nat where "READY_STRIDE = 0x180"

text \<open>One row: its id, state and two flags.\<close>

type_synonym ready_row = "u32 \<times> u32 \<times> u8 \<times> u8"

datatype ready_view =
    ReadyUnreadable
  | ReadyNull
  | ReadyObjUnreadable u64
  | ReadyEmpty u64 u8
  | ReadyBadRange u64 u8 u64 u64
  | ReadyVecUnreadable u64 u8
  | ReadyRows u64 u8 "ready_row list"

definition ready_row_at :: "proc_mem \<Rightarrow> u64 \<Rightarrow> ready_row option" where
  "ready_row_at m e =
     do { ident \<leftarrow> raw32 m e; st \<leftarrow> raw32 m (e + 4); fl10 \<leftarrow> raw8 m (e + 0x10); skip \<leftarrow> raw8 m (e + 0x40);
          Some (ident, st, fl10, skip) }"

definition bad_range :: "u64 \<Rightarrow> u64 \<Rightarrow> bool" where
  "bad_range b e \<longleftrightarrow> e < b \<or> unat (e - b) mod READY_STRIDE \<noteq> 0 \<or> READY_STRIDE * 16 < unat (e - b)"

definition ready_list_note :: "proc_mem \<Rightarrow> ready_view option" where
  "ready_list_note m =
     (if pm_base m = 0 \<or> \<not> readable m (pm_base m + READY_LIST_GLOBAL_RVA) 8 then Some ReadyUnreadable
      else
        do { obj \<leftarrow> rawptr m (pm_base m + READY_LIST_GLOBAL_RVA);
             if obj = 0 then Some ReadyNull
             else if \<not> readable m (obj + 0x50) 24 then Some (ReadyObjUnreadable obj)
             else
               do { flag \<leftarrow> raw8 m (obj + 0x50);
                    b \<leftarrow> rawptr m (obj + 0x58);
                    e \<leftarrow> rawptr m (obj + 0x60);
                    if b = 0 then Some (ReadyEmpty obj flag)
                    else if bad_range b e then Some (ReadyBadRange obj flag b e)
                    else if \<not> readable m b (unat (e - b)) then Some (ReadyVecUnreadable obj flag)
                    else map_option (ReadyRows obj flag) (each_entry (ready_row_at m) READY_STRIDE b (unat (e - b) div READY_STRIDE)) } })"

text \<open>The same list for the timeline, with another check of the object.\<close>

definition queue_rows_note :: "proc_mem \<Rightarrow> ready_view option" where
  "queue_rows_note m =
     (if pm_base m = 0 \<or> \<not> readable m (pm_base m + READY_LIST_GLOBAL_RVA) 8 then Some ReadyUnreadable
      else
        do { obj \<leftarrow> rawptr m (pm_base m + READY_LIST_GLOBAL_RVA);
             if obj = 0 \<or> \<not> readable m (obj + 0x60) 16 then Some ReadyUnreadable
             else
               do { flag \<leftarrow> raw8 m (obj + 0x50);
                    b \<leftarrow> rawptr m (obj + 0x58);
                    e \<leftarrow> rawptr m (obj + 0x60);
                    if b = 0 \<or> bad_range b e then Some (ReadyBadRange obj flag b e)
                    else if \<not> readable m b (unat (e - b)) then Some (ReadyVecUnreadable obj flag)
                    else map_option (ReadyRows obj flag) (each_entry (ready_row_at m) READY_STRIDE b (unat (e - b) div READY_STRIDE)) } })"

section \<open>Send holder, overlay, event bus\<close>

definition SEND_GLOBAL_RVA :: u64 where "SEND_GLOBAL_RVA = 0x7c52cd8"
definition OVERLAY_GLOBAL_RVA :: u64 where "OVERLAY_GLOBAL_RVA = 0x79f3c58"
definition LOOKUP_ID4_RVA :: u64 where "LOOKUP_ID4_RVA = 0x7034c60"
definition LOOKUP_ID8_RVA :: u64 where "LOOKUP_ID8_RVA = 0x7034d40"
definition QUEST_MGR_GLOBAL_RVA :: u64 where "QUEST_MGR_GLOBAL_RVA = 0x7c48628"
definition EVENTBUS_OBJ_RVA :: u64 where "EVENTBUS_OBJ_RVA = 0x7c233c0"
definition EVENTBUS_CODE_OFF :: u64 where "EVENTBUS_CODE_OFF = 0x108"

definition log_connect_gate_inputs :: "proc_mem \<Rightarrow> (u64 \<times> u64 \<times> u64 \<times> u64 \<times> u8 \<times> u64) option option" where
  "log_connect_gate_inputs m =
     (if pm_base m = 0 \<or> \<not> readable m (pm_base m + SEND_GLOBAL_RVA) 8 then Some None
      else
        do { send \<leftarrow> rawptr m (pm_base m + SEND_GLOBAL_RVA);
             if send = 0 then Some None
             else
               do { p18 \<leftarrow> ptr_or0 m (send + 0x18);
                    inner \<leftarrow> (if p18 = 0 then Some 0 else ptr_or0 m (p18 + 0x38));
                    party \<leftarrow> ptr_or0 m (send + 0x38);
                    b0 \<leftarrow> (if party = 0 then Some 0 else map_option (\<lambda>v. unwrap_or v 0) (probe_rd8 m (party + 0xa0)));
                    inv \<leftarrow> (if party = 0 then Some 0 else ptr_or0 m (party + 0x218));
                    Some (Some (send, p18, inner, party, b0, inv)) } })"

definition connect_gate_party_invitation :: "proc_mem \<Rightarrow> (u64 \<times> u64) option" where
  "connect_gate_party_invitation m =
     (if pm_base m = 0 \<or> \<not> readable m (pm_base m + SEND_GLOBAL_RVA) 8 then Some (0, 0)
      else
        do { send \<leftarrow> rawptr m (pm_base m + SEND_GLOBAL_RVA);
             if send = 0 \<or> \<not> readable m (send + 0x38) 8 then Some (0, 0)
             else
               do { party \<leftarrow> rawptr m (send + 0x38);
                    if party = 0 \<or> \<not> readable m (party + 0x218) 8 then Some (party, 0)
                    else map_option (Pair party) (rawptr m (party + 0x218)) } })"

definition overlay_object :: "proc_mem \<Rightarrow> u64 option" where
  "overlay_object m =
     (if pm_base m = 0 then Some 0
      else
        do { slot \<leftarrow> ptr_or0 m (pm_base m + OVERLAY_GLOBAL_RVA);
             if slot = 0 \<or> \<not> readable m (slot + 0x18) 8 then Some 0 else rawptr m (slot + 0x18) })"

text \<open>Which of the entries of a table of ids are filled.\<close>

definition id_filled :: "proc_mem \<Rightarrow> u64 \<Rightarrow> bool option" where
  "id_filled m p = map_option (\<lambda>v. unwrap_or v 0 \<noteq> 0) (probe_rdptr m p)"

definition id_table_note :: "proc_mem \<Rightarrow> bool list option" where
  "id_table_note m =
     do { a \<leftarrow> each_entry (id_filled m) 0x18 (pm_base m + LOOKUP_ID4_RVA) 4; b \<leftarrow> each_entry (id_filled m) 0x18 (pm_base m + LOOKUP_ID8_RVA) 8; Some (a @ b) }"

record overlay_view =
  ov_slot :: u64
  ov_after :: u64
  ov_obj :: u64
  ov_ids :: "bool list"
  ov_latch :: "(u32 \<times> u16) option"

definition append_overlay_note :: "proc_mem \<Rightarrow> overlay_view option option" where
  "append_overlay_note m =
     (if \<not> readable m (pm_base m + OVERLAY_GLOBAL_RVA) 8 then Some None
      else
        do { slot \<leftarrow> rawptr m (pm_base m + OVERLAY_GLOBAL_RVA);
             after \<leftarrow> ptr_or0 m (pm_base m + OVERLAY_GLOBAL_RVA + 0x18);
             obj \<leftarrow> overlay_object m;
             ids \<leftarrow> id_table_note m;
             mgr \<leftarrow> ptr_or0 m (pm_base m + QUEST_MGR_GLOBAL_RVA);
             latch \<leftarrow> (if mgr = 0 \<or> \<not> readable m (mgr + 0x6c814) 6 then Some None
                       else do { l \<leftarrow> raw32 m (mgr + 0x6c814); b18 \<leftarrow> raw16 m (mgr + 0x6c818); Some (Some (l, b18)) });
             Some (Some \<lparr>ov_slot = slot, ov_after = after, ov_obj = obj, ov_ids = ids, ov_latch = latch\<rparr>) })"

definition eventbus_dword :: "proc_mem \<Rightarrow> u32 option option" where
  "eventbus_dword m =
     (if pm_base m = 0 \<or> \<not> readable m (pm_base m + EVENTBUS_OBJ_RVA) 8 then Some None
      else
        do { p \<leftarrow> rawptr m (pm_base m + EVENTBUS_OBJ_RVA);
             if p = 0 \<or> \<not> readable m (p + EVENTBUS_CODE_OFF) 4 then Some None
             else map_option Some (raw32 m (p + EVENTBUS_CODE_OFF)) })"

section \<open>Quest state\<close>

definition SESSION_GLOBAL_RVA :: u64 where "SESSION_GLOBAL_RVA = 0x7c52cd0"
definition QUEST_GUARD_OFFS :: "u64 list" where
  "QUEST_GUARD_OFFS = [0x1c530, 0x6c814, 0x6c818, 0x6c838, 0x6ccf4, 0x6ccfc, 0x1c108, 0x1beb8, 0x6c7fc, 0x6cd08]"

definition or_max32 :: "u32 option option \<Rightarrow> u32 option" where
  "or_max32 v = map_option (\<lambda>x. unwrap_or x (- 1)) v"

fun guard_fields :: "proc_mem \<Rightarrow> u64 \<Rightarrow> u64 list \<Rightarrow> (u32 \<times> u32) list option" where
  "guard_fields m g [] = Some []"
| "guard_fields m g (off # offs) =
     do { d \<leftarrow> or_max32 (probe_rd32 m (pm_base m + QUEST_MGR_GLOBAL_RVA + off));
          v \<leftarrow> (if g = 0 then Some (- 1) else or_max32 (probe_rd32 m (g + off)));
          rest \<leftarrow> guard_fields m g offs;
          Some ((d, v) # rest) }"

text \<open>The last two fields come from the session object, of which eight bytes have been checked.\<close>

definition quest_guard_note :: "proc_mem \<Rightarrow> ((u32 \<times> u32) list \<times> (u32 \<times> u32) option) option option" where
  "quest_guard_note m =
     (if pm_base m = 0 \<or> \<not> readable m (pm_base m + QUEST_MGR_GLOBAL_RVA) 8 then Some None
      else
        do { g \<leftarrow> rawptr m (pm_base m + QUEST_MGR_GLOBAL_RVA);
             fields \<leftarrow> guard_fields m g QUEST_GUARD_OFFS;
             sess \<leftarrow> ptr_or0 m (pm_base m + SESSION_GLOBAL_RVA);
             tail \<leftarrow> (if sess = 0 \<or> \<not> readable m (sess + 4) 8 then Some None
                      else do { s4 \<leftarrow> raw32 m (sess + 4); s4ac \<leftarrow> raw32 m (sess + 0x4ac); Some (Some (s4, s4ac)) });
             Some (Some (fields, tail)) })"

definition CONT_RVA :: u64 where "CONT_RVA = 0x7BCD6C8"
definition CTRL_RVA :: u64 where "CTRL_RVA = 0x7BCD6E8"

definition sync_words :: "proc_mem \<Rightarrow> u64 \<Rightarrow> (u64 \<times> (u32 \<times> u32) option \<times> (u32 \<times> u32 \<times> u32) option) option option" where
  "sync_words m a =
     (if \<not> readable m a 8 then Some None
      else
        do { p \<leftarrow> rawptr m a;
             direct \<leftarrow> (if readable m a 16 then do { x \<leftarrow> raw32 m a; y \<leftarrow> raw32 m (a + 4); Some (Some (x, y)) } else Some None);
             through \<leftarrow> (if p \<noteq> 0 \<and> readable m p 16
                         then do { x \<leftarrow> raw32 m p; y \<leftarrow> raw32 m (p + 4); z \<leftarrow> raw32 m (p + 8); Some (Some (x, y, z)) }
                         else Some None);
             Some (Some (p, direct, through)) })"

definition quest_sync_note where
  "quest_sync_note m =
     (if pm_base m = 0 then Some None
      else do { a \<leftarrow> sync_words m (pm_base m + CONT_RVA); b \<leftarrow> sync_words m (pm_base m + CTRL_RVA); Some (Some (a, b)) })"

definition ARR_RVA :: u64 where "ARR_RVA = 0x7C47850"

text \<open>One bucket: skipped when empty, otherwise its count and the newest record; the base pointer is read unchecked.\<close>

fun bucket_walk :: "proc_mem \<Rightarrow> u64 \<Rightarrow> (u64 \<times> u64) list \<Rightarrow> (nat \<times> (u32 \<times> u32 \<times> u8) option) list option" where
  "bucket_walk m p [] = Some []"
| "bucket_walk m p ((boff, coff) # bs) =
     (if \<not> readable m (p + coff) 4 then Some []
      else
        do { count \<leftarrow> raw32 m (p + coff);
             if count = 0 then bucket_walk m p bs
             else
               do { bptr \<leftarrow> rawptr m (p + boff);
                    rec \<leftarrow> (if bptr = 0 \<or> \<not> readable m bptr (unat count * 20) then Some None
                           else
                             do { let r = bptr + (ucast count - 1) * 20;
                                  kind \<leftarrow> raw32 m (r + 0xc); flag \<leftarrow> raw8 m (r + 0x12); code \<leftarrow> raw32 m r;
                                  Some (Some (code, kind, flag)) });
                    rest \<leftarrow> bucket_walk m p bs;
                    Some ((unat count, rec) # rest) } })"

definition quest_array_note :: "proc_mem \<Rightarrow> (nat \<times> (u32 \<times> u32 \<times> u8) option) list option option" where
  "quest_array_note m =
     (if pm_base m = 0 \<or> \<not> readable m (pm_base m + ARR_RVA) 8 then Some None
      else
        do { p \<leftarrow> rawptr m (pm_base m + ARR_RVA);
             if p = 0 then Some None
             else map_option Some (bucket_walk m p [(0x70, 0x80), (0x50, 0x60), (0x30, 0x40), (0x10, 0x20)]) })"

definition quest_action_note :: "proc_mem \<Rightarrow> (u32 \<times> u8) option option" where
  "quest_action_note m =
     (if pm_base m = 0 \<or> \<not> readable m (pm_base m + EVENTBUS_OBJ_RVA) 8 then Some None
      else
        do { p \<leftarrow> rawptr m (pm_base m + EVENTBUS_OBJ_RVA);
             if p = 0 then Some None
             else if \<not> readable m (p + 0x108) 8 then Some None
             else do { code \<leftarrow> raw32 m (p + 0x108); fin \<leftarrow> raw8 m (p + 0x1d4); Some (Some (code, fin)) } })"

section \<open>The asynchronous loader\<close>

definition ASYNC_MGR_GLOBAL_RVA :: u64 where "ASYNC_MGR_GLOBAL_RVA = 0x7c22728"
definition ASYNC_QUEUE_BEGIN_RVA :: u64 where "ASYNC_QUEUE_BEGIN_RVA = 0x71afbf0"
definition ASYNC_QUEUE_END_RVA :: u64 where "ASYNC_QUEUE_END_RVA = 0x71afbf8"
definition ASYNC_OP_HASH :: u32 where "ASYNC_OP_HASH = 0xA596AF73"
definition ASYNC_QUEUE_STRIDE :: nat where "ASYNC_QUEUE_STRIDE = 0x30"
definition ASYNC_VA_STRIDE :: nat where "ASYNC_VA_STRIDE = 0x20"
definition ASYNC_VB_STRIDE :: nat where "ASYNC_VB_STRIDE = 0x48"
definition ASYNC_M1_NODE_MAX :: nat where "ASYNC_M1_NODE_MAX = 8"
definition ASYNC_QUEUE_SCAN_MAX :: nat where "ASYNC_QUEUE_SCAN_MAX = 192"
definition ASYNC_VA_SCAN_MAX :: nat where "ASYNC_VA_SCAN_MAX = 64"
definition ASYNC_VB_SCAN_MAX :: nat where "ASYNC_VB_SCAN_MAX = 32"

text \<open>Present, length of the name (\<open>None\<close> is \<open>usize::MAX\<close>), truncated.\<close>

type_synonym m1_view = "(bool \<times> u64 option \<times> bool) option"

fun m1_walk :: "proc_mem \<Rightarrow> u64 \<Rightarrow> u64 \<Rightarrow> u32 \<Rightarrow> u64 \<Rightarrow> nat \<Rightarrow> m1_view option" where
  "m1_walk m mgr sentinel hash node 0 = Some (Some (False, None, True))"
| "m1_walk m mgr sentinel hash node (Suc left) =
     (if node = 0 \<or> node = sentinel \<or> node = mgr + 8 then Some (Some (False, None, False))
      else if \<not> readable m (node + 0x10) 4 then Some None
      else
        do { h \<leftarrow> raw32 m (node + 0x10);
             if h = hash then do { len \<leftarrow> probe_rdptr m (node + 0x28); Some (Some (True, len, False)) }
             else if \<not> readable m node 8 then Some None
             else do { next \<leftarrow> rawptr m node; m1_walk m mgr sentinel hash next left } })"

definition m1_read :: "proc_mem \<Rightarrow> u64 \<Rightarrow> u32 \<Rightarrow> m1_view option" where
  "m1_read m mgr hash =
     (if \<not> (readable m (mgr + 0x18) 8 \<and> readable m (mgr + 0x30) 4) then Some None
      else
        do { buckets \<leftarrow> rawptr m (mgr + 0x18);
             mask \<leftarrow> raw32 m (mgr + 0x30);
             let bp = buckets + (ucast mask AND ucast hash) * 8;
             if buckets = 0 then Some (Some (False, None, False))
             else if \<not> readable m bp 8 then Some (Some (False, None, False))
             else
               do { sentinel \<leftarrow> ptr_or0 m (mgr + 8);
                    node \<leftarrow> rawptr m bp;
                    m1_walk m mgr sentinel hash node ASYNC_M1_NODE_MAX } })"

definition queue_entry :: "proc_mem \<Rightarrow> u64 \<Rightarrow> (u32 \<times> u32) option" where
  "queue_entry m e = do { md \<leftarrow> raw32 m e; h \<leftarrow> raw32 m (e + 4); Some (md, h) }"

text \<open>Hits, total, mode of the first hit, truncated.\<close>

definition boot_queue_read :: "proc_mem \<Rightarrow> u32 \<Rightarrow> (nat \<times> nat \<times> u32 option \<times> bool) option option" where
  "boot_queue_read m hash =
     (if \<not> readable m (pm_base m + ASYNC_QUEUE_BEGIN_RVA) 8 \<or> \<not> readable m (pm_base m + ASYNC_QUEUE_END_RVA) 8 then Some None
      else
        do { qbeg \<leftarrow> rawptr m (pm_base m + ASYNC_QUEUE_BEGIN_RVA);
             qend \<leftarrow> rawptr m (pm_base m + ASYNC_QUEUE_END_RVA);
             if qbeg = 0 \<or> qend < qbeg then Some None
             else
               do { let total = unat (qend - qbeg) div ASYNC_QUEUE_STRIDE;
                    let scan = min total ASYNC_QUEUE_SCAN_MAX;
                    if scan = 0 then Some (Some (0, 0, None, False))
                    else if \<not> readable m qbeg (scan * ASYNC_QUEUE_STRIDE) then Some None
                    else
                      do { es \<leftarrow> each_entry (queue_entry m) ASYNC_QUEUE_STRIDE qbeg scan;
                           let hits = filter (\<lambda>(md, h). h = hash) es;
                           Some (Some (length hits, total, (case hits of [] \<Rightarrow> None | (md, _) # _ \<Rightarrow> Some md), scan < total)) } } })"

record async_state =
  as_mgr :: "u64 option"
  as_m1 :: m1_view
  as_q :: "(nat \<times> nat \<times> u32 option \<times> bool) option"
  as_va_total :: "nat option"
  as_va_scanned :: nat
  as_va_read :: nat
  as_va2 :: nat
  as_va_task :: "(u32 \<times> u32) option"
  as_va_task_ro :: bool
  as_vb_total :: "nat option"
  as_vb_scanned :: nat
  as_vb1h :: nat
  as_vb1 :: nat
  as_vb2 :: nat
  as_vb3 :: nat

definition async_blank :: async_state where
  "async_blank = \<lparr>as_mgr = None, as_m1 = None, as_q = None, as_va_total = None, as_va_scanned = 0, as_va_read = 0, as_va2 = 0,
     as_va_task = None, as_va_task_ro = False, as_vb_total = None, as_vb_scanned = 0, as_vb1h = 0, as_vb1 = 0, as_vb2 = 0, as_vb3 = 0\<rparr>"

text \<open>A task of vector A: no task, an unreadable one, or its state, hash and result.\<close>

datatype va_task = NoTask | TaskRo | Task u32 u32 u32

definition va_entry :: "proc_mem \<Rightarrow> u64 \<Rightarrow> va_task option" where
  "va_entry m el =
     do { task \<leftarrow> rawptr m (el + 0x18);
          if task = 0 then Some NoTask
          else if \<not> readable m (task + 0x110) 0x3c then Some TaskRo
          else do { st \<leftarrow> raw32 m (task + 0x110); h \<leftarrow> raw32 m (task + 0x148); res \<leftarrow> raw32 m (task + 0x140); Some (Task st h res) } }"

definition note_task :: "va_task \<Rightarrow> async_state \<Rightarrow> async_state" where
  "note_task t st =
     (case t of
        NoTask \<Rightarrow> st
      | TaskRo \<Rightarrow> st\<lparr>as_va_task_ro := True\<rparr>
      | Task s h res \<Rightarrow>
          st\<lparr>as_va_read := Suc (as_va_read st), as_va2 := as_va2 st + (if s = 2 then 1 else 0),
             as_va_task := (if h = ASYNC_OP_HASH \<and> as_va_task st = None then Some (s, res) else as_va_task st)\<rparr>)"

definition note_pending :: "u32 \<times> u32 \<Rightarrow> async_state \<Rightarrow> async_state" where
  "note_pending e st =
     (case e of (s, h) \<Rightarrow>
        if s = 1 then st\<lparr>as_vb1 := Suc (as_vb1 st), as_vb1h := as_vb1h st + (if h = ASYNC_OP_HASH then 1 else 0)\<rparr>
        else if s = 2 then st\<lparr>as_vb2 := Suc (as_vb2 st)\<rparr>
        else if s = 3 then st\<lparr>as_vb3 := Suc (as_vb3 st)\<rparr>
        else st)"

definition read_vector_a :: "proc_mem \<Rightarrow> u64 \<Rightarrow> async_state \<Rightarrow> async_state option" where
  "read_vector_a m mgr st =
     (if \<not> readable m (mgr + 0x40) 16 then Some st
      else
        do { b \<leftarrow> rawptr m (mgr + 0x40);
             e \<leftarrow> rawptr m (mgr + 0x48);
             if b = 0 \<or> e < b then Some st
             else
               do { let total = unat (e - b) div ASYNC_VA_STRIDE;
                    let scan = min total ASYNC_VA_SCAN_MAX;
                    if scan = 0 then Some (st\<lparr>as_va_total := Some 0\<rparr>)
                    else if \<not> readable m b (scan * ASYNC_VA_STRIDE) then Some st
                    else map_option (\<lambda>ts. fold note_task ts (st\<lparr>as_va_total := Some total, as_va_scanned := scan\<rparr>))
                           (each_entry (va_entry m) ASYNC_VA_STRIDE b scan) } })"

definition read_vector_b :: "proc_mem \<Rightarrow> u64 \<Rightarrow> async_state \<Rightarrow> async_state option" where
  "read_vector_b m mgr st =
     (if \<not> readable m (mgr + 0xd8) 16 then Some st
      else
        do { b \<leftarrow> rawptr m (mgr + 0xd8);
             e \<leftarrow> rawptr m (mgr + 0xe0);
             if b = 0 \<or> e < b then Some st
             else
               do { let total = unat (e - b) div ASYNC_VB_STRIDE;
                    let scan = min total ASYNC_VB_SCAN_MAX;
                    if scan = 0 then Some (st\<lparr>as_vb_total := Some 0\<rparr>)
                    else if \<not> readable m b (scan * ASYNC_VB_STRIDE) then Some st
                    else map_option (\<lambda>es. fold note_pending es (st\<lparr>as_vb_total := Some total, as_vb_scanned := scan\<rparr>))
                           (each_entry (queue_entry m) ASYNC_VB_STRIDE b scan) } })"

definition read_async_state :: "proc_mem \<Rightarrow> async_state option" where
  "read_async_state m =
     (if pm_base m = 0 \<or> \<not> readable m (pm_base m + ASYNC_MGR_GLOBAL_RVA) 8 then Some async_blank
      else
        do { mgr \<leftarrow> rawptr m (pm_base m + ASYNC_MGR_GLOBAL_RVA);
             if mgr = 0 then Some (async_blank\<lparr>as_mgr := Some 0\<rparr>)
             else
               do { m1 \<leftarrow> m1_read m mgr ASYNC_OP_HASH;
                    q \<leftarrow> boot_queue_read m ASYNC_OP_HASH;
                    st \<leftarrow> read_vector_a m mgr (async_blank\<lparr>as_mgr := Some mgr, as_m1 := m1, as_q := q\<rparr>);
                    read_vector_b m mgr st } })"

definition async_verdict :: "async_state \<Rightarrow> string" where
  "async_verdict st =
     (if as_va_total st = None \<or> as_vb_total st = None then ''ro''
      else case as_va_task st of
             Some (s, _) \<Rightarrow> if s = 2 then ''completed'' else if s = 1 then ''loading'' else ''-''
           | None \<Rightarrow>
               if (case as_q st of Some (hits, _) \<Rightarrow> 0 < hits | None \<Rightarrow> False) then ''queued''
               else case as_m1 st of
                      Some (True, _) \<Rightarrow> ''registered''
                    | Some (False, _) \<Rightarrow> if 0 < as_vb1h st then ''waited'' else ''none''
                    | None \<Rightarrow> if 0 < as_vb1h st then ''waited'' else ''-'')"

section \<open>Gate fields\<close>

definition RM_GLOBAL_RVA :: u64 where "RM_GLOBAL_RVA = 0x7ab2bb8"
definition RM_ARM3_OFF :: u64 where "RM_ARM3_OFF = 3 * 4 + 0x4e4"
definition RM_DONE3_OFF :: u64 where "RM_DONE3_OFF = 3 + 0x3e0"
definition RM_SKIP3_OFF :: u64 where "RM_SKIP3_OFF = 3 + 0x938"
definition RM_JOBS_A_OFF :: u64 where "RM_JOBS_A_OFF = 0xdd0"
definition RM_JOBS_B_OFF :: u64 where "RM_JOBS_B_OFF = 0xdd4"
definition QM_GLOBAL_RVA :: u64 where "QM_GLOBAL_RVA = 0x7c48628"
definition QM_SEL_OFF :: u64 where "QM_SEL_OFF = 0x6cce8"
definition QM_OBS0_OFF :: u64 where "QM_OBS0_OFF = 0x6c820"
definition QM_OBS1_OFF :: u64 where "QM_OBS1_OFF = 0x6c824"
definition QM_EXP0_OFF :: u64 where "QM_EXP0_OFF = 0x6c828"
definition QM_EXP1_OFF :: u64 where "QM_EXP1_OFF = 0x6c82c"
definition ISCONNECT_SESSION_OFF :: u64 where "ISCONNECT_SESSION_OFF = 0x158"
definition ISCONNECT_FLAG_OFF :: u64 where "ISCONNECT_FLAG_OFF = 0x60"
definition MODE3_GATE_HB_MS :: u64 where "MODE3_GATE_HB_MS = 5000"
definition SOLO_HEARTBEAT_MS :: u64 where "SOLO_HEARTBEAT_MS = 5000"
definition SOLO_PHASE_GLOBAL_RVA :: u64 where "SOLO_PHASE_GLOBAL_RVA = 0x7c52d20"
definition SOLO_JOINLOBBY_GLOBAL_RVA :: u64 where "SOLO_JOINLOBBY_GLOBAL_RVA = 0x71b43d8"
definition SOLO_JOINLOBBY_OBJ_OFF :: u64 where "SOLO_JOINLOBBY_OBJ_OFF = 0x20"
definition SOLO_JOINLOBBY_GATE_OFF :: u64 where "SOLO_JOINLOBBY_GATE_OFF = 0x1dc"
definition SOLO_MATCH_OFF :: u64 where "SOLO_MATCH_OFF = 0x6cd08"
definition SOLO_MATCH_RESULT_OFF :: u64 where "SOLO_MATCH_RESULT_OFF = 0x50"
definition SOLO_QUEST_OFFS :: "u64 list" where
  "SOLO_QUEST_OFFS = [0x1c530, 0x6c814, 0x6c838, 0x6ccf4, 0x6ccfc, 0x1c108, 0x1beb8, 0x6c7fc]"

text \<open>A field of an object, \<open>None\<close> when the pointer is null or unreadable.\<close>

definition field_of :: "(u64 \<Rightarrow> 'a option option) \<Rightarrow> u64 option \<Rightarrow> u64 \<Rightarrow> 'a option option" where
  "field_of rd p off = (case p of Some v \<Rightarrow> if v \<noteq> 0 then rd (v + off) else Some None | None \<Rightarrow> Some None)"

record match_fields =
  mf_sel :: "u8 option"
  mf_obs0 :: "u32 option"
  mf_obs1 :: "u32 option"
  mf_exp0 :: "u32 option"
  mf_exp1 :: "u32 option"

definition read_match :: "proc_mem \<Rightarrow> u64 option \<Rightarrow> match_fields option" where
  "read_match m qm =
     do { sel \<leftarrow> field_of (probe_rd8 m) qm QM_SEL_OFF;
          obs0 \<leftarrow> field_of (probe_rd32 m) qm QM_OBS0_OFF;
          obs1 \<leftarrow> field_of (probe_rd32 m) qm QM_OBS1_OFF;
          exp0 \<leftarrow> field_of (probe_rd32 m) qm QM_EXP0_OFF;
          exp1 \<leftarrow> field_of (probe_rd32 m) qm QM_EXP1_OFF;
          Some \<lparr>mf_sel = sel, mf_obs0 = obs0, mf_obs1 = obs1, mf_exp0 = exp0, mf_exp1 = exp1\<rparr> }"

definition canmatch :: "match_fields \<Rightarrow> bool option" where
  "canmatch f =
     do { s \<leftarrow> mf_sel f; o0 \<leftarrow> mf_obs0 f; o1 \<leftarrow> mf_obs1 f; e0 \<leftarrow> mf_exp0 f; e1 \<leftarrow> mf_exp1 f;
          Some (if s \<noteq> 0 then e1 = o1 else e0 = o0) }"

record mode3_view =
  m3_rm :: "u64 option"
  m3_arm3 :: "u32 option"
  m3_done3 :: "u8 option"
  m3_skip3 :: "u8 option"
  m3_jobs_a :: "u32 option"
  m3_jobs_b :: "u32 option"
  m3_qm :: "u64 option"
  m3_match :: match_fields
  m3_sess :: "u64 option"
  m3_net :: "u64 option"
  m3_online_raw :: "u8 option"

definition read_mode3 :: "proc_mem \<Rightarrow> mode3_view option" where
  "read_mode3 m =
     do { rm \<leftarrow> probe_rdptr m (pm_base m + RM_GLOBAL_RVA);
          arm3 \<leftarrow> field_of (probe_rd32 m) rm RM_ARM3_OFF;
          done3 \<leftarrow> field_of (probe_rd8 m) rm RM_DONE3_OFF;
          skip3 \<leftarrow> field_of (probe_rd8 m) rm RM_SKIP3_OFF;
          jobs_a \<leftarrow> field_of (probe_rd32 m) rm RM_JOBS_A_OFF;
          jobs_b \<leftarrow> field_of (probe_rd32 m) rm RM_JOBS_B_OFF;
          qm \<leftarrow> probe_rdptr m (pm_base m + QM_GLOBAL_RVA);
          mf \<leftarrow> read_match m qm;
          sess \<leftarrow> probe_rdptr m (pm_base m + SESSION_GLOBAL_RVA);
          net \<leftarrow> field_of (probe_rdptr m) sess ISCONNECT_SESSION_OFF;
          online_raw \<leftarrow> (if net = Some 0 then Some (Some 0) else field_of (probe_rd8 m) net ISCONNECT_FLAG_OFF);
          Some \<lparr>m3_rm = rm, m3_arm3 = arm3, m3_done3 = done3, m3_skip3 = skip3, m3_jobs_a = jobs_a, m3_jobs_b = jobs_b,
                m3_qm = qm, m3_match = mf, m3_sess = sess, m3_net = net, m3_online_raw = online_raw\<rparr> }"

text \<open>The change keys: FNV-1a over the readings, an unreadable one as \<open>u64::MAX\<close>.\<close>

definition FNV_OFFSET :: u64 where "FNV_OFFSET = 0xcbf29ce484222325"
definition FNV_PRIME :: u64 where "FNV_PRIME = 0x100000001b3"

definition mix :: "u64 option \<Rightarrow> u64 \<Rightarrow> u64" where
  "mix v h = (h XOR unwrap_or v (- 1)) * FNV_PRIME"

definition fnv1a :: "string \<Rightarrow> u64" where
  "fnv1a s = fold (\<lambda>b h. (h XOR ucast b) * FNV_PRIME) (as_bytes s) FNV_OFFSET"

definition up8 :: "u8 option \<Rightarrow> u64 option" where "up8 v = map_option ucast v"
definition up32 :: "u32 option \<Rightarrow> u64 option" where "up32 v = map_option ucast v"

definition match_words :: "match_fields \<Rightarrow> u64 option list" where
  "match_words f = [up8 (mf_sel f), up32 (mf_obs0 f), up32 (mf_obs1 f), up32 (mf_exp0 f), up32 (mf_exp1 f)]"

definition mode3_key :: "mode3_view \<Rightarrow> u64" where
  "mode3_key v =
     fold mix ([m3_rm v, up32 (m3_arm3 v), up8 (m3_done3 v), up8 (m3_skip3 v), up32 (m3_jobs_a v), up32 (m3_jobs_b v), m3_qm v] @
       match_words (m3_match v) @ [m3_sess v, m3_net v, up8 (m3_online_raw v)]) FNV_OFFSET"

text \<open>Emit on a changed key or when the heartbeat is due; the state is the last key and the time of the last line.\<close>

definition change_gate :: "u64 \<Rightarrow> u64 \<Rightarrow> u64 \<Rightarrow> u64 \<times> u64 \<Rightarrow> bool \<times> u64 \<times> u64" where
  "change_gate hb key now st =
     (case st of (last_key, last_at) \<Rightarrow>
        if key \<noteq> last_key \<or> last_at = 0 \<or> hb \<le> now - last_at then (True, key, now) else (False, key, last_at))"

definition mode3_gate_note :: "proc_mem \<Rightarrow> u64 \<Rightarrow> u64 \<times> u64 \<Rightarrow> (mode3_view option \<times> u64 \<times> u64) option" where
  "mode3_gate_note m now st =
     (if pm_base m = 0 then Some (None, st)
      else
        do { v \<leftarrow> read_mode3 m;
             Some (case change_gate MODE3_GATE_HB_MS (mode3_key v) now st of (fire, st') \<Rightarrow> (if fire then Some v else None, st')) })"

record solo_view =
  sv_phase :: "u32 option"
  sv_jl :: "u64 option"
  sv_jl_obj :: "u64 option"
  sv_jl_gate :: "u8 option"
  sv_match :: match_fields
  sv_arm3 :: "u32 option"
  sv_done3 :: "u8 option"
  sv_skip3 :: "u8 option"
  sv_qm :: "u64 option"
  sv_mat :: "u64 option"
  sv_m50 :: "u32 option"
  sv_quest :: "u32 option list"
  sv_async :: async_state

fun quest_fields :: "proc_mem \<Rightarrow> u64 option \<Rightarrow> u64 list \<Rightarrow> u32 option list option" where
  "quest_fields m qm [] = Some []"
| "quest_fields m qm (off # offs) =
     do { v \<leftarrow> field_of (probe_rd32 m) qm off; rest \<leftarrow> quest_fields m qm offs; Some (v # rest) }"

definition read_solo :: "proc_mem \<Rightarrow> solo_view option" where
  "read_solo m =
     do { ph \<leftarrow> probe_rdptr m (pm_base m + SOLO_PHASE_GLOBAL_RVA);
          phase \<leftarrow> field_of (probe_rd32 m) ph 0x34;
          jl \<leftarrow> probe_rdptr m (pm_base m + SOLO_JOINLOBBY_GLOBAL_RVA);
          jl_obj \<leftarrow> field_of (probe_rdptr m) jl SOLO_JOINLOBBY_OBJ_OFF;
          jl_gate \<leftarrow> field_of (probe_rd8 m) jl_obj SOLO_JOINLOBBY_GATE_OFF;
          qm \<leftarrow> probe_rdptr m (pm_base m + QM_GLOBAL_RVA);
          mf \<leftarrow> read_match m qm;
          rm \<leftarrow> probe_rdptr m (pm_base m + RM_GLOBAL_RVA);
          arm3 \<leftarrow> field_of (probe_rd32 m) rm RM_ARM3_OFF;
          done3 \<leftarrow> field_of (probe_rd8 m) rm RM_DONE3_OFF;
          skip3 \<leftarrow> field_of (probe_rd8 m) rm RM_SKIP3_OFF;
          quest \<leftarrow> quest_fields m qm SOLO_QUEST_OFFS;
          mat \<leftarrow> field_of (probe_rdptr m) qm SOLO_MATCH_OFF;
          m50 \<leftarrow> field_of (probe_rd32 m) mat SOLO_MATCH_RESULT_OFF;
          st \<leftarrow> read_async_state m;
          Some \<lparr>sv_phase = phase, sv_jl = jl, sv_jl_obj = jl_obj, sv_jl_gate = jl_gate, sv_match = mf, sv_arm3 = arm3, sv_done3 = done3,
                sv_skip3 = skip3, sv_qm = qm, sv_mat = mat, sv_m50 = m50, sv_quest = quest, sv_async = st\<rparr> }"

definition bit_of :: "bool \<Rightarrow> u64" where "bit_of b = (if b then 1 else 0)"

definition solo_key :: "solo_view \<Rightarrow> u64" where
  "solo_key v =
     (let q = as_q (sv_async v)
      in fold mix ([up32 (sv_phase v), sv_jl v, sv_jl_obj v, up8 (sv_jl_gate v)] @ match_words (sv_match v) @
           [map_option bit_of (canmatch (sv_match v)), up32 (sv_arm3 v), up8 (sv_done3 v), up8 (sv_skip3 v), sv_qm v, sv_mat v,
            up32 (sv_m50 v)] @ map up32 (sv_quest v) @
           [as_mgr (sv_async v),
            map_option (\<lambda>(present, len, tr). bit_of present OR push_bit 1 (unwrap_or len (- 1)) OR push_bit 33 (bit_of tr)) (as_m1 (sv_async v)),
            map_option (\<lambda>(hits, total, _). of_nat hits OR push_bit 32 (of_nat total)) q,
            up32 (Option.bind q (\<lambda>(_, _, md, _). md)),
            map_option (\<lambda>(_, _, _, tr). bit_of tr) q]) FNV_OFFSET)"

definition solo_sample_note :: "proc_mem \<Rightarrow> u64 \<Rightarrow> u64 \<times> u64 \<Rightarrow> (solo_view option \<times> u64 \<times> u64) option" where
  "solo_sample_note m now st =
     (if pm_base m = 0 then Some (None, st)
      else
        do { v \<leftarrow> read_solo m;
             Some (case change_gate SOLO_HEARTBEAT_MS (solo_key v) now st of (fire, st') \<Rightarrow> (if fire then Some v else None, st')) })"

section \<open>Gated reads do not fault\<close>

definition query_sound :: "proc_mem \<Rightarrow> bool" where
  "query_sound m \<longleftrightarrow>
     (\<forall>p r a. pm_query m p = Some r \<longrightarrow> rg_state r = MEM_COMMIT \<longrightarrow> page_has_read (rg_protect r) \<longrightarrow>
        rg_base r \<le> unat a \<longrightarrow> unat a < rg_base r + rg_size r \<longrightarrow> pm_byte m a \<noteq> None)"

named_theorems total_rule \<open>composition of operations that do not fault\<close>
named_theorems no_fault \<open>operations that do not fault on a memory with truthful queries\<close>

lemma those_total: "(\<And>x. x \<in> set xs \<Longrightarrow> x \<noteq> None) \<Longrightarrow> those xs \<noteq> None"
  by (induction xs) (auto split: option.split)

lemma unat_offset: "unat p + n < 2 ^ 64 \<Longrightarrow> j \<le> n \<Longrightarrow> unat (p + of_nat j) = unat p + j" for p :: u64
proof -
  assume b: "unat p + n < 2 ^ 64" "j \<le> n"
  then have j: "unat (of_nat j :: u64) = j" by (simp add: unat_of_nat)
  then show ?thesis using b by (simp add: unat_word_ariths(1))
qed

lemma readable_byte:
  assumes "query_sound m" "readable m p n" "j < n"
  shows "pm_byte m (p + of_nat j) \<noteq> None"
proof -
  obtain r where r: "pm_query m p = Some r" "rg_state r = MEM_COMMIT" "page_has_read (rg_protect r)" "rg_base r \<le> unat p"
    "unat p + n \<le> rg_base r + rg_size r" "unat p + n < 2 ^ 64"
    using assms(2) by (auto simp: readable_def split: option.splits)
  have "unat (p + of_nat j) = unat p + j" using unat_offset [OF r(6)] assms(3) by simp
  then have "rg_base r \<le> unat (p + of_nat j)" "unat (p + of_nat j) < rg_base r + rg_size r" using r(4,5) assms(3) by simp_all
  then show ?thesis using assms(1) r(1-3) unfolding query_sound_def by blast
qed

lemma raw_bytes_in:
  assumes "query_sound m" "readable m p n" "j + k \<le> n"
  shows "raw_bytes m (p + of_nat j) k \<noteq> None"
proof -
  have "pm_byte m (p + of_nat j + of_nat i) \<noteq> None" if "i < k" for i
    using readable_byte [OF assms(1,2), of "j + i"] assms(3) that by (simp add: add.assoc)
  then show ?thesis unfolding raw_bytes_def by (intro those_total) auto
qed

lemma raw_None: "raw m p n = None \<longleftrightarrow> raw_bytes m p n = None" "raw8 m p = None \<longleftrightarrow> raw_bytes m p 1 = None"
  "raw16 m p = None \<longleftrightarrow> raw_bytes m p 2 = None" "raw32 m p = None \<longleftrightarrow> raw_bytes m p 4 = None"
  "rawptr m p = None \<longleftrightarrow> raw_bytes m p 8 = None"
  by (simp_all add: raw_def raw8_def raw16_def raw32_def rawptr_def)

lemma gated_read: "query_sound m \<Longrightarrow> readable m p n \<Longrightarrow> k \<le> n \<Longrightarrow> raw_bytes m p k \<noteq> None"
  using raw_bytes_in [of m p n 0 k] by simp

lemma gated_exact [no_fault]:
  "query_sound m \<Longrightarrow> readable m p 8 \<Longrightarrow> rawptr m p \<noteq> None"
  "query_sound m \<Longrightarrow> readable m p 4 \<Longrightarrow> raw32 m p \<noteq> None"
  "query_sound m \<Longrightarrow> readable m p 1 \<Longrightarrow> raw8 m p \<noteq> None"
  "query_sound m \<Longrightarrow> readable m p n \<Longrightarrow> raw_bytes m p n \<noteq> None"
  by (simp_all only: raw_None gated_read [OF _ _ order_refl] not_False_eq_True simp_thms)

lemma gated_probes [no_fault]:
  assumes "query_sound m"
  shows "probe_rd32 m p \<noteq> None" "probe_rd8 m p \<noteq> None" "probe_rdptr m p \<noteq> None" "ptr_or0 m p \<noteq> None" "field32 m p off \<noteq> None"
  using gated_exact [OF assms] by (simp_all add: probe_rd32_def probe_rd8_def probe_rdptr_def ptr_or0_def field32_def)

lemma gated_fields [no_fault]:
  assumes "query_sound m"
  shows "field_of (probe_rd32 m) p off \<noteq> None" "field_of (probe_rd8 m) p off \<noteq> None" "field_of (probe_rdptr m) p off \<noteq> None"
  using gated_probes [OF assms] by (simp_all add: field_of_def split: option.split)

lemma bind_total [total_rule, no_fault]: "x \<noteq> None \<Longrightarrow> (\<And>v. x = Some v \<Longrightarrow> f v \<noteq> None) \<Longrightarrow> Option.bind x f \<noteq> None"
  by (cases x) auto

lemma pure_total [total_rule, no_fault]: "Some v \<noteq> None" "x \<noteq> None \<Longrightarrow> map_option f x \<noteq> None"
  by simp_all

lemma if_total [total_rule, no_fault]: "(c \<Longrightarrow> x \<noteq> None) \<Longrightarrow> (\<not> c \<Longrightarrow> y \<noteq> None) \<Longrightarrow> (if c then x else y) \<noteq> None"
  by simp

lemma case_total [total_rule, no_fault]:
  "(x = None \<Longrightarrow> g \<noteq> None) \<Longrightarrow> (\<And>v. x = Some v \<Longrightarrow> f v \<noteq> None) \<Longrightarrow> (case x of None \<Rightarrow> g | Some v \<Rightarrow> f v) \<noteq> None"
  "(\<And>a b. p = (a, b) \<Longrightarrow> h a b \<noteq> None) \<Longrightarrow> (case p of (a, b) \<Rightarrow> h a b) \<noteq> None"
  by (auto split: option.split prod.split)

lemma std_string_ok [no_fault]: "query_sound m \<Longrightarrow> read_std_string m obj \<noteq> None"
  unfolding read_std_string_def by (intro no_fault) blast+

text \<open>A field inside a block that has been checked as a whole.\<close>

lemma gated_within:
  assumes "query_sound m" "readable m p n" "a = p + of_nat j"
  shows "j + 8 \<le> n \<Longrightarrow> rawptr m a \<noteq> None" "j + 4 \<le> n \<Longrightarrow> raw32 m a \<noteq> None" "j + 2 \<le> n \<Longrightarrow> raw16 m a \<noteq> None"
    "j + 1 \<le> n \<Longrightarrow> raw8 m a \<noteq> None"
  using raw_bytes_in [OF assms(1,2), of j] by (simp_all only: raw_None assms(3) not_False_eq_True)

lemma each_entry_total:
  "(\<And>i. i < n \<Longrightarrow> f (e + of_nat (i * stride)) \<noteq> None) \<Longrightarrow> each_entry f stride e n \<noteq> None"
proof (induction n arbitrary: e)
  case (Suc n)
  have "f e \<noteq> None" using Suc.prems [of 0] by simp
  moreover have "each_entry f stride (e + of_nat stride) n \<noteq> None"
    using Suc.prems [of "Suc _"] by (intro Suc.IH) (simp add: add.assoc)
  ultimately show ?case by (auto intro!: no_fault)
qed simp

lemma container_ok [no_fault]: "query_sound m \<Longrightarrow> member_list_container m \<noteq> None"
  unfolding member_list_container_def by (intro no_fault) blast+

lemma container_readable: "member_list_container m = Some (Some members) \<Longrightarrow> readable m (members + 0x50) 24"
  by (auto simp: member_list_container_def bind_eq_Some_conv split: if_splits)

lemma entries_ok [no_fault]: "query_sound m \<Longrightarrow> member_entries m \<noteq> None"
proof -
  assume q: "query_sound m"
  have "rawptr m (members + 0x50) \<noteq> None" "rawptr m (members + 0x58) \<noteq> None" if "member_list_container m = Some (Some members)" for members
    using gated_within(1) [OF q container_readable [OF that], of _ 0] gated_within(1) [OF q container_readable [OF that], of _ 8]
    by (simp_all add: add.assoc)
  then show ?thesis unfolding member_entries_def using container_ok [OF q] by (intro total_rule) blast+
qed

lemma work_ok [no_fault]: "query_sound m \<Longrightarrow> entry_work m e \<noteq> None"
  unfolding entry_work_def by (intro no_fault) blast+

lemma slot_ok [no_fault]: "query_sound m \<Longrightarrow> read_slot m e \<noteq> None"
  unfolding read_slot_def by (intro no_fault) blast+

lemma walk_ok [no_fault]: "query_sound m \<Longrightarrow> has_entity_walk m eid e n \<noteq> None"
proof (induction n arbitrary: e)
  case (Suc n)
  show ?case unfolding has_entity_walk.simps using Suc.prems Suc.IH by (intro no_fault) blast+
qed simp

lemma has_entity_ok: "query_sound m \<Longrightarrow> member_list_has_entity m eid \<noteq> None"
  unfolding member_list_has_entity_def by (intro no_fault) blast+

lemma slots_ok: "query_sound m \<Longrightarrow> collect_member_slots m \<noteq> None"
  unfolding collect_member_slots_def by (intro no_fault each_entry_total) blast+

lemma ready_row_ok:
  assumes "query_sound m" "readable m p n" "e = p + of_nat j" "j + READY_STRIDE \<le> n"
  shows "ready_row_at m e \<noteq> None"
proof -
  note w = gated_within [OF assms(1,2), of _ "j + _"]
  have "raw32 m e \<noteq> None" "raw32 m (e + 4) \<noteq> None" "raw8 m (e + 0x10) \<noteq> None" "raw8 m (e + 0x40) \<noteq> None"
    using assms(3,4) w(2) [of _ 0] w(2) [of _ 4] w(4) [of _ "0x10"] w(4) [of _ "0x40"] by (simp_all add: add.assoc READY_STRIDE_def)
  then show ?thesis unfolding ready_row_at_def by (intro total_rule) blast+
qed

lemma row_fits: "i < n div k \<Longrightarrow> i * k + k \<le> n" for i n k :: nat
  by (metis Suc_leI add.commute div_times_less_eq_dividend mult_Suc mult_le_mono1 order_trans)

lemma ready_rows_ok:
  "query_sound m \<Longrightarrow> readable m b n \<Longrightarrow> each_entry (ready_row_at m) READY_STRIDE b (n div READY_STRIDE) \<noteq> None"
  by (intro each_entry_total) (rule ready_row_ok [OF _ _ refl row_fits])

lemma ready_list_ok: "query_sound m \<Longrightarrow> ready_list_note m \<noteq> None"
proof -
  assume q: "query_sound m"
  have "raw8 m (obj + 0x50) \<noteq> None" "rawptr m (obj + 0x58) \<noteq> None" "rawptr m (obj + 0x60) \<noteq> None" if "readable m (obj + 0x50) 24" for obj
    using gated_within(4) [OF q that, of _ 0] gated_within(1) [OF q that, of _ 8] gated_within(1) [OF q that, of _ 16]
    by (simp_all add: add.assoc)
  then show ?thesis unfolding ready_list_note_def using gated_exact(1) [OF q] ready_rows_ok [OF q]
    by (intro total_rule) blast+
qed

lemma connect_gate_ok:
  "query_sound m \<Longrightarrow> log_connect_gate_inputs m \<noteq> None"
  "query_sound m \<Longrightarrow> connect_gate_party_invitation m \<noteq> None"
  unfolding log_connect_gate_inputs_def connect_gate_party_invitation_def by (intro no_fault; blast)+

lemma overlay_object_ok [no_fault]: "query_sound m \<Longrightarrow> overlay_object m \<noteq> None"
  unfolding overlay_object_def by (intro no_fault) blast+

lemma id_table_ok [no_fault]: "query_sound m \<Longrightarrow> id_table_note m \<noteq> None"
  unfolding id_table_note_def id_filled_def by (intro no_fault each_entry_total) blast+

lemma overlay_ok: "query_sound m \<Longrightarrow> append_overlay_note m \<noteq> None"
proof -
  assume q: "query_sound m"
  have "raw32 m (mgr + 0x6c814) \<noteq> None" "raw16 m (mgr + 0x6c818) \<noteq> None" if "readable m (mgr + 0x6c814) 6" for mgr
    using gated_within(2) [OF q that, of _ 0] gated_within(3) [OF q that, of _ 4] by (simp_all add: add.assoc)
  then show ?thesis unfolding append_overlay_note_def
    using q gated_exact(1) [OF q] gated_probes(4) [OF q] overlay_object_ok [OF q] id_table_ok [OF q] by (intro total_rule) blast+
qed

lemma eventbus_ok: "query_sound m \<Longrightarrow> eventbus_dword m \<noteq> None"
  unfolding eventbus_dword_def by (intro no_fault) blast+

lemma sync_words_ok [no_fault]: "query_sound m \<Longrightarrow> sync_words m a \<noteq> None"
proof -
  assume q: "query_sound m"
  have "raw32 m p \<noteq> None" "raw32 m (p + 4) \<noteq> None" "raw32 m (p + 8) \<noteq> None" if "readable m p 16" for p
    using gated_within(2) [OF q that, of _ 0] gated_within(2) [OF q that, of _ 4] gated_within(2) [OF q that, of _ 8] by simp_all
  then show ?thesis unfolding sync_words_def using gated_exact(1) [OF q] by (intro total_rule) blast+
qed

lemma quest_sync_ok: "query_sound m \<Longrightarrow> quest_sync_note m \<noteq> None"
  unfolding quest_sync_note_def by (intro no_fault) blast+

lemma m1_walk_ok [no_fault]: "query_sound m \<Longrightarrow> m1_walk m mgr sentinel hash node n \<noteq> None"
proof (induction n arbitrary: node)
  case (Suc n)
  show ?case unfolding m1_walk.simps using Suc.prems Suc.IH by (intro no_fault) blast+
qed simp

lemma m1_ok [no_fault]: "query_sound m \<Longrightarrow> m1_read m mgr hash \<noteq> None"
  unfolding m1_read_def Let_def by (intro no_fault) blast+

text \<open>Vectors read in prefixes: the check covers what is scanned.\<close>

lemma queue_entries_ok:
  assumes "query_sound m" "readable m b (n * stride)" "8 \<le> stride"
  shows "each_entry (queue_entry m) stride b n \<noteq> None"
proof (rule each_entry_total)
  fix i assume "i < n"
  then have fit: "i * stride + stride \<le> n * stride" by (metis Suc_leI add.commute mult_Suc mult_le_mono1)
  have "raw32 m (b + of_nat (i * stride)) \<noteq> None" "raw32 m (b + of_nat (i * stride) + 4) \<noteq> None"
    using fit assms(3) gated_within(2) [OF assms(1,2), of _ "i * stride"] gated_within(2) [OF assms(1,2), of _ "i * stride + 4"]
    by (simp_all add: add.assoc)
  then show "queue_entry m (b + of_nat (i * stride)) \<noteq> None" unfolding queue_entry_def by (intro total_rule) blast+
qed

lemma boot_queue_ok [no_fault]: "query_sound m \<Longrightarrow> boot_queue_read m hash \<noteq> None"
  unfolding boot_queue_read_def Let_def ASYNC_QUEUE_STRIDE_def by (intro no_fault queue_entries_ok) (blast | simp)+

lemma va_entries_ok:
  assumes "query_sound m" "readable m b (n * ASYNC_VA_STRIDE)"
  shows "each_entry (va_entry m) ASYNC_VA_STRIDE b n \<noteq> None"
proof (rule each_entry_total)
  fix i assume "i < n"
  then have fit: "i * ASYNC_VA_STRIDE + ASYNC_VA_STRIDE \<le> n * ASYNC_VA_STRIDE" by (metis Suc_leI add.commute mult_Suc mult_le_mono1)
  have "rawptr m (b + of_nat (i * ASYNC_VA_STRIDE) + 0x18) \<noteq> None"
    using fit gated_within(1) [OF assms, of _ "i * ASYNC_VA_STRIDE + 0x18"] by (simp add: add.assoc ASYNC_VA_STRIDE_def)
  moreover have "raw32 m (t + 0x110) \<noteq> None" "raw32 m (t + 0x148) \<noteq> None" "raw32 m (t + 0x140) \<noteq> None" if "readable m (t + 0x110) 0x3c" for t
    using gated_within(2) [OF assms(1) that, of _ 0] gated_within(2) [OF assms(1) that, of _ "0x38"]
      gated_within(2) [OF assms(1) that, of _ "0x30"] by (simp_all add: add.assoc)
  ultimately show "va_entry m (b + of_nat (i * ASYNC_VA_STRIDE)) \<noteq> None" unfolding va_entry_def by (intro total_rule) blast+
qed

lemma vector_ends:
  assumes "query_sound m" "readable m p 16"
  shows "rawptr m p \<noteq> None" "rawptr m (p + 8) \<noteq> None"
  using gated_within(1) [OF assms, of _ 0] gated_within(1) [OF assms, of _ 8] by simp_all

lemma vectors_ok [no_fault]:
  "query_sound m \<Longrightarrow> read_vector_a m mgr st \<noteq> None" "query_sound m \<Longrightarrow> read_vector_b m mgr st \<noteq> None"
proof -
  assume q: "query_sound m"
  have "rawptr m (mgr + 0x48) \<noteq> None" if "readable m (mgr + 0x40) 16"
    using vector_ends(2) [OF q that] by (simp add: add.assoc)
  then show "read_vector_a m mgr st \<noteq> None" unfolding read_vector_a_def Let_def
    using vector_ends(1) [OF q] va_entries_ok [OF q] by (intro total_rule) blast+
  have "rawptr m (mgr + 0xe0) \<noteq> None" if "readable m (mgr + 0xd8) 16"
    using vector_ends(2) [OF q that] by (simp add: add.assoc)
  moreover have "each_entry (queue_entry m) ASYNC_VB_STRIDE b n \<noteq> None" if "readable m b (n * ASYNC_VB_STRIDE)" for b n
    using queue_entries_ok [OF q that] by (simp add: ASYNC_VB_STRIDE_def)
  ultimately show "read_vector_b m mgr st \<noteq> None" unfolding read_vector_b_def Let_def
    using vector_ends(1) [OF q] by (intro total_rule) blast+
qed

lemma async_ok [no_fault]: "query_sound m \<Longrightarrow> read_async_state m \<noteq> None"
  unfolding read_async_state_def by (intro no_fault) blast+

lemma match_ok [no_fault]: "query_sound m \<Longrightarrow> read_match m qm \<noteq> None"
  unfolding read_match_def by (intro no_fault) blast+

lemma quest_fields_ok [no_fault]: "query_sound m \<Longrightarrow> quest_fields m qm offs \<noteq> None"
proof (induction offs)
  case (Cons off offs)
  then show ?case unfolding quest_fields.simps by (intro no_fault) blast+
qed simp

lemma mode3_ok: "query_sound m \<Longrightarrow> mode3_gate_note m now st \<noteq> None"
  unfolding mode3_gate_note_def read_mode3_def by (intro no_fault) blast+

lemma solo_ok: "query_sound m \<Longrightarrow> solo_sample_note m now st \<noteq> None"
  unfolding solo_sample_note_def read_solo_def by (intro no_fault) blast+

section \<open>Whole pages\<close>

text \<open>
  A concrete process: committed readable pages given by their number, each with the bytes that are
  not zero. Every other page is free.
\<close>

type_synonym page = "nat \<times> (nat \<times> u8) list"

definition page_mem :: "page list \<Rightarrow> u64 \<Rightarrow> proc_mem" where
  "page_mem ps b =
     \<lparr>pm_query = (\<lambda>p. map_option (\<lambda>_. \<lparr>rg_base = unat p div 4096 * 4096, rg_size = 4096, rg_state = MEM_COMMIT, rg_protect = 0x04\<rparr>)
                    (map_of ps (unat p div 4096))),
      pm_byte = (\<lambda>p. map_option (\<lambda>bs. unwrap_or (map_of bs (unat p mod 4096)) 0) (map_of ps (unat p div 4096))),
      pm_base = b\<rparr>"

lemma same_page: "unat p div 4096 * 4096 \<le> n \<Longrightarrow> n < unat p div 4096 * 4096 + 4096 \<Longrightarrow> n div 4096 = unat p div 4096" for p :: u64
  by linarith

lemma page_mem_sound: "query_sound (page_mem ps b)"
proof -
  have "pm_byte (page_mem ps b) a \<noteq> None" if "pm_query (page_mem ps b) p = Some r" "rg_base r \<le> unat a" "unat a < rg_base r + rg_size r" for p r a
  proof -
    have r: "rg_base r = unat p div 4096 * 4096" "rg_size r = 4096" "map_of ps (unat p div 4096) \<noteq> None"
      using that(1) by (auto simp: page_mem_def)
    have "unat a div 4096 = unat p div 4096" using that(2,3) unfolding r(1,2) by (intro same_page)
    then show ?thesis using r(3) by (simp add: page_mem_def)
  qed
  then show ?thesis unfolding query_sound_def by blast
qed

definition le_field :: "nat \<Rightarrow> nat \<Rightarrow> (nat \<times> u8) list" where
  "le_field off v = map (\<lambda>i. (off + i, of_nat (v div 256 ^ i))) [0..<8]"

definition one_member :: proc_mem where
  "one_member = page_mem
     [(0x147c52, le_field 0xce0 0x10000000),
      (0x10000, le_field 0x50 0x10000100 @ le_field 0x58 0x10000120 @ le_field 0x118 0x10000200 @ le_field 0x218 0x10000300 @
         [(0x338, 0x61), (0x339, 0x62)] @ le_field 0x348 2 @ le_field 0x350 15 @ [(0x370, 1)])] 0x140000000"

definition torn_objects :: proc_mem where
  "torn_objects = page_mem
     [(0x147c23, le_field 0x3c0 0x10000ef0), (0x147c52, le_field 0xcd0 0x20000c00), (0x147c48, []),
      (0x147c47, le_field 0x850 0x30000f80), (0x1471af, le_field 0xb30 0x40000fa0),
      (0x10000, []), (0x20000, []), (0x30001, [(0, 1)]), (0x40001, [])] 0x140000000"

lemma ab_text: "utf8_lossy [char_of_u8 97, char_of_u8 98] = ''ab''"
  by code_simp

lemma page_readable [simp]:
  "readable (page_mem ps b) p n \<longleftrightarrow>
     p \<noteq> 0 \<and> n \<noteq> 0 \<and> unat p + n < 2 ^ 64 \<and> map_of ps (unat p div 4096) \<noteq> None \<and> unat p + n \<le> unat p div 4096 * 4096 + 4096"
  by (auto simp: readable_def page_mem_def page_has_read_def PAGE_GUARD_def min_def split: option.split)

lemma page_base [simp]: "pm_base (page_mem ps b) = b"
  by (simp add: page_mem_def)

lemma page_byte [simp]: "pm_byte (page_mem ps b) p = map_option (\<lambda>bs. unwrap_or (map_of bs (unat p mod 4096)) 0) (map_of ps (unat p div 4096))"
  by (simp add: page_mem_def)

lemmas raw_eval = raw8_def raw16_def raw32_def rawptr_def raw_def raw_bytes_def upt_rec le_field_def le_nat_def

lemma torn_readable:
  "readable torn_objects 0x147c233c0 8" "readable torn_objects 0x10000ff8 8" "readable torn_objects 0x147c52cd0 8"
  "readable torn_objects 0x20000c04 8" "readable torn_objects 0x147c48628 8" "readable torn_objects 0x147c47850 8"
  "readable torn_objects 0x30001000 4" "readable torn_objects 0x1471afb30 8" "readable torn_objects 0x40001000 16"
  by (simp_all add: torn_objects_def)

lemma torn_pointers:
  "rawptr torn_objects 0x147c233c0 = Some 0x10000ef0" "rawptr torn_objects 0x147c52cd0 = Some 0x20000c00"
  "rawptr torn_objects 0x147c48628 = Some 0" "rawptr torn_objects 0x147c47850 = Some 0x30000f80"
  "rawptr torn_objects 0x1471afb30 = Some 0x40000fa0" "raw32 torn_objects 0x30001000 = Some 1"
  by (simp_all add: torn_objects_def raw_eval)

lemma torn_gaps:
  "raw8 torn_objects 0x100010c4 = None" "raw32 torn_objects 0x200010ac = None" "rawptr torn_objects 0x30000ff0 = None"
  "raw8 torn_objects 0x40000ff0 = None"
  by (simp_all add: torn_objects_def raw_eval)

lemma torn_base: "pm_base torn_objects = 0x140000000"
  by (simp add: torn_objects_def)

lemma torn_sound: "query_sound torn_objects"
  unfolding torn_objects_def by (rule page_mem_sound)

lemmas torn = torn_readable torn_pointers torn_gaps torn_base

text \<open>
  Four probes do not keep to the gate: each checks one field of an object and then reads another.
  There is a process whose queries are truthful and in which all four fault, because the object
  lies across the boundary of a committed and a free page.
\<close>
theorem unchecked_probes_fault:
  "\<exists>m. query_sound m \<and> quest_action_note m = None \<and> quest_guard_note m = None \<and> quest_array_note m = None \<and> queue_rows_note m = None"
proof -
  have "quest_action_note torn_objects = None" by (simp add: quest_action_note_def EVENTBUS_OBJ_RVA_def torn)
  moreover have "quest_array_note torn_objects = None" by (simp add: quest_array_note_def ARR_RVA_def torn)
  moreover have "queue_rows_note torn_objects = None" by (simp add: queue_rows_note_def READY_LIST_GLOBAL_RVA_def torn)
  moreover have "quest_guard_note torn_objects = None"
    by (simp add: quest_guard_note_def QUEST_MGR_GLOBAL_RVA_def SESSION_GLOBAL_RVA_def ptr_or0_def probe_rdptr_def torn)
  ultimately show ?thesis using torn_sound by blast
qed

section \<open>What the gate gives\<close>

lemma each_entry_length: "each_entry f stride e n = Some xs \<Longrightarrow> length xs = n"
  by (induction n arbitrary: e xs) (auto simp: bind_eq_Some_conv)

lemma member_entries_bounded: "member_entries m = Some (Some (b, n)) \<Longrightarrow> n \<le> 16"
  by (auto simp: member_entries_def entry_range_def bind_eq_Some_conv split: option.splits if_splits)

lemma slot_hit:
  assumes "query_sound m" "eid \<noteq> []"
  shows "do { flagobj \<leftarrow> entry_work m e;
              (if flagobj = 0 then Some False else map_option (\<lambda>s. s = eid) (read_std_string m (flagobj + 0x38))) } =
         map_option (\<lambda>s. ms_eid s = eid) (read_slot m e)"
proof -
  obtain w where w: "entry_work m e = Some w" using work_ok [OF assms(1)] by blast
  have f: "\<exists>v. field32 m w off = Some v" for off using gated_probes(5) [OF assms(1)] by blast
  obtain i u a r where "field32 m w 0x68 = Some i" "field32 m w 8 = Some u" "field32 m w 0xa0 = Some a" "field32 m w 0x6c = Some r"
    using f [of "0x68"] f [of 8] f [of "0xa0"] f [of "0x6c"] by blast
  moreover obtain b where "probe_rd8 m (w + 0x70) = Some b" using gated_probes(2) [OF assms(1)] by blast
  moreover obtain str where "read_std_string m (w + 0x38) = Some str" using std_string_ok [OF assms(1)] by blast
  ultimately show ?thesis using w assms(2) by (simp add: read_slot_def)
qed

lemma walk_matches_slots:
  assumes "query_sound m" "eid \<noteq> []"
  shows "each_entry (read_slot m) 0x20 e n = Some slots \<Longrightarrow> has_entity_walk m eid e n = Some (\<exists>s \<in> set slots. ms_eid s = eid)"
proof (induction n arbitrary: e slots)
  case (Suc n)
  then obtain s rest where s: "read_slot m e = Some s" "each_entry (read_slot m) 0x20 (e + 0x20) n = Some rest" "slots = s # rest"
    by (auto simp: bind_eq_Some_conv)
  obtain w where w: "entry_work m e = Some w" using work_ok [OF assms(1)] by blast
  have "(if w = 0 then Some False else map_option (\<lambda>s. s = eid) (read_std_string m (w + 0x38))) = Some (ms_eid s = eid)"
    using slot_hit [OF assms, of e] s(1) w by simp
  then show ?case using Suc.IH [OF s(2)] s(3) w by simp
qed simp

lemma member_walk_agrees:
  assumes "query_sound m" "eid \<noteq> []"
  shows "\<exists>slots. collect_member_slots m = Some slots \<and> length slots \<le> 16 \<and>
           member_list_has_entity m eid = Some (\<exists>s \<in> set slots. ms_eid s = eid)"
proof -
  obtain slots where slots: "collect_member_slots m = Some slots" using slots_ok [OF assms(1)] by blast
  then obtain r where r: "member_entries m = Some r" by (auto simp: collect_member_slots_def bind_eq_Some_conv)
  show ?thesis
  proof (cases r)
    case None
    then show ?thesis using slots r by (simp add: collect_member_slots_def member_list_has_entity_def)
  next
    case (Some bn)
    obtain b n where bn: "bn = (b, n)" by (cases bn)
    have each: "each_entry (read_slot m) 0x20 b n = Some slots" using slots r Some bn by (simp add: collect_member_slots_def)
    show ?thesis using walk_matches_slots [OF assms each] each_entry_length [OF each] member_entries_bounded r Some bn slots
      by (auto simp: member_list_has_entity_def)
  qed
qed

text \<open>The runtime asks the member list of the game it runs in.\<close>

definition game_host :: "proc_mem \<Rightarrow> host \<Rightarrow> host" where
  "game_host m hs = hs\<lparr>hs_has_member := (\<lambda>eid. member_list_has_entity m eid = Some True)\<rparr>"

lemma ensure_remote_asks: "fst (ensure_remote hs np eid ip port w) \<Longrightarrow> eid \<noteq> [] \<and> hs_has_member hs eid"
  by (auto simp: ensure_remote_def Let_def split: if_splits option.splits)

text \<open>
  C34: in a process whose memory queries are truthful, the walk over the member list of the
  game reads at most 16 members and does not fault, it finds a nonempty entity id exactly when
  one of these members has it, and a remote peer is announced to the game only when one of
  them is that peer.
\<close>

theorem announced_peer_is_member:
  assumes "query_sound m"
  shows "\<exists>slots. collect_member_slots m = Some slots \<and> length slots \<le> 16 \<and>
           (eid \<noteq> [] \<longrightarrow> member_list_has_entity m eid = Some (\<exists>s \<in> set slots. ms_eid s = eid)) \<and>
           (fst (ensure_remote (game_host m hs) np eid ip port w) \<longrightarrow> (\<exists>s \<in> set slots. ms_eid s = eid))"
proof (cases "eid = []")
  case True
  obtain slots where "collect_member_slots m = Some slots" "length slots \<le> 16" using member_walk_agrees [OF assms, of "''x''"] by auto
  then show ?thesis using True ensure_remote_asks by blast
next
  case False
  obtain slots where s: "collect_member_slots m = Some slots" "length slots \<le> 16"
    "member_list_has_entity m eid = Some (\<exists>s \<in> set slots. ms_eid s = eid)"
    using member_walk_agrees [OF assms False] by blast
  have "(\<exists>s \<in> set slots. ms_eid s = eid)" if "fst (ensure_remote (game_host m hs) np eid ip port w)"
    using ensure_remote_asks [OF that] s(3) by (simp add: game_host_def)
  then show ?thesis using s by blast
qed

lemma one_member_entry:
  "readable one_member 0x147c52ce0 8" "rawptr one_member 0x147c52ce0 = Some 0x10000000" "readable one_member 0x10000050 24"
  "rawptr one_member 0x10000050 = Some 0x10000100" "rawptr one_member 0x10000058 = Some 0x10000120" "readable one_member 0x10000100 32"
  "readable one_member 0x10000118 8" "rawptr one_member 0x10000118 = Some 0x10000200"
  "readable one_member 0x10000218 8" "rawptr one_member 0x10000218 = Some 0x10000300" "pm_base one_member = 0x140000000"
  by (simp_all add: one_member_def raw_eval)

lemma one_member_string:
  "readable one_member 0x10000350 8" "rawptr one_member 0x10000350 = Some 15" "readable one_member 0x10000348 8"
  "rawptr one_member 0x10000348 = Some 2" "readable one_member 0x10000338 2" "raw_bytes one_member 0x10000338 2 = Some [0x61, 0x62]"
  by (simp_all add: one_member_def raw_eval)

lemma one_member_found: "member_list_has_entity one_member ''ab'' = Some True"
proof -
  have "member_entries one_member = Some (Some (0x10000100, 1))"
    by (simp add: member_entries_def member_list_container_def MEMBER_LIST_GLOBAL_RVA_def entry_range_def one_member_entry)
  moreover have "entry_work one_member 0x10000100 = Some 0x10000300"
    by (simp add: entry_work_def ptr_or0_def probe_rdptr_def one_member_entry)
  moreover have "read_std_string one_member 0x10000338 = Some ''ab''"
    by (simp add: read_std_string_def one_member_string of_bytes_def ab_text)
  ultimately show ?thesis by (simp add: member_list_has_entity_def)
qed

lemma one_member_sound: "query_sound one_member"
  unfolding one_member_def by (rule page_mem_sound)

definition demo_joined :: world where
  "demo_joined = upd_net 1 (\<lambda>n. n\<lparr>n_connect_completed := True, n_local_endpoint := 4, n_type10_delivered := True\<rparr>) world_init"

lemma demo_announced: "fst (ensure_remote (game_host one_member demo_host) 1 ''ab'' ''10.0.0.2'' 27015 demo_joined)"
  by (simp add: ensure_remote_def demo_joined_def upd_net_def world_init_def local_entity_def game_host_def one_member_found)

theorem announced_peer_is_member_witness:
  "fst (ensure_remote (game_host one_member demo_host) 1 ''ab'' ''10.0.0.2'' 27015 demo_joined) \<and>
   (\<exists>slots. collect_member_slots one_member = Some slots \<and> length slots \<le> 16 \<and> (\<exists>s \<in> set slots. ms_eid s = ''ab''))"
  using announced_peer_is_member [OF one_member_sound, of "''ab''" demo_host 1 "''10.0.0.2''" 27015 demo_joined] demo_announced by blast



end
