(* ===== verification/Party_Diag.thy ===== *)
theory Party_Diag
  imports Party_Runtime
begin

text \<open>
  \<open>party-shim/src/lib.rs\<close>: what the shim logs, and the state it keeps for that. The rate limit of hot
  log lines, the log file, the gates of probes and heartbeats, the table of calling threads, the
  table of event codes, the counters of messages, the traffic lines and the ledger line. A log
  call gives the lines it writes; \<open>dbg\<close> is \<open>debug_enabled()\<close> and \<open>hex\<close> is \<open>log_hex_all()\<close>, both fixed
  for the life of a process. Every call reads the clock once.
\<close>

section \<open>Rate limit\<close>

type_synonym throttle = "(string, instant \<times> u32) hmap"

text \<open>\<open>Some n\<close> when a line is written, with the number of calls suppressed before it.\<close>

definition log_throttled :: "instant \<Rightarrow> string \<Rightarrow> throttle \<Rightarrow> u32 option \<times> throttle" where
  "log_throttled now key g =
     (case unwrap_or (hm_get g key) (now, 0) of
        (since, n) \<Rightarrow>
          if 10 ^ 9 \<le> max 0 (now - since) then (Some n, hm_insert g key (now, 0))
          else (None, hm_insert g key (since, n + 1)))"

definition throttled_text :: "string \<Rightarrow> u32 \<Rightarrow> string" where
  "throttled_text msg n = (if 0 < n then msg @ '' [+'' @ show_nat (unat n) @ '' more in the previous second]'' else msg)"

text \<open>The lazy variant builds the text from the count, and only when the line is written.\<close>

definition log_throttled_lazy :: "instant \<Rightarrow> string \<Rightarrow> (u32 \<Rightarrow> string) \<Rightarrow> throttle \<Rightarrow> string list \<times> throttle" where
  "log_throttled_lazy now key f g =
     (case log_throttled now key g of (None, g') \<Rightarrow> ([], g') | (Some n, g') \<Rightarrow> ([throttled_text (f n) n], g'))"

definition debug_log :: "bool \<Rightarrow> string \<Rightarrow> string list" where
  "debug_log dbg msg = (if dbg then [msg] else [])"

definition debug_throttled_lazy :: "bool \<Rightarrow> instant \<Rightarrow> string \<Rightarrow> (u32 \<Rightarrow> string) \<Rightarrow> throttle \<Rightarrow> string list \<times> throttle" where
  "debug_throttled_lazy dbg now key f g = (if dbg then log_throttled_lazy now key f g else ([], g))"

section \<open>The log file\<close>

text \<open>
  The handle is the time it was opened. Opening can fail, and a write can fail after part of the
  line; what the disk does is \<open>disk\<close>.
\<close>

record log_file =
  lf_opened :: "instant option"
  lf_truncated :: bool
  lf_text :: string

record disk =
  dk_open :: bool
  dk_written :: "nat option"

definition LOG_REOPEN_MS :: int where "LOG_REOPEN_MS = 5000"

definition log_line :: "instant \<Rightarrow> nat \<Rightarrow> disk \<Rightarrow> string \<Rightarrow> log_file \<Rightarrow> log_file" where
  "log_line now secs dk msg lf =
     (let line = ''['' @ show_nat secs @ ''] '' @ msg @ [CHR 0x0A];
          stale = (case lf_opened lf of None \<Rightarrow> True | Some t \<Rightarrow> LOG_REOPEN_MS * 10 ^ 6 \<le> max 0 (now - t));
          lf1 = (if \<not> stale then lf
                 else if dk_open dk then lf\<lparr>lf_opened := Some now, lf_truncated := True, lf_text := (if lf_truncated lf then lf_text lf else [])\<rparr>
                 else lf\<lparr>lf_truncated := True\<rparr>)
      in if stale \<and> \<not> dk_open dk then lf1
         else case dk_written dk of
                None \<Rightarrow> lf1\<lparr>lf_text := lf_text lf1 @ line\<rparr>
              | Some k \<Rightarrow> lf1\<lparr>lf_opened := None, lf_text := lf_text lf1 @ take k line\<rparr>)"

section \<open>Gates\<close>

definition PROBE_PASS_MS :: u64 where "PROBE_PASS_MS = 200"
definition TRANSPORT_HEARTBEAT_MS :: u64 where "TRANSPORT_HEARTBEAT_MS = 30000"
definition DEBUG_HEARTBEAT_MS :: u64 where "DEBUG_HEARTBEAT_MS = 5000"
definition LEDGER_HEARTBEAT_MS :: u64 where "LEDGER_HEARTBEAT_MS = 30000"

definition heartbeat_ms :: "bool \<Rightarrow> u64" where
  "heartbeat_ms dbg = (if dbg then DEBUG_HEARTBEAT_MS else TRANSPORT_HEARTBEAT_MS)"

definition ledger_heartbeat_ms :: "bool \<Rightarrow> u64" where
  "ledger_heartbeat_ms dbg = (if dbg then DEBUG_HEARTBEAT_MS else LEDGER_HEARTBEAT_MS)"

record pass_gate =
  pg_last :: u64
  pg_run :: u64
  pg_skipped :: u64

definition probe_tick_due :: "u64 \<Rightarrow> pass_gate \<Rightarrow> bool \<times> pass_gate" where
  "probe_tick_due now g =
     (if pg_last g \<noteq> 0 \<and> now - pg_last g < PROBE_PASS_MS then (False, g\<lparr>pg_skipped := pg_skipped g + 1\<rparr>)
      else (True, g\<lparr>pg_last := now, pg_run := pg_run g + 1\<rparr>))"

text \<open>The time of the last ledger line and the number of skipped ticks.\<close>

definition ledger_hb_due :: "bool \<Rightarrow> u64 \<Rightarrow> u64 \<times> u64 \<Rightarrow> bool \<times> u64 \<times> u64" where
  "ledger_hb_due dbg now st =
     (case st of (last_ms, skipped) \<Rightarrow>
        if last_ms \<noteq> 0 \<and> now - last_ms < ledger_heartbeat_ms dbg then (False, last_ms, skipped + 1) else (True, now, skipped))"

section \<open>Calling threads\<close>

definition THREAD_SLOTS :: nat where "THREAD_SLOTS = 8"

record thread_table =
  tt_tids :: "u32 list"
  tt_counts :: "u64 list"
  tt_distinct :: u32
  tt_total :: u64
  tt_overflow :: bool

definition thread_table_new :: thread_table where
  "thread_table_new = \<lparr>tt_tids = replicate THREAD_SLOTS 0, tt_counts = replicate THREAD_SLOTS 0, tt_distinct = 0, tt_total = 0, tt_overflow = False\<rparr>"

text \<open>The slot of the thread, or else the first free slot, if there is one.\<close>

fun slot_scan :: "u32 \<Rightarrow> nat \<Rightarrow> nat option \<Rightarrow> u32 list \<Rightarrow> nat + nat option" where
  "slot_scan tid i free [] = Inr free"
| "slot_scan tid i free (t # ts) =
     (if t = tid then Inl i else slot_scan tid (Suc i) (if t = 0 \<and> free = None then Some i else free) ts)"

text \<open>
  The call has two atomic parts: it counts and looks for its slot, and, when it has none, tries
  to take the free one it saw, which another thread may have taken meanwhile.
\<close>

definition note_thread_scan :: "u32 \<Rightarrow> thread_table \<Rightarrow> nat option \<times> thread_table" where
  "note_thread_scan tid t =
     (let t1 = t\<lparr>tt_total := tt_total t + 1\<rparr>
      in case slot_scan tid 0 None (tt_tids t) of
           Inl i \<Rightarrow> (None, t1\<lparr>tt_counts := (tt_counts t)[i := tt_counts t ! i + 1]\<rparr>)
         | Inr None \<Rightarrow> (None, t1\<lparr>tt_overflow := True\<rparr>)
         | Inr (Some i) \<Rightarrow> (Some i, t1))"

definition note_thread_take :: "u32 \<Rightarrow> nat \<Rightarrow> thread_table \<Rightarrow> thread_table" where
  "note_thread_take tid i t =
     (if tt_tids t ! i = 0
      then t\<lparr>tt_tids := (tt_tids t)[i := tid], tt_counts := (tt_counts t)[i := 1], tt_distinct := tt_distinct t + 1\<rparr>
      else t)"

fun show_hex_nat :: "nat \<Rightarrow> string" where
  "show_hex_nat n = (if n < 16 then [hex_digit n] else show_hex_nat (n div 16) @ [hex_digit (n mod 16)])"

declare show_hex_nat.simps [simp del]

text \<open>The format \<open>{:#x}\<close>.\<close>

definition show_hexp :: "'a::len word \<Rightarrow> string" where
  "show_hexp w = ''0x'' @ show_hex_nat (unat w)"

definition thread_probe_note :: "u32 \<Rightarrow> thread_table \<Rightarrow> string" where
  "thread_probe_note now t =
     (let parts = map (\<lambda>(tid, n). show_hexp tid @ '':'' @ show_nat (unat n)) (filter (\<lambda>(tid, _). tid \<noteq> 0) (zip (tt_tids t) (tt_counts t)))
      in ''threads='' @ show_nat (unat (tt_distinct t)) @ '' now='' @ show_hexp now @ '' ['' @
         join '' '' (parts @ (if tt_overflow t then [''overflow''] else [])) @ '']'')"

section \<open>Event codes\<close>

definition EVENTBUS_SLOTS :: nat where "EVENTBUS_SLOTS = 16"

record eventbus_table =
  eb_slots :: "(u32 \<times> u64) list"
  eb_last :: "u32 option"
  eb_seen :: u64
  eb_missing :: u64
  eb_overflow :: u64

text \<open>\<open>eb_slots\<close> holds the filled part of the array, \<open>distinct\<close> is its length.\<close>

definition eventbus_new :: eventbus_table where
  "eventbus_new = \<lparr>eb_slots = [], eb_last = None, eb_seen = 0, eb_missing = 0, eb_overflow = 0\<rparr>"

fun eb_bump :: "u32 \<Rightarrow> (u32 \<times> u64) list \<Rightarrow> (u64 \<times> (u32 \<times> u64) list) option" where
  "eb_bump v [] = None"
| "eb_bump v ((x, n) # ss) =
     (if x = v then Some (n + 1, (x, n + 1) # ss) else map_option (\<lambda>(c, ss'). (c, (x, n) # ss')) (eb_bump v ss))"

definition eb_record :: "u32 \<Rightarrow> eventbus_table \<Rightarrow> bool \<times> u64 \<times> eventbus_table" where
  "eb_record v t =
     (let t1 = t\<lparr>eb_seen := eb_seen t + 1, eb_last := Some v\<rparr>
      in case eb_bump v (eb_slots t) of
           Some (c, ss) \<Rightarrow> (False, c, t1\<lparr>eb_slots := ss\<rparr>)
         | None \<Rightarrow>
             if length (eb_slots t) < EVENTBUS_SLOTS then (True, 1, t1\<lparr>eb_slots := eb_slots t @ [(v, 1)]\<rparr>)
             else (False, 0, t1\<lparr>eb_overflow := eb_overflow t + 1\<rparr>))"

definition eventbus_line :: "u32 \<Rightarrow> u32 option \<Rightarrow> bool \<Rightarrow> u64 \<Rightarrow> eventbus_table \<Rightarrow> string" where
  "eventbus_line v prev first count t =
     ''solo_eventbus v=0x'' @ show_hex08 v @ '' prev='' @ (case prev of None \<Rightarrow> ''ro'' | Some p \<Rightarrow> ''0x'' @ show_hex08 p) @
     '' count='' @ show_nat (unat count) @ '' distinct='' @ show_nat (length (eb_slots t)) @ '' seen='' @ show_nat (unat (eb_seen t)) @
     '' first='' @ (if first then ''1'' else ''0'') @ '' missing='' @ show_nat (unat (eb_missing t)) @ '' overflow='' @ show_nat (unat (eb_overflow t))"

text \<open>The reading is \<open>None\<close> when the object or the field is not readable.\<close>

definition note_eventbus :: "u32 option \<Rightarrow> eventbus_table \<Rightarrow> string list \<times> eventbus_table" where
  "note_eventbus reading t =
     (case reading of
        None \<Rightarrow> ([], t\<lparr>eb_missing := eb_missing t + 1\<rparr>)
      | Some v \<Rightarrow>
          (case eb_record v t of (first, count, t') \<Rightarrow>
             (if eb_last t \<noteq> Some v then [eventbus_line v (eb_last t) first count t'] else [], t')))"

section \<open>Lines written once\<close>

definition log_send_options_once :: "bool \<Rightarrow> u32 \<Rightarrow> u32 list \<Rightarrow> string list \<times> u32 list" where
  "log_send_options_once dbg options seen =
     (if options \<in> set seen then ([], seen)
      else
        (debug_log dbg (''send options word 0x'' @ show_hex08 options @ '' decoded: '' @ decode_options options @ '' (mode='' @
           unwrap_or (mode_name (mode_index options)) [] @ '', '' @
           (if guaranteed options then ''guaranteed: pending+retransmit+ack enabled'' else ''best-effort: no retransmit'') @
           ''), first use of this value''),
         seen @ [options]))"

definition log_big_send_once :: "bool \<Rightarrow> nat \<Rightarrow> u32 \<Rightarrow> bool \<Rightarrow> string list \<times> bool" where
  "log_big_send_once dbg len options written =
     (if written then ([], True)
      else
        (debug_log dbg (''send payload len='' @ show_nat len @ '' > 1400 options=0x'' @ show_hex08 options @
           '': Party documents fragmentation/reassembly but shim sends one datagram per message''), True))"

text \<open>One line per source address; \<open>src\<close> is the address in text form, \<open>preview\<close> at most 16 bytes of the datagram.\<close>

definition log_wire_mismatch :: "string \<Rightarrow> nat \<Rightarrow> bytes \<Rightarrow> (string, u64) hmap \<Rightarrow> string list \<times> (string, u64) hmap" where
  "log_wire_mismatch src len preview seen =
     (let n = unwrap_or (hm_get seen src) 0 + 1;
          magic = (if 4 \<le> length preview then hex_preview (take 4 preview) 4 else ''len<4 ('' @ show_nat len @ '')'');
          ver = (if 5 < length preview then preview ! 5 else 0)
      in (if n \<noteq> 1 then []
          else [''PROTOCOL/VERSION MISMATCH from='' @ src @ '' datagram_len='' @ show_nat len @ '' magic=['' @ magic @ ''] version='' @
                show_nat (unat ver) @ '' expected magic=GBFR version='' @ show_nat (unat (version True)) @
                '': dropping (no legacy fallback); further mismatches from this peer suppressed''],
          hm_insert seen src n))"

section \<open>Message counters\<close>

record rel_counts =
  rc_sent :: u64
  rc_retransmitted :: u64
  rc_acked :: u64
  rc_dup_dropped :: u64
  rc_ooo_dropped :: u64
  rc_ooo_queued :: u64
  rc_evicted :: u64

definition rel_counts_default :: rel_counts where
  "rel_counts_default = \<lparr>rc_sent = 0, rc_retransmitted = 0, rc_acked = 0, rc_dup_dropped = 0, rc_ooo_dropped = 0, rc_ooo_queued = 0, rc_evicted = 0\<rparr>"

definition rel_bump :: "nat \<Rightarrow> (rel_counts \<Rightarrow> rel_counts) \<Rightarrow> rel_counts list \<Rightarrow> rel_counts list option" where
  "rel_bump mode f g = (if mode < length g then Some (g[mode := f (g ! mode)]) else None)"

definition rel_text :: "nat \<Rightarrow> rel_counts \<Rightarrow> string" where
  "rel_text i c =
     unwrap_or (mode_name i) [] @ ''(sent='' @ show_nat (unat (rc_sent c)) @ '' retransmitted='' @ show_nat (unat (rc_retransmitted c)) @
     '' acked='' @ show_nat (unat (rc_acked c)) @ '' dup-dropped='' @ show_nat (unat (rc_dup_dropped c)) @
     '' out-of-order-dropped='' @ show_nat (unat (rc_ooo_dropped c)) @ '' out-of-order-queued='' @ show_nat (unat (rc_ooo_queued c)) @
     '' evicted='' @ show_nat (unat (rc_evicted c)) @ '')''"

definition rel_idle :: "rel_counts \<Rightarrow> bool" where
  "rel_idle c \<longleftrightarrow> rc_sent c OR rc_retransmitted c OR rc_acked c OR rc_dup_dropped c OR rc_ooo_dropped c OR rc_ooo_queued c OR rc_evicted c = 0"

definition reliable_stats_note :: "rel_counts list \<Rightarrow> string" where
  "reliable_stats_note g =
     (let parts = map (\<lambda>(i, c). rel_text i c) (filter (\<lambda>(_, c). \<not> rel_idle c) (enumerate 0 g))
      in if parts = [] then ''reliable=none'' else ''reliable '' @ join '' '' parts)"

record msg_stats =
  st_send :: u64
  st_recv :: u64
  st_send_ops :: "(u32, u64) hmap"
  st_recv_ops :: "(u32, u64) hmap"
  st_last :: instant

definition op_bump :: "u32 \<Rightarrow> (u32, u64) hmap \<Rightarrow> (u32, u64) hmap" where
  "op_bump opn m = hm_insert m opn (unwrap_or (hm_get m opn) 0 + 1)"

definition fmt_ops :: "(u32, u64) hmap \<Rightarrow> string" where
  "fmt_ops m = join '','' (map (\<lambda>(opn, c). show_nat (unat opn) @ '':'' @ show_nat (unat c)) (sort_key fst m))"

text \<open>The tail of the line, the counters of the two threads, is an argument.\<close>

definition bump_msg_stats :: "bool \<Rightarrow> instant \<Rightarrow> rel_counts list \<Rightarrow> pass_gate \<Rightarrow> string \<Rightarrow> string \<Rightarrow> u32 \<Rightarrow> msg_stats \<Rightarrow> string list \<times> msg_stats" where
  "bump_msg_stats dbg now rel pg tail dir opn g =
     (let g1 = (if dir = ''send'' then g\<lparr>st_send := st_send g + 1, st_send_ops := op_bump opn (st_send_ops g)\<rparr>
                else g\<lparr>st_recv := st_recv g + 1, st_recv_ops := op_bump opn (st_recv_ops g)\<rparr>);
          elapsed = max 0 (now - st_last g);
          due = (if dbg then 5 * 10 ^ 9 \<le> elapsed \<or> (st_send g1 + st_recv g1) mod 50 = 0 else 30 * 10 ^ 9 \<le> elapsed)
      in if \<not> due then ([], g1)
         else
           (debug_log dbg (''msg_stats send='' @ show_nat (unat (st_send g1)) @ '' recv='' @ show_nat (unat (st_recv g1)) @
              '' send_ops='' @ fmt_ops (st_send_ops g1) @ '' recv_ops='' @ fmt_ops (st_recv_ops g1) @ '' '' @ reliable_stats_note rel @
              '' probes_run='' @ show_nat (unat (pg_run pg)) @ '' probes_skipped='' @ show_nat (unat (pg_skipped pg)) @ tail),
            g1\<lparr>st_last := now\<rparr>))"

definition should_log_payload :: "bool \<Rightarrow> string \<Rightarrow> (string, u32) hmap \<Rightarrow> bool \<times> (string, u32) hmap" where
  "should_log_payload hex key g =
     (if hex then (True, g)
      else
        (let n = unwrap_or (hm_get g key) 0 + 1
         in (n \<le> 16 \<or> n = 50 \<or> n = 100 \<or> n mod 250 = 0, hm_insert g key n)))"

section \<open>Idle times\<close>

record idle_times =
  id_any_tx :: u64
  id_any_rx :: u64
  id_act_tx :: u64
  id_act_rx :: u64
  id_hb_tx :: u64
  id_hb_rx :: u64

definition idle_note :: "u64 \<Rightarrow> string \<Rightarrow> u32 \<Rightarrow> u32 \<Rightarrow> idle_times \<Rightarrow> idle_times" where
  "idle_note now dir opn sub t =
     (if dir = ''send'' then
        (let t1 = t\<lparr>id_any_tx := now\<rparr>
         in if opn = 2 \<and> sub = 40 then t1\<lparr>id_act_tx := now\<rparr> else if opn = 2 \<and> sub = 65 then t1\<lparr>id_hb_tx := now\<rparr> else t1)
      else
        (let t1 = t\<lparr>id_any_rx := now\<rparr>
         in if opn = 9 then t1\<lparr>id_act_rx := now\<rparr> else if opn = 2 \<and> sub = 65 then t1\<lparr>id_hb_rx := now\<rparr> else t1))"

text \<open>The age that \<open>idle_age\<close> prints, in milliseconds.\<close>

definition idle_age :: "u64 \<Rightarrow> u64 \<Rightarrow> u64 option" where
  "idle_age seen now = (if seen = 0 then None else Some (saturating_sub now seen))"

section \<open>Traffic lines\<close>

definition is_ascii_graphic :: "u8 \<Rightarrow> bool" where
  "is_ascii_graphic b \<longleftrightarrow> 0x21 \<le> b \<and> b \<le> 0x7e"

definition opcode3_entity :: "bytes \<Rightarrow> string" where
  "opcode3_entity payload =
     (if length payload \<le> 0x22 then []
      else
        (let rest = drop 0x22 payload; s = take 32 (takeWhile (\<lambda>b. b \<noteq> 0) rest)
         in if s = [] then '' ent@+22=empty''
            else if list_all is_ascii_graphic s then '' ent@+22='' @ utf8_lossy (of_bytes s)
            else '' ent@+22hex=['' @ hex_preview rest 16 @ '']''))"

definition show_or_q :: "u32 option \<Rightarrow> string" where
  "show_or_q v = (case v of None \<Rightarrow> ''?'' | Some x \<Rightarrow> show_nat (unat x))"

definition joinpub_name :: "bytes \<Rightarrow> string" where
  "joinpub_name payload =
     (if 0x2DA < length payload then
        (let rest = take 0x28 (takeWhile (\<lambda>b. b \<noteq> 0) (drop 0x2DA payload))
         in if rest = [] then ''empty''
            else if list_all (\<lambda>b. is_ascii_graphic b \<or> b = 0x20) rest then utf8_lossy (of_bytes rest)
            else ''hex=['' @ hex_preview (drop 0x2DA payload) 0x28 @ '']'')
      else ''n/a(len='' @ show_nat (length payload) @ '')'')"

definition log_join_publish :: "bool \<Rightarrow> string \<Rightarrow> string \<Rightarrow> bytes \<Rightarrow> u64 \<Rightarrow> string list \<times> u64" where
  "log_join_publish dbg dir extra payload logged =
     (let opn = unwrap_or (u32le payload 0) 0; sub = unwrap_or (u32le payload 4) 0; len = length payload
      in if \<not> (opn = 3 \<and> sub = 7 \<or> opn = 2 \<and> 600 \<le> len) then ([], logged)
         else if 128 \<le> logged then
           (if logged = 128 then debug_log dbg ''joinpub backstop hit (128 join-publish lines); further joinpub suppressed'' else [], logged + 1)
         else
           (debug_log dbg (''joinpub '' @ dir @ '' len='' @ show_nat len @ '' sub='' @ show_nat (unat sub) @ '' w+00='' @ show_or_q (u32le payload 0) @
              '' w+10='' @ show_or_q (u32le payload 0x10) @ '' name@+2DA='' @ joinpub_name payload @ '' '' @ extra @ '' hex=['' @
              hex_preview payload (min len 1024) @ '']''), logged + 1))"

definition quest_text :: "u32 \<Rightarrow> u32 \<Rightarrow> bytes \<Rightarrow> string" where
  "quest_text opn sub payload =
     (if opn = 2 \<and> sub = 0x5A then '' ord@+10='' @ show_or_q (u32le payload 0x10) @ '' quest@+14='' @ show_or_q (u32le payload 0x14)
      else if opn = 3 \<and> sub = 0xC then
        '' members@+38=['' @ join '','' (map (\<lambda>i. show_or_q (u32le payload (0x38 + i * 4))) [0..<4]) @ '']''
      else if opn = 3 \<and> sub = 0xE then
        '' ord@+2B4='' @ show_or_q (u32le payload 0x2B4) @ '' flag@+30C='' @
        (if 0x30C < length payload then show_nat (unat (payload ! 0x30C)) else ''?'')
      else [])"

text \<open>The marks of the session that a message sets.\<close>

record marks =
  mk_sub5_sent :: bool
  mk_snapshot :: bool
  mk_snapshot_ms :: u64
  mk_sub7_sent :: bool
  mk_sub7_recv :: bool

definition note_snapshot :: "u64 \<Rightarrow> marks \<Rightarrow> marks" where
  "note_snapshot now k = k\<lparr>mk_snapshot := True, mk_snapshot_ms := (if mk_snapshot_ms k = 0 then now else mk_snapshot_ms k)\<rparr>"

definition payload_marks :: "u64 \<Rightarrow> string \<Rightarrow> u32 \<Rightarrow> u32 \<Rightarrow> nat \<Rightarrow> marks \<Rightarrow> marks" where
  "payload_marks now dir opn sub len k =
     (let k1 = (if dir = ''send'' \<and> opn = 3 \<and> sub = 5 then k\<lparr>mk_sub5_sent := True\<rparr> else k);
          k2 = (if dir = ''send'' \<and> is_chara_snapshot opn len then note_snapshot now k1 else k1)
      in if opn = 3 \<and> sub = 7 then (if dir = ''send'' then k2\<lparr>mk_sub7_sent := True\<rparr> else k2\<lparr>mk_sub7_recv := True\<rparr>) else k2)"

record traffic =
  tr_marks :: marks
  tr_idle :: idle_times
  tr_stats :: msg_stats
  tr_samples :: "(string, u32) hmap"
  tr_joinpub :: u64

definition traffic_line :: "string \<Rightarrow> string \<Rightarrow> bytes \<Rightarrow> string" where
  "traffic_line dir extra payload =
     (let opn = unwrap_or (u32le payload 0) 0;
          sub_tag = (if dir = ''send'' \<and> opn \<in> {2, 3} then (case u32le payload 4 of None \<Rightarrow> [] | Some s \<Rightarrow> '' sub='' @ show_nat (unat s)) else [])
      in dir @ '' opcode='' @ show_nat (unat opn) @ '' len='' @ show_nat (length payload) @ sub_tag @ '' '' @ extra)"

definition hex_line :: "string \<Rightarrow> string \<Rightarrow> bytes \<Rightarrow> string" where
  "hex_line dir extra payload =
     (let opn = unwrap_or (u32le payload 0) 0; sub = unwrap_or (u32le payload 4) 0;
          quest_sync = (opn = 2 \<and> sub = 0x5A \<or> opn = 3 \<and> 0xC \<le> sub \<and> sub \<le> 0xE);
          nhex = min (length payload) (if quest_sync then 1024 else 72)
      in dir @ ''_hex opcode='' @ show_nat (unat opn) @ '' len='' @ show_nat (length payload) @ '' '' @ extra @ '' '' @ payload_hints payload @
         (if opn = 3 then opcode3_entity payload else []) @ quest_text opn sub payload @ '' hex=['' @ hex_preview payload nhex @ '']'')"

definition sample_key :: "string \<Rightarrow> bytes \<Rightarrow> string" where
  "sample_key dir payload =
     dir @ '':'' @ show_nat (unat (unwrap_or (u32le payload 0) 0)) @ '':'' @ show_nat (unat (unwrap_or (u32le payload 4) 0)) @ '':'' @ show_nat (length payload)"

definition log_payload ::
  "bool \<Rightarrow> bool \<Rightarrow> instant \<Rightarrow> u64 \<Rightarrow> rel_counts list \<Rightarrow> pass_gate \<Rightarrow> string \<Rightarrow> string \<Rightarrow> string \<Rightarrow> bytes \<Rightarrow> traffic \<Rightarrow> string list \<times> traffic" where
  "log_payload dbg hex now now_ms rel pg tail dir extra payload t =
     (let opn = unwrap_or (u32le payload 0) 0; sub = unwrap_or (u32le payload 4) 0;
          (ls, stats) = bump_msg_stats dbg now rel pg tail dir opn (tr_stats t);
          t1 = t\<lparr>tr_idle := idle_note now_ms dir opn sub (tr_idle t),
                 tr_marks := payload_marks now_ms dir opn sub (length payload) (tr_marks t), tr_stats := stats\<rparr>
      in if \<not> dbg \<and> \<not> hex then (ls, t1)
         else
           (let ls1 = ls @ debug_log dbg (traffic_line dir extra payload);
                (sampled, samples) = should_log_payload hex (sample_key dir payload) (tr_samples t);
                t2 = t1\<lparr>tr_samples := samples\<rparr>
            in if \<not> sampled then (ls1, t2)
               else
                 (let (js, n) = log_join_publish dbg dir extra payload (tr_joinpub t)
                  in (ls1 @ debug_log dbg (hex_line dir extra payload) @ js, t2\<lparr>tr_joinpub := n\<rparr>))))"

section \<open>Ledger and export trace\<close>

definition fmt_type_counts :: "u64 list \<Rightarrow> string" where
  "fmt_type_counts counts =
     (let parts = map (\<lambda>(ty, n). show_nat ty @ ''x'' @ show_nat (unat n)) (filter (\<lambda>(_, n). 0 < n) (enumerate 0 counts))
      in if parts = [] then ''-'' else join '' '' parts)"

definition type12_hold_part :: "host \<Rightarrow> pnet \<Rightarrow> string" where
  "type12_hold_part hs n =
     ''id='' @ id_str (n_descriptor n) @ '' remotes='' @ show_nat (length (n_remotes n)) @ '' held_ms='' @
     show_nat (case n_type12_hold_start n of None \<Rightarrow> 0 | Some t \<Rightarrow> nat (elapsed_ns hs t div 10 ^ 6))"

definition type12_hold_note :: "host \<Rightarrow> world \<Rightarrow> string" where
  "type12_hold_note hs w =
     (let held = filter (\<lambda>np. np \<noteq> 0 \<and> n_type10_delivered (w_nets w np) \<and> \<not> n_type12_delivered (w_nets w np) \<and> n_remotes (w_nets w np) \<noteq> [])
                   (h_networks (w_h w));
          parts = map (\<lambda>np. type12_hold_part hs (w_nets w np)) held
      in if parts = [] then ''none'' else join '' '' parts)"

definition ledger_text :: "host \<Rightarrow> u64 \<Rightarrow> world \<Rightarrow> string \<Rightarrow> string" where
  "ledger_text hs hb_skipped w tag =
     (let h = w_h w; lg = h_ledger h; num = (\<lambda>v :: u64. show_nat (unat v))
      in ''delivery ledger['' @ tag @ ''] pending='' @ show_nat (length (h_pending h)) @ '' in_flight='' @ show_nat (length (h_in_flight h)) @
         '' batches='' @ num (lg_batches lg) @ '' last_out='' @ num (lg_last_batch lg) @ '' last_reclaimed='' @ num (lg_last_reclaimed lg) @
         '' queued=['' @ fmt_type_counts (lg_queued lg) @ ''] out=['' @ fmt_type_counts (lg_handed lg) @ ''] back=['' @
         fmt_type_counts (lg_reclaimed lg) @ ''] deferred21='' @ num (lg_deferred21 lg) @ '' cap_hits='' @ num (lg_cap_hits lg) @
         '' dropped='' @ num (lg_dropped lg) @ '' type12_hold='' @ type12_hold_note hs w @ '' hb_skipped='' @ num hb_skipped)"

definition EXPORT_NAMES :: "string list" where
  "EXPORT_NAMES = [''Deserialize'', ''Connect'', ''CreateNewNetwork'', ''StartProcessing'', ''Authenticate'', ''CreateEndpoint'', ''LeaveNetwork'', ''Cleanup'']"

definition note_export :: "nat \<Rightarrow> u64 \<Rightarrow> u64" where
  "note_export i m = m OR push_bit i 1"

definition export_trace :: "u64 \<Rightarrow> string" where
  "export_trace m =
     (let v = map snd (filter (\<lambda>(i, _). m AND push_bit i 1 \<noteq> 0) (enumerate 0 EXPORT_NAMES))
      in if v = [] then ''-'' else join '','' v)"

definition log_remote_count :: "bool \<Rightarrow> nat \<Rightarrow> string \<Rightarrow> u16 \<Rightarrow> string list" where
  "log_remote_count dbg n eid uid =
     debug_log dbg (''EndpointCreated remote uid='' @ show_nat (unat uid) @ '' entity='' @ eid @ '' remotes='' @ show_nat n) @
     (if n = 4 then debug_log dbg ''WATCH_4 remotes=4 (shipping Party maxUserCount; 4 others + local = 5 mesh users)'' else []) @
     (if n = 5 then debug_log dbg ''WATCH_4 remotes=5 (beyond shipping 4-user mesh if exe still sends maxUserCount=4)'' else [])"

section \<open>What the rate limit keeps\<close>

text \<open>A run of throttled calls: the key, the time and the count of every line written.\<close>

fun throttle_run :: "(instant \<times> string) list \<Rightarrow> throttle \<Rightarrow> (string \<times> instant \<times> u32) list \<times> throttle" where
  "throttle_run [] g = ([], g)"
| "throttle_run ((now, key) # cs) g =
     (case log_throttled now key g of
        (None, g') \<Rightarrow> throttle_run cs g'
      | (Some n, g') \<Rightarrow> (case throttle_run cs g' of (ls, g'') \<Rightarrow> ((key, now, n) # ls, g'')))"

definition suppressed :: "throttle \<Rightarrow> string \<Rightarrow> u32" where
  "suppressed g k = (case hm_get g k of None \<Rightarrow> 0 | Some (_, n) \<Rightarrow> n)"

definition lines_of :: "string \<Rightarrow> (string \<times> instant \<times> u32) list \<Rightarrow> (instant \<times> u32) list" where
  "lines_of k ls = map snd (filter (\<lambda>l. fst l = k) ls)"

lemma lines_of_simps [simp]: "lines_of k [] = []" "lines_of k ((k', l) # ls) = (if k' = k then l # lines_of k ls else lines_of k ls)"
  by (simp_all add: lines_of_def)

lemma log_throttled_cases:
  obtains (silent) "log_throttled now key g = (None, hm_insert g key (fst (unwrap_or (hm_get g key) (now, 0)), suppressed g key + 1))"
  | (line) "log_throttled now key g = (Some (suppressed g key), hm_insert g key (now, 0))"
      "fst (unwrap_or (hm_get g key) (now, 0)) + 10 ^ 9 \<le> now"
proof -
  obtain since n where st: "unwrap_or (hm_get g key) (now, 0) = (since, n)" by fastforce
  have n: "suppressed g key = n" using st by (cases "hm_get g key") (auto simp: suppressed_def)
  show thesis
  proof (cases "10 ^ 9 \<le> max 0 (now - since)")
    case True
    then show thesis using st n by (intro line) (simp_all add: log_throttled_def max_def split: if_splits)
  next
    case False
    then show thesis using st n by (intro silent) (simp add: log_throttled_def)
  qed
qed

lemma suppressed_insert: "suppressed (hm_insert g k (t, n)) k' = (if k' = k then n else suppressed g k')"
  by (simp add: suppressed_def hm_get_insert)

text \<open>Every call of a key is a line, or counted in one, or still pending.\<close>

theorem throttle_accounts:
  "throttle_run cs g = (ls, g') \<Longrightarrow>
     of_nat (length (filter (\<lambda>c. snd c = k) cs)) + suppressed g k = (\<Sum>l \<leftarrow> lines_of k ls. snd l + 1) + suppressed g' k"
proof (induction cs arbitrary: g ls)
  case (Cons c cs)
  obtain now key where c: "c = (now, key)" by (cases c)
  show ?case
  proof (cases rule: log_throttled_cases [of now key g])
    case silent
    then show ?thesis using Cons.IH [of "snd (log_throttled now key g)" ls] Cons.prems c
      by (simp add: suppressed_insert algebra_simps split: if_splits)
  next
    case line
    obtain ls' where "throttle_run cs (hm_insert g key (now, 0)) = (ls', g')" "ls = (key, now, suppressed g key) # ls'"
      using Cons.prems c line(1) by (auto split: prod.splits)
    then show ?thesis using Cons.IH [of "hm_insert g key (now, 0)" ls'] c
      by (simp add: suppressed_insert algebra_simps split: if_splits)
  qed
qed simp

text \<open>Two lines of a key are at least a second apart, and the first call of a key writes none.\<close>

theorem throttle_spacing:
  "throttle_run cs g = (ls, g') \<Longrightarrow>
     sorted_wrt (\<lambda>a b. a + 10 ^ 9 \<le> b) (map fst (lines_of k ls)) \<and>
     (\<forall>since n. hm_get g k = Some (since, n) \<longrightarrow> (\<forall>l \<in> set (lines_of k ls). since + 10 ^ 9 \<le> fst l))"
proof (induction cs arbitrary: g ls)
  case (Cons c cs)
  obtain now key where c: "c = (now, key)" by (cases c)
  show ?case
  proof (cases rule: log_throttled_cases [of now key g])
    case silent
    then have "throttle_run cs (snd (log_throttled now key g)) = (ls, g')" using Cons.prems c by simp
    from Cons.IH [OF this] show ?thesis using silent by (auto simp: hm_get_insert split: if_splits)
  next
    case line
    obtain ls' where ls': "throttle_run cs (hm_insert g key (now, 0)) = (ls', g')" "ls = (key, now, suppressed g key) # ls'"
      using Cons.prems c line(1) by (auto split: prod.splits)
    have later: "sorted_wrt (\<lambda>a b. a + 10 ^ 9 \<le> b) (map fst (lines_of k ls'))"
      "key = k \<longrightarrow> (\<forall>l \<in> set (lines_of k ls'). now + 10 ^ 9 \<le> fst l)"
      "key \<noteq> k \<longrightarrow> (\<forall>since n. hm_get g k = Some (since, n) \<longrightarrow> (\<forall>l \<in> set (lines_of k ls'). since + 10 ^ 9 \<le> fst l))"
      using Cons.IH [OF ls'(1)] by (auto simp: hm_get_insert)
    show ?thesis
    proof (cases "key = k")
      case True
      have "\<forall>since n. hm_get g k = Some (since, n) \<longrightarrow> since + 10 ^ 9 \<le> now" using line(2) True by auto
      then show ?thesis using later(1,2) ls'(2) True by auto
    qed (use later(1,3) ls'(2) in simp)
  qed
qed simp

lemma first_call_silent: "hm_get g key = None \<Longrightarrow> fst (log_throttled now key g) = None"
  by (simp add: log_throttled_def)

text \<open>The lines of a process whose disk works are in the file, and nothing else.\<close>

definition healthy :: disk where "healthy = \<lparr>dk_open = True, dk_written = None\<rparr>"

definition log_text :: "(instant \<times> nat \<times> string) list \<Rightarrow> string" where
  "log_text ms = concat (map (\<lambda>(now, secs, msg). ''['' @ show_nat secs @ ''] '' @ msg @ [CHR 0x0A]) ms)"

definition log_lines :: "(instant \<times> nat \<times> string) list \<Rightarrow> log_file \<Rightarrow> log_file" where
  "log_lines = fold (\<lambda>(now, secs, msg). log_line now secs healthy msg)"

lemma log_line_healthy:
  "lf_text (log_line now secs healthy msg lf) = (if lf_opened lf = None \<and> \<not> lf_truncated lf then [] else lf_text lf) @ ''['' @ show_nat secs @ ''] '' @ msg @ [CHR 0x0A]
   \<and> lf_opened (log_line now secs healthy msg lf) \<noteq> None \<and> lf_truncated (log_line now secs healthy msg lf)"
  if "lf_opened lf \<noteq> None \<longrightarrow> lf_truncated lf"
  using that by (cases "lf_opened lf") (auto simp: log_line_def healthy_def Let_def)

lemma log_lines_appended: "lf_truncated lf \<Longrightarrow> lf_text (log_lines ms lf) = lf_text lf @ log_text ms"
proof (induction ms arbitrary: lf)
  case (Cons e ms)
  obtain now secs msg where e: "e = (now, secs, msg)" by (cases e)
  then show ?case using log_line_healthy [of lf now secs msg] Cons.prems Cons.IH [of "log_line now secs healthy msg lf"]
    by (simp add: log_lines_def log_text_def)
qed (simp add: log_lines_def log_text_def)

theorem log_file_complete:
  assumes "ms \<noteq> []" "lf_opened lf = None" "\<not> lf_truncated lf"
  shows "lf_text (log_lines ms lf) = log_text ms"
proof -
  obtain now secs msg rest where ms: "ms = (now, secs, msg) # rest" using assms(1) by (cases ms) auto
  show ?thesis using log_line_healthy [of lf now secs msg] assms(2,3) log_lines_appended [of "log_line now secs healthy msg lf" rest] ms
    by (simp add: log_lines_def log_text_def)
qed

text \<open>With \<open>[debug]\<close> off a message leaves no line, also when hex logging is asked for.\<close>

theorem hex_needs_debug: "fst (log_payload False hex now now_ms rel pg tail dir extra payload t) = []"
  by (simp add: log_payload_def bump_msg_stats_def log_join_publish_def debug_log_def Let_def split: prod.split)

section \<open>The tables\<close>

definition eb_ok :: "eventbus_table \<Rightarrow> bool" where
  "eb_ok t \<longleftrightarrow> distinct (map fst (eb_slots t)) \<and> length (eb_slots t) \<le> EVENTBUS_SLOTS \<and>
     eb_seen t = (\<Sum>s \<leftarrow> eb_slots t. snd s) + eb_overflow t"

lemma eb_bump_Some: "eb_bump v ss = Some (c, ss') \<Longrightarrow> map fst ss' = map fst ss \<and> (\<Sum>s \<leftarrow> ss'. snd s) = (\<Sum>s \<leftarrow> ss. snd s) + 1"
  by (induction ss arbitrary: ss') (auto split: if_splits)

lemma eb_bump_None: "eb_bump v ss = None \<Longrightarrow> v \<notin> fst ` set ss"
  by (induction ss) (force split: if_splits)+

text \<open>Every reading of the event code is counted: under its value, or as overflow.\<close>

theorem eventbus_accounts: "eb_ok (fold (\<lambda>r t. snd (note_eventbus r t)) rs eventbus_new)"
proof -
  have rec: "eb_ok (snd (snd (eb_record v t)))" if "eb_ok t" for v t
  proof (cases "eb_bump v (eb_slots t)")
    case None
    then show ?thesis using that eb_bump_None [OF None] by (auto simp: eb_record_def eb_ok_def Let_def)
  next
    case (Some p)
    obtain c ss where p: "p = (c, ss)" by (cases p)
    have "map fst ss = map fst (eb_slots t)" "(\<Sum>s \<leftarrow> ss. snd s) = (\<Sum>s \<leftarrow> eb_slots t. snd s) + 1" "length ss = length (eb_slots t)"
      using eb_bump_Some [of v "eb_slots t" c ss] Some p by (auto dest: map_eq_imp_length_eq)
    then show ?thesis using that Some p by (simp add: eb_record_def eb_ok_def Let_def)
  qed
  have "eb_ok (snd (note_eventbus r t))" if "eb_ok t" for r t
  proof (cases r)
    case None
    then show ?thesis using that by (simp add: note_eventbus_def eb_ok_def)
  next
    case (Some v)
    then show ?thesis using rec [OF that, of v] by (auto simp: note_eventbus_def split: prod.splits)
  qed
  then have "eb_ok t \<Longrightarrow> eb_ok (fold (\<lambda>r t. snd (note_eventbus r t)) rs t)" for t
    by (induction rs arbitrary: t) auto
  then show ?thesis by (simp add: eb_ok_def eventbus_new_def)
qed

text \<open>Threads call exports in any order; between the two parts of a call others may run.\<close>

inductive thread_step :: "thread_table \<times> (u32 \<Rightarrow> nat option) \<Rightarrow> thread_table \<times> (u32 \<Rightarrow> nat option) \<Rightarrow> bool" where
  scan: "busy tid = None \<Longrightarrow> tid \<noteq> 0 \<Longrightarrow> note_thread_scan tid t = (i, t') \<Longrightarrow> thread_step (t, busy) (t', busy(tid := i))"
| claim: "busy tid = Some i \<Longrightarrow> thread_step (t, busy) (note_thread_take tid i t, busy(tid := None))"

definition tids_of :: "thread_table \<Rightarrow> u32 list" where
  "tids_of t = filter (\<lambda>x. x \<noteq> 0) (tt_tids t)"

definition threads_ok :: "thread_table \<times> (u32 \<Rightarrow> nat option) \<Rightarrow> bool" where
  "threads_ok s \<longleftrightarrow> length (tt_tids (fst s)) = THREAD_SLOTS \<and> length (tt_counts (fst s)) = THREAD_SLOTS \<and> distinct (tids_of (fst s)) \<and>
     tt_distinct (fst s) = of_nat (length (tids_of (fst s))) \<and>
     (\<forall>tid i. snd s tid = Some i \<longrightarrow> tid \<noteq> 0 \<and> i < THREAD_SLOTS \<and> tid \<notin> set (tt_tids (fst s)))"

lemma slot_scan_free:
  "slot_scan tid i free ts = Inr r \<Longrightarrow> tid \<notin> set ts \<and> (\<forall>j. r = Some j \<longrightarrow> free = Some j \<or> i \<le> j \<and> j < i + length ts)"
  by (induction ts arbitrary: i free) (fastforce split: if_splits)+

lemma filter_fill:
  assumes "i < length ts" "ts ! i = 0" "tid \<noteq> (0 :: u32)" "tid \<notin> set ts" "distinct (filter (\<lambda>x. x \<noteq> 0) ts)"
  shows "distinct (filter (\<lambda>x. x \<noteq> 0) (ts[i := tid])) \<and> length (filter (\<lambda>x. x \<noteq> 0) (ts[i := tid])) = Suc (length (filter (\<lambda>x. x \<noteq> 0) ts))"
proof -
  have ts: "ts = take i ts @ 0 # drop (Suc i) ts" using assms(1,2) by (metis id_take_nth_drop)
  have "distinct (filter (\<lambda>x. x \<noteq> 0) (take i ts) @ filter (\<lambda>x. x \<noteq> 0) (drop (Suc i) ts))"
    using assms(5) by (subst (asm) ts) simp
  moreover have "tid \<notin> set (take i ts)" "tid \<notin> set (drop (Suc i) ts)" using assms(4) by (auto dest: in_set_takeD in_set_dropD)
  moreover have "length (filter (\<lambda>x. x \<noteq> 0) ts) = length (filter (\<lambda>x. x \<noteq> 0) (take i ts)) + length (filter (\<lambda>x. x \<noteq> 0) (drop (Suc i) ts))"
    by (subst ts) simp
  ultimately show ?thesis using assms(1,3) by (auto simp: upd_conv_take_nth_drop)
qed

lemma threads_step: "thread_step s s' \<Longrightarrow> threads_ok s \<Longrightarrow> threads_ok s'"
proof (induction rule: thread_step.induct)
  case (scan busy tid t i t')
  then show ?case
    by (cases "slot_scan tid 0 None (tt_tids t)")
      (auto simp: note_thread_scan_def threads_ok_def tids_of_def Let_def dest!: slot_scan_free split: option.splits)
next
  case (claim busy tid i t)
  have b: "tid \<noteq> 0" "i < length (tt_tids t)" "tid \<notin> set (tt_tids t)" using claim by (auto simp: threads_ok_def)
  show ?case
  proof (cases "tt_tids t ! i = 0")
    case True
    have other: "x \<notin> set ((tt_tids t)[i := tid])" if "busy x = Some j" "x \<noteq> tid" for x j
      using claim.prems that set_update_subset_insert [of "tt_tids t" i tid] by (auto simp: threads_ok_def)
    show ?thesis using claim.prems filter_fill [OF b(2) True b(1,3)] True other
      by (auto simp: note_thread_take_def threads_ok_def tids_of_def)
  qed (use claim.prems in \<open>auto simp: note_thread_take_def threads_ok_def\<close>)
qed

text \<open>No thread is listed twice, and \<open>distinct\<close> counts the listed ones, in every interleaving.\<close>

theorem thread_table_distinct: "thread_step\<^sup>*\<^sup>* (thread_table_new, \<lambda>_. None) s \<Longrightarrow> threads_ok s"
proof (induction rule: rtranclp_induct)
  case base
  show ?case by (simp add: threads_ok_def thread_table_new_def tids_of_def)
qed (rule threads_step)

end
