(* ===== verification/Party_Session.thy ===== *)
theory Party_Session
  imports Party_Probe Party_Diag
begin

text \<open>
  \<open>party-shim/src/lib.rs\<close>: the two probe lines that join the readings of \<open>Party_Probe\<close> with the state of
  \<open>Party_Diag\<close>: \<open>probe_session\<close>, written when its text changes or after ten seconds, and
  \<open>mesh_trigger_timeline\<close>, written on the ticks after a mesh start has been armed. The change key is
  a hash of the text, so the text is modelled. The outer \<open>None\<close> is an access violation.
\<close>

section \<open>Texts of the readings\<close>

definition show_i32 :: "u32 \<Rightarrow> string" where
  "show_i32 v = (if sint v < 0 then ''-'' @ show_nat (nat (- sint v)) else show_nat (nat (sint v)))"

definition row_text :: "ready_row \<Rightarrow> string" where
  "row_text r = (case r of (ident, st, fl10, skip) \<Rightarrow>
     show_i32 ident @ '':'' @ show_i32 st @ '':t'' @ show_nat (unat fl10) @ '':s'' @ show_nat (unat skip))"

fun ready_text :: "ready_view \<Rightarrow> string" where
  "ready_text ReadyUnreadable = '' ready=unreadable''"
| "ready_text ReadyNull = '' ready=null''"
| "ready_text (ReadyObjUnreadable obj) = '' ready='' @ show_hexp obj @ '' +50 unreadable''"
| "ready_text (ReadyEmpty obj flag) = '' ready='' @ show_hexp obj @ '' fl='' @ show_nat (unat flag) @ '' n=0''"
| "ready_text (ReadyBadRange obj flag b e) =
     '' ready='' @ show_hexp obj @ '' fl='' @ show_nat (unat flag) @ '' range_bad '' @ show_hexp b @ ''..'' @ show_hexp e"
| "ready_text (ReadyVecUnreadable obj flag) = '' ready='' @ show_hexp obj @ '' fl='' @ show_nat (unat flag) @ '' vec unreadable''"
| "ready_text (ReadyRows obj flag rows) =
     '' ready='' @ show_hexp obj @ '' fl='' @ show_nat (unat flag) @ '' n='' @ show_nat (length rows) @ '' ['' @ join ''; '' (map row_text rows) @ '']''"

fun queue_text :: "ready_view \<Rightarrow> string" where
  "queue_text (ReadyBadRange obj flag b e) =
     ''queue='' @ show_hexp obj @ '' badrange fl='' @ show_nat (unat flag) @ '' begin='' @ show_hexp b @ '' end='' @ show_hexp e"
| "queue_text (ReadyVecUnreadable obj flag) = ''queue='' @ show_hexp obj @ '' unreadable''"
| "queue_text (ReadyRows obj flag rows) =
     ''queue='' @ show_hexp obj @ '' fl='' @ show_nat (unat flag) @ '' ['' @ join ''; '' (map row_text rows) @ '']''"
| "queue_text _ = ''queue=?''"

definition work_rows_text :: "member_slot list \<Rightarrow> string" where
  "work_rows_text slots =
     (if slots = [] then ''rows=0''
      else ''rows=['' @ join ''; '' (map (\<lambda>s. ''id='' @ show_i32 (ms_id s) @ '' +8='' @ show_i32 (ms_unique s) @ '' +70='' @
             show_nat (unat (ms_flag70 s)) @ '' +a0='' @ show_i32 (ms_a0 s)) slots) @ '']'')"

definition slot_text :: "member_slot \<Rightarrow> string" where
  "slot_text s =
     ''id='' @ show_i32 (ms_id s) @ '' +70='' @ show_nat (unat (ms_flag70 s)) @ '' +8='' @ show_i32 (ms_unique s) @ '' +6c='' @
     show_i32 (ms_rank s) @ '' +a0='' @ show_i32 (ms_a0 s) @ (if ms_eid s = [] then [] else '' eid='' @ ms_eid s)"

definition overlay_text :: "overlay_view option \<Rightarrow> string" where
  "overlay_text ov =
     (case ov of
        None \<Rightarrow> '' overlay unreadable''
      | Some v \<Rightarrow>
          '' overlay_slot='' @ show_hexp (ov_slot v) @ '' overlay_after='' @ show_hexp (ov_after v) @ '' overlay_obj='' @ show_hexp (ov_obj v) @
          '' ids='' @ show_nat (length (filter (\<lambda>b. b) (ov_ids v))) @ ''/12'' @
          (case ov_latch v of None \<Rightarrow> [] | Some (l, b18) \<Rightarrow> '' 6c814='' @ show_nat (unat l) @ '' 6c818='' @ show_hexp b18))"

section \<open>The session line\<close>

definition session_fields :: "proc_mem \<Rightarrow> bool \<Rightarrow> u64 \<Rightarrow> string option" where
  "session_fields m native session =
     (if \<not> readable m (session + 0x3c0) 8 then Some []
      else
        do { p3c0 \<leftarrow> rawptr m (session + 0x3c0);
             p480 \<leftarrow> ptr_or0 m (session + 0x480);
             task \<leftarrow> ptr_or0 m (session + 0xb8);
             p4a0 \<leftarrow> ptr_or0 m (session + 0x4a0);
             b4a0 \<leftarrow> (if p4a0 = 0 then Some 0 else map_option (\<lambda>v. unwrap_or v 0) (probe_rd8 m p4a0));
             mode0 \<leftarrow> raw32 m session;
             b4ac \<leftarrow> map_option (\<lambda>v. unwrap_or v 0xff) (probe_rd8 m (session + 0x4ac));
             p28 \<leftarrow> ptr_or0 m (session + 0x28);
             Some ('' +3c0='' @ show_hexp p3c0 @ '' +480='' @ show_hexp p480 @ '' +4a0='' @ show_hexp p4a0 @ ''/'' @ show_nat (unat b4a0) @
               '' +b8='' @ show_hexp task @ '' mode0='' @ show_nat (unat mode0) @ '' +4ac='' @ show_nat (unat b4ac) @ '' +28='' @ show_hexp p28 @
               '' native='' @ (if native then ''true'' else ''false'')) })"

definition session_text :: "proc_mem \<Rightarrow> bool \<Rightarrow> string option" where
  "session_text m native =
     do { g \<leftarrow> probe_rdptr m (pm_base m + SESSION_GLOBAL_RVA);
          case g of
            None \<Rightarrow> Some ''unreadable''
          | Some session \<Rightarrow>
              if session = 0 then Some ''session=null''
              else
                do { st \<leftarrow> probe_rd32 m (session + 4);
                     case st of
                       None \<Rightarrow> Some (''session='' @ show_hexp session @ '' +4 unreadable'')
                     | Some v \<Rightarrow> map_option (\<lambda>f. ''session+4='' @ show_i32 v @ f) (session_fields m native session) } }"

definition member_rows_text :: "proc_mem \<Rightarrow> string option" where
  "member_rows_text m =
     do { slots \<leftarrow> collect_member_slots m;
          if slots = [] then
            map_option (\<lambda>g. case g of None \<Rightarrow> '' member_global unreadable'' | Some p \<Rightarrow> if p = 0 then '' members=null'' else '' members=0'')
              (probe_rdptr m (pm_base m + MEMBER_LIST_GLOBAL_RVA))
          else
            Some ('' members='' @ show_nat (length slots) @ '' with+70='' @ show_nat (length (filter (\<lambda>s. ms_flag70 s = 1) slots)) @
              '' ['' @ join ''; '' (map slot_text slots) @ '']'') }"

definition send_text :: "proc_mem \<Rightarrow> string option" where
  "send_text m =
     do { g \<leftarrow> probe_rdptr m (pm_base m + SEND_GLOBAL_RVA);
          case g of
            None \<Rightarrow> Some []
          | Some holder \<Rightarrow>
              if holder = 0 then Some '' send=null''
              else
                map_option (\<lambda>v. case v of
                    None \<Rightarrow> '' send+38 unreadable''
                  | Some obj \<Rightarrow> if obj = 0 then '' send+38=0'' else '' send+38='' @ show_hexp obj)
                  (probe_rdptr m (holder + 0x38)) }"

definition session_note :: "proc_mem \<Rightarrow> bool \<Rightarrow> string option" where
  "session_note m native =
     do { s \<leftarrow> session_text m native; ms \<leftarrow> member_rows_text m; rl \<leftarrow> ready_list_note m; sd \<leftarrow> send_text m; ov \<leftarrow> append_overlay_note m;
          Some (s @ ms @ ready_text rl @ sd @ overlay_text ov) }"

text \<open>The key of the last text, and the start of the ten seconds, unset before the first pass.\<close>

type_synonym session_probe = "u64 \<times> instant option"

definition session_gate :: "instant \<Rightarrow> u64 \<Rightarrow> session_probe \<Rightarrow> bool \<times> session_probe" where
  "session_gate now key st =
     (case st of (last_key, since) \<Rightarrow>
        (let t = unwrap_or since now; due = (10 * 10 ^ 9 \<le> max 0 (now - t))
         in (key \<noteq> last_key \<or> due, key, Some (if due then now else t))))"

definition probe_session ::
  "bool \<Rightarrow> proc_mem \<Rightarrow> bool \<Rightarrow> bool \<Rightarrow> instant \<Rightarrow> u32 \<Rightarrow> thread_table \<Rightarrow> session_probe \<Rightarrow> (string list \<times> session_probe) option" where
  "probe_session dbg m is_host native now tid threads st =
     (if pm_base m = 0 then Some ([], st)
      else
        do { note \<leftarrow> session_note m native;
             Some (case session_gate now (fnv1a note) st of (fire, st') \<Rightarrow>
               (if fire then debug_log dbg (''probe_session '' @ (if is_host then ''host'' else ''guest'') @ '': '' @ note @ '' '' @
                  thread_probe_note tid threads) else [], st')) })"

section \<open>The mesh-start timeline\<close>

record mesh_trigger =
  mt_ticks :: u32
  mt_key :: u64
  mt_exports :: u64

definition mesh_session :: "proc_mem \<Rightarrow> (u32 \<times> u32 \<times> u64) option" where
  "mesh_session m =
     (if pm_base m = 0 then Some (- 1, - 1, 0)
      else
        do { session \<leftarrow> ptr_or0 m (pm_base m + SESSION_GLOBAL_RVA);
             if session = 0 \<or> \<not> readable m session 0x30 then Some (- 1, - 1, 0)
             else do { mode0 \<leftarrow> raw32 m session; state4 \<leftarrow> raw32 m (session + 4); p28 \<leftarrow> rawptr m (session + 0x28); Some (mode0, state4, p28) } })"

definition mesh_trigger_timeline :: "bool \<Rightarrow> proc_mem \<Rightarrow> mesh_trigger \<Rightarrow> (string list \<times> mesh_trigger) option" where
  "mesh_trigger_timeline dbg m t =
     (if mt_ticks t = 0 then Some ([], t)
      else
        do { (mode0, state4, p28) \<leftarrow> mesh_session m;
             (party, invitation) \<leftarrow> connect_gate_party_invitation m;
             slots \<leftarrow> collect_member_slots m;
             queue \<leftarrow> queue_rows_note m;
             let exports = note_export 3 (mt_exports t);
             let note = ''mesh-start timeline['' @ show_nat (unat (mt_ticks t)) @ ''] mode0='' @ show_nat (unat mode0) @ '' +4='' @
               show_nat (unat state4) @ '' +28='' @ show_hexp p28 @ '' party='' @ show_hexp party @ '' inv='' @ show_nat (unat invitation) @
               '' '' @ work_rows_text slots @ '' '' @ queue_text queue @ '' exports=['' @ export_trace exports @ '']'';
             let key = fnv1a note;
             Some (if key \<noteq> mt_key t \<or> mt_ticks t mod 8 = 0 then debug_log dbg note else [],
                   t\<lparr>mt_ticks := mt_ticks t - 1, mt_key := key, mt_exports := exports\<rparr>) })"

section \<open>The gate of the session line\<close>

text \<open>
  The session line also leaves the gate: it reads the first word of the session object after
  checking later ones only.
\<close>

definition torn_session :: proc_mem where
  "torn_session = page_mem [(0x147c52, le_field 0xcd0 0x50000ffc), (0x50001, [])] 0x140000000"

lemma torn_session_reads:
  "readable torn_session 0x147c52cd0 8" "rawptr torn_session 0x147c52cd0 = Some 0x50000ffc"
  "readable torn_session 0x50001000 4" "raw32 torn_session 0x50001000 = Some 0" "readable torn_session 0x500013bc 8"
  "rawptr torn_session 0x500013bc = Some 0" "raw32 torn_session 0x50000ffc = None" "pm_base torn_session = 0x140000000"
  by (simp_all add: torn_session_def raw_eval)

theorem session_probe_faults:
  "\<exists>m. query_sound m \<and> (\<forall>dbg is_host native now tid threads st. probe_session dbg m is_host native now tid threads st = None)"
proof -
  have "session_fields torn_session native 0x50000ffc = None" for native
    by (simp add: session_fields_def torn_session_reads bind_eq_None_conv)
  then have "session_text torn_session native = None" for native
    by (simp add: session_text_def SESSION_GLOBAL_RVA_def probe_rdptr_def probe_rd32_def torn_session_reads)
  then have "probe_session dbg torn_session is_host native now tid threads st = None" for dbg is_host native now tid threads st
    by (simp add: probe_session_def session_note_def torn_session_reads)
  moreover have "query_sound torn_session" unfolding torn_session_def by (rule page_mem_sound)
  ultimately show ?thesis by blast
qed

text \<open>Apart from that word it does not fault.\<close>

theorem session_probe_gated:
  assumes "query_sound m"
    and "\<And>session. probe_rdptr m (pm_base m + SESSION_GLOBAL_RVA) = Some (Some session) \<Longrightarrow> session \<noteq> 0 \<Longrightarrow> readable m session 4"
  shows "probe_session dbg m is_host native now tid threads st \<noteq> None"
proof -
  have "session_text m native \<noteq> None"
    unfolding session_text_def session_fields_def using assms by (intro no_fault) blast+
  moreover have "member_rows_text m \<noteq> None" unfolding member_rows_text_def using slots_ok [OF assms(1)] by (intro total_rule) (simp_all add: gated_probes [OF assms(1), simplified])
  moreover have "send_text m \<noteq> None" unfolding send_text_def by (intro no_fault) (rule assms)+
  ultimately show ?thesis
    unfolding probe_session_def session_note_def using ready_list_ok [OF assms(1)] overlay_ok [OF assms(1)] by (intro total_rule) blast+
qed

end
