(* ===== verification/Mp_Lobby.thy ===== *)
theory Mp_Lobby
  imports Json_Scan "HOL-Library.Monad_Syntax"
begin

text \<open>
  \<open>playfab-mp-shim/src/lib.rs\<close>, the part without the shim's global state: result codes, C strings,
  property lists, the \<open>Lobby\<close> object and how it is read from a broker answer, the request bodies,
  and the difference between two views of a lobby that an \<open>Updated\<close> state change reports.

  A \<open>CString\<close> is the \<open>string\<close> of its bytes, a pointer to one is an option of it (\<open>None\<close> is
  null). A function that calls the JSON scanner returns an option whose \<open>None\<close> is the exhausted
  stack of the scanner, which aborts the process; a Rust \<open>Option\<close> result is an option inside it.
  The arrays the title passes are functions from the index.
\<close>

section \<open>Result codes\<close>

definition S_OK :: u32 where "S_OK = 0"
definition E_FAIL :: u32 where "E_FAIL = 0x80004005"
definition E_PF_NOT_INITIALIZED :: u32 where "E_PF_NOT_INITIALIZED = 0x89236400"
definition E_PF_INSTANCE_ALREADY_EXISTS :: u32 where "E_PF_INSTANCE_ALREADY_EXISTS = 0x89236401"
definition E_PF_ENTITY_KEY_MALFORMED :: u32 where "E_PF_ENTITY_KEY_MALFORMED = 0x89236404"
definition E_PF_ENTITY_TOKEN_MALFORMED :: u32 where "E_PF_ENTITY_TOKEN_MALFORMED = 0x89236213"
definition E_PF_OBJECT_STILL_PENDING :: u32 where "E_PF_OBJECT_STILL_PENDING = 0x89236205"
definition E_PF_LOBBY_NOT_FOUND :: u32 where "E_PF_LOBBY_NOT_FOUND = 0x89236226"
definition E_PF_LOBBY_NOT_JOINABLE :: u32 where "E_PF_LOBBY_NOT_JOINABLE = 0x89236227"
definition E_PF_LOBBY_ALREADY_MEMBER :: u32 where "E_PF_LOBBY_ALREADY_MEMBER = 0x89236225"
definition E_PF_LOBBY_FULL :: u32 where "E_PF_LOBBY_FULL = 0x89236206"
definition E_PF_LOBBY_MEMBER_NOT_IN_LOBBY :: u32 where "E_PF_LOBBY_MEMBER_NOT_IN_LOBBY = 0x89236220"
definition E_PF_LOBBY_EMPTY_UPDATE :: u32 where "E_PF_LOBBY_EMPTY_UPDATE = 0x89236222"
definition E_PF_LOBBY_UPDATE_AFTER_DISCONNECT :: u32 where "E_PF_LOBBY_UPDATE_AFTER_DISCONNECT = 0x89236223"
definition E_PF_SERVICE_BAD_REQUEST :: u32 where "E_PF_SERVICE_BAD_REQUEST = 0x8923621e"
definition E_PF_SERVICE_UNEXPECTED :: u32 where "E_PF_SERVICE_UNEXPECTED = 0x89236208"
definition E_PF_SERVICE_MALFORMED_RESPONSE :: u32 where "E_PF_SERVICE_MALFORMED_RESPONSE = 0x89236221"
definition E_PF_SERVICE_4XX :: u32 where "E_PF_SERVICE_4XX = 0x89236409"
definition E_PF_SERVICE_5XX :: u32 where "E_PF_SERVICE_5XX = 0x8923640a"

lemmas mp_codes =
  S_OK_def E_FAIL_def E_PF_NOT_INITIALIZED_def E_PF_INSTANCE_ALREADY_EXISTS_def E_PF_ENTITY_KEY_MALFORMED_def
  E_PF_ENTITY_TOKEN_MALFORMED_def E_PF_OBJECT_STILL_PENDING_def E_PF_LOBBY_NOT_FOUND_def
  E_PF_LOBBY_NOT_JOINABLE_def E_PF_LOBBY_ALREADY_MEMBER_def E_PF_LOBBY_FULL_def
  E_PF_LOBBY_MEMBER_NOT_IN_LOBBY_def E_PF_LOBBY_EMPTY_UPDATE_def E_PF_LOBBY_UPDATE_AFTER_DISCONNECT_def
  E_PF_SERVICE_BAD_REQUEST_def E_PF_SERVICE_UNEXPECTED_def E_PF_SERVICE_MALFORMED_RESPONSE_def
  E_PF_SERVICE_4XX_def E_PF_SERVICE_5XX_def

definition broker_error_code :: "u16 \<Rightarrow> string \<Rightarrow> u32" where
  "broker_error_code status body =
     (if str_contains body ''LobbyNotFound'' then E_PF_LOBBY_NOT_FOUND
      else if str_contains body ''LobbyMemberLimitExceeded'' \<or> str_contains body ''PartyMemberLimitExceeded''
      then E_PF_LOBBY_FULL
      else if str_contains body ''LobbyNotJoinable'' then E_PF_LOBBY_NOT_JOINABLE
      else if str_contains body ''LobbyPlayerAlreadyJoined'' \<or> str_contains body ''LobbyAlreadyMember''
      then E_PF_LOBBY_ALREADY_MEMBER
      else if status = 400 then E_PF_SERVICE_BAD_REQUEST
      else if status = 404 then E_PF_LOBBY_NOT_FOUND
      else if status = 409 then E_PF_SERVICE_UNEXPECTED
      else if 500 \<le> status \<and> status < 600 then E_PF_SERVICE_5XX
      else if 400 \<le> status \<and> status < 500 then E_PF_SERVICE_4XX
      else E_PF_SERVICE_UNEXPECTED)"

section \<open>C strings and entity keys\<close>

type_synonym cstr = string
type_synonym cstr_array = "(nat \<Rightarrow> cstr option) option"
type_synonym raw_kv = "u32 \<times> cstr_array \<times> cstr_array"
type_synonym prop_map = "(string, cstr) hmap"

record entity_key =
  ek_id :: "cstr option"
  ek_type :: "cstr option"

definition mp_read_cstr :: "cstr option \<Rightarrow> string" where
  "mp_read_cstr p =
     (case p of None \<Rightarrow> [] | Some s \<Rightarrow> utf8_lossy (take 4096 (takeWhile (\<lambda>c. c \<noteq> CHR 0x00) s)))"

definition cstring_new :: "string \<Rightarrow> cstr option" where
  "cstring_new s = (if CHR 0x00 \<in> set s then None else Some s)"

definition mp_intern :: "string \<Rightarrow> cstr option" where
  "mp_intern s = Some (unwrap_or (cstring_new s) [])"

abbreviation title_player :: string where "title_player \<equiv> ''title_player_account''"

definition intern_entity :: "entity_key option \<Rightarrow> entity_key" where
  "intern_entity src =
     (case src of
        None \<Rightarrow> \<lparr>ek_id = mp_intern ''lan-user'', ek_type = mp_intern title_player\<rparr>
      | Some k \<Rightarrow>
          (let eid = mp_read_cstr (ek_id k); ty = mp_read_cstr (ek_type k)
           in \<lparr>ek_id = mp_intern (if eid = [] then ''lan-user'' else eid),
               ek_type = mp_intern (if ty = [] then title_player else ty)\<rparr>))"

definition member_key :: "string \<Rightarrow> entity_key" where
  "member_key eid = \<lparr>ek_id = mp_intern eid, ek_type = mp_intern title_player\<rparr>"

abbreviation key_id :: "entity_key \<Rightarrow> string" where
  "key_id k \<equiv> mp_read_cstr (ek_id k)"

definition entity_eq :: "entity_key \<Rightarrow> entity_key \<Rightarrow> bool" where
  "entity_eq a b \<longleftrightarrow> mp_read_cstr (ek_id a) = mp_read_cstr (ek_id b) \<and>
     mp_read_cstr (ek_type a) = mp_read_cstr (ek_type b)"

section \<open>Scanner results\<close>

definition jstr_field :: "nat \<Rightarrow> string \<Rightarrow> string \<Rightarrow> string option option" where
  "jstr_field d blob key = (case json_str_field d blob key of Ok v \<Rightarrow> Some (Some v) | Bad \<Rightarrow> Some None | Overflow \<Rightarrow> None)"

definition ju32_field :: "nat \<Rightarrow> string \<Rightarrow> string \<Rightarrow> u32 option option" where
  "ju32_field d blob key = (case json_u32_field d blob key of Ok v \<Rightarrow> Some (Some v) | Bad \<Rightarrow> Some None | Overflow \<Rightarrow> None)"

definition jobj_field :: "nat \<Rightarrow> string \<Rightarrow> string \<Rightarrow> (string, string) hmap option" where
  "jobj_field d blob key = (case json_obj d blob key of Ok m \<Rightarrow> Some m | _ \<Rightarrow> None)"

definition jarr_field :: "nat \<Rightarrow> string \<Rightarrow> string \<Rightarrow> string list option" where
  "jarr_field d blob key = (case json_arr_objects d blob key of Ok xs \<Rightarrow> Some xs | _ \<Rightarrow> None)"

text \<open>\<open>a.or_else(|| b)\<close>: \<open>b\<close> is evaluated only when \<open>a\<close> found nothing.\<close>

definition scan_or :: "'a option option \<Rightarrow> 'a option option \<Rightarrow> 'a option option" where
  "scan_or a b = do { v \<leftarrow> a; case v of Some _ \<Rightarrow> Some v | None \<Rightarrow> b }"

definition u32_clamp :: "u32 \<Rightarrow> u32 \<Rightarrow> u32 \<Rightarrow> u32" where
  "u32_clamp lo hi v = (if v < lo then lo else if hi < v then hi else v)"

definition json_max_players :: "nat \<Rightarrow> string \<Rightarrow> u32 option" where
  "json_max_players d blob =
     do { v \<leftarrow> scan_or (ju32_field d blob ''MaxPlayers'') (ju32_field d blob ''max_member'');
          Some (u32_clamp 2 32 (unwrap_or v 8)) }"

definition parse_membership_lock :: "string \<Rightarrow> u32" where
  "parse_membership_lock s = (if eq_ignore_ascii_case s ''locked'' \<or> s = ''1'' then 1 else 0)"

definition parse_access_policy :: "string \<Rightarrow> u32" where
  "parse_access_policy s =
     (let t = to_ascii_lowercase s in if t = ''friends'' then 1 else if t = ''private'' then 2 else 0)"

definition access_policy_name :: "u32 \<Rightarrow> string" where
  "access_policy_name v = (if v = 1 then ''Friends'' else if v = 2 then ''Private'' else ''Public'')"

section \<open>Member properties\<close>

definition numeric :: "string \<Rightarrow> bool" where
  "numeric s \<longleftrightarrow> s \<noteq> [] \<and> list_all is_ascii_digit s"

definition account_hash :: "string \<Rightarrow> u64" where
  "account_hash s = fold (\<lambda>c n. (n XOR ucast (u8_of_char c)) * 16777619) s 2166136261"

definition mp_account_id :: "string \<Rightarrow> string" where
  "mp_account_id eid =
     (if numeric eid then eid
      else (let n = account_hash eid in show_nat (unat (if n = 0 then 1 else n))))"

definition ensure_member_props :: "prop_map \<Rightarrow> string \<Rightarrow> prop_map" where
  "ensure_member_props mp eid =
     (let plat = (case hm_get mp ''member_platform'' of Some c \<Rightarrow> utf8_lossy c | None \<Rightarrow> []);
          mp1 = (if plat = [] \<or> plat = ''1'' then hm_insert mp ''member_platform'' ''Steam'' else mp);
          account = (case opt_filter numeric (map_option utf8_lossy (hm_get mp1 ''member_platform_account_id'')) of
                       Some s \<Rightarrow> s
                     | None \<Rightarrow> if numeric eid then eid else mp_account_id eid);
          mp2 = hm_insert mp1 ''member_platform_account_id'' (unwrap_or (cstring_new account) ''1'')
      in if hm_get mp2 ''member_platform_user_name'' = None
         then hm_insert mp2 ''member_platform_user_name'' ''LAN'' else mp2)"

definition mp_apply_props :: "prop_map \<Rightarrow> (string, string) hmap \<Rightarrow> prop_map" where
  "mp_apply_props dst src = fold (\<lambda>(k, v) m. hm_insert m k (unwrap_or (cstring_new v) [])) src dst"

definition drop_props :: "prop_map \<Rightarrow> string list \<Rightarrow> prop_map" where
  "drop_props dst ks = fold (\<lambda>k m. hm_remove m k) ks dst"

definition ensure_cstr_map :: "(string, string) hmap \<Rightarrow> prop_map" where
  "ensure_cstr_map m = map (\<lambda>(k, v). (k, unwrap_or (cstring_new v) [])) m"

text \<open>One \<open>"k":"v"\<close> member; the key is written as it is.\<close>

definition raw_member :: "string \<Rightarrow> string \<Rightarrow> string" where
  "raw_member k v = dquote # k @ [dquote, CHR '':'', dquote] @ json_escape v @ [dquote]"

definition props_json :: "(string, string) hmap \<Rightarrow> string" where
  "props_json m = CHR 0x7B # join '','' (map (\<lambda>(k, v). raw_member k v) m) @ [CHR 0x7D]"

abbreviation lossy_map :: "prop_map \<Rightarrow> (string, string) hmap" where
  "lossy_map m \<equiv> map (\<lambda>(k, v). (k, utf8_lossy v)) m"

definition member_data_json :: "string \<Rightarrow> (string, string) hmap \<Rightarrow> string" where
  "member_data_json eid extra = props_json (lossy_map (ensure_member_props (mp_apply_props [] extra) eid))"

section \<open>Property lists of the title\<close>

definition kv_list :: "raw_kv \<Rightarrow> (string, string) hmap" where
  "kv_list a =
     (case a of
        (count, Some ks, Some vs) \<Rightarrow>
          if count = 0 \<or> 32 < count then []
          else fold (\<lambda>i m. let k = mp_read_cstr (ks i); v = mp_read_cstr (vs i)
                           in if k \<noteq> [] then hm_insert m k v else m) [0..<unat count] []
      | _ \<Rightarrow> [])"

definition kv_list_split :: "raw_kv \<Rightarrow> (string, string) hmap \<times> string list" where
  "kv_list_split a =
     (case a of
        (count, Some ks, Some vs) \<Rightarrow>
          if count = 0 \<or> 32 < count then ([], [])
          else fold (\<lambda>i (sets, dels).
                 let k = mp_read_cstr (ks i)
                 in if k = [] then (sets, dels)
                    else (case vs i of
                            None \<Rightarrow> (sets, dels @ [k])
                          | Some v \<Rightarrow> (hm_insert sets k (mp_read_cstr (Some v)), dels))) [0..<unat count] ([], [])
      | _ \<Rightarrow> ([], []))"

definition join_cfg_kv :: "raw_kv option \<Rightarrow> (string, string) hmap" where
  "join_cfg_kv cfg = (case cfg of None \<Rightarrow> [] | Some a \<Rightarrow> kv_list a)"

section \<open>Lobby\<close>

record mlobby =
  ml_id :: cstr
  ml_connection :: cstr
  ml_owner :: entity_key
  ml_has_owner :: bool
  ml_max_players :: u32
  ml_props :: prop_map
  ml_search :: prop_map
  ml_member_props :: "(string, prop_map) hmap"
  ml_members :: "entity_key list"
  ml_membership_lock :: u32
  ml_access_policy :: u32
  ml_lock_known :: bool
  ml_announced :: "string list"
  ml_pending :: bool
  ml_left :: bool

text \<open>\<open>m.split(p).nth(1)\<close>.\<close>

definition split_nth1 :: "string \<Rightarrow> string \<Rightarrow> string option" where
  "split_nth1 p s =
     (case split_once_str p s of
        None \<Rightarrow> None
      | Some (_, rest) \<Rightarrow> Some (case split_once_str p rest of Some (a, _) \<Rightarrow> a | None \<Rightarrow> rest))"

definition member_id_of :: "nat \<Rightarrow> string \<Rightarrow> string option option" where
  "member_id_of d m =
     scan_or (jstr_field d m ''Id'') (scan_or (jstr_field d m ''id'')
       (scan_or (do { ent \<leftarrow> jobj_field d m ''MemberEntity''; Some (opt_filter (\<lambda>s. s \<noteq> []) (hm_get ent ''Id'')) })
         (Some (map_option (takeWhile (\<lambda>c. c \<noteq> dquote))
           (split_nth1 (dquote # ''Id'' @ [dquote, CHR '':'', dquote]) m)))))"

fun members_of_json ::
  "nat \<Rightarrow> string list \<Rightarrow> entity_key list \<times> (string, prop_map) hmap \<Rightarrow> (entity_key list \<times> (string, prop_map) hmap) option" where
  "members_of_json d [] acc = Some acc"
| "members_of_json d (m # ms) (members, member_props) =
     do { eid \<leftarrow> member_id_of d m;
          case eid of
            None \<Rightarrow> members_of_json d ms (members, member_props)
          | Some e \<Rightarrow>
              do { nested \<leftarrow> jobj_field d m ''MemberData'';
                   members_of_json d ms
                     (members @ [member_key e],
                      hm_insert member_props e (ensure_member_props (mp_apply_props [] nested) e)) } }"

definition lobby_from_json :: "nat \<Rightarrow> string \<Rightarrow> mlobby option option" where
  "lobby_from_json d text =
     do { idv \<leftarrow> jstr_field d text ''LobbyId'';
          case idv of
            None \<Rightarrow> Some None
          | Some lid \<Rightarrow>
              do { connv \<leftarrow> jstr_field d text ''ConnectionString'';
                   props \<leftarrow> jobj_field d text ''LobbyData'';
                   search \<leftarrow> jobj_field d text ''SearchData'';
                   objs \<leftarrow> jarr_field d text ''Members'';
                   (members, member_props) \<leftarrow> members_of_json d objs ([], []);
                   lock \<leftarrow> jstr_field d text ''MembershipLock'';
                   policy \<leftarrow> jstr_field d text ''AccessPolicy'';
                   ownero \<leftarrow> jobj_field d text ''Owner'';
                   maxp \<leftarrow> json_max_players d text;
                   let owner_id = opt_filter (\<lambda>s. s \<noteq> []) (hm_get ownero ''Id'');
                       conn = unwrap_or connv (''lan.'' @ lid)
                   in Some (case (cstring_new lid, cstring_new conn) of
                        (Some cid, Some cconn) \<Rightarrow>
                          Some \<lparr>ml_id = cid, ml_connection = cconn,
                                ml_owner = member_key (unwrap_or owner_id ''owner''),
                                ml_has_owner = (owner_id \<noteq> None), ml_max_players = maxp,
                                ml_props = mp_apply_props [] props, ml_search = mp_apply_props [] search,
                                ml_member_props = member_props, ml_members = members,
                                ml_membership_lock = (case lock of Some s \<Rightarrow> parse_membership_lock s | None \<Rightarrow> 0),
                                ml_access_policy = (case policy of Some s \<Rightarrow> parse_access_policy s | None \<Rightarrow> 0),
                                ml_lock_known = False, ml_announced = [], ml_pending = False, ml_left = False\<rparr>
                      | _ \<Rightarrow> None) } }"

definition new_placeholder :: "entity_key \<Rightarrow> u32 \<Rightarrow> u32 \<Rightarrow> mlobby" where
  "new_placeholder owner maxp policy =
     \<lparr>ml_id = [], ml_connection = [], ml_owner = owner, ml_has_owner = True, ml_max_players = maxp,
      ml_props = [], ml_search = [], ml_member_props = [], ml_members = [],
      ml_membership_lock = 0, ml_access_policy = policy, ml_lock_known = False, ml_announced = [],
      ml_pending = True, ml_left = False\<rparr>"

definition move_lobby_into :: "mlobby \<Rightarrow> mlobby \<Rightarrow> mlobby" where
  "move_lobby_into l fresh =
     l\<lparr>ml_id := ml_id fresh, ml_connection := ml_connection fresh, ml_owner := ml_owner fresh,
       ml_has_owner := ml_has_owner fresh, ml_max_players := ml_max_players fresh, ml_props := ml_props fresh,
       ml_search := ml_search fresh, ml_member_props := ml_member_props fresh, ml_members := ml_members fresh,
       ml_membership_lock := ml_membership_lock fresh, ml_access_policy := ml_access_policy fresh\<rparr>"

definition apply_create_response ::
  "nat \<Rightarrow> string \<Rightarrow> entity_key \<Rightarrow> u32 \<Rightarrow> (string, string) hmap \<Rightarrow> (string, string) hmap \<Rightarrow> mlobby \<Rightarrow> mlobby option" where
  "apply_create_response d text owner maxp lobby_data search l =
     do { lid \<leftarrow> jstr_field d text ''LobbyId'';
          conn \<leftarrow> jstr_field d text ''ConnectionString'';
          m \<leftarrow> json_max_players d text;
          Some (l\<lparr>ml_id := (case lid of Some s \<Rightarrow> unwrap_or (cstring_new s) [] | None \<Rightarrow> ml_id l),
                  ml_connection := (case conn of Some s \<Rightarrow> unwrap_or (cstring_new s) [] | None \<Rightarrow> ml_connection l),
                  ml_owner := owner, ml_has_owner := True, ml_max_players := max m maxp,
                  ml_props := ensure_cstr_map lobby_data, ml_search := ensure_cstr_map search,
                  ml_pending := False\<rparr>) }"

definition apply_join_response :: "nat \<Rightarrow> string \<Rightarrow> entity_key \<Rightarrow> (string, string) hmap \<Rightarrow> mlobby \<Rightarrow> mlobby option" where
  "apply_join_response d text joiner member_kv l =
     do { freshv \<leftarrow> lobby_from_json d text;
          let l1 = (case freshv of Some fresh \<Rightarrow> move_lobby_into l fresh | None \<Rightarrow> l);
              mid = key_id joiner;
              l2 = (if list_ex (\<lambda>m. key_id m = mid) (ml_members l1) then l1
                    else l1\<lparr>ml_members := ml_members l1 @ [joiner]\<rparr>);
              entry = unwrap_or (hm_get (ml_member_props l2) mid) []
          in Some (l2\<lparr>ml_member_props := hm_insert (ml_member_props l2) mid
                       (ensure_member_props (mp_apply_props entry member_kv) mid)\<rparr>) }"

section \<open>Network descriptor of the host\<close>

definition is_real_network_descriptor :: "string \<Rightarrow> bool" where
  "is_real_network_descriptor s \<longleftrightarrow> starts_with s ''LAN1.'' \<and> length s > 5"

definition lan1_network_id :: "string \<Rightarrow> string option" where
  "lan1_network_id desc =
     (case strip_prefix ''LAN1.'' desc of
        None \<Rightarrow> None
      | Some rest \<Rightarrow> (let nid = hd (split_char (CHR ''.'') rest) in if length nid \<ge> 8 then Some nid else None))"

definition lobby_ready_for_guest :: "mlobby \<Rightarrow> bool" where
  "lobby_ready_for_guest l =
     (case hm_get (ml_props l) ''network_descriptor'' of
        None \<Rightarrow> False
      | Some desc \<Rightarrow>
          is_real_network_descriptor (utf8_lossy desc) \<and>
          (case hm_get (ml_props l) ''invitation_identifier'' of
             Some invit \<Rightarrow> utf8_lossy invit \<noteq> [] \<and> utf8_lossy invit \<noteq> ''dummy''
           | None \<Rightarrow> False))"

end
