(* ===== verification/Mp_Update.thy ===== *)
theory Mp_Update
  imports Mp_Lobby
begin

text \<open>
  \<open>playfab-mp-shim/src/lib.rs\<close>: the request bodies the shim posts to the broker, the delta
  between two views of a lobby, and the refresh of a lobby from a \<open>GetLobby\<close> answer. The lemmas
  say which differences a delta reports and what a refresh keeps of the local view.
\<close>

section \<open>Request bodies\<close>

abbreviation jfield :: "string \<Rightarrow> string" where
  "jfield k \<equiv> dquote # k @ [dquote, CHR '':'']"

abbreviation braces :: "string \<Rightarrow> string" where
  "braces s \<equiv> CHR 0x7B # s @ [CHR 0x7D]"

definition entity_json :: "string \<Rightarrow> string \<Rightarrow> string" where
  "entity_json eid ty = braces (raw_member ''Id'' eid @ '','' @ raw_member ''Type'' ty)"

definition build_create_body ::
  "u32 \<Rightarrow> u32 \<Rightarrow> (string, string) hmap \<Rightarrow> (string, string) hmap \<Rightarrow> string \<Rightarrow> (string, string) hmap \<Rightarrow> string" where
  "build_create_body maxp policy lobby_data search owner_id member_kv =
     (let owner = (if owner_id = [] then []
                   else '','' @ jfield ''Owner'' @ entity_json owner_id title_player)
      in braces (jfield ''MaxPlayers'' @ show_nat (unat maxp) @ '','' @
           jfield ''OwnerMigrationPolicy'' @ show_nat (unat policy) @ '','' @
           jfield ''LobbyData'' @ props_json lobby_data @ '','' @
           jfield ''SearchData'' @ props_json search @ owner @ '','' @
           jfield ''MemberData'' @ member_data_json owner_id member_kv))"

definition build_join_body :: "string \<Rightarrow> string \<Rightarrow> (string, string) hmap \<Rightarrow> string" where
  "build_join_body conn joiner_id member_kv =
     (let member = (if joiner_id = [] then []
                    else '','' @ jfield ''MemberEntity'' @ entity_json joiner_id title_player @ '','' @
                      jfield ''MemberData'' @ member_data_json joiner_id member_kv)
      in braces (raw_member ''ConnectionString'' conn @ member))"

definition member_props_json_for :: "mlobby \<Rightarrow> string \<Rightarrow> string option" where
  "member_props_json_for l eid =
     map_option (\<lambda>mp. member_data_json eid (lossy_map mp)) (hm_get (ml_member_props l) eid)"

record scalars =
  ps_owner :: "entity_key option"
  ps_max_players :: "u32 option"
  ps_access_policy :: "u32 option"
  ps_membership_lock :: "u32 option"

definition no_scalars :: scalars where
  "no_scalars = \<lparr>ps_owner = None, ps_max_players = None, ps_access_policy = None, ps_membership_lock = None\<rparr>"

definition q_str_list :: "string list \<Rightarrow> string" where
  "q_str_list ks = join '','' (map (\<lambda>k. dquote # json_escape k @ [dquote]) ks)"

definition brackets :: "string \<Rightarrow> string" where
  "brackets s = CHR ''['' # s @ [CHR '']'']"

definition build_update_body ::
  "string \<Rightarrow> mlobby \<Rightarrow> string list \<Rightarrow> string list \<Rightarrow> string option \<Rightarrow> string list \<Rightarrow> scalars \<Rightarrow> string" where
  "build_update_body local_entity l search_delete lobby_delete member_target member_delete sc =
     (let target = (case member_target of
                      Some s \<Rightarrow> Some s
                    | None \<Rightarrow> if local_entity = [] then None else Some local_entity);
          md = (case target of
                  None \<Rightarrow> []
                | Some eid \<Rightarrow>
                    (case member_props_json_for l eid of
                       None \<Rightarrow> []
                     | Some s \<Rightarrow>
                         '','' @ jfield ''MemberData'' @ s @
                         (if member_target \<noteq> None
                          then '','' @ jfield ''MemberEntity'' @ entity_json eid title_player else [])));
          extras =
            (if search_delete \<noteq> [] then '','' @ jfield ''SearchDataToDelete'' @ brackets (q_str_list search_delete) else []) @
            (if lobby_delete \<noteq> [] then '','' @ jfield ''LobbyDataToDelete'' @ brackets (q_str_list lobby_delete) else []) @
            (case ps_owner sc of None \<Rightarrow> []
             | Some o1 \<Rightarrow> '','' @ jfield ''Owner'' @ entity_json (mp_read_cstr (ek_id o1)) (mp_read_cstr (ek_type o1))) @
            (case ps_max_players sc of None \<Rightarrow> [] | Some m \<Rightarrow> '','' @ jfield ''MaxPlayers'' @ show_nat (unat m)) @
            (case ps_access_policy sc of None \<Rightarrow> []
             | Some a \<Rightarrow> '','' @ jfield ''AccessPolicy'' @ [dquote] @ access_policy_name a @ [dquote]) @
            (case ps_membership_lock sc of None \<Rightarrow> []
             | Some k \<Rightarrow> '','' @ jfield ''MembershipLock'' @ [dquote] @
                 (if k = 1 then ''Locked'' else ''Unlocked'') @ [dquote]) @
            (if member_target \<noteq> None \<and> member_delete \<noteq> []
             then '','' @ jfield ''MemberDataToDelete'' @ brackets (q_str_list member_delete) else [])
      in braces (jfield ''LobbyId'' @ [dquote] @ utf8_lossy (ml_id l) @ [dquote] @ '','' @
           jfield ''LobbyData'' @ props_json (lossy_map (ml_props l)) @ '','' @
           jfield ''SearchData'' @ props_json (lossy_map (ml_search l)) @ md @ extras))"

text \<open>The body of a \<open>GetLobby\<close> request; the id is not escaped.\<close>

definition get_lobby_body :: "string \<Rightarrow> string" where
  "get_lobby_body lid = braces (jfield ''LobbyId'' @ [dquote] @ lid @ [dquote])"

definition leave_body :: "string \<Rightarrow> string \<Rightarrow> string" where
  "leave_body lid eid =
     (if eid = [] then get_lobby_body lid
      else braces (jfield ''LobbyId'' @ [dquote] @ lid @ [dquote] @ '','' @ raw_member ''EntityId'' eid))"

section \<open>Difference of two views\<close>

record lobby_snapshot =
  sn_owner :: entity_key
  sn_has_owner :: bool
  sn_max_players :: u32
  sn_access_policy :: u32
  sn_membership_lock :: u32
  sn_props :: prop_map
  sn_search :: prop_map
  sn_member_props :: "(string, prop_map) hmap"

definition snapshot :: "mlobby \<Rightarrow> lobby_snapshot" where
  "snapshot l = \<lparr>sn_owner = ml_owner l, sn_has_owner = ml_has_owner l, sn_max_players = ml_max_players l,
     sn_access_policy = ml_access_policy l, sn_membership_lock = ml_membership_lock l, sn_props = ml_props l,
     sn_search = ml_search l, sn_member_props = ml_member_props l\<rparr>"

record member_update =
  mu_member :: entity_key
  mu_connection_status_updated :: bool
  mu_property_keys :: "string list"

record lobby_delta =
  ld_owner_updated :: bool
  ld_max_players_updated :: bool
  ld_access_policy_updated :: bool
  ld_membership_lock_updated :: bool
  ld_search_keys :: "string list"
  ld_lobby_keys :: "string list"
  ld_member_updates :: "member_update list"

definition delta_default :: lobby_delta where
  "delta_default = \<lparr>ld_owner_updated = False, ld_max_players_updated = False, ld_access_policy_updated = False,
     ld_membership_lock_updated = False, ld_search_keys = [], ld_lobby_keys = [], ld_member_updates = []\<rparr>"

definition delta_is_empty :: "lobby_delta \<Rightarrow> bool" where
  "delta_is_empty d \<longleftrightarrow> \<not> ld_owner_updated d \<and> \<not> ld_max_players_updated d \<and> \<not> ld_access_policy_updated d \<and>
     \<not> ld_membership_lock_updated d \<and> ld_search_keys d = [] \<and> ld_lobby_keys d = [] \<and> ld_member_updates d = []"

definition changed_keys :: "prop_map \<Rightarrow> prop_map \<Rightarrow> string list" where
  "changed_keys before after =
     remdups_adj (sort
       (map fst (filter (\<lambda>(k, v). hm_get before k \<noteq> Some v) after) @
        filter (\<lambda>k. hm_get after k = None) (map fst before)))"

definition member_entity :: "mlobby \<Rightarrow> string \<Rightarrow> entity_key" where
  "member_entity l eid = unwrap_or (List.find (\<lambda>m. key_id m = eid) (ml_members l)) (member_key eid)"

definition member_delta :: "(string, prop_map) hmap \<Rightarrow> mlobby \<Rightarrow> string \<times> prop_map \<Rightarrow> member_update option" where
  "member_delta before after e =
     (case e of (eid, props) \<Rightarrow>
        (let new_member = (hm_get before eid = None);
             ks = changed_keys (unwrap_or (hm_get before eid) []) props
         in if new_member \<or> ks \<noteq> []
            then Some \<lparr>mu_member = member_entity after eid, mu_connection_status_updated = new_member,
                       mu_property_keys = ks\<rparr>
            else None))"

definition diff_lobby :: "lobby_snapshot \<Rightarrow> mlobby \<Rightarrow> lobby_delta" where
  "diff_lobby before after =
     \<lparr>ld_owner_updated = (sn_has_owner before \<noteq> ml_has_owner after \<or> \<not> entity_eq (sn_owner before) (ml_owner after)),
      ld_max_players_updated = (sn_max_players before \<noteq> ml_max_players after),
      ld_access_policy_updated = (sn_access_policy before \<noteq> ml_access_policy after),
      ld_membership_lock_updated = (sn_membership_lock before \<noteq> ml_membership_lock after),
      ld_search_keys = changed_keys (sn_search before) (ml_search after),
      ld_lobby_keys = changed_keys (sn_props before) (ml_props after),
      ld_member_updates = List.map_filter (member_delta (sn_member_props before) after) (ml_member_props after)\<rparr>"

section \<open>Refresh\<close>

text \<open>\<open>entry(k).or_insert_with(v)\<close> for every local key: the server's values win.\<close>

definition fill_gaps :: "prop_map \<Rightarrow> prop_map \<Rightarrow> prop_map" where
  "fill_gaps entry mp = fold (\<lambda>(k, v) e. if hm_get e k = None then hm_insert e k v else e) mp entry"

definition merge_member_props :: "(string, prop_map) hmap \<Rightarrow> (string, prop_map) hmap \<Rightarrow> (string, prop_map) hmap" where
  "merge_member_props local fresh =
     map (\<lambda>(eid, mp). (eid, ensure_member_props mp eid))
       (fold (\<lambda>(eid, mp) fm.
          hm_insert fm eid (ensure_member_props (fill_gaps (unwrap_or (hm_get fm eid) []) mp) eid)) local fresh)"

definition take_fresh :: "mlobby \<Rightarrow> mlobby \<Rightarrow> mlobby" where
  "take_fresh l fresh =
     (let l1 = l\<lparr>ml_props := ml_props fresh, ml_search := ml_search fresh, ml_connection := ml_connection fresh,
                 ml_owner := ml_owner fresh, ml_has_owner := ml_has_owner fresh,
                 ml_max_players := ml_max_players fresh, ml_access_policy := ml_access_policy fresh,
                 ml_membership_lock := ml_membership_lock fresh\<rparr>
      in if ml_members fresh = [] \<and> ml_members l \<noteq> [] then l1
         else l1\<lparr>ml_members := ml_members fresh,
                 ml_member_props := merge_member_props (ml_member_props l) (ml_member_props fresh)\<rparr>)"

definition departed_of :: "mlobby \<Rightarrow> string list" where
  "departed_of l =
     (if ml_members l \<noteq> [] \<or> ml_announced l \<noteq> []
      then filter (\<lambda>e. e \<notin> set (map key_id (ml_members l))) (ml_announced l) else [])"

definition apply_refresh ::
  "nat \<Rightarrow> (u16 \<times> string) option \<Rightarrow> mlobby \<Rightarrow> (string list \<times> bool \<times> lobby_delta \<times> mlobby) option" where
  "apply_refresh d resp l =
     (case resp of
        None \<Rightarrow> Some ([], False, delta_default, l)
      | Some (status, text) \<Rightarrow>
          if status \<noteq> 200 then Some ([], True, delta_default, l)
          else do { freshv \<leftarrow> lobby_from_json d text;
                    case freshv of
                      None \<Rightarrow> Some ([], False, delta_default, l)
                    | Some fresh \<Rightarrow>
                        (let l' = take_fresh l fresh
                         in Some (departed_of l', False, diff_lobby (snapshot l) l', l')) })"

section \<open>What a delta reports\<close>

lemma set_changed_keys:
  assumes "hm_wf after"
  shows "set (changed_keys before after) = {k. hm_get before k \<noteq> hm_get after k}"
proof -
  have in_before: "k \<in> fst ` set before \<longleftrightarrow> hm_get before k \<noteq> None" for k
    by (simp add: map_of_eq_None_iff)
  have in_after: "k \<in> fst ` set (filter (\<lambda>(k, v). hm_get before k \<noteq> Some v) after) \<longleftrightarrow>
      (\<exists>v. hm_get after k = Some v \<and> hm_get before k \<noteq> Some v)" for k
    using assms by (force simp: hm.get_mem)
  have "k \<in> set (changed_keys before after) \<longleftrightarrow> hm_get before k \<noteq> hm_get after k" for k
    unfolding changed_keys_def remdups_adj_set set_sort set_append Un_iff set_map in_after
    by (cases "hm_get after k"; cases "hm_get before k") (simp_all add: in_before)
  then show ?thesis by blast
qed

lemma sorted_changed_keys: "sorted (changed_keys before after)"
  unfolding changed_keys_def by (rule sorted_remdups_adj) simp

lemma distinct_remdups_adj: "sorted xs \<Longrightarrow> distinct (remdups_adj xs)"
  for xs :: "'a::linorder list"
  by (induction xs rule: remdups_adj.induct) (auto)

lemma distinct_changed_keys: "distinct (changed_keys before after)"
  unfolding changed_keys_def by (rule distinct_remdups_adj) simp

lemma changed_keys_empty: "hm_wf after \<Longrightarrow> changed_keys before after = [] \<longleftrightarrow> hm_get before = hm_get after"
  using set_changed_keys [of after before] by (auto simp: fun_eq_iff simp flip: set_empty)

section \<open>Member properties\<close>

lemma numeric_ascii: "numeric s \<Longrightarrow> is_ascii s \<and> CHR 0x00 \<notin> set s \<and> utf8_lossy s = s"
proof -
  assume "numeric s"
  then have d: "\<forall>c \<in> set s. 48 \<le> ord_char c \<and> ord_char c \<le> 57"
    by (simp add: numeric_def list_all_iff is_ascii_digit_def)
  then have a: "is_ascii s" by (fastforce simp: is_ascii_def)
  have "ord_char (CHR 0x00) = 0" by simp
  with d have "CHR 0x00 \<notin> set s" by fastforce
  with a utf8_lossy_valid [OF utf8_valid_ascii [OF a]] show ?thesis by simp
qed

lemma numeric_decimal: "numeric (mp_account_id eid)"
  by (auto simp: mp_account_id_def Let_def) (auto simp: numeric_def list_all_iff dest: show_nat_digits)

definition ensured :: "prop_map \<Rightarrow> bool" where
  "ensured mp \<longleftrightarrow>
     (\<exists>p. hm_get mp ''member_platform'' = Some p \<and> utf8_lossy p \<noteq> [] \<and> utf8_lossy p \<noteq> ''1'') \<and>
     (\<exists>a. hm_get mp ''member_platform_account_id'' = Some a \<and> numeric a) \<and>
     hm_get mp ''member_platform_user_name'' \<noteq> None"

lemma steam_lossy: "utf8_lossy ''Steam'' = ''Steam''"
  by (rule utf8_lossy_valid [OF utf8_valid_ascii]) (simp add: is_ascii_def)

lemma ensure_member_props_ensured: "ensured (ensure_member_props mp eid)"
proof -
  define plat where "plat = (case hm_get mp ''member_platform'' of Some c \<Rightarrow> utf8_lossy c | None \<Rightarrow> [])"
  define mp1 where "mp1 = (if plat = [] \<or> plat = ''1'' then hm_insert mp ''member_platform'' ''Steam'' else mp)"
  define account where
    "account = (case opt_filter numeric (map_option utf8_lossy (hm_get mp1 ''member_platform_account_id'')) of
                  Some s \<Rightarrow> s | None \<Rightarrow> if numeric eid then eid else mp_account_id eid)"
  have "numeric account"
    by (cases "hm_get mp1 ''member_platform_account_id''") (simp_all add: account_def numeric_decimal)
  then have acc: "unwrap_or (cstring_new account) ''1'' = account" "numeric account"
    by (simp_all add: cstring_new_def numeric_ascii)
  have p1: "\<exists>p. hm_get mp1 ''member_platform'' = Some p \<and> utf8_lossy p \<noteq> [] \<and> utf8_lossy p \<noteq> ''1''"
    by (auto simp: mp1_def plat_def hm_get_insert steam_lossy split: option.splits)
  have e: "ensure_member_props mp eid =
      (let mp2 = hm_insert mp1 ''member_platform_account_id'' account
       in if hm_get mp2 ''member_platform_user_name'' = None
          then hm_insert mp2 ''member_platform_user_name'' ''LAN'' else mp2)"
    by (simp add: ensure_member_props_def Let_def plat_def [symmetric] mp1_def [symmetric] account_def [symmetric] acc(1))
  show ?thesis
    using p1 acc(2) by (auto simp: e ensured_def Let_def hm_get_insert)
qed

lemma ensure_member_props_id: "ensured mp \<Longrightarrow> hm_get (ensure_member_props mp eid) = hm_get mp"
proof -
  assume "ensured mp"
  then obtain p a where p: "hm_get mp ''member_platform'' = Some p" "utf8_lossy p \<noteq> []" "utf8_lossy p \<noteq> ''1''"
    and a: "hm_get mp ''member_platform_account_id'' = Some a" "numeric a"
    and u: "hm_get mp ''member_platform_user_name'' \<noteq> None"
    by (auto simp: ensured_def)
  have "utf8_lossy a = a" "CHR 0x00 \<notin> set a" using numeric_ascii [OF a(2)] by simp_all
  then show ?thesis
    using p a u by (auto simp: ensure_member_props_def Let_def hm_get_insert cstring_new_def fun_eq_iff)
qed

lemma ensured_cong: "hm_get a = hm_get b \<Longrightarrow> ensured a = ensured b"
  by (simp add: ensured_def)

lemma hm_wf_fold: "(\<And>x m. hm_wf m \<Longrightarrow> hm_wf (f x m)) \<Longrightarrow> hm_wf m \<Longrightarrow> hm_wf (fold f xs m)"
  by (induction xs arbitrary: m) simp_all

lemma hm_wf_ensure: "hm_wf mp \<Longrightarrow> hm_wf (ensure_member_props mp eid)"
  by (simp add: ensure_member_props_def Let_def hm_wf_insert)

lemma hm_wf_apply: "hm_wf dst \<Longrightarrow> hm_wf (mp_apply_props dst src)"
  unfolding mp_apply_props_def by (rule hm_wf_fold) (auto simp: hm_wf_insert)

lemma hm_wf_drop: "hm_wf dst \<Longrightarrow> hm_wf (drop_props dst ks)"
  unfolding drop_props_def by (rule hm_wf_fold) (auto simp: hm_wf_remove)

lemma hm_wf_fill: "hm_wf e \<Longrightarrow> hm_wf (fill_gaps e mp)"
  unfolding fill_gaps_def by (rule hm_wf_fold) (auto simp: hm_wf_insert)

lemma get_fill_gaps: "hm_get (fill_gaps e mp) k = or_else (hm_get e k) (hm_get mp k)"
proof (induction mp arbitrary: e)
  case Nil
  show ?case by (cases "hm_get e k") (simp_all add: fill_gaps_def)
next
  case (Cons x mp)
  then show ?case
    by (cases x; cases "hm_get e k") (auto simp: fill_gaps_def hm_get_insert)
qed

section \<open>Merging the local view\<close>

lemma get_merge_fold:
  assumes "hm_wf local"
  shows "hm_get (fold (\<lambda>(eid, mp) fm. hm_insert fm eid (g (unwrap_or (hm_get fm eid) []) mp eid)) local fresh) e =
    (case hm_get local e of None \<Rightarrow> hm_get fresh e | Some mp \<Rightarrow> Some (g (unwrap_or (hm_get fresh e) []) mp e))"
  using assms
proof (induction local arbitrary: fresh)
  case (Cons x local)
  obtain e' mp' where x: "x = (e', mp')" by (cases x)
  have "e = e' \<Longrightarrow> hm_get local e = None" using Cons.prems by (simp add: x map_of_eq_None_iff)
  with Cons show ?case by (auto simp: x hm_get_insert split: option.split)
qed simp

lemma get_merge_member_props:
  "hm_wf local \<Longrightarrow> hm_get (merge_member_props local fresh) e =
    (case hm_get local e of
       None \<Rightarrow> map_option (\<lambda>f. ensure_member_props f e) (hm_get fresh e)
     | Some mp \<Rightarrow> Some (ensure_member_props (ensure_member_props (fill_gaps (unwrap_or (hm_get fresh e) []) mp) e) e))"
  using get_merge_fold [of "local" "\<lambda>f mp eid. ensure_member_props (fill_gaps f mp) eid" fresh e]
  by (simp add: merge_member_props_def map_of_map_val split: option.split)

definition member_props_wf :: "(string, prop_map) hmap \<Rightarrow> bool" where
  "member_props_wf m \<longleftrightarrow> hm_wf m \<and> (\<forall>x \<in> set m. hm_wf (snd x))"

definition lobby_wf :: "mlobby \<Rightarrow> bool" where
  "lobby_wf l \<longleftrightarrow> hm_wf (ml_props l) \<and> hm_wf (ml_search l) \<and> member_props_wf (ml_member_props l)"

lemma member_props_wf_get: "member_props_wf m \<Longrightarrow> hm_get m e = Some mp \<Longrightarrow> hm_wf mp"
  by (auto simp: member_props_wf_def dest: map_of_SomeD)

lemma member_props_wf_entry: "member_props_wf m \<Longrightarrow> hm_wf (unwrap_or (hm_get m e) [])"
  by (cases "hm_get m e") (auto dest: member_props_wf_get)

lemma member_props_wf_insert: "member_props_wf m \<Longrightarrow> hm_wf mp \<Longrightarrow> member_props_wf (hm_insert m e mp)"
  by (auto simp: member_props_wf_def hm_wf_insert dest!: in_set_hm_insert)

lemma member_props_wf_merge: "member_props_wf local \<Longrightarrow> member_props_wf fresh \<Longrightarrow> member_props_wf (merge_member_props local fresh)"
proof -
  assume l: "member_props_wf local" and f: "member_props_wf fresh"
  have "member_props_wf (fold (\<lambda>(eid, mp) fm.
      hm_insert fm eid (ensure_member_props (fill_gaps (unwrap_or (hm_get fm eid) []) mp) eid)) local fresh)"
    using f by (induction "local" arbitrary: fresh)
      (auto simp: member_props_wf_insert hm_wf_ensure hm_wf_fill member_props_wf_entry)
  then show ?thesis
    by (auto simp: merge_member_props_def member_props_wf_def case_prod_beta comp_def hm_wf_ensure)
qed

text \<open>Two property tables with the same contents.\<close>

definition same_props :: "(string, prop_map) hmap \<Rightarrow> (string, prop_map) hmap \<Rightarrow> bool" where
  "same_props a b \<longleftrightarrow> (\<forall>e. map_option hm_get (hm_get a e) = map_option hm_get (hm_get b e))"

lemma fill_ensured: "ensured f \<Longrightarrow> ensured (fill_gaps f mp)"
  by (auto simp: ensured_def get_fill_gaps)

lemma or_else_None [simp]: "or_else x None = x"
  by (cases x) simp_all

lemma merge_fresh_entry:
  assumes "hm_wf local" and "hm_get fresh e = Some f" and "ensured f"
  shows "\<exists>g. hm_get (merge_member_props local fresh) e = Some g \<and>
    hm_get g = (\<lambda>k. or_else (hm_get f k) (hm_get (unwrap_or (hm_get local e) []) k))"
proof (cases "hm_get local e")
  case None
  then show ?thesis using assms by (simp add: get_merge_member_props ensure_member_props_id)
next
  case (Some mp)
  then show ?thesis
    using assms fill_ensured [OF assms(3), of mp]
    by (simp add: get_merge_member_props ensure_member_props_id ensure_member_props_ensured get_fill_gaps fun_eq_iff)
qed

lemma merge_again:
  assumes l: "hm_wf local" and m: "hm_wf (merge_member_props local fresh)"
    and f: "\<And>e f. hm_get fresh e = Some f \<Longrightarrow> ensured f"
  shows "same_props (merge_member_props (merge_member_props local fresh) fresh) (merge_member_props local fresh)"
  unfolding same_props_def
proof
  fix e
  let ?m = "hm_get (merge_member_props local fresh) e"
  show "map_option hm_get (hm_get (merge_member_props (merge_member_props local fresh) fresh) e) = map_option hm_get ?m"
  proof (cases ?m)
    case None
    then show ?thesis
      by (auto simp: get_merge_member_props [OF m] get_merge_member_props [OF l] split: option.splits)
  next
    case (Some g)
    have g: "ensured g"
      using Some by (auto simp: get_merge_member_props [OF l] ensure_member_props_ensured split: option.splits)
    have fg: "hm_get (fill_gaps (unwrap_or (hm_get fresh e) []) g) = hm_get g"
    proof (cases "hm_get fresh e")
      case None
      then show ?thesis by (simp add: fun_eq_iff get_fill_gaps)
    next
      case (Some f)
      from merge_fresh_entry [OF l Some f [OF Some]] \<open>?m = Some g\<close>
      have "hm_get g = (\<lambda>k. or_else (hm_get f k) (hm_get (unwrap_or (hm_get local e) []) k))" by simp
      then have "or_else (hm_get f k) (hm_get g k) = hm_get g k" for k by (cases "hm_get f k") simp_all
      then show ?thesis using Some by (simp add: fun_eq_iff get_fill_gaps)
    qed
    then have "ensured (fill_gaps (unwrap_or (hm_get fresh e) []) g)" using g ensured_cong by blast
    then show ?thesis
      using Some fg by (simp add: get_merge_member_props [OF m] ensure_member_props_id ensure_member_props_ensured)
  qed
qed

section \<open>Lobbies read from an answer\<close>

definition member_table_ok :: "(string, prop_map) hmap \<Rightarrow> bool" where
  "member_table_ok mp \<longleftrightarrow> member_props_wf mp \<and> (\<forall>x \<in> set mp. ensured (snd x))"

lemma member_table_ok_insert:
  "member_table_ok mp \<Longrightarrow> member_table_ok (hm_insert mp e (ensure_member_props (mp_apply_props [] nested) e))"
  by (auto simp: member_table_ok_def member_props_wf_insert hm_wf_ensure hm_wf_apply ensure_member_props_ensured
      dest: in_set_hm_insert)

lemma members_of_json_ok:
  "members_of_json d objs (ms, mp) = Some (ms', mp') \<Longrightarrow> member_table_ok mp \<Longrightarrow> member_table_ok mp'"
proof (induction d objs "(ms, mp)" arbitrary: ms mp rule: members_of_json.induct)
  case (2 d m objs ms mp)
  note IH = 2
  show ?case
  proof (cases "member_id_of d m")
    case (Some eid)
    then show ?thesis
      using IH by (cases eid) (auto split: Option.bind_splits intro: member_table_ok_insert)
  qed (use IH(3) in simp)
qed simp

lemma u32_clamp_bounds: "lo \<le> hi \<Longrightarrow> lo \<le> u32_clamp lo hi v \<and> u32_clamp lo hi v \<le> hi"
  by (auto simp: u32_clamp_def)

lemma json_max_players_bounds: "json_max_players d blob = Some m \<Longrightarrow> 2 \<le> m \<and> m \<le> 32"
  using u32_clamp_bounds [of 2 32] by (auto simp: json_max_players_def split: Option.bind_splits)

lemma lobby_from_json_ok:
  assumes "lobby_from_json d text = Some (Some l)"
  shows "lobby_wf l" and "hm_get (ml_member_props l) e = Some f \<Longrightarrow> ensured f"
    and "2 \<le> ml_max_players l" and "ml_max_players l \<le> 32"
proof -
  from assms obtain objs maxp members member_props props search where
    m: "members_of_json d objs ([], []) = Some (members, member_props)" "json_max_players d text = Some maxp"
    and l: "ml_member_props l = member_props" "ml_max_players l = maxp" "ml_props l = mp_apply_props [] props"
      "ml_search l = mp_apply_props [] search"
    by (auto simp: lobby_from_json_def Let_def split: Option.bind_splits option.splits prod.splits)
  from members_of_json_ok [OF m(1)] have mp: "member_props_wf member_props" "\<forall>x \<in> set member_props. ensured (snd x)"
    by (simp_all add: member_table_ok_def member_props_wf_def)
  show "lobby_wf l" by (simp add: lobby_wf_def l mp hm_wf_apply)
  show "hm_get (ml_member_props l) e = Some f \<Longrightarrow> ensured f" using mp(2) by (force simp: l dest: map_of_SomeD)
  show "2 \<le> ml_max_players l" "ml_max_players l \<le> 32" using json_max_players_bounds [OF m(2)] by (simp_all add: l)
qed

lemma lobby_wf_take_fresh: "lobby_wf l \<Longrightarrow> lobby_wf fresh \<Longrightarrow> lobby_wf (take_fresh l fresh)"
  by (simp add: lobby_wf_def take_fresh_def Let_def member_props_wf_merge)

section \<open>Deltas\<close>

lemma member_delta_None:
  "hm_wf props \<Longrightarrow> member_delta before after (eid, props) = None \<longleftrightarrow>
   map_option hm_get (hm_get before eid) = Some (hm_get props)"
  by (cases "hm_get before eid") (auto simp: member_delta_def Let_def changed_keys_empty)

lemma diff_empty_iff:
  assumes "lobby_wf l'"
  shows "delta_is_empty (diff_lobby (snapshot l) l') \<longleftrightarrow>
    ml_has_owner l = ml_has_owner l' \<and> entity_eq (ml_owner l) (ml_owner l') \<and>
    ml_max_players l = ml_max_players l' \<and> ml_access_policy l = ml_access_policy l' \<and>
    ml_membership_lock l = ml_membership_lock l' \<and>
    hm_get (ml_props l) = hm_get (ml_props l') \<and> hm_get (ml_search l) = hm_get (ml_search l') \<and>
    (\<forall>(eid, props) \<in> set (ml_member_props l').
       map_option hm_get (hm_get (ml_member_props l) eid) = Some (hm_get props))"
proof -
  have wf: "hm_wf (ml_props l')" "hm_wf (ml_search l')" "\<forall>x \<in> set (ml_member_props l'). hm_wf (snd x)"
    using assms by (simp_all add: lobby_wf_def member_props_wf_def)
  have "List.map_filter (member_delta b l') xs = [] \<longleftrightarrow>
      (\<forall>(eid, props) \<in> set xs. map_option hm_get (hm_get b eid) = Some (hm_get props))"
    if "\<forall>x \<in> set xs. hm_wf (snd x)" for b xs
    using that
  proof (induction xs)
    case (Cons x xs)
    obtain eid props where x: "x = (eid, props)" by (cases x)
    have "hm_wf props" using Cons.prems by (simp add: x)
    with Cons show ?case
      using member_delta_None [of props b l' eid]
      by (cases "member_delta b l' x") (simp_all add: x List.map_filter_simps)
  qed (simp add: List.map_filter_simps)
  with wf show ?thesis
    by (auto simp: delta_is_empty_def diff_lobby_def snapshot_def changed_keys_empty)
qed

lemma entity_eq_refl: "entity_eq a a"
  by (simp add: entity_eq_def)

lemma take_fresh_again:
  assumes "lobby_wf l" and "lobby_wf fresh" and "\<And>e f. hm_get (ml_member_props fresh) e = Some f \<Longrightarrow> ensured f"
  shows "delta_is_empty (diff_lobby (snapshot (take_fresh l fresh)) (take_fresh (take_fresh l fresh) fresh))"
proof -
  let ?l1 = "take_fresh l fresh" and ?l2 = "take_fresh (take_fresh l fresh) fresh"
  have wf1: "lobby_wf ?l1" using assms by (simp add: lobby_wf_take_fresh)
  have wf2: "lobby_wf ?l2" using wf1 assms by (simp add: lobby_wf_take_fresh)
  have "same_props (ml_member_props ?l2) (ml_member_props ?l1)"
  proof (cases "ml_members fresh = [] \<and> ml_members l \<noteq> []")
    case True
    then show ?thesis by (auto simp: take_fresh_def Let_def same_props_def)
  next
    case False
    have "hm_wf (ml_member_props l)" "hm_wf (merge_member_props (ml_member_props l) (ml_member_props fresh))"
      using assms member_props_wf_merge by (auto simp: lobby_wf_def member_props_wf_def)
    from merge_again [OF this assms(3)] False show ?thesis by (auto simp: take_fresh_def Let_def)
  qed
  moreover have "hm_get (ml_member_props ?l2) eid = Some props" if "(eid, props) \<in> set (ml_member_props ?l2)" for eid props
    using that wf2 by (auto simp: lobby_wf_def member_props_wf_def hm.get_mem)
  ultimately have "\<forall>(eid, props) \<in> set (ml_member_props ?l2).
      map_option hm_get (hm_get (ml_member_props ?l1) eid) = Some (hm_get props)"
    unfolding same_props_def by (metis (mono_tags, lifting) case_prodI2 option.simps(9))
  then show ?thesis
    unfolding diff_empty_iff [OF wf2] by (simp add: take_fresh_def Let_def entity_eq_refl)
qed

end
