(* ===== verification/Mp_Runtime.thy ===== *)
theory Mp_Runtime
  imports Mp_Update
begin

text \<open>
  \<open>playfab-mp-shim/src/lib.rs\<close>: the instance \<open>Mp\<close> behind the global mutex, the state-change queue,
  the broker jobs and the worker thread.

  A lobby handle is a natural number (0 is null) into the store of \<open>Lobby\<close> boxes, which are
  never freed. The code that runs under the mutex works on the instance and the store. HTTP is
  a parameter: the answer to a request of a job, by the round of requests it belongs to, the
  authorization header, method, path and body. The worker holds no lock during a request and
  reads nothing of the instance before the answer, so taking a job, its requests and the locked
  section that applies the answer are one step; a poll takes one step per lobby.
\<close>

section \<open>State\<close>

type_synonym lptr = nat
type_synonym async_ctx = nat
type_synonym http_env = "nat \<Rightarrow> string option \<Rightarrow> string \<Rightarrow> string \<Rightarrow> string \<Rightarrow> (u16 \<times> string) option"

record search_result =
  sr_lobby_id :: "cstr option"
  sr_connection :: "cstr option"
  sr_owner :: "entity_key option"
  sr_max_member :: u32
  sr_current_member :: u32
  sr_search :: "(cstr option \<times> cstr option) list"

datatype mp_change =
    CreateAndJoinLobbyCompleted u32 async_ctx lptr
  | JoinLobbyCompleted u32 "cstr option" lptr
  | MemberAdded lptr entity_key
  | MemberRemoved lptr entity_key
  | LeaveLobbyCompleted u32
  | LobbyUpdated lptr lobby_delta
  | PostUpdateCompleted u32 lptr "entity_key option" async_ctx
  | LobbyDisconnected lptr
  | FindLobbiesCompleted u32 entity_key async_ctx "search_result list"

record pending_join =
  pj_lobby :: lptr
  pj_joiner :: entity_key
  pj_async_ctx :: async_ctx
  pj_emitted :: bool

record mp =
  mp_token :: "cstr option"
  mp_entity :: "entity_key option"
  mp_generation :: u64
  mp_lobbies :: "lptr list"
  mp_pending :: "mp_change list"
  mp_in_flight :: "mp_change list"
  mp_batch_outstanding :: bool
  mp_pending_joins :: "pending_join list"

type_synonym locked = "mp \<times> (lptr \<Rightarrow> mlobby)"

record create_job =
  cj_generation :: u64
  cj_body :: string
  cj_owner :: entity_key
  cj_lobby :: lptr
  cj_async_ctx :: async_ctx
  cj_max_players :: u32
  cj_lobby_data :: "(string, string) hmap"
  cj_search :: "(string, string) hmap"

record join_job =
  jj_generation :: u64
  jj_body :: string
  jj_joiner :: entity_key
  jj_member_kv :: "(string, string) hmap"
  jj_lobby :: lptr
  jj_async_ctx :: async_ctx

record find_job =
  fj_generation :: u64
  fj_body :: string
  fj_entity :: entity_key
  fj_async_ctx :: async_ctx

record leave_job =
  lj_generation :: u64
  lj_body :: string
  lj_lobby :: lptr

record post_job =
  pj_generation :: u64
  pj_body :: string
  pj_post_lobby :: lptr
  pj_member :: "entity_key option"
  pj_post_ctx :: async_ctx
  pj_delta :: lobby_delta

datatype broker_job =
    Create create_job | Join join_job | Find find_job | LeaveJob leave_job | PostUpdate post_job

text \<open>Where \<open>broker_thread_main\<close> is: draining the queue, past the drain, or in a poll round.\<close>

datatype worker = Draining | Drained | Polling "(lptr \<times> string) list"

record mp_world =
  mw_mp :: "mp option"
  mw_gen :: u64
  mw_box :: "lptr \<Rightarrow> mlobby"
  mw_next :: lptr
  mw_jobs :: "broker_job list"
  mw_auth :: string
  mw_local :: string
  mw_worker :: worker
  mw_next_poll :: int

definition entity_token_header :: "string \<Rightarrow> string option" where
  "entity_token_header tok = (if tok = [] then None else Some (''X-EntityToken: '' @ tok))"

definition http_json_status :: "http_env \<Rightarrow> nat \<Rightarrow> string \<Rightarrow> string \<Rightarrow> string \<Rightarrow> string \<Rightarrow> (u16 \<times> string) option" where
  "http_json_status env i tok meth path body = env i (entity_token_header tok) meth path body"

definition http_json :: "http_env \<Rightarrow> nat \<Rightarrow> string \<Rightarrow> string \<Rightarrow> string \<Rightarrow> string \<Rightarrow> string option" where
  "http_json env i tok meth path body = map_option snd (http_json_status env i tok meth path body)"

definition with_mp :: "(locked \<Rightarrow> locked option) \<Rightarrow> mp_world \<Rightarrow> mp_world option" where
  "with_mp f w =
     (case mw_mp w of
        None \<Rightarrow> Some w
      | Some m \<Rightarrow> do { (m', b') \<leftarrow> f (m, mw_box w); Some (w\<lparr>mw_mp := Some m', mw_box := b'\<rparr>) })"

definition current_generation :: "mp_world \<Rightarrow> u64" where
  "current_generation w = (case mw_mp w of Some m \<Rightarrow> mp_generation m | None \<Rightarrow> 0)"

definition enqueue_job :: "broker_job \<Rightarrow> mp_world \<Rightarrow> mp_world" where
  "enqueue_job j w = w\<lparr>mw_jobs := mw_jobs w @ [j]\<rparr>"

abbreviation upd_lobby :: "lptr \<Rightarrow> (mlobby \<Rightarrow> mlobby) \<Rightarrow> (lptr \<Rightarrow> mlobby) \<Rightarrow> lptr \<Rightarrow> mlobby" where
  "upd_lobby lp f b \<equiv> b(lp := f (b lp))"

section \<open>State changes\<close>

definition mp_queue :: "mp_change \<Rightarrow> mp \<Rightarrow> mp" where
  "mp_queue p m = m\<lparr>mp_pending := mp_pending m @ [p]\<rparr>"

fun emit_member_added :: "lptr \<Rightarrow> entity_key \<Rightarrow> locked \<Rightarrow> locked" where
  "emit_member_added lp member (m, b) =
     (let eid = key_id member
      in if eid = [] \<or> eid = ''owner'' then (m, b)
         else if eid \<in> set (ml_announced (b lp)) then (m, b)
         else (mp_queue (MemberAdded lp member) m,
               upd_lobby lp (\<lambda>l. l\<lparr>ml_announced := ml_announced l @ [eid]\<rparr>) b))"

definition announce_lobby_members :: "lptr \<Rightarrow> locked \<Rightarrow> locked" where
  "announce_lobby_members lp s =
     fold (emit_member_added lp) (ml_members (snd s lp)) (emit_member_added lp (ml_owner (snd s lp)) s)"

fun emit_updated :: "lptr \<Rightarrow> lobby_delta \<Rightarrow> bool \<Rightarrow> locked \<Rightarrow> locked" where
  "emit_updated lp delta force_lock (m, b) =
     (let delta' = (if force_lock \<or> \<not> ml_lock_known (b lp)
                    then delta\<lparr>ld_membership_lock_updated := True\<rparr> else delta)
      in if delta_is_empty delta' then (m, b)
         else (mp_queue (LobbyUpdated lp delta') m, upd_lobby lp (\<lambda>l. l\<lparr>ml_lock_known := True\<rparr>) b))"

fun queue_create_completed :: "lptr \<Rightarrow> async_ctx \<Rightarrow> u32 \<Rightarrow> locked \<Rightarrow> locked" where
  "queue_create_completed lp ctx code (m, b) = (mp_queue (CreateAndJoinLobbyCompleted code ctx lp) m, b)"

fun queue_join_completed :: "lptr \<Rightarrow> entity_key \<Rightarrow> u32 \<Rightarrow> locked \<Rightarrow> locked" where
  "queue_join_completed lp joiner code (m, b) = (mp_queue (JoinLobbyCompleted code (ek_id joiner) lp) m, b)"

definition join_delta :: "mlobby \<Rightarrow> entity_key \<Rightarrow> lobby_delta" where
  "join_delta l joiner =
     (case hm_get (ml_member_props l) (key_id joiner) of
        None \<Rightarrow> delta_default
      | Some mp \<Rightarrow>
          (let ks = sort (map fst mp)
           in if ks \<noteq> []
              then delta_default\<lparr>ld_member_updates :=
                     [\<lparr>mu_member = joiner, mu_connection_status_updated = True, mu_property_keys = ks\<rparr>]\<rparr>
              else delta_default))"

fun emit_join_completed :: "lptr \<Rightarrow> entity_key \<Rightarrow> locked \<Rightarrow> locked" where
  "emit_join_completed lp joiner (m, b) =
     (let s1 = announce_lobby_members lp (m, upd_lobby lp (\<lambda>l. l\<lparr>ml_pending := False\<rparr>) b);
          s2 = emit_member_added lp joiner s1;
          s3 = emit_updated lp (join_delta (snd s2 lp) joiner) True s2
      in queue_join_completed lp joiner 0 s3)"

section \<open>Polling\<close>

fun remove_member :: "lptr \<Rightarrow> string \<Rightarrow> locked \<Rightarrow> locked" where
  "remove_member lp eid (m, b) =
     (mp_queue (MemberRemoved lp (member_key eid)) m,
      upd_lobby lp (\<lambda>l. l\<lparr>ml_announced := filter (\<lambda>e. e \<noteq> eid) (ml_announced l)\<rparr>) b)"

definition drop_lobby :: "lptr \<Rightarrow> mp \<Rightarrow> mp" where
  "drop_lobby lp m = m\<lparr>mp_lobbies := filter (\<lambda>p. p \<noteq> lp) (mp_lobbies m)\<rparr>"

definition join_parked :: "lptr \<Rightarrow> mp \<Rightarrow> bool" where
  "join_parked lp m \<longleftrightarrow> list_ex (\<lambda>pj. pj_lobby pj = lp \<and> \<not> pj_emitted pj) (mp_pending_joins m)"

fun poll_lobby :: "nat \<Rightarrow> lptr \<Rightarrow> (u16 \<times> string) option \<Rightarrow> locked \<Rightarrow> locked option" where
  "poll_lobby d lp resp (m, b) =
     do { (departed, gone, delta, l) \<leftarrow> apply_refresh d resp (b lp);
          let (m1, b1) = fold (remove_member lp) departed (m, b(lp := l))
          in if gone
             then Some (drop_lobby lp (mp_queue (LobbyDisconnected lp) m1), upd_lobby lp (\<lambda>l. l\<lparr>ml_left := True\<rparr>) b1)
             else if \<not> join_parked lp m1
             then Some (emit_updated lp delta False (announce_lobby_members lp (m1, b1)))
             else Some (m1, b1) }"

definition nothing_to_poll :: "mlobby \<Rightarrow> bool" where
  "nothing_to_poll l \<longleftrightarrow> ml_left l \<or> (ml_pending l \<and> ml_id l = [])"

definition poll_targets :: "mp_world \<Rightarrow> (lptr \<times> string) list" where
  "poll_targets w =
     (case mw_mp w of
        None \<Rightarrow> []
      | Some m \<Rightarrow>
          map (\<lambda>lp. (lp, utf8_lossy (ml_id (mw_box w lp))))
            (filter (\<lambda>lp. \<not> nothing_to_poll (mw_box w lp)) (mp_lobbies m)))"

fun poll_answer :: "nat \<Rightarrow> lptr \<Rightarrow> (u16 \<times> string) option \<Rightarrow> locked \<Rightarrow> locked option" where
  "poll_answer d lp resp (m, b) =
     (if lp \<notin> set (mp_lobbies m) then Some (m, b)
      else if nothing_to_poll (b lp) then Some (m, b)
      else poll_lobby d lp resp (m, b))"

definition poll_one :: "nat \<Rightarrow> http_env \<Rightarrow> lptr \<times> string \<Rightarrow> mp_world \<Rightarrow> mp_world option" where
  "poll_one d env t w =
     (case t of (lp, lid) \<Rightarrow>
        with_mp (poll_answer d lp
          (http_json_status env 0 (mw_auth w) ''POST'' ''/Lobby/GetLobby'' (get_lobby_body lid))) w)"

fun complete_join :: "nat \<Rightarrow> locked \<Rightarrow> locked" where
  "complete_join i (m, b) =
     (let pj = mp_pending_joins m ! i
      in emit_join_completed (pj_lobby pj) (pj_joiner pj)
           (m\<lparr>mp_pending_joins := take i (mp_pending_joins m) @ drop (Suc i) (mp_pending_joins m)\<rparr>, b))"

fun service_pending_joins :: "locked \<Rightarrow> locked" where
  "service_pending_joins (m, b) =
     (let ready = filter (\<lambda>i. let pj = mp_pending_joins m ! i
                              in \<not> pj_emitted pj \<and> lobby_ready_for_guest (b (pj_lobby pj)))
                    [0..<length (mp_pending_joins m)]
      in fold complete_join (rev ready) (m, b))"

section \<open>Jobs\<close>

fun create_done :: "nat \<Rightarrow> create_job \<Rightarrow> u16 \<Rightarrow> string \<Rightarrow> locked \<Rightarrow> locked option" where
  "create_done d job status text (m, b) =
     (let lp = cj_lobby job;
          reject = (\<lambda>code. Some (queue_create_completed lp (cj_async_ctx job) code
            (drop_lobby lp m, upd_lobby lp (\<lambda>l. l\<lparr>ml_pending := False, ml_left := True\<rparr>) b)))
      in if mp_generation m \<noteq> cj_generation job then Some (m, b)
         else if ml_left (b lp) then Some (m, b)
         else if status \<noteq> 200 then reject (broker_error_code status text)
         else do { lid \<leftarrow> jstr_field d text ''LobbyId'';
                   if lid = None then reject E_PF_SERVICE_MALFORMED_RESPONSE
                   else do { l \<leftarrow> apply_create_response d text (cj_owner job) (cj_max_players job)
                               (cj_lobby_data job) (cj_search job) (b lp);
                             Some (queue_create_completed lp (cj_async_ctx job) 0
                               (emit_member_added lp (cj_owner job) (m, b(lp := l)))) } })"

definition run_create :: "nat \<Rightarrow> http_env \<Rightarrow> create_job \<Rightarrow> mp_world \<Rightarrow> mp_world option" where
  "run_create d env job w =
     (case unwrap_or (http_json_status env 0 (mw_auth w) ''POST'' ''/Lobby/CreateAndJoinLobby'' (cj_body job)) (0, []) of
        (status, text) \<Rightarrow> with_mp (create_done d job status text) w)"

fun fail_join :: "join_job \<Rightarrow> u32 \<Rightarrow> locked \<Rightarrow> locked option" where
  "fail_join job code (m, b) =
     (if mp_generation m \<noteq> jj_generation job then Some (m, b)
      else Some (queue_join_completed (jj_lobby job) (jj_joiner job) code
        (drop_lobby (jj_lobby job) m,
         upd_lobby (jj_lobby job) (\<lambda>l. l\<lparr>ml_pending := False, ml_left := True\<rparr>) b)))"

fun join_done :: "nat \<Rightarrow> join_job \<Rightarrow> string \<Rightarrow> locked \<Rightarrow> locked option" where
  "join_done d job got (m, b) =
     (let lp = jj_lobby job
      in if mp_generation m \<noteq> jj_generation job then Some (m, b)
         else if ml_left (b lp) then Some (m, b)
         else do { l \<leftarrow> apply_join_response d got (jj_joiner job) (jj_member_kv job) (b lp);
                   if lobby_ready_for_guest l
                   then Some (emit_join_completed lp (jj_joiner job) (m, b(lp := l)))
                   else Some (m\<lparr>mp_pending_joins := mp_pending_joins m @
                                [\<lparr>pj_lobby = lp, pj_joiner = jj_joiner job, pj_async_ctx = jj_async_ctx job,
                                  pj_emitted = False\<rparr>]\<rparr>, b(lp := l)) })"

definition run_join :: "nat \<Rightarrow> http_env \<Rightarrow> join_job \<Rightarrow> mp_world \<Rightarrow> mp_world option" where
  "run_join d env job w =
     (case unwrap_or (http_json_status env 0 (mw_auth w) ''POST'' ''/Lobby/JoinLobby'' (jj_body job)) (0, []) of
        (status, text) \<Rightarrow>
          if status \<noteq> 200 then with_mp (fail_join job (broker_error_code status text)) w
          else do { lid \<leftarrow> jstr_field d text ''LobbyId'';
                    case lid of
                      None \<Rightarrow> with_mp (fail_join job E_PF_SERVICE_MALFORMED_RESPONSE) w
                    | Some i \<Rightarrow>
                        (case unwrap_or (http_json_status env 0 (mw_auth w) ''POST'' ''/Lobby/GetLobby''
                                           (get_lobby_body i)) (0, []) of
                           (gstatus, got) \<Rightarrow>
                             if gstatus \<noteq> 200 then with_mp (fail_join job (broker_error_code gstatus got)) w
                             else with_mp (join_done d job got) w) })"

definition party_has_entity :: "http_env \<Rightarrow> nat \<Rightarrow> string \<Rightarrow> string \<Rightarrow> string \<Rightarrow> bool option" where
  "party_has_entity env i tok nid eid =
     (if nid = [] \<or> eid = [] then Some False
      else map_option (\<lambda>text. str_contains text (jfield ''entity_id'' @ [dquote] @ eid @ [dquote]))
        (http_json env i tok ''GET'' (''/party/peers?network_id='' @ nid) []))"

definition find_row_live :: "nat \<Rightarrow> http_env \<Rightarrow> nat \<Rightarrow> string \<Rightarrow> string \<Rightarrow> bool option" where
  "find_row_live d env i tok row =
     do { idv \<leftarrow> jstr_field d row ''LobbyId'';
          let lid = unwrap_or idv []
          in if lid = [] then Some False
             else case http_json_status env i tok ''POST'' ''/Lobby/GetLobby''
                         (braces (raw_member ''LobbyId'' lid)) of
                    None \<Rightarrow> Some True
                  | Some (status, got) \<Rightarrow>
                      if status \<noteq> 200 then Some False
                      else do { data \<leftarrow> jobj_field d got ''LobbyData'';
                                case lan1_network_id (unwrap_or (hm_get data ''network_descriptor'') []) of
                                  None \<Rightarrow> Some False
                                | Some nid \<Rightarrow>
                                    do { ownero \<leftarrow> jobj_field d got ''Owner'';
                                         Some (party_has_entity env i tok nid (unwrap_or (hm_get ownero ''Id'') [])
                                           \<noteq> Some False) } } }"

fun live_rows :: "nat \<Rightarrow> http_env \<Rightarrow> nat \<Rightarrow> string \<Rightarrow> string list \<Rightarrow> string list option" where
  "live_rows d env i tok [] = Some []"
| "live_rows d env i tok (row # rows) =
     do { live \<leftarrow> find_row_live d env i tok row;
          rest \<leftarrow> live_rows d env (Suc i) tok rows;
          Some (if live then row # rest else rest) }"

definition intern_kv_arrays :: "(string, string) hmap \<Rightarrow> (cstr option \<times> cstr option) list" where
  "intern_kv_arrays m = map (\<lambda>(k, v). (mp_intern k, mp_intern v)) (take (min (length m) 32) m)"

definition intern_owner_key :: "nat \<Rightarrow> string \<Rightarrow> entity_key option option" where
  "intern_owner_key d row =
     do { ownero \<leftarrow> jobj_field d row ''Owner'';
          idv \<leftarrow> scan_or (Some (hm_get ownero ''Id'')) (jstr_field d row ''Owner'');
          let oid = unwrap_or idv []
          in Some (if oid = [] then None
                   else Some \<lparr>ek_id = mp_intern oid,
                              ek_type = mp_intern (unwrap_or (hm_get ownero ''Type'') title_player)\<rparr>) }"

definition current_players :: "nat \<Rightarrow> string \<Rightarrow> u32 \<Rightarrow> u32 option" where
  "current_players d row max_member =
     do { c \<leftarrow> jstr_field d row ''CurrentPlayers'';
          let v = or_else (Option.bind c parse_u32)
                    (Option.bind (split_nth1 (jfield ''CurrentPlayers'') row) (\<lambda>s. parse_u32 (takeWhile is_ascii_digit s)))
          in Some (u32_clamp 1 max_member (unwrap_or v 1)) }"

definition search_result_of :: "nat \<Rightarrow> string \<Rightarrow> search_result option" where
  "search_result_of d row =
     do { lid \<leftarrow> jstr_field d row ''LobbyId'';
          conn \<leftarrow> jstr_field d row ''ConnectionString'';
          max_member \<leftarrow> json_max_players d row;
          cur \<leftarrow> current_players d row max_member;
          search \<leftarrow> jobj_field d row ''SearchData'';
          owner \<leftarrow> intern_owner_key d row;
          Some \<lparr>sr_lobby_id = mp_intern (unwrap_or lid []), sr_connection = mp_intern (unwrap_or conn []),
                sr_owner = owner, sr_max_member = max_member, sr_current_member = cur,
                sr_search = intern_kv_arrays search\<rparr> }"

fun search_results :: "nat \<Rightarrow> string list \<Rightarrow> search_result list option" where
  "search_results d [] = Some []"
| "search_results d (row # rows) =
     do { r \<leftarrow> search_result_of d row; rs \<leftarrow> search_results d rows; Some (r # rs) }"

fun find_done :: "nat \<Rightarrow> find_job \<Rightarrow> u32 \<Rightarrow> string list \<Rightarrow> locked \<Rightarrow> locked option" where
  "find_done d job code rows (m, b) =
     (if mp_generation m \<noteq> fj_generation job then Some (m, b)
      else do { rs \<leftarrow> search_results d (take (min (length rows) 16) rows);
                Some (mp_queue (FindLobbiesCompleted code (fj_entity job) (fj_async_ctx job) rs) m, b) })"

definition found_rows :: "nat \<Rightarrow> http_env \<Rightarrow> string \<Rightarrow> u16 \<Rightarrow> string \<Rightarrow> string list option" where
  "found_rows d env tok status text =
     (if status = 200 then do { objs \<leftarrow> jarr_field d text ''Lobbies''; live_rows d env 1 tok objs } else Some [])"

definition run_find :: "nat \<Rightarrow> http_env \<Rightarrow> find_job \<Rightarrow> mp_world \<Rightarrow> mp_world option" where
  "run_find d env job w =
     (case unwrap_or (http_json_status env 0 (mw_auth w) ''POST'' ''/Lobby/FindLobbies'' (fj_body job)) (0, []) of
        (status, text) \<Rightarrow>
          do { rows \<leftarrow> found_rows d env (mw_auth w) status text;
               if list_ex (\<lambda>row. jobj_field d row ''SearchData'' = None) (take 4 rows) then None
               else with_mp (find_done d job (if status = 200 then 0 else broker_error_code status text) rows) w })"

fun leave_done :: "leave_job \<Rightarrow> u32 \<Rightarrow> locked \<Rightarrow> locked option" where
  "leave_done job code (m, b) =
     Some (if mp_generation m \<noteq> lj_generation job then (m, b)
           else (mp_queue (LeaveLobbyCompleted code) m, b))"

definition run_leave :: "http_env \<Rightarrow> leave_job \<Rightarrow> mp_world \<Rightarrow> mp_world option" where
  "run_leave env job w =
     (case unwrap_or (http_json_status env 0 (mw_auth w) ''POST'' ''/Lobby/LeaveLobby'' (lj_body job)) (0, []) of
        (status, text) \<Rightarrow>
          with_mp (leave_done job (if status = 200 then 0 else broker_error_code status text)) w)"

fun post_done :: "post_job \<Rightarrow> u32 \<Rightarrow> locked \<Rightarrow> locked option" where
  "post_done job code (m, b) =
     Some (if mp_generation m \<noteq> pj_generation job then (m, b)
           else (let s = (mp_queue (PostUpdateCompleted code (pj_post_lobby job) (pj_member job) (pj_post_ctx job)) m, b)
                 in if code = 0 \<and> \<not> delta_is_empty (pj_delta job)
                    then emit_updated (pj_post_lobby job) (pj_delta job) False s else s))"

definition run_post :: "http_env \<Rightarrow> post_job \<Rightarrow> mp_world \<Rightarrow> mp_world option" where
  "run_post env job w =
     (case unwrap_or (http_json_status env 0 (mw_auth w) ''POST'' ''/Lobby/UpdateLobby'' (pj_body job)) (0, []) of
        (status, text) \<Rightarrow>
          with_mp (post_done job (if status = 200 then 0 else broker_error_code status text)) w)"

fun run_broker_job :: "nat \<Rightarrow> http_env \<Rightarrow> broker_job \<Rightarrow> mp_world \<Rightarrow> mp_world option" where
  "run_broker_job d env (Create j) w = run_create d env j w"
| "run_broker_job d env (Join j) w = run_join d env j w"
| "run_broker_job d env (Find j) w = run_find d env j w"
| "run_broker_job d env (LeaveJob j) w = run_leave env j w"
| "run_broker_job d env (PostUpdate j) w = run_post env j w"

definition BROKER_POLL_MS :: int where "BROKER_POLL_MS = 250"

text \<open>One step of \<open>broker_thread_main\<close>: a job, the end of the drain, or a part of a poll round.\<close>

definition broker_thread_step :: "nat \<Rightarrow> http_env \<Rightarrow> int \<Rightarrow> mp_world \<Rightarrow> mp_world option" where
  "broker_thread_step d env now w =
     (case mw_worker w of
        Draining \<Rightarrow>
          (case mw_jobs w of
             j # js \<Rightarrow> run_broker_job d env j (w\<lparr>mw_jobs := js\<rparr>)
           | [] \<Rightarrow> Some (w\<lparr>mw_worker := Drained\<rparr>))
      | Drained \<Rightarrow>
          Some (if now \<ge> mw_next_poll w
                then w\<lparr>mw_worker := Polling (poll_targets w), mw_next_poll := now + BROKER_POLL_MS\<rparr>
                else w\<lparr>mw_worker := Draining\<rparr>)
      | Polling (t # ts) \<Rightarrow> poll_one d env t (w\<lparr>mw_worker := Polling ts\<rparr>)
      | Polling [] \<Rightarrow> with_mp (\<lambda>s. Some (service_pending_joins s)) (w\<lparr>mw_worker := Draining\<rparr>))"

end
