(* ===== verification/Mp_Exports.thy ===== *)
theory Mp_Exports
  imports Mp_Runtime
begin

text \<open>
  \<open>playfab-mp-shim/src/lib.rs\<close>: the exported functions. A handle argument is whether it is
  non-null, an out parameter is whether it is non-null; what an export writes through it is part of
  the result, \<open>None\<close> when it writes nothing. The configuration structures of the title are records
  of the fields the code reads at their offsets.
\<close>

section \<open>Instance\<close>

definition mp_ready :: "bool \<Rightarrow> mp_world \<Rightarrow> bool" where
  "mp_ready handle w \<longleftrightarrow> handle \<and> mw_mp w \<noteq> None"

definition set_local_identity :: "entity_key option \<Rightarrow> string \<Rightarrow> mp_world \<Rightarrow> mp_world" where
  "set_local_identity entity token w =
     w\<lparr>mw_auth := filter (\<lambda>c. c \<noteq> CHR 0x0D \<and> c \<noteq> CHR 0x0A) token,
       mw_local := (case entity of None \<Rightarrow> mw_local w | Some k \<Rightarrow> mp_read_cstr (ek_id k))\<rparr>"

definition entity_id_of :: "mp_world \<Rightarrow> entity_key option \<Rightarrow> string" where
  "entity_id_of w entity =
     (case entity of
        Some k \<Rightarrow> if mp_read_cstr (ek_id k) \<noteq> [] then mp_read_cstr (ek_id k) else mw_local w
      | None \<Rightarrow> mw_local w)"

definition new_instance :: "u64 \<Rightarrow> mp" where
  "new_instance g = \<lparr>mp_token = None, mp_entity = None, mp_generation = g, mp_lobbies = [], mp_pending = [],
     mp_in_flight = [], mp_batch_outstanding = False, mp_pending_joins = []\<rparr>"

definition PFMultiplayerInitialize :: "bool \<Rightarrow> mp_world \<Rightarrow> u32 \<times> mp_world" where
  "PFMultiplayerInitialize handle w =
     (if \<not> handle then (E_FAIL, w)
      else if mw_mp w \<noteq> None then (E_PF_INSTANCE_ALREADY_EXISTS, w)
      else (S_OK, w\<lparr>mw_gen := mw_gen w + 1, mw_mp := Some (new_instance (mw_gen w + 1))\<rparr>))"

definition PFMultiplayerUninitialize :: "bool \<Rightarrow> mp_world \<Rightarrow> u32 \<times> mp_world" where
  "PFMultiplayerUninitialize handle w =
     (if \<not> mp_ready handle w then (E_PF_NOT_INITIALIZED, w) else (S_OK, w\<lparr>mw_mp := None\<rparr>))"

definition PFMultiplayerSetEntityToken :: "bool \<Rightarrow> entity_key option \<Rightarrow> cstr option \<Rightarrow> mp_world \<Rightarrow> u32 \<times> mp_world" where
  "PFMultiplayerSetEntityToken handle entity token w =
     (if \<not> mp_ready handle w then (E_PF_NOT_INITIALIZED, w)
      else case entity of
        None \<Rightarrow> (E_PF_ENTITY_KEY_MALFORMED, w)
      | Some k \<Rightarrow>
          if ek_id k = None \<or> ek_type k = None \<or> mp_read_cstr (ek_id k) = [] \<or> mp_read_cstr (ek_type k) = []
          then (E_PF_ENTITY_KEY_MALFORMED, w)
          else if token = None \<or> mp_read_cstr token = [] then (E_PF_ENTITY_TOKEN_MALFORMED, w)
          else (let tok = mp_read_cstr token; w1 = set_local_identity (Some k) tok w
                in (S_OK, w1\<lparr>mw_mp := map_option (\<lambda>m. m\<lparr>mp_token := cstring_new tok,
                       mp_entity := Some (intern_entity (Some k))\<rparr>) (mw_mp w1)\<rparr>)))"

section \<open>Create, join, find\<close>

record create_cfg =
  cc_max :: u32
  cc_owner_policy :: u32
  cc_access_policy :: u32
  cc_search :: raw_kv
  cc_lobby :: raw_kv

definition push_lobby :: "mlobby \<Rightarrow> mp_world \<Rightarrow> mp_world" where
  "push_lobby l w =
     w\<lparr>mw_box := (mw_box w)(mw_next w := l), mw_next := mw_next w + 1,
       mw_mp := map_option (\<lambda>m. m\<lparr>mp_lobbies := mp_lobbies m @ [mw_next w]\<rparr>) (mw_mp w)\<rparr>"

definition created_lobby ::
  "entity_key \<Rightarrow> u32 \<Rightarrow> u32 \<Rightarrow> (string, string) hmap \<Rightarrow> (string, string) hmap \<Rightarrow> (string, string) hmap \<Rightarrow> mlobby" where
  "created_lobby owner maxp policy lobby_data search member_kv =
     (let mid = mp_read_cstr (ek_id owner); l = new_placeholder owner maxp policy
      in l\<lparr>ml_members := [owner], ml_props := mp_apply_props (ml_props l) lobby_data,
           ml_search := mp_apply_props (ml_search l) search,
           ml_member_props := hm_insert (ml_member_props l) mid (ensure_member_props (mp_apply_props [] member_kv) mid)\<rparr>)"

definition PFMultiplayerCreateAndJoinLobby ::
  "bool \<Rightarrow> entity_key option \<Rightarrow> create_cfg option \<Rightarrow> raw_kv option \<Rightarrow> async_ctx \<Rightarrow> bool \<Rightarrow> mp_world \<Rightarrow>
   u32 \<times> lptr option \<times> mp_world" where
  "PFMultiplayerCreateAndJoinLobby handle creator cfg join_cfg ctx out w =
     (if \<not> mp_ready handle w then (E_PF_NOT_INITIALIZED, None, w)
      else
        let maxp = (case cfg of None \<Rightarrow> 8 | Some c \<Rightarrow> u32_clamp 1 32 (cc_max c));
            owner_policy = (case cfg of None \<Rightarrow> 0 | Some c \<Rightarrow> min (cc_owner_policy c) 3);
            policy = (case cfg of None \<Rightarrow> 0 | Some c \<Rightarrow> min (cc_access_policy c) 2);
            search = (case cfg of None \<Rightarrow> [] | Some c \<Rightarrow> kv_list (cc_search c));
            lobby_data = (case cfg of None \<Rightarrow> [] | Some c \<Rightarrow> kv_list (cc_lobby c));
            owner = intern_entity creator;
            member_kv = join_cfg_kv join_cfg;
            body = build_create_body maxp owner_policy lobby_data search (mp_read_cstr (ek_id owner)) member_kv;
            lp = mw_next w
        in (S_OK, if out then Some lp else None,
            enqueue_job
              (Create \<lparr>cj_generation = current_generation w, cj_body = body, cj_owner = owner, cj_lobby = lp,
                       cj_async_ctx = ctx, cj_max_players = maxp, cj_lobby_data = lobby_data, cj_search = search\<rparr>)
              (push_lobby (created_lobby owner maxp policy lobby_data search member_kv) w)))"

definition PFMultiplayerJoinLobby ::
  "bool \<Rightarrow> entity_key option \<Rightarrow> cstr option \<Rightarrow> raw_kv option \<Rightarrow> async_ctx \<Rightarrow> bool \<Rightarrow> mp_world \<Rightarrow>
   u32 \<times> lptr option \<times> mp_world" where
  "PFMultiplayerJoinLobby handle joiner connection join_cfg ctx out w =
     (if \<not> mp_ready handle w then (E_PF_NOT_INITIALIZED, None, w)
      else
        let joiner_ek = intern_entity joiner;
            member_kv = join_cfg_kv join_cfg;
            body = build_join_body (mp_read_cstr connection) (mp_read_cstr (ek_id joiner_ek)) member_kv;
            lp = mw_next w
        in (S_OK, if out then Some lp else None,
            enqueue_job
              (Join \<lparr>jj_generation = current_generation w, jj_body = body, jj_joiner = joiner_ek,
                     jj_member_kv = member_kv, jj_lobby = lp, jj_async_ctx = ctx\<rparr>)
              (push_lobby (new_placeholder joiner_ek 0 0) w)))"

record friends_filter =
  ff_steam :: u8
  ff_facebook :: u8
  ff_xbox_token :: "cstr option"

record search_cfg =
  sf_friends :: "friends_filter option"
  sf_filter :: "cstr option"
  sf_sort :: "cstr option"
  sf_count :: "u32 option"

definition bool_text :: "bool \<Rightarrow> string" where
  "bool_text v = (if v then ''true'' else ''false'')"

definition find_body :: "string \<Rightarrow> search_cfg option \<Rightarrow> string" where
  "find_body eid cfg =
     (let filt = (case cfg of None \<Rightarrow> [] | Some c \<Rightarrow> mp_read_cstr (sf_filter c));
          srt = (case cfg of None \<Rightarrow> [] | Some c \<Rightarrow> mp_read_cstr (sf_sort c));
          count = Option.bind cfg sf_count;
          friends = Option.bind cfg sf_friends
      in braces (join '',''
           ((if eid \<noteq> [] then [raw_member ''EntityId'' eid] else []) @
            (if filt \<noteq> [] then [raw_member ''Filter'' filt] else []) @
            (if srt \<noteq> [] then [raw_member ''Sort'' srt] else []) @
            (case count of None \<Rightarrow> [] | Some c \<Rightarrow> [jfield ''ClientSearchResultCount'' @ show_nat (unat c)]) @
            (case friends of None \<Rightarrow> []
             | Some f \<Rightarrow>
                 [jfield ''FriendsFilter'' @ braces
                    (jfield ''IncludeSteamFriends'' @ bool_text (ff_steam f \<noteq> 0) @ '','' @
                     jfield ''IncludeFacebookFriends'' @ bool_text (ff_facebook f \<noteq> 0) @ '','' @
                     raw_member ''IncludeXboxFriendsToken'' (mp_read_cstr (ff_xbox_token f)))]))))"

definition PFMultiplayerFindLobbies ::
  "bool \<Rightarrow> entity_key option \<Rightarrow> search_cfg option \<Rightarrow> async_ctx \<Rightarrow> mp_world \<Rightarrow> u32 \<times> mp_world" where
  "PFMultiplayerFindLobbies handle entity cfg ctx w =
     (if \<not> mp_ready handle w then (E_PF_NOT_INITIALIZED, w)
      else (S_OK, enqueue_job
             (Find \<lparr>fj_generation = current_generation w, fj_body = find_body (entity_id_of w entity) cfg,
                    fj_entity = intern_entity entity, fj_async_ctx = ctx\<rparr>) w))"

section \<open>State-change batches\<close>

definition MP_BATCH_CAP_ENABLED :: bool where "MP_BATCH_CAP_ENABLED = False"
definition MP_BATCH_CAP :: nat where "MP_BATCH_CAP = 32"

fun fill_batch :: "mp_change list \<Rightarrow> mp_change list \<Rightarrow> mp_change list \<times> mp_change list" where
  "fill_batch [] fl = ([], fl)"
| "fill_batch (p # ps) fl =
     (if MP_BATCH_CAP_ENABLED \<and> length fl \<ge> MP_BATCH_CAP then (p # ps, fl) else fill_batch ps (fl @ [p]))"

definition start_changes :: "mp \<Rightarrow> mp" where
  "start_changes m =
     (if mp_batch_outstanding m then m
      else (case fill_batch (mp_pending m) [] of
              (rest, fl) \<Rightarrow> m\<lparr>mp_pending := rest, mp_in_flight := fl, mp_batch_outstanding := (fl \<noteq> [])\<rparr>))"

definition PFMultiplayerStartProcessingLobbyStateChanges ::
  "bool \<Rightarrow> bool \<Rightarrow> mp_world \<Rightarrow> u32 \<times> mp_change list option \<times> mp_world" where
  "PFMultiplayerStartProcessingLobbyStateChanges handle outs w =
     (if \<not> outs then (E_FAIL, None, w)
      else if \<not> mp_ready handle w then (E_PF_NOT_INITIALIZED, Some [], w)
      else case mw_mp w of
        None \<Rightarrow> (S_OK, None, w)
      | Some m \<Rightarrow> (S_OK, Some (mp_in_flight (start_changes m)), w\<lparr>mw_mp := Some (start_changes m)\<rparr>))"

text \<open>\<open>same_ptr\<close> is whether the title returns the array pointer that \<open>Start\<close> handed out.\<close>

definition finish_changes :: "u32 \<Rightarrow> bool \<Rightarrow> mp \<Rightarrow> mp" where
  "finish_changes count same_ptr m =
     (if \<not> mp_batch_outstanding m then m
      else if unat count \<noteq> length (mp_in_flight m) \<or> \<not> same_ptr then m
      else m\<lparr>mp_in_flight := [], mp_batch_outstanding := False\<rparr>)"

definition PFMultiplayerFinishProcessingLobbyStateChanges :: "bool \<Rightarrow> u32 \<Rightarrow> bool \<Rightarrow> mp_world \<Rightarrow> u32 \<times> mp_world" where
  "PFMultiplayerFinishProcessingLobbyStateChanges handle count same_ptr w =
     (if \<not> mp_ready handle w then (E_PF_NOT_INITIALIZED, w)
      else (S_OK, w\<lparr>mw_mp := map_option (finish_changes count same_ptr) (mw_mp w)\<rparr>))"

section \<open>Getters\<close>

definition PFLobbyGetLobbyId :: "lptr \<Rightarrow> bool \<Rightarrow> mp_world \<Rightarrow> u32 \<times> cstr option" where
  "PFLobbyGetLobbyId lp out w =
     (if lp = 0 \<or> \<not> out then (E_FAIL, None)
      else if ml_pending (mw_box w lp) then (E_PF_OBJECT_STILL_PENDING, None)
      else (S_OK, Some (ml_id (mw_box w lp))))"

definition PFLobbyGetConnectionString :: "lptr \<Rightarrow> bool \<Rightarrow> mp_world \<Rightarrow> u32 \<times> cstr option" where
  "PFLobbyGetConnectionString lp out w =
     (if lp = 0 \<or> \<not> out then (E_FAIL, None)
      else if ml_pending (mw_box w lp) then (E_PF_OBJECT_STILL_PENDING, None)
      else (S_OK, Some (ml_connection (mw_box w lp))))"

text \<open>\<open>&v[..96]\<close> panics when byte 96 is inside a character.\<close>

definition log_slice_panics :: "string \<Rightarrow> bool" where
  "log_slice_panics v \<longleftrightarrow> 96 < length v \<and> is_cont (ord_char (v ! 96))"

definition logged_property :: "string \<Rightarrow> bool" where
  "logged_property k \<longleftrightarrow> k \<in> {''network_descriptor'', ''invitation_identifier'', ''network_id'', ''id_container''}"

text \<open>The outer \<open>None\<close> is the panic of the log line, which an \<open>extern "C"\<close> function turns into an abort.\<close>

definition PFLobbyGetLobbyProperty :: "lptr \<Rightarrow> cstr option \<Rightarrow> bool \<Rightarrow> mp_world \<Rightarrow> (u32 \<times> cstr option option) option" where
  "PFLobbyGetLobbyProperty lp key out w =
     (if lp = 0 \<or> \<not> out then Some (E_FAIL, None)
      else
        let k = mp_read_cstr key;
            l = mw_box w lp;
            val0 = hm_get (ml_props l) k;
            val = (if k = ''network_descriptor'' \<and> val0 \<noteq> None \<and> ml_pending l \<and>
                      \<not> is_real_network_descriptor (mp_read_cstr val0) then None else val0)
        in if val \<noteq> None \<and> logged_property k \<and> log_slice_panics (mp_read_cstr val) then None
           else Some (S_OK, Some val))"

definition PFLobbyGetSearchProperty :: "lptr \<Rightarrow> cstr option \<Rightarrow> bool \<Rightarrow> mp_world \<Rightarrow> u32 \<times> cstr option option" where
  "PFLobbyGetSearchProperty lp key out w =
     (if lp = 0 \<or> \<not> out then (E_FAIL, None)
      else (S_OK, Some (hm_get (ml_search (mw_box w lp)) (mp_read_cstr key))))"

definition not_a_member :: "string \<Rightarrow> mlobby \<Rightarrow> bool" where
  "not_a_member mid l \<longleftrightarrow> mid \<noteq> [] \<and> \<not> list_ex (\<lambda>m. key_id m = mid) (ml_members l) \<and>
     hm_get (ml_member_props l) mid = None"

definition PFLobbyGetMemberProperty ::
  "lptr \<Rightarrow> entity_key option \<Rightarrow> cstr option \<Rightarrow> bool \<Rightarrow> mp_world \<Rightarrow> u32 \<times> cstr option option" where
  "PFLobbyGetMemberProperty lp member key out w =
     (if lp = 0 \<or> \<not> out then (E_FAIL, None)
      else case member of
        None \<Rightarrow> (E_PF_ENTITY_KEY_MALFORMED, None)
      | Some e \<Rightarrow>
          (let l = mw_box w lp; mid = mp_read_cstr (ek_id e)
           in if ml_pending l then (S_OK, Some None)
              else if not_a_member mid l then (E_PF_LOBBY_MEMBER_NOT_IN_LOBBY, Some None)
              else (S_OK, Some (Option.bind (hm_get (ml_member_props l) mid) (\<lambda>mp. hm_get mp (mp_read_cstr key))))))"

definition PFLobbyGetOwner :: "lptr \<Rightarrow> bool \<Rightarrow> mp_world \<Rightarrow> u32 \<times> entity_key option option" where
  "PFLobbyGetOwner lp out w =
     (if lp = 0 \<or> \<not> out then (E_FAIL, None)
      else (let l = mw_box w lp
            in if ml_pending l then (E_PF_OBJECT_STILL_PENDING, None)
               else (S_OK, Some (if ml_has_owner l then Some (ml_owner l) else None))))"

definition PFLobbyGetMembershipLock :: "lptr \<Rightarrow> bool \<Rightarrow> mp_world \<Rightarrow> u32 \<times> u32 option" where
  "PFLobbyGetMembershipLock lp out w =
     (if lp = 0 \<or> \<not> out then (E_FAIL, None)
      else if ml_pending (mw_box w lp) then (E_PF_OBJECT_STILL_PENDING, None)
      else (S_OK, Some (ml_membership_lock (mw_box w lp))))"

definition PFLobbyGetMemberConnectionStatus :: "lptr \<Rightarrow> entity_key option \<Rightarrow> bool \<Rightarrow> mp_world \<Rightarrow> u32 \<times> u32 option" where
  "PFLobbyGetMemberConnectionStatus lp member out w =
     (if \<not> out then (E_FAIL, None)
      else if lp = 0 then (E_FAIL, Some 0)
      else case member of
        None \<Rightarrow> (E_FAIL, Some 0)
      | Some e \<Rightarrow>
          (let l = mw_box w lp
           in if ml_pending l then (S_OK, Some 0)
              else if not_a_member (mp_read_cstr (ek_id e)) l then (E_PF_LOBBY_MEMBER_NOT_IN_LOBBY, Some 0)
              else (S_OK, Some 1)))"

section \<open>Update and leave\<close>

record data_update =
  du_new_owner :: "entity_key option"
  du_max :: "u32 option"
  du_access :: "u32 option"
  du_lock :: "u32 option"
  du_search :: raw_kv
  du_lobby :: raw_kv

record member_data_update =
  md_member :: "entity_key option"
  md_kv :: raw_kv

definition scalars_of :: "data_update \<Rightarrow> scalars" where
  "scalars_of u =
     \<lparr>ps_owner = (case du_new_owner u of
                    Some o1 \<Rightarrow> (let oid = mp_read_cstr (ek_id o1)
                               in if oid \<noteq> [] then Some \<lparr>ek_id = mp_intern oid, ek_type = mp_intern (mp_read_cstr (ek_type o1))\<rparr>
                                  else None)
                  | None \<Rightarrow> None),
      ps_max_players = du_max u,
      ps_access_policy = map_option (\<lambda>a. if sint a < 0 then 0 else a) (du_access u),
      ps_membership_lock = du_lock u\<rparr>"

definition apply_data_update :: "data_update \<Rightarrow> mlobby \<Rightarrow> mlobby" where
  "apply_data_update u l =
     (let (ssets, sdel) = kv_list_split (du_search u);
          (lsets, ldel) = kv_list_split (du_lobby u);
          sc = scalars_of u;
          l1 = l\<lparr>ml_search := drop_props (mp_apply_props (ml_search l) ssets) sdel,
                 ml_props := drop_props (mp_apply_props (ml_props l) lsets) ldel\<rparr>;
          l2 = (case ps_owner sc of Some o1 \<Rightarrow> l1\<lparr>ml_owner := o1, ml_has_owner := True\<rparr> | None \<Rightarrow> l1)
      in l2\<lparr>ml_max_players := unwrap_or (ps_max_players sc) (ml_max_players l2),
            ml_access_policy := unwrap_or (ps_access_policy sc) (ml_access_policy l2),
            ml_membership_lock := unwrap_or (ps_membership_lock sc) (ml_membership_lock l2)\<rparr>)"

text \<open>The lobby, the member the update is for, and the member keys to delete.\<close>

definition apply_member_update ::
  "string \<Rightarrow> member_data_update \<Rightarrow> mlobby \<Rightarrow> mlobby \<times> string option \<times> string list" where
  "apply_member_update mid0 u l =
     (let mid = (case md_member u of
                   Some e \<Rightarrow> if mp_read_cstr (ek_id e) \<noteq> [] then mp_read_cstr (ek_id e) else mid0
                 | None \<Rightarrow> mid0);
          (sets, del) = kv_list_split (md_kv u)
      in if mid \<noteq> [] \<and> (sets \<noteq> [] \<or> del \<noteq> [])
         then (l\<lparr>ml_member_props := hm_insert (ml_member_props l) mid
                  (ensure_member_props (drop_props (mp_apply_props (unwrap_or (hm_get (ml_member_props l) mid) []) sets) del) mid)\<rparr>,
               Some mid, del)
         else (l, None, []))"

definition apply_post ::
  "string \<Rightarrow> data_update option \<Rightarrow> member_data_update option \<Rightarrow> mlobby \<Rightarrow> mlobby \<times> string option \<times> string list" where
  "apply_post mid update memupd l =
     (let l1 = (case update of Some u \<Rightarrow> apply_data_update u l | None \<Rightarrow> l)
      in case memupd of Some u \<Rightarrow> apply_member_update mid u l1 | None \<Rightarrow> (l1, None, []))"

definition PFLobbyPostUpdate ::
  "lptr \<Rightarrow> entity_key option \<Rightarrow> data_update option \<Rightarrow> member_data_update option \<Rightarrow> async_ctx \<Rightarrow> mp_world \<Rightarrow> u32 \<times> mp_world" where
  "PFLobbyPostUpdate lp member update memupd ctx w =
     (if lp = 0 then (E_FAIL, w)
      else if update = None \<and> memupd = None then (E_PF_LOBBY_EMPTY_UPDATE, w)
      else if ml_left (mw_box w lp) then (E_PF_LOBBY_UPDATE_AFTER_DISCONNECT, w)
      else case apply_post (entity_id_of w member) update memupd (mw_box w lp) of
        (l2, member_target, member_deletes) \<Rightarrow>
          (let before = snapshot (mw_box w lp);
               search_deletes = (case update of Some u \<Rightarrow> snd (kv_list_split (du_search u)) | None \<Rightarrow> []);
               lobby_deletes = (case update of Some u \<Rightarrow> snd (kv_list_split (du_lobby u)) | None \<Rightarrow> []);
               sc = (case update of Some u \<Rightarrow> scalars_of u | None \<Rightarrow> no_scalars);
               body = build_update_body (mw_local w) l2 search_deletes lobby_deletes member_target member_deletes sc
           in (S_OK,
               enqueue_job
                 (PostUpdate \<lparr>pj_generation = current_generation w, pj_body = body, pj_post_lobby = lp,
                              pj_member = member, pj_post_ctx = ctx, pj_delta = diff_lobby before l2\<rparr>)
                 (w\<lparr>mw_box := (mw_box w)(lp := l2)\<rparr>))))"

definition PFLobbyLeave :: "lptr \<Rightarrow> mp_world \<Rightarrow> u32 \<times> mp_world" where
  "PFLobbyLeave lp w =
     (if lp = 0 then (S_OK, w)
      else
        let l = mw_box w lp;
            eid = (if mw_local w = [] then mp_read_cstr (ek_id (ml_owner l)) else mw_local w)
        in (S_OK,
            enqueue_job
              (LeaveJob \<lparr>lj_generation = current_generation w, lj_body = leave_body (utf8_lossy (ml_id l)) eid, lj_lobby = lp\<rparr>)
              (w\<lparr>mw_mp := map_option (drop_lobby lp) (mw_mp w), mw_box := (mw_box w)(lp := l\<lparr>ml_left := True\<rparr>)\<rparr>)))"

definition PFLobbyForceRemoveMember :: "entity_key option \<Rightarrow> mp_world \<Rightarrow> u32 \<times> mp_world" where
  "PFLobbyForceRemoveMember target w =
     (case target of
        None \<Rightarrow> (E_PF_ENTITY_KEY_MALFORMED, w)
      | Some t \<Rightarrow> if mp_read_cstr (ek_id t) = [] then (E_PF_ENTITY_KEY_MALFORMED, w) else (S_OK, w))"

end
