(* ===== verification/Mp_Inv.thy ===== *)
theory Mp_Inv
  imports Mp_Exports
begin

text \<open>
  Runs of the PlayFab multiplayer shim. \<open>mp_step\<close> is one step of the worker thread or one call of
  an export, \<open>mp_run\<close> a process with the changes that have left its queue. Every locked section
  is shown to advance the histories (\<open>advances\<close>): the changes it appends keep the roster of each
  lobby, use up at most one create or join call, and end a join in the documented order. The
  invariant \<open>mp_inv\<close> lifts this to whole runs.
\<close>

section \<open>Histories of state changes\<close>

text \<open>The members a reader of the changes of one lobby believes present; \<open>None\<close> when a member is
  added twice or an absent one removed.\<close>

fun roster_step :: "lptr \<Rightarrow> mp_change \<Rightarrow> string list \<Rightarrow> string list option" where
  "roster_step lp (MemberAdded p k) A =
     (if p \<noteq> lp then Some A else if key_id k \<in> set A then None else Some (A @ [key_id k]))"
| "roster_step lp (MemberRemoved p k) A =
     (if p \<noteq> lp then Some A
      else if unwrap_or (ek_id k) [] \<in> set A then Some (filter (\<lambda>e. e \<noteq> unwrap_or (ek_id k) []) A) else None)"
| "roster_step lp _ A = Some A"

fun roster :: "lptr \<Rightarrow> string list \<Rightarrow> mp_change list \<Rightarrow> string list option" where
  "roster lp A [] = Some A"
| "roster lp A (c # cs) = Option.bind (roster_step lp c A) (\<lambda>A'. roster lp A' cs)"

lemma roster_append: "roster lp A (xs @ ys) = Option.bind (roster lp A xs) (\<lambda>B. roster lp B ys)"
  by (induction xs arbitrary: A) (auto simp: bind_assoc)

fun change_ptr :: "mp_change \<Rightarrow> lptr option" where
  "change_ptr (CreateAndJoinLobbyCompleted code ctx p) = Some p"
| "change_ptr (JoinLobbyCompleted code j p) = Some p"
| "change_ptr (MemberAdded p k) = Some p"
| "change_ptr (MemberRemoved p k) = Some p"
| "change_ptr (LobbyUpdated p dl) = Some p"
| "change_ptr (PostUpdateCompleted code p k ctx) = Some p"
| "change_ptr (LobbyDisconnected p) = Some p"
| "change_ptr _ = None"

fun completes :: "lptr \<Rightarrow> mp_change \<Rightarrow> bool" where
  "completes lp (CreateAndJoinLobbyCompleted code ctx p) \<longleftrightarrow> p = lp"
| "completes lp (JoinLobbyCompleted code j p) \<longleftrightarrow> p = lp"
| "completes lp _ \<longleftrightarrow> False"

definition completions :: "lptr \<Rightarrow> mp_change list \<Rightarrow> nat" where
  "completions lp cs = length (filter (completes lp) cs)"

lemma completions_simps [simp]:
  "completions lp [] = 0" "completions lp (c # cs) = (if completes lp c then 1 else 0) + completions lp cs"
  "completions lp (xs @ ys) = completions lp xs + completions lp ys"
  by (simp_all add: completions_def)

text \<open>
  Every successful join completion comes right after an update that populates the membership
  lock, and the joiner has been announced before that; \<open>R\<close> holds the members announced before
  the list starts.
\<close>

definition announced_join :: "(lptr \<Rightarrow> string list) \<Rightarrow> mp_change list \<Rightarrow> cstr option \<Rightarrow> lptr \<Rightarrow> bool" where
  "announced_join R A j lp \<longleftrightarrow>
     (\<exists>A' dl S. A = A' @ [LobbyUpdated lp dl] \<and> ld_membership_lock_updated dl \<and> roster lp (R lp) A' = Some S \<and>
        mp_read_cstr j \<in> set S \<union> {[], ''owner''})"

definition joins_ordered :: "(lptr \<Rightarrow> string list) \<Rightarrow> mp_change list \<Rightarrow> bool" where
  "joins_ordered R cs \<longleftrightarrow> (\<forall>A j lp B. cs = A @ JoinLobbyCompleted 0 j lp # B \<longrightarrow> announced_join R A j lp)"

lemma joins_ordered_append:
  assumes "joins_ordered R xs" and "joins_ordered R' ys" and "\<And>lp. roster lp (R lp) xs = Some (R' lp)"
  shows "joins_ordered R (xs @ ys)"
  unfolding joins_ordered_def
proof (intro allI impI)
  fix A j lp B assume e: "xs @ ys = A @ JoinLobbyCompleted 0 j lp # B"
  then consider (l) C where "xs = A @ JoinLobbyCompleted 0 j lp # C"
    | (r) A2 where "A = xs @ A2" "ys = A2 @ JoinLobbyCompleted 0 j lp # B"
    by (auto simp: append_eq_append_conv2 append_eq_Cons_conv Cons_eq_append_conv)
  then show "announced_join R A j lp"
  proof cases
    case l
    then show ?thesis using assms(1) by (simp add: joins_ordered_def)
  next
    case r
    with assms(2) have "announced_join R' A2 j lp" by (simp add: joins_ordered_def)
    with r(1) assms(3) [of lp] show ?thesis
      by (auto simp: announced_join_def roster_append)
  qed
qed

lemma joins_ordered_no_join:
  "\<forall>c \<in> set cs. \<forall>j lp. c \<noteq> JoinLobbyCompleted 0 j lp \<Longrightarrow> joins_ordered R cs"
  by (auto simp: joins_ordered_def)

section \<open>What the locked sections do\<close>

definition box_ok :: "mlobby \<Rightarrow> bool" where
  "box_ok l \<longleftrightarrow> lobby_wf l \<and> member_table_ok (ml_member_props l) \<and> distinct (ml_announced l) \<and> (\<forall>e \<in> set (ml_announced l). CHR 0x00 \<notin> set e)"

definition parked :: "lptr \<Rightarrow> mp \<Rightarrow> nat" where
  "parked lp m = length (filter (\<lambda>pj. pj_lobby pj = lp) (mp_pending_joins m))"

text \<open>
  A locked section appends changes about the lobbies of \<open>A\<close> that keep the rosters, and uses up at
  most \<open>k lp\<close> create or join calls of the lobby \<open>lp\<close> besides the parked ones.
\<close>

definition queued :: "(lptr \<Rightarrow> nat) \<Rightarrow> lptr set \<Rightarrow> locked \<Rightarrow> locked \<Rightarrow> mp_change list \<Rightarrow> bool" where
  "queued k A s s' cs \<longleftrightarrow>
     mp_pending (fst s') = mp_pending (fst s) @ cs \<and>
     (\<forall>lp. roster lp (ml_announced (snd s lp)) cs = Some (ml_announced (snd s' lp))) \<and>
     joins_ordered (\<lambda>lp. ml_announced (snd s lp)) cs \<and>
     (\<forall>c \<in> set cs. \<forall>p. change_ptr c = Some p \<longrightarrow> p \<in> A) \<and>
     (\<forall>lp. completions lp cs + parked lp (fst s') \<le> parked lp (fst s) + k lp) \<and>
     (\<forall>lp. ml_left (snd s lp) \<and> \<not> lobby_ready_for_guest (snd s lp) \<longrightarrow> completions lp cs \<le> k lp)"

definition framed :: "lptr set \<Rightarrow> locked \<Rightarrow> locked \<Rightarrow> bool" where
  "framed A s s' \<longleftrightarrow>
     (\<forall>lp. lp \<notin> A \<longrightarrow> snd s' lp = snd s lp) \<and>
     set (mp_lobbies (fst s')) \<subseteq> set (mp_lobbies (fst s)) \<and>
     mp_in_flight (fst s') = mp_in_flight (fst s) \<and> mp_batch_outstanding (fst s') = mp_batch_outstanding (fst s) \<and>
     mp_generation (fst s') = mp_generation (fst s) \<and>
     (\<forall>pj \<in> set (mp_pending_joins (fst s')). pj \<in> set (mp_pending_joins (fst s)) \<or> pj_lobby pj \<in> A) \<and>
     (\<forall>lp. box_ok (snd s lp) \<longrightarrow> box_ok (snd s' lp)) \<and>
     (\<forall>lp. ml_left (snd s lp) \<longrightarrow> ml_left (snd s' lp) \<and> ml_props (snd s' lp) = ml_props (snd s lp))"

definition advances :: "(lptr \<Rightarrow> nat) \<Rightarrow> lptr set \<Rightarrow> locked \<Rightarrow> locked \<Rightarrow> bool" where
  "advances k A s s' \<longleftrightarrow> (\<exists>cs. queued k A s s' cs) \<and> framed A s s'"

abbreviation none :: "lptr \<Rightarrow> nat" where "none \<equiv> (\<lambda>_. 0)"
abbreviation one :: "lptr \<Rightarrow> lptr \<Rightarrow> nat" where "one lp \<equiv> (\<lambda>p. if p = lp then 1 else 0)"

lemma framed_trans: "framed A s s' \<Longrightarrow> framed A s' s'' \<Longrightarrow> framed A s s''"
  unfolding framed_def by (intro conjI) (blast | fastforce)+

lemma ready_cong: "ml_props l = ml_props l' \<Longrightarrow> lobby_ready_for_guest l = lobby_ready_for_guest l'"
  by (simp add: lobby_ready_for_guest_def cong: option.case_cong)

lemma queued_trans:
  assumes "queued k A s s' cs" and "framed A s s'" and "queued k' A s' s'' cs'"
  shows "queued (\<lambda>lp. k lp + k' lp) A s s'' (cs @ cs')"
proof -
  have stay: "completions lp (cs @ cs') \<le> k lp + k' lp"
    if "ml_left (snd s lp)" "\<not> lobby_ready_for_guest (snd s lp)" for lp
  proof -
    have "ml_left (snd s' lp)" "ml_props (snd s' lp) = ml_props (snd s lp)"
      using assms(2) that(1) by (simp_all add: framed_def)
    with that ready_cong [of "snd s' lp" "snd s lp"] have "completions lp cs \<le> k lp" "completions lp cs' \<le> k' lp"
      using assms(1,3) by (simp_all add: queued_def)
    then show ?thesis by simp
  qed
  have "roster lp (ml_announced (snd s lp)) (cs @ cs') = Some (ml_announced (snd s'' lp))" for lp
    using assms by (simp add: queued_def roster_append)
  moreover have "joins_ordered (\<lambda>lp. ml_announced (snd s lp)) (cs @ cs')"
    using assms by (intro joins_ordered_append [of _ _ "\<lambda>lp. ml_announced (snd s' lp)"]) (simp_all add: queued_def)
  moreover have "completions lp (cs @ cs') + parked lp (fst s'') \<le> parked lp (fst s) + (k lp + k' lp)" for lp
  proof -
    have "completions lp cs + parked lp (fst s') \<le> parked lp (fst s) + k lp"
      "completions lp cs' + parked lp (fst s'') \<le> parked lp (fst s') + k' lp"
      using assms(1,3) by (simp_all add: queued_def)
    then show ?thesis by simp
  qed
  ultimately show ?thesis using assms(1,3) stay by (auto simp: queued_def)
qed

lemma advances_trans: "advances k A s s' \<Longrightarrow> advances k' A s' s'' \<Longrightarrow> advances (\<lambda>lp. k lp + k' lp) A s s''"
  unfolding advances_def using queued_trans framed_trans by blast

lemma advances_none: "advances none A s s' \<Longrightarrow> advances k A s' s'' \<Longrightarrow> advances k A s s''"
  using advances_trans [of none A s s' k s''] by simp

lemma advances_none': "advances k A s s' \<Longrightarrow> advances none A s' s'' \<Longrightarrow> advances k A s s''"
  using advances_trans [of k A s s' none s''] by simp

lemma advances_refl: "advances none A s s"
  unfolding advances_def
  by (intro conjI exI [of _ "[]"]) (auto simp: queued_def framed_def joins_ordered_no_join)

lemma advances_fold: "(\<And>x s. x \<in> set xs \<Longrightarrow> advances none A s (f x s)) \<Longrightarrow> advances none A s (fold f xs s)"
proof (induction xs arbitrary: s)
  case (Cons x xs)
  have "advances none A s (f x s)" by (rule Cons.prems) simp
  from advances_none [OF this Cons.IH] Cons.prems show ?case by simp
qed (simp add: advances_refl)

lemma advances_more: "advances k A s s' \<Longrightarrow> (\<And>lp. k lp \<le> k' lp) \<Longrightarrow> advances k' A s s'"
proof -
  assume a: "advances k A s s'" and k: "\<And>lp. k lp \<le> k' lp"
  have "completions lp cs + parked lp (fst s') \<le> parked lp (fst s) + k' lp"
    if "completions lp cs + parked lp (fst s') \<le> parked lp (fst s) + k lp" for lp cs
    using that k [of lp] by linarith
  moreover have "completions lp cs \<le> k' lp" if "completions lp cs \<le> k lp" for lp cs
    using that k [of lp] by linarith
  ultimately show ?thesis using a unfolding advances_def queued_def by blast
qed

text \<open>One change that is not a completion and no member event, with a change of one lobby that keeps its roster.\<close>

lemma advances_queue:
  assumes "\<And>lp' A'. roster_step lp' c A' = Some A'" and "\<forall>p. change_ptr c = Some p \<longrightarrow> p \<in> A"
    and "\<And>lp'. completions lp' [c] \<le> k lp'" and "\<forall>j p. c \<noteq> JoinLobbyCompleted 0 j p" and "framed A s (m, b)"
    and "mp_pending m = mp_pending (fst s)" and "mp_pending_joins m = mp_pending_joins (fst s)"
    and "\<And>p. ml_announced (b p) = ml_announced (snd s p)"
  shows "advances k A s (mp_queue c m, b)"
proof -
  have "queued k A s (mp_queue c m, b) [c]"
    using assms(1-4,6-8)
    by (auto simp: queued_def mp_queue_def parked_def joins_ordered_no_join add_increasing)
  moreover have "framed A s (mp_queue c m, b)" using assms(5) by (auto simp: framed_def mp_queue_def)
  ultimately show ?thesis by (auto simp: advances_def)
qed

text \<open>
  What holds of every call that announces a member or reports an update of a lobby in \<open>A\<close>, and is
  reflexive and transitive, holds of everything the locked sections emit.
\<close>

locale emit_law =
  fixes R :: "locked \<Rightarrow> locked \<Rightarrow> bool" and A :: "lptr set"
  assumes refl: "R s s"
    and trans: "R s t \<Longrightarrow> R t u \<Longrightarrow> R s u"
    and added: "lp \<in> A \<Longrightarrow> R s (emit_member_added lp e s)"
    and updated: "lp \<in> A \<Longrightarrow> R s (emit_updated lp dl fl s)"
begin

lemma added_all: "lp \<in> A \<Longrightarrow> R s (fold (emit_member_added lp) es s)"
proof (induction es arbitrary: s)
  case (Cons e es)
  from trans [OF added Cons.IH] Cons.prems show ?case by simp
qed (simp add: refl)

lemma announced: "lp \<in> A \<Longrightarrow> R s (announce_lobby_members lp s)"
  unfolding announce_lobby_members_def by (rule trans [OF added added_all])

lemma populated: "lp \<in> A \<Longrightarrow> R s (emit_updated lp dl fl (emit_member_added lp e (announce_lobby_members lp s)))"
  by (rule trans [OF trans [OF announced added] updated])

end

subsection \<open>Emitting\<close>

lemma utf8_lossy_no_nul: "CHR 0x00 \<notin> set s \<Longrightarrow> CHR 0x00 \<notin> set (utf8_lossy s)"
proof (induction s rule: utf8_lossy.induct)
  case (1 s)
  obtain ok n where st: "utf8_step_str s = (ok, n)" by fastforce
  show ?case
  proof (cases "s = []")
    case False
    have "CHR 0x00 \<notin> set (take n s)" "CHR 0x00 \<notin> set (drop n s)"
      using 1(2) by (auto dest: in_set_takeD in_set_dropD)
    with 1(1) [OF False st [symmetric]] st False show ?thesis by (simp add: utf8_lossy.simps [of s])
  qed (simp add: utf8_lossy.simps)
qed

lemma read_cstr_no_nul: "CHR 0x00 \<notin> set (mp_read_cstr p)"
  by (auto simp: mp_read_cstr_def intro!: utf8_lossy_no_nul dest!: in_set_takeD set_takeWhileD split: option.split)

lemma intern_no_nul: "CHR 0x00 \<notin> set e \<Longrightarrow> mp_intern e = Some e"
  by (simp add: mp_intern_def cstring_new_def)

lemma lobby_wf_cong:
  "ml_props l = ml_props l' \<Longrightarrow> ml_search l = ml_search l' \<Longrightarrow> ml_member_props l = ml_member_props l' \<Longrightarrow>
   lobby_wf l = lobby_wf l'"
  by (simp add: lobby_wf_def)

lemma framed_one:
  assumes "lp \<in> A" and "m' = m \<or> m' = drop_lobby lp m" and "box_ok (b lp) \<Longrightarrow> box_ok (f (b lp))"
    and "ml_left (b lp) \<Longrightarrow> ml_left (f (b lp)) \<and> ml_props (f (b lp)) = ml_props (b lp)"
  shows "framed A (m, b) (m', upd_lobby lp f b)"
  using assms by (auto simp: framed_def drop_lobby_def)

lemma emit_member_added_advances: "lp \<in> A \<Longrightarrow> advances none A s (emit_member_added lp e s)"
proof (cases s)
  case (Pair m b)
  assume A: "lp \<in> A"
  let ?e = "key_id e"
  show ?thesis
  proof (cases "?e = [] \<or> ?e = ''owner'' \<or> ?e \<in> set (ml_announced (b lp))")
    case True
    then show ?thesis by (auto simp: Pair Let_def advances_refl)
  next
    case False
    let ?b = "upd_lobby lp (\<lambda>l. l\<lparr>ml_announced := ml_announced l @ [?e]\<rparr>) b"
    have "framed A (m, b) (m, ?b)"
      using A False read_cstr_no_nul
      by (intro framed_one) (auto simp: box_ok_def cong: lobby_wf_cong)
    then have "framed A (m, b) (mp_queue (MemberAdded lp e) m, ?b)" by (auto simp: framed_def mp_queue_def)
    moreover have "queued none A (m, b) (mp_queue (MemberAdded lp e) m, ?b) [MemberAdded lp e]"
      using A False by (auto simp: queued_def mp_queue_def parked_def joins_ordered_no_join)
    ultimately show ?thesis using False by (auto simp: Pair advances_def)
  qed
qed

lemma announced_after: "key_id e \<in> set (ml_announced (snd (emit_member_added lp e s) lp)) \<union> {[], ''owner''}"
  by (cases s) (auto simp: Let_def)

lemma emit_updated_advances: "lp \<in> A \<Longrightarrow> advances none A s (emit_updated lp dl force s)"
proof (cases s)
  case (Pair m b)
  assume A: "lp \<in> A"
  have "framed A (m, b) (m, upd_lobby lp (\<lambda>l. l\<lparr>ml_lock_known := True\<rparr>) b)"
    using A by (intro framed_one) (auto simp: box_ok_def cong: lobby_wf_cong)
  then show ?thesis
    using A by (auto simp: Pair Let_def advances_refl intro!: advances_queue)
qed

interpretation history: emit_law "advances none A" A for A
  by unfold_locales (rule advances_refl advances_none emit_member_added_advances emit_updated_advances; assumption)+

interpretation joins_kept: emit_law "\<lambda>s s'. mp_pending_joins (fst s') = mp_pending_joins (fst s)" UNIV
proof
  show "mp_pending_joins (fst (emit_member_added lp e s)) = mp_pending_joins (fst s)" for lp e s
    by (cases s) (simp add: Let_def mp_queue_def)
  show "mp_pending_joins (fst (emit_updated lp dl fl s)) = mp_pending_joins (fst s)" for lp dl fl s
    by (cases s) (simp add: Let_def mp_queue_def)
qed simp_all

interpretation props_kept: emit_law "\<lambda>s s'. \<forall>p. ml_props (snd s' p) = ml_props (snd s p)" UNIV
proof
  show "\<forall>p. ml_props (snd (emit_member_added lp e s) p) = ml_props (snd s p)" for lp e s
    by (cases s) (simp add: Let_def)
  show "\<forall>p. ml_props (snd (emit_updated lp dl fl s) p) = ml_props (snd s p)" for lp dl fl s
    by (cases s) (simp add: Let_def)
qed simp_all

text \<open>The end of a join: an update with the lock flag, then the completion.\<close>

lemma joined_advances:
  assumes A: "lp \<in> A" and j: "key_id joiner \<in> set (ml_announced (snd s lp)) \<union> {[], ''owner''}"
  shows "advances (one lp) A s (queue_join_completed lp joiner 0 (emit_updated lp dl True s))"
proof (cases s)
  case (Pair m b)
  let ?u = "LobbyUpdated lp (dl\<lparr>ld_membership_lock_updated := True\<rparr>)" and ?c = "JoinLobbyCompleted 0 (ek_id joiner) lp"
  let ?b = "upd_lobby lp (\<lambda>l. l\<lparr>ml_lock_known := True\<rparr>) b"
  have e: "queue_join_completed lp joiner 0 (emit_updated lp dl True s) = (mp_queue ?c (mp_queue ?u m), ?b)"
    by (simp add: Pair Let_def delta_is_empty_def)
  have "framed A (m, b) (m, ?b)"
    using A by (intro framed_one) (auto simp: box_ok_def cong: lobby_wf_cong)
  then have "framed A (m, b) (mp_queue ?c (mp_queue ?u m), ?b)" by (auto simp: framed_def mp_queue_def)
  moreover have "joins_ordered (\<lambda>lp. ml_announced (b lp)) [?u, ?c]"
    using j by (auto simp: joins_ordered_def announced_join_def Pair append_eq_Cons_conv Cons_eq_append_conv)
  then have "queued (one lp) A (m, b) (mp_queue ?c (mp_queue ?u m), ?b) [?u, ?c]"
    using A by (auto simp: queued_def mp_queue_def parked_def)
  ultimately show ?thesis unfolding advances_def e by (auto simp only: Pair)
qed

lemma emit_join_completed_advances:
  assumes "lp \<in> A"
  shows "advances (one lp) A s (emit_join_completed lp joiner s)"
proof (cases s)
  case (Pair m b)
  let ?s0 = "(m, upd_lobby lp (\<lambda>l. l\<lparr>ml_pending := False\<rparr>) b)"
  let ?s1 = "announce_lobby_members lp ?s0"
  let ?s2 = "emit_member_added lp joiner ?s1"
  have "framed A (m, b) ?s0" using assms by (intro framed_one) (auto simp: box_ok_def cong: lobby_wf_cong)
  then have "advances none A s ?s0"
    by (auto simp: Pair advances_def queued_def parked_def joins_ordered_no_join intro!: exI [of _ "[]"])
  then have "advances none A s ?s2"
    using advances_none [OF _ advances_none [OF history.announced [OF assms] emit_member_added_advances [OF assms]]] by blast
  then have "advances (one lp) A s (queue_join_completed lp joiner 0 (emit_updated lp (join_delta (snd ?s2 lp) joiner) True ?s2))"
    using joined_advances [OF assms announced_after] by (rule advances_none)
  then show ?thesis by (simp add: Pair Let_def)
qed

subsection \<open>Polling\<close>

lemma remove_member_advances:
  assumes "lp \<in> A" and "eid \<in> set (ml_announced (snd s lp))" and "box_ok (snd s lp)"
  shows "advances none A s (remove_member lp eid s)"
proof (cases s)
  case (Pair m b)
  let ?c = "MemberRemoved lp (member_key eid)"
  let ?b = "upd_lobby lp (\<lambda>l. l\<lparr>ml_announced := filter (\<lambda>e. e \<noteq> eid) (ml_announced l)\<rparr>) b"
  have k: "ek_id (member_key eid) = Some eid"
    using assms(2,3) by (simp add: member_key_def intern_no_nul box_ok_def)
  have "framed A (m, b) (m, ?b)"
    using assms(1) by (intro framed_one) (auto simp: box_ok_def cong: lobby_wf_cong)
  then have "framed A (m, b) (mp_queue ?c m, ?b)" by (auto simp: framed_def mp_queue_def)
  moreover have "queued none A (m, b) (mp_queue ?c m, ?b) [?c]"
    using assms k by (auto simp: Pair queued_def mp_queue_def parked_def joins_ordered_no_join)
  ultimately show ?thesis by (auto simp: Pair advances_def)
qed

lemma remove_members_advances:
  assumes "lp \<in> A" and "set es \<subseteq> set (ml_announced (snd s lp))" and "distinct es" and "box_ok (snd s lp)"
  shows "advances none A s (fold (remove_member lp) es s)"
  using assms(2-)
proof (induction es arbitrary: s)
  case (Cons e es)
  obtain m b where s: "s = (m, b)" by (cases s)
  have a: "advances none A s (remove_member lp e s)"
    using Cons.prems assms(1) by (intro remove_member_advances) auto
  have "box_ok (snd (remove_member lp e s) lp)"
    using a Cons.prems(3) by (auto simp: advances_def framed_def)
  moreover have "set es \<subseteq> set (ml_announced (snd (remove_member lp e s) lp))"
    using Cons.prems by (auto simp: s)
  ultimately have "advances none A (remove_member lp e s) (fold (remove_member lp) es (remove_member lp e s))"
    using Cons.prems by (intro Cons.IH) auto
  with a show ?case using advances_none by auto
qed (simp add: advances_refl)

lemma apply_refresh_cases:
  assumes "apply_refresh d resp l = Some (departed, gone, dl, l')"
  obtains (same) "l' = l" "departed = []" "dl = delta_default" "gone \<longleftrightarrow> (\<exists>st t. resp = Some (st, t) \<and> st \<noteq> 200)"
  | (fresh) body fresh where "resp = Some (200, body)" "lobby_from_json d body = Some (Some fresh)" "\<not> gone"
      "l' = take_fresh l fresh" "departed = departed_of l'" "dl = diff_lobby (snapshot l) l'"
  using assms by (auto simp: apply_refresh_def Let_def split: option.splits if_splits Option.bind_splits)

lemma take_fresh_keeps [simp]:
  "ml_announced (take_fresh l f) = ml_announced l" "ml_left (take_fresh l f) = ml_left l"
  "ml_pending (take_fresh l f) = ml_pending l" "ml_id (take_fresh l f) = ml_id l"
  "ml_lock_known (take_fresh l f) = ml_lock_known l"
  by (simp_all add: take_fresh_def Let_def)

lemma lobby_from_json_table: "lobby_from_json d body = Some (Some l) \<Longrightarrow> member_table_ok (ml_member_props l)"
  using lobby_from_json_ok [of d body l]
  by (auto simp: member_table_ok_def lobby_wf_def member_props_wf_def intro: map_of_is_SomeI)

lemma member_table_ok_merge:
  "member_props_wf a \<Longrightarrow> member_props_wf b \<Longrightarrow> member_table_ok (merge_member_props a b)"
  using member_props_wf_merge [of a b]
  by (auto simp: member_table_ok_def merge_member_props_def ensure_member_props_ensured)

lemma member_table_ok_take_fresh:
  "member_table_ok (ml_member_props l) \<Longrightarrow> member_table_ok (ml_member_props f) \<Longrightarrow>
   member_table_ok (ml_member_props (take_fresh l f))"
  using member_table_ok_merge [of "ml_member_props l" "ml_member_props f"]
  by (simp add: take_fresh_def Let_def member_table_ok_def)

lemma departed_subset: "set (departed_of l) \<subseteq> set (ml_announced l)"
  by (auto simp: departed_of_def)

lemma distinct_departed: "distinct (ml_announced l) \<Longrightarrow> distinct (departed_of l)"
  by (simp add: departed_of_def)

lemma apply_refresh_keeps:
  assumes "apply_refresh d resp l = Some (departed, gone, dl, l')"
  shows "ml_announced l' = ml_announced l" "ml_left l' = ml_left l" "box_ok l \<Longrightarrow> box_ok l'"
    "set departed \<subseteq> set (ml_announced l)" "box_ok l \<Longrightarrow> distinct departed" "gone \<Longrightarrow> departed = []"
  using assms
  by (auto elim!: apply_refresh_cases simp: box_ok_def lobby_wf_take_fresh lobby_from_json_ok(1)
      member_table_ok_take_fresh lobby_from_json_table
      dest: subsetD [OF departed_subset] intro: distinct_departed)

lemma advances_box:
  assumes "lp \<in> A" and "m' = m \<or> m' = drop_lobby lp m" and "ml_announced l' = ml_announced (b lp)"
    and "box_ok (b lp) \<Longrightarrow> box_ok l'" and "ml_left (b lp) \<Longrightarrow> ml_left l' \<and> ml_props l' = ml_props (b lp)"
  shows "advances none A (m, b) (m', b(lp := l'))"
proof -
  have "framed A (m, b) (m', b(lp := l'))" using framed_one [of lp A m' m b "\<lambda>_. l'"] assms by simp
  then show ?thesis
    using assms(2,3)
    by (auto simp: advances_def queued_def parked_def drop_lobby_def joins_ordered_no_join intro!: exI [of _ "[]"])
qed

lemma queue_drop: "mp_queue c (drop_lobby lp m) = drop_lobby lp (mp_queue c m)"
  by (cases m) (simp add: mp_queue_def drop_lobby_def)

lemma poll_lobby_advances:
  assumes A: "lp \<in> A" and ok: "box_ok (snd s lp)" and live: "\<not> ml_left (snd s lp)"
    and run: "poll_lobby d lp resp s = Some s'"
  shows "advances none A s s'"
proof (cases s)
  case (Pair m b)
  obtain departed gone dl l where r: "apply_refresh d resp (b lp) = Some (departed, gone, dl, l)"
    using run by (auto simp: Pair split: Option.bind_splits)
  note k = apply_refresh_keeps [OF r]
  have box: "box_ok (b lp)" "box_ok l" using ok k(3) by (simp_all add: Pair)
  obtain m1 b1 where f: "fold (remove_member lp) departed (m, b(lp := l)) = (m1, b1)" by fastforce
  have a0: "advances none A (m, b) (m, b(lp := l))"
    using A k live by (intro advances_box) (auto simp: Pair)
  have "advances none A (m, b(lp := l)) (m1, b1)"
    using remove_members_advances [of lp A departed "(m, b(lp := l))"] A k box by (simp add: f)
  with a0 have a1: "advances none A s (m1, b1)" unfolding Pair by (rule advances_none)
  have gone: "advances none A (m1, b1) (drop_lobby lp (mp_queue (LobbyDisconnected lp) m1), upd_lobby lp (\<lambda>l. l\<lparr>ml_left := True\<rparr>) b1)"
  proof -
    have d: "advances none A (m1, b1) (drop_lobby lp m1, upd_lobby lp (\<lambda>l. l\<lparr>ml_left := True\<rparr>) b1)"
      using A by (intro advances_box) (auto simp: box_ok_def cong: lobby_wf_cong)
    have "advances none A (drop_lobby lp m1, b2) (mp_queue (LobbyDisconnected lp) (drop_lobby lp m1), b2)" for b2
      using A by (intro advances_queue) (auto simp: framed_def)
    from advances_none [OF d this] show ?thesis by (simp add: queue_drop)
  qed
  have upd: "advances none A (m1, b1) (emit_updated lp dl False (announce_lobby_members lp (m1, b1)))"
    by (rule history.trans [OF history.announced [OF A] history.updated [OF A]])
  have "s' \<in> {(drop_lobby lp (mp_queue (LobbyDisconnected lp) m1), upd_lobby lp (\<lambda>l. l\<lparr>ml_left := True\<rparr>) b1),
      emit_updated lp dl False (announce_lobby_members lp (m1, b1)), (m1, b1)}"
    using run r f by (auto simp: Pair Let_def split: if_splits)
  then show ?thesis using a1 advances_none [OF a1 gone] advances_none [OF a1 upd] by auto
qed

lemma poll_answer_advances:
  assumes "lp \<in> A" and "box_ok (snd s lp)" and "poll_answer d lp resp s = Some s'"
  shows "advances none A s s'"
  using assms poll_lobby_advances [OF assms(1,2)]
  by (cases s) (auto simp: nothing_to_poll_def advances_refl split: if_splits)

subsection \<open>Parked joins\<close>

lemma parked_remove:
  assumes "i < length ps"
  shows "length (filter P (take i ps @ drop (Suc i) ps)) + (if P (ps ! i) then 1 else 0) = length (filter P ps)"
  using arg_cong [OF id_take_nth_drop [OF assms], of "\<lambda>xs. length (filter P xs)"] by simp

lemma complete_join_advances:
  assumes "i < length (mp_pending_joins (fst s))" and "pj_lobby (mp_pending_joins (fst s) ! i) \<in> A"
    and "lobby_ready_for_guest (snd s (pj_lobby (mp_pending_joins (fst s) ! i)))"
  shows "advances none A s (complete_join i s)"
proof (cases s)
  case (Pair m b)
  let ?ps = "mp_pending_joins m" and ?lp = "pj_lobby (mp_pending_joins m ! i)"
  let ?m = "m\<lparr>mp_pending_joins := take i ?ps @ drop (Suc i) ?ps\<rparr>"
  have "advances (one ?lp) A (?m, b) (complete_join i s)"
    using emit_join_completed_advances [of ?lp A "(?m, b)"] assms by (simp add: Pair Let_def)
  then obtain cs where q: "queued (one ?lp) A (?m, b) (complete_join i s) cs" and f: "framed A (?m, b) (complete_join i s)"
    by (auto simp: advances_def)
  have p: "parked lp ?m + one ?lp lp = parked lp m" for lp
    using parked_remove [of i ?ps "\<lambda>pj. pj_lobby pj = lp"] assms by (auto simp: parked_def Pair)
  have "completions lp cs + parked lp (fst (complete_join i s)) \<le> parked lp ?m + one ?lp lp" for lp
    using q by (simp only: queued_def fst_conv)
  then have "completions lp cs + parked lp (fst (complete_join i s)) \<le> parked lp m" for lp
    by (simp only: p)
  moreover have "completions lp cs \<le> 0" if "ml_left (b lp)" "\<not> lobby_ready_for_guest (b lp)" for lp
  proof -
    have "lp \<noteq> ?lp" using that(2) assms(3) by (auto simp: Pair)
    moreover have "completions lp cs \<le> one ?lp lp" using q that unfolding queued_def snd_conv by blast
    ultimately show ?thesis by simp
  qed
  ultimately have "queued none A (m, b) (complete_join i s) cs" using q by (simp add: queued_def)
  moreover have "framed A (m, b) (complete_join i s)"
    using f by (auto simp: framed_def dest: in_set_takeD in_set_dropD)
  ultimately show ?thesis unfolding advances_def by (auto simp only: Pair)
qed

lemma complete_join_parked:
  "mp_pending_joins (fst (complete_join i s)) =
   take i (mp_pending_joins (fst s)) @ drop (Suc i) (mp_pending_joins (fst s))"
proof -
  have "mp_pending_joins (fst (queue_join_completed lp e c s)) = mp_pending_joins (fst s)" for lp e c s
    by (cases s) (simp add: mp_queue_def)
  then show ?thesis
    by (cases s) (simp add: Let_def joins_kept.populated
        del: emit_member_added.simps emit_updated.simps queue_join_completed.simps)
qed

lemma complete_join_props: "ml_props (snd (complete_join i s) p) = ml_props (snd s p)"
proof -
  have q: "snd (queue_join_completed lp j c s) = snd s" for lp j c s by (cases s) simp
  show ?thesis
    by (cases s) (simp add: Let_def q props_kept.populated [THEN spec]
        del: emit_member_added.simps emit_updated.simps queue_join_completed.simps)
qed

lemma complete_joins_advances:
  assumes "sorted_wrt (>) is" and "\<forall>i \<in> set is. i < length (mp_pending_joins (fst s)) \<and>
      lobby_ready_for_guest (snd s (pj_lobby (mp_pending_joins (fst s) ! i)))"
    and "\<And>pj. pj \<in> set (mp_pending_joins (fst s)) \<Longrightarrow> pj_lobby pj \<in> A"
  shows "advances none A s (fold complete_join is s)"
  using assms
proof (induction "is" arbitrary: s)
  case (Cons i "is")
  let ?ps = "mp_pending_joins (fst s)" and ?s = "complete_join i s"
  have i: "i < length ?ps" "lobby_ready_for_guest (snd s (pj_lobby (?ps ! i)))" using Cons.prems by simp_all
  have a: "advances none A s ?s"
    using i Cons.prems(3) by (intro complete_join_advances) (auto simp: nth_mem)
  have "advances none A ?s (fold complete_join is ?s)"
  proof (rule Cons.IH)
    have "lobby_ready_for_guest (snd ?s p) = lobby_ready_for_guest (snd s p)" for p
      by (rule ready_cong) (rule complete_join_props)
    moreover have "mp_pending_joins (fst ?s) ! j = ?ps ! j" "j < length (mp_pending_joins (fst ?s))" if "j \<in> set is" for j
      using that Cons.prems(1) i by (auto simp: complete_join_parked nth_append)
    ultimately show "\<forall>j \<in> set is. j < length (mp_pending_joins (fst ?s)) \<and>
        lobby_ready_for_guest (snd ?s (pj_lobby (mp_pending_joins (fst ?s) ! j)))"
      using Cons.prems(2) by simp
    show "pj \<in> set (mp_pending_joins (fst ?s)) \<Longrightarrow> pj_lobby pj \<in> A" for pj
      using Cons.prems(3) by (auto simp: complete_join_parked dest: in_set_takeD in_set_dropD)
  qed (use Cons.prems in simp)
  from advances_none [OF a this] show ?case by simp
qed (simp add: advances_refl)

lemma service_advances:
  assumes "\<And>pj. pj \<in> set (mp_pending_joins (fst s)) \<Longrightarrow> pj_lobby pj \<in> A"
  shows "advances none A s (service_pending_joins s)"
proof -
  have "sorted_wrt (>) (rev (filter P [0..<n]))" for P :: "nat \<Rightarrow> bool" and n
    by (simp add: sorted_wrt_rev sorted_wrt_filter)
  then show ?thesis
    using assms by (cases s) (auto simp: Let_def intro!: complete_joins_advances)
qed

subsection \<open>Jobs\<close>

text \<open>The locked section of a job: what it needs of the store, and what it may complete.\<close>

lemma create_done_advances:
  assumes "cj_lobby job \<in> A" and "hm_wf (cj_lobby_data job)" and "hm_wf (cj_search job)"
    and "create_done d job status text s = Some s'"
  shows "advances (one (cj_lobby job)) A s s'"
proof (cases s)
  case (Pair m b)
  let ?lp = "cj_lobby job"
  have complete: "advances (one ?lp) A t (queue_create_completed ?lp (cj_async_ctx job) code t)" for t code
    using assms(1) by (cases t) (auto simp: framed_def intro!: advances_queue)
  have reject: "advances (one ?lp) A (m, b) (queue_create_completed ?lp (cj_async_ctx job) code
      (drop_lobby ?lp m, upd_lobby ?lp (\<lambda>l. l\<lparr>ml_pending := False, ml_left := True\<rparr>) b))" for code
  proof -
    have "advances none A (m, b) (drop_lobby ?lp m, upd_lobby ?lp (\<lambda>l. l\<lparr>ml_pending := False, ml_left := True\<rparr>) b)"
      using assms(1) by (intro advances_box) (auto simp: box_ok_def cong: lobby_wf_cong)
    then show ?thesis using complete by (rule advances_none)
  qed
  have accept: "advances (one ?lp) A (m, b) (queue_create_completed ?lp (cj_async_ctx job) 0
      (emit_member_added ?lp (cj_owner job) (m, b(?lp := l))))"
    if "apply_create_response d text (cj_owner job) (cj_max_players job) (cj_lobby_data job) (cj_search job) (b ?lp) = Some l"
      "\<not> ml_left (b ?lp)" for l
  proof -
    have "advances none A (m, b) (m, b(?lp := l))"
      using assms(1,2,3) that
      by (intro advances_box) (auto simp: apply_create_response_def box_ok_def lobby_wf_def ensure_cstr_map_def
          case_prod_beta comp_def split: Option.bind_splits)
    moreover note emit_member_added_advances [OF assms(1), of "(m, b(?lp := l))" "cj_owner job"]
    ultimately have "advances none A (m, b) (emit_member_added ?lp (cj_owner job) (m, b(?lp := l)))"
      by (rule advances_none)
    then show ?thesis using complete by (rule advances_none)
  qed
  show ?thesis
    using assms(4) reject accept advances_more [OF advances_refl, of "one ?lp"]
    by (auto simp: Pair Let_def split: if_splits Option.bind_splits)
qed

lemma member_table_ok_ensure:
  "member_table_ok mp \<Longrightarrow> hm_wf x \<Longrightarrow> member_table_ok (hm_insert mp e (ensure_member_props x e'))"
  by (auto simp: member_table_ok_def member_props_wf_insert hm_wf_ensure ensure_member_props_ensured
      dest: in_set_hm_insert)

lemma member_table_entry: "member_table_ok mp \<Longrightarrow> hm_wf (unwrap_or (hm_get mp e) [])"
  by (simp add: member_table_ok_def member_props_wf_entry)

lemma apply_join_response_keeps:
  assumes "apply_join_response d text joiner kv l = Some l'"
  shows "ml_announced l' = ml_announced l" and "ml_left l' = ml_left l" and "ml_pending l' = ml_pending l"
    and "lobby_wf l \<Longrightarrow> lobby_wf l'" and "member_table_ok (ml_member_props l) \<Longrightarrow> member_table_ok (ml_member_props l')"
proof -
  obtain freshv where f: "lobby_from_json d text = Some freshv"
    using assms by (auto simp: apply_join_response_def split: Option.bind_splits)
  define l1 where "l1 = (case freshv of Some fresh \<Rightarrow> move_lobby_into l fresh | None \<Rightarrow> l)"
  have k1: "ml_announced l1 = ml_announced l" "ml_left l1 = ml_left l" "ml_pending l1 = ml_pending l"
    by (simp_all add: l1_def move_lobby_into_def split: option.split)
  have wf1: "lobby_wf l1" if "lobby_wf l"
    using that f lobby_from_json_ok(1) [of d "text"]
    by (auto simp: l1_def move_lobby_into_def lobby_wf_def split: option.split)
  have ok1: "member_table_ok (ml_member_props l1)" if "member_table_ok (ml_member_props l)"
    using that f lobby_from_json_table [of d "text"] by (auto simp: l1_def move_lobby_into_def split: option.split)
  show "member_table_ok (ml_member_props l')" if "member_table_ok (ml_member_props l)"
    using assms f ok1 [OF that]
    by (auto simp: apply_join_response_def l1_def [symmetric] Let_def hm_wf_apply member_table_entry
        intro!: member_table_ok_ensure split: if_splits)
  from assms f show "ml_announced l' = ml_announced l" "ml_left l' = ml_left l" "ml_pending l' = ml_pending l"
    by (auto simp: apply_join_response_def l1_def [symmetric] Let_def k1 split: if_splits)
  show "lobby_wf l'" if "lobby_wf l"
    using assms f wf1 [OF that]
    by (auto simp: apply_join_response_def l1_def [symmetric] Let_def lobby_wf_def hm_wf_ensure hm_wf_apply
        member_props_wf_entry intro!: member_props_wf_insert split: if_splits)
qed

lemma join_done_advances:
  assumes A: "jj_lobby job \<in> A" and run: "join_done d job got s = Some s'"
  shows "advances (one (jj_lobby job)) A s s'"
proof (cases s)
  case (Pair m b)
  let ?lp = "jj_lobby job"
  define pj where "pj = \<lparr>pj_lobby = ?lp, pj_joiner = jj_joiner job, pj_async_ctx = jj_async_ctx job, pj_emitted = False\<rparr>"
  have "advances (one ?lp) A (m, b) s'"
    if l: "apply_join_response d got (jj_joiner job) (jj_member_kv job) (b ?lp) = Some l" "\<not> ml_left (b ?lp)"
      and s': "s' = emit_join_completed ?lp (jj_joiner job) (m, b(?lp := l)) \<or>
        s' = (m\<lparr>mp_pending_joins := mp_pending_joins m @ [pj]\<rparr>, b(?lp := l))" for l
  proof -
    have a: "advances none A (m, b) (m, b(?lp := l))"
      using A l apply_join_response_keeps [OF l(1)] by (intro advances_box) (auto simp: box_ok_def)
    have "advances (one ?lp) A (m, b(?lp := l)) (m\<lparr>mp_pending_joins := mp_pending_joins m @ [pj]\<rparr>, b(?lp := l))"
      using A unfolding advances_def queued_def framed_def
      by (intro conjI exI [of _ "[]"]) (auto simp: parked_def joins_ordered_no_join pj_def)
    with s' show ?thesis
      using advances_none [OF a] emit_join_completed_advances [OF A, of "(m, b(?lp := l))"] by metis
  qed
  moreover have "s' = (m, b) \<or> (\<exists>l. apply_join_response d got (jj_joiner job) (jj_member_kv job) (b ?lp) = Some l \<and>
      \<not> ml_left (b ?lp) \<and> (s' = emit_join_completed ?lp (jj_joiner job) (m, b(?lp := l)) \<or>
        s' = (m\<lparr>mp_pending_joins := mp_pending_joins m @ [pj]\<rparr>, b(?lp := l))))"
    using run by (auto simp: Pair Let_def pj_def simp del: emit_join_completed.simps split: if_splits Option.bind_splits)
  ultimately show ?thesis
    using advances_more [OF advances_refl, of "one ?lp" A "(m, b)"] by (auto simp: Pair)
qed

lemma fail_join_advances:
  assumes A: "jj_lobby job \<in> A" and code: "code \<noteq> 0" and run: "fail_join job code s = Some s'"
  shows "advances (one (jj_lobby job)) A s s'"
proof (cases s)
  case (Pair m b)
  let ?lp = "jj_lobby job"
  have "advances none A (m, b) (drop_lobby ?lp m, upd_lobby ?lp (\<lambda>l. l\<lparr>ml_pending := False, ml_left := True\<rparr>) b)"
    using A by (intro advances_box) (auto simp: box_ok_def cong: lobby_wf_cong)
  moreover have "advances (one ?lp) A t (queue_join_completed ?lp (jj_joiner job) code t)" for t
    using A code by (cases t) (auto simp: framed_def intro!: advances_queue)
  ultimately have "advances (one ?lp) A (m, b) (queue_join_completed ?lp (jj_joiner job) code
      (drop_lobby ?lp m, upd_lobby ?lp (\<lambda>l. l\<lparr>ml_pending := False, ml_left := True\<rparr>) b))"
    by (rule advances_none)
  then show ?thesis
    using run advances_more [OF advances_refl, of "one ?lp" A "(m, b)"] by (auto simp: Pair split: if_splits)
qed

lemma find_done_advances: "find_done d job code rows s = Some s' \<Longrightarrow> advances none A s s'"
  by (cases s) (auto simp: framed_def advances_refl split: if_splits Option.bind_splits intro!: advances_queue)

lemma leave_done_advances: "leave_done job code s = Some s' \<Longrightarrow> advances none A s s'"
  by (cases s) (auto simp: framed_def advances_refl split: if_splits intro!: advances_queue)

lemma post_done_advances: "pj_post_lobby job \<in> A \<Longrightarrow> post_done job code s = Some s' \<Longrightarrow> advances none A s s'"
proof (cases s)
  case (Pair m b)
  assume A: "pj_post_lobby job \<in> A" and run: "post_done job code s = Some s'"
  let ?q = "(mp_queue (PostUpdateCompleted code (pj_post_lobby job) (pj_member job) (pj_post_ctx job)) m, b)"
  have "advances none A (m, b) ?q" using A by (auto simp: framed_def intro!: advances_queue)
  then show ?thesis
    using run advances_none [OF _ emit_updated_advances [OF A, of ?q]] advances_refl
    by (auto simp: Pair Let_def simp del: emit_updated.simps split: if_splits)
qed

lemma broker_error_code_nonzero: "broker_error_code status body \<noteq> 0"
  by (simp add: broker_error_code_def mp_codes)

section \<open>Runs\<close>

text \<open>
  The steps of a process: one step of the worker thread, or one call of an export with any
  arguments, handles being addresses of lobbies the shim has returned (or null).
\<close>

inductive mp_step :: "mp_world \<Rightarrow> mp_world \<Rightarrow> bool" where
  worker: "broker_thread_step d env now w = Some w' \<Longrightarrow> mp_step w w'"
| initialize: "mp_step w (snd (PFMultiplayerInitialize h w))"
| uninitialize: "mp_step w (snd (PFMultiplayerUninitialize h w))"
| token: "mp_step w (snd (PFMultiplayerSetEntityToken h e t w))"
| create: "mp_step w (snd (snd (PFMultiplayerCreateAndJoinLobby h e cfg jcfg ctx oh w)))"
| join: "mp_step w (snd (snd (PFMultiplayerJoinLobby h e conn jcfg ctx oh w)))"
| find: "mp_step w (snd (PFMultiplayerFindLobbies h e scfg ctx w))"
| start: "mp_step w (snd (snd (PFMultiplayerStartProcessingLobbyStateChanges h oh w)))"
| finish: "mp_step w (snd (PFMultiplayerFinishProcessingLobbyStateChanges h count same w))"
| post: "lp < mw_next w \<Longrightarrow> mp_step w (snd (PFLobbyPostUpdate lp e u mu ctx w))"
| leave: "lp < mw_next w \<Longrightarrow> mp_step w (snd (PFLobbyLeave lp w))"
| kick: "mp_step w (snd (PFLobbyForceRemoveMember e w))"

definition pend :: "mp_world \<Rightarrow> mp_change list" where
  "pend w = (case mw_mp w of None \<Rightarrow> [] | Some m \<Rightarrow> mp_pending m)"

definition boot_world :: mp_world where
  "boot_world = \<lparr>mw_mp = None, mw_gen = 0, mw_box = (\<lambda>_. new_placeholder (member_key []) 0 0), mw_next = 1,
     mw_jobs = [], mw_auth = [], mw_local = [], mw_worker = Draining, mw_next_poll = 0\<rparr>"

text \<open>
  \<open>mp_run w out\<close>: the process has reached \<open>w\<close>, and \<open>out\<close> are the changes that have left the queue
  so far, handed out by a \<open>Start\<close> or discarded with their instance; \<open>out\<close> followed by the pending
  ones are all changes ever queued.
\<close>

inductive mp_run :: "mp_world \<Rightarrow> mp_change list \<Rightarrow> bool" where
  boot: "mp_run boot_world []"
| step: "mp_run w out \<Longrightarrow> mp_step w w' \<Longrightarrow> mp_run w' (out @ take (length (pend w) - length (pend w')) (pend w))"

fun job_lobby :: "broker_job \<Rightarrow> lptr option" where
  "job_lobby (Create j) = Some (cj_lobby j)"
| "job_lobby (Join j) = Some (jj_lobby j)"
| "job_lobby (Find j) = None"
| "job_lobby (LeaveJob j) = Some (lj_lobby j)"
| "job_lobby (PostUpdate j) = Some (pj_post_lobby j)"

fun job_budget :: "broker_job \<Rightarrow> lptr \<Rightarrow> nat" where
  "job_budget (Create j) = one (cj_lobby j)"
| "job_budget (Join j) = one (jj_lobby j)"
| "job_budget _ = none"

fun job_ok :: "broker_job \<Rightarrow> bool" where
  "job_ok (Create j) \<longleftrightarrow> hm_wf (cj_lobby_data j) \<and> hm_wf (cj_search j)"
| "job_ok _ \<longleftrightarrow> True"

definition claims :: "lptr \<Rightarrow> mp_world \<Rightarrow> nat" where
  "claims lp w = sum_list (map (\<lambda>j. job_budget j lp) (mw_jobs w)) +
     (case mw_mp w of None \<Rightarrow> 0 | Some m \<Rightarrow> parked lp m)"

definition ptrs_ok :: "mp_world \<Rightarrow> bool" where
  "ptrs_ok w \<longleftrightarrow>
     (\<forall>j \<in> set (mw_jobs w). job_ok j \<and> (\<forall>p. job_lobby j = Some p \<longrightarrow> p < mw_next w)) \<and>
     (\<forall>m. mw_mp w = Some m \<longrightarrow>
        (\<forall>p \<in> set (mp_lobbies m). p < mw_next w) \<and> (\<forall>pj \<in> set (mp_pending_joins m). pj_lobby pj < mw_next w)) \<and>
     (\<forall>ts. mw_worker w = Polling ts \<longrightarrow> (\<forall>t \<in> set ts. fst t < mw_next w))"

definition mp_inv :: "(lptr \<Rightarrow> nat) \<Rightarrow> mp_world \<Rightarrow> mp_change list \<Rightarrow> bool" where
  "mp_inv k w H \<longleftrightarrow>
     (\<forall>lp. roster lp [] H = Some (ml_announced (mw_box w lp)) \<and> box_ok (mw_box w lp)) \<and>
     (\<forall>c \<in> set H. \<forall>p. change_ptr c = Some p \<longrightarrow> p < mw_next w) \<and>
     joins_ordered (\<lambda>_. []) H \<and>
     (\<forall>lp. completions lp H + claims lp w + k lp \<le> (if lp < mw_next w then 1 else 0)) \<and>
     0 < mw_next w \<and> ptrs_ok w"

lemma mp_inv_weaken: "mp_inv k w H \<Longrightarrow> mp_inv none w H"
proof -
  assume inv: "mp_inv k w H"
  have "completions lp H + claims lp w + 0 \<le> (if lp < mw_next w then 1 else 0)" for lp
    using inv [unfolded mp_inv_def] by (metis add_leD1 add.right_neutral)
  with inv show ?thesis unfolding mp_inv_def by blast
qed

lemma roster_other: "\<forall>c \<in> set H. change_ptr c \<noteq> Some lp \<Longrightarrow> roster lp A H = Some A"
proof (induction H arbitrary: A)
  case (Cons c H)
  then have "roster_step lp c A = Some A" by (cases c) auto
  with Cons show ?case by simp
qed simp

text \<open>A locked section of the worker on the instance of a world.\<close>

definition world_advances :: "(lptr \<Rightarrow> nat) \<Rightarrow> mp_world \<Rightarrow> mp_world \<Rightarrow> bool" where
  "world_advances k w w' \<longleftrightarrow> (mw_mp w = None \<and> w' = w) \<or>
     (\<exists>m m' b'. mw_mp w = Some m \<and> w' = w\<lparr>mw_mp := Some m', mw_box := b'\<rparr> \<and>
        advances k {..<mw_next w} (m, mw_box w) (m', b'))"

lemma with_mp_advances:
  assumes "with_mp f w = Some w'"
    and "\<And>m s'. mw_mp w = Some m \<Longrightarrow> f (m, mw_box w) = Some s' \<Longrightarrow> advances k {..<mw_next w} (m, mw_box w) s'"
  shows "world_advances k w w'"
proof (cases "mw_mp w")
  case (Some m)
  with assms(1) obtain m' b' where "f (m, mw_box w) = Some (m', b')" "w' = w\<lparr>mw_mp := Some m', mw_box := b'\<rparr>"
    by (auto simp: with_mp_def split: Option.bind_splits)
  with assms(2) [OF Some] Some show ?thesis unfolding world_advances_def by blast
qed (use assms(1) in \<open>simp add: with_mp_def world_advances_def\<close>)

lemma world_advances_inv:
  assumes inv: "mp_inv k w (out @ pend w)" and run: "world_advances k w w'"
  shows "mp_inv none w' (out @ pend w') \<and> length (pend w) \<le> length (pend w')"
proof (cases "mw_mp w")
  case None
  then show ?thesis using inv run by (auto simp: world_advances_def intro: mp_inv_weaken)
next
  case (Some m)
  then obtain m' b' where w': "w' = w\<lparr>mw_mp := Some m', mw_box := b'\<rparr>"
    and adv: "advances k {..<mw_next w} (m, mw_box w) (m', b')"
    using run by (auto simp: world_advances_def)
  obtain cs where q: "queued k {..<mw_next w} (m, mw_box w) (m', b') cs" and fr: "framed {..<mw_next w} (m, mw_box w) (m', b')"
    using adv by (auto simp: advances_def)
  define H where "H = out @ pend w"
  have inv: "mp_inv k w H" using inv by (simp add: H_def)
  have H': "out @ pend w' = H @ cs" using q Some by (simp add: w' pend_def queued_def H_def)
  have r: "roster lp [] H = Some (ml_announced (mw_box w lp))" for lp using inv by (simp add: mp_inv_def)
  have "roster lp [] (H @ cs) = Some (ml_announced (b' lp)) \<and> box_ok (b' lp)" for lp
    using r [of lp] q fr inv by (simp add: queued_def framed_def mp_inv_def roster_append)
  moreover have "joins_ordered (\<lambda>_. []) (H @ cs)"
    using q inv r by (intro joins_ordered_append [of _ _ "\<lambda>lp. ml_announced (mw_box w lp)"]) (simp_all add: queued_def mp_inv_def)
  moreover have "completions lp (H @ cs) + claims lp w' \<le> (if lp < mw_next w then 1 else 0)" for lp
  proof -
    have "completions lp cs + parked lp m' \<le> parked lp m + k lp" using q by (simp add: queued_def)
    moreover have "completions lp H + claims lp w + k lp \<le> (if lp < mw_next w then 1 else 0)"
      using inv by (auto simp: mp_inv_def)
    ultimately show ?thesis using Some by (simp add: w' claims_def)
  qed
  moreover have "ptrs_ok w'" using inv fr Some by (auto simp: ptrs_ok_def mp_inv_def framed_def w' split: worker.splits)
  ultimately have "mp_inv none w' (H @ cs)"
    using inv q unfolding mp_inv_def by (auto simp: w' queued_def)
  moreover have "length (pend w) \<le> length (pend w')" using q Some by (simp add: pend_def w' queued_def)
  ultimately show ?thesis by (simp add: H')
qed

lemma run_join_cases:
  assumes "run_join d env job w = Some w'"
  obtains (fail) code where "code \<noteq> 0" "with_mp (fail_join job code) w = Some w'"
  | (joined) got where "with_mp (join_done d job got) w = Some w'"
proof -
  have "E_PF_SERVICE_MALFORMED_RESPONSE \<noteq> 0" by (simp add: mp_codes)
  with assms that broker_error_code_nonzero show thesis
    by (auto simp: run_join_def split: prod.splits if_splits Option.bind_splits option.splits)
qed

lemma run_job_advances:
  assumes j: "job_ok j" "\<And>p. job_lobby j = Some p \<Longrightarrow> p < mw_next w" and run: "run_broker_job d env j w = Some w'"
  shows "world_advances (job_budget j) w w'"
proof (cases j)
  case (Create job)
  then obtain status body where "with_mp (create_done d job status body) w = Some w'"
    using run by (auto simp: run_create_def simp del: create_done.simps split: prod.splits)
  then show ?thesis
    using Create j by (intro with_mp_advances) (auto simp del: create_done.simps intro: create_done_advances)
next
  case (Join job)
  then have "run_join d env job w = Some w'" using run by simp
  then show ?thesis
  proof (cases rule: run_join_cases)
    case (fail code)
    with Join j show ?thesis
      by (intro with_mp_advances) (auto simp del: fail_join.simps intro: fail_join_advances)
  next
    case (joined got)
    with Join j show ?thesis
      by (intro with_mp_advances) (auto simp del: join_done.simps intro: join_done_advances)
  qed
next
  case (Find job)
  then obtain code rows where "with_mp (find_done d job code rows) w = Some w'"
    using run by (auto simp: run_find_def simp del: find_done.simps split: prod.splits Option.bind_splits if_splits)
  then show ?thesis
    using Find by (intro with_mp_advances) (auto simp del: find_done.simps intro: find_done_advances)
next
  case (LeaveJob job)
  then obtain code where "with_mp (leave_done job code) w = Some w'"
    using run by (auto simp: run_leave_def simp del: leave_done.simps split: prod.splits)
  then show ?thesis
    using LeaveJob by (intro with_mp_advances) (auto simp del: leave_done.simps intro: leave_done_advances)
next
  case (PostUpdate job)
  then obtain code where "with_mp (post_done job code) w = Some w'"
    using run by (auto simp: run_post_def simp del: post_done.simps split: prod.splits)
  then show ?thesis
    using PostUpdate j by (intro with_mp_advances) (auto simp del: post_done.simps intro: post_done_advances)
qed

text \<open>
  A step of the worker is a locked section on a world that differs at most in the worker's position
  and the job it has taken, whose budget the section may use.
\<close>

definition takes :: "mp_world \<Rightarrow> mp_world \<Rightarrow> (lptr \<Rightarrow> nat) \<Rightarrow> bool" where
  "takes w w1 k \<longleftrightarrow> mw_mp w1 = mw_mp w \<and> mw_box w1 = mw_box w \<and> mw_next w1 = mw_next w \<and> ptrs_ok w1 \<and>
     ((k = none \<and> mw_jobs w1 = mw_jobs w) \<or> (\<exists>j. mw_jobs w = j # mw_jobs w1 \<and> k = job_budget j))"

lemma world_advances_refl: "world_advances none v v"
proof (cases "mw_mp v")
  case (Some m)
  then have "v = v\<lparr>mw_mp := Some m, mw_box := mw_box v\<rparr>" by simp
  with Some advances_refl show ?thesis unfolding world_advances_def by blast
qed (simp add: world_advances_def)

lemma worker_advances:
  assumes ptrs: "ptrs_ok w" and box: "\<And>lp. box_ok (mw_box w lp)" and run: "broker_thread_step d env now w = Some w'"
  shows "\<exists>w1 k. takes w w1 k \<and> world_advances k w1 w'"
proof (cases "mw_worker w")
  case Draining
  show ?thesis
  proof (cases "mw_jobs w")
    case Nil
    with Draining run ptrs have "takes w w' none" by (auto simp: broker_thread_step_def takes_def ptrs_ok_def)
    with world_advances_refl show ?thesis by blast
  next
    case (Cons j js)
    let ?w = "w\<lparr>mw_jobs := js\<rparr>"
    have "run_broker_job d env j ?w = Some w'" using run Draining Cons by (simp add: broker_thread_step_def)
    moreover have "takes w ?w (job_budget j)" using ptrs Cons by (auto simp: takes_def ptrs_ok_def)
    moreover have "job_ok j" "\<And>p. job_lobby j = Some p \<Longrightarrow> p < mw_next ?w" using ptrs Cons by (auto simp: ptrs_ok_def)
    ultimately show ?thesis using run_job_advances by blast
  qed
next
  case Drained
  have "lp < mw_next w" if "(lp, lid) \<in> set (poll_targets w)" for lp lid
    using that ptrs by (cases "mw_mp w") (auto simp: poll_targets_def ptrs_ok_def)
  with Drained run ptrs have "takes w w' none"
    by (auto simp: broker_thread_step_def takes_def ptrs_ok_def split: if_splits)
  with world_advances_refl show ?thesis by blast
next
  case (Polling ts)
  show ?thesis
  proof (cases ts)
    case Nil
    let ?w = "w\<lparr>mw_worker := Draining\<rparr>"
    have r: "with_mp (\<lambda>s. Some (service_pending_joins s)) ?w = Some w'"
      using run Polling Nil by (simp add: broker_thread_step_def)
    have "advances none {..<mw_next w} (m, mw_box w) (service_pending_joins (m, mw_box w))" if "mw_mp w = Some m" for m
      using that ptrs by (intro service_advances) (auto simp: ptrs_ok_def)
    then have "world_advances none ?w w'"
      by (intro with_mp_advances [OF r]) (auto simp del: service_pending_joins.simps)
    moreover have "takes w ?w none" using ptrs by (auto simp: takes_def ptrs_ok_def)
    ultimately show ?thesis by blast
  next
    case (Cons t ts')
    obtain lp lid where t: "t = (lp, lid)" by (cases t)
    let ?w = "w\<lparr>mw_worker := Polling ts'\<rparr>"
    have lp: "lp < mw_next w" using ptrs Polling Cons t by (simp add: ptrs_ok_def)
    obtain resp where r: "with_mp (poll_answer d lp resp) ?w = Some w'"
      using run Polling Cons by (auto simp: broker_thread_step_def poll_one_def t simp del: poll_answer.simps)
    have "world_advances none ?w w'"
      using lp box [of lp]
      by (intro with_mp_advances [OF r]) (auto simp del: poll_answer.simps intro: poll_answer_advances)
    moreover have "takes w ?w none" using ptrs Polling Cons by (auto simp: takes_def ptrs_ok_def)
    ultimately show ?thesis by blast
  qed
qed

lemma mp_inv_box: "mp_inv k w H \<Longrightarrow> box_ok (mw_box w lp)"
  by (simp add: mp_inv_def)

lemma takes_inv:
  assumes "mp_inv none w H" and "takes w w1 k"
  shows "mp_inv k w1 H \<and> pend w1 = pend w"
proof -
  have "claims lp w1 + k lp = claims lp w" for lp using assms(2) by (auto simp: takes_def claims_def)
  with assms show ?thesis by (simp add: mp_inv_def takes_def pend_def add.assoc)
qed

lemma worker_inv:
  assumes inv: "mp_inv none w (out @ pend w)" and run: "broker_thread_step d env now w = Some w'"
  shows "mp_inv none w' (out @ pend w') \<and> length (pend w) \<le> length (pend w')"
proof -
  have "ptrs_ok w" using inv by (simp add: mp_inv_def)
  from worker_advances [OF this mp_inv_box [OF inv] run] obtain w1 k where "takes w w1 k" "world_advances k w1 w'"
    by blast
  with takes_inv [OF inv] world_advances_inv [of k w1 out w'] show ?thesis by auto
qed

subsection \<open>Exports\<close>

text \<open>A step that leaves the store, the jobs and the parked joins alone and queues nothing.\<close>

lemma mp_inv_same:
  assumes "mp_inv none w H" and "mw_box w' = mw_box w" and "mw_next w' = mw_next w" and "mw_jobs w' = mw_jobs w"
    and "mw_worker w' = mw_worker w"
    and "\<And>m'. mw_mp w' = Some m' \<Longrightarrow>
      (\<exists>m. mw_mp w = Some m \<and> set (mp_lobbies m') \<subseteq> set (mp_lobbies m) \<and> mp_pending_joins m' = mp_pending_joins m) \<or>
      mp_lobbies m' = [] \<and> mp_pending_joins m' = []"
  shows "mp_inv none w' H"
proof -
  have "claims lp w' \<le> claims lp w" for lp
    using assms(4,6) by (cases "mw_mp w'") (fastforce simp: claims_def parked_def)+
  then have "completions lp H + claims lp w' + 0 \<le> (if lp < mw_next w' then 1 else 0)" for lp
    using assms(1,3) unfolding mp_inv_def by (metis (no_types, lifting) add.right_neutral add_left_mono order_trans)
  moreover have "ptrs_ok w'"
    unfolding ptrs_ok_def
  proof (intro conjI allI impI)
    fix m' assume "mw_mp w' = Some m'"
    with assms(6) [OF this] assms(1,3) show "\<forall>p \<in> set (mp_lobbies m'). p < mw_next w'"
      "\<forall>pj \<in> set (mp_pending_joins m'). pj_lobby pj < mw_next w'"
      by (auto simp: mp_inv_def ptrs_ok_def)
  qed (use assms(1-5) in \<open>auto simp: mp_inv_def ptrs_ok_def\<close>)
  ultimately show ?thesis using assms(1-3) unfolding mp_inv_def by simp
qed

text \<open>A new lobby and at most one job for it.\<close>

lemma mp_inv_push:
  assumes inv: "mp_inv none w H" and l: "ml_announced l = []" "box_ok l" and j: "job_ok j" "job_lobby j = Some (mw_next w)"
    "\<And>lp. job_budget j lp \<le> one (mw_next w) lp"
  shows "mp_inv none (enqueue_job j (push_lobby l w)) H"
proof -
  let ?w = "enqueue_job j (push_lobby l w)"
  have "roster (mw_next w) [] H = Some []" using inv by (intro roster_other) (auto simp: mp_inv_def)
  then have "roster lp [] H = Some (ml_announced (mw_box ?w lp)) \<and> box_ok (mw_box ?w lp)" for lp
    using inv l by (auto simp: enqueue_job_def push_lobby_def mp_inv_def)
  moreover have "completions lp H + claims lp ?w + 0 \<le> (if lp < mw_next ?w then 1 else 0)" for lp
  proof -
    have "claims lp ?w = claims lp w + job_budget j lp"
      by (cases "mw_mp w") (auto simp: claims_def enqueue_job_def push_lobby_def parked_def)
    moreover have "completions lp H + claims lp w \<le> (if lp < mw_next w then 1 else 0)"
      using inv unfolding mp_inv_def by (metis add.right_neutral)
    ultimately show ?thesis using j(3) [of lp] by (auto simp: enqueue_job_def push_lobby_def split: if_splits)
  qed
  moreover have "ptrs_ok ?w"
    using inv j by (auto simp: mp_inv_def ptrs_ok_def enqueue_job_def push_lobby_def less_Suc_eq)
  ultimately show ?thesis
    using inv unfolding mp_inv_def by (auto simp: enqueue_job_def push_lobby_def less_Suc_eq)
qed

text \<open>A job without a completion, after a change of one lobby that keeps its roster.\<close>

lemma mp_inv_enqueue:
  assumes inv: "mp_inv none w H" and lp: "lp < mw_next w" and l: "ml_announced l = ml_announced (mw_box w lp)" "box_ok l"
    and j: "job_ok j" "\<And>p. job_lobby j = Some p \<Longrightarrow> p < mw_next w" "job_budget j = none"
  shows "mp_inv none (enqueue_job j (w\<lparr>mw_box := (mw_box w)(lp := l)\<rparr>)) H"
proof -
  let ?w = "enqueue_job j (w\<lparr>mw_box := (mw_box w)(lp := l)\<rparr>)"
  have "claims p ?w = claims p w" for p using j(3) by (auto simp: claims_def enqueue_job_def)
  moreover have "ptrs_ok ?w" using inv j by (auto simp: mp_inv_def ptrs_ok_def enqueue_job_def)
  ultimately show ?thesis using inv l unfolding mp_inv_def by (auto simp: enqueue_job_def)
qed

lemma hm_wf_kv_list: "hm_wf (kv_list a)"
  by (auto simp: kv_list_def Let_def hm_wf_insert split: prod.split option.split intro!: hm_wf_fold)

lemma hm_wf_join_cfg: "hm_wf (join_cfg_kv c)"
  by (simp add: join_cfg_kv_def hm_wf_kv_list split: option.split)

lemma box_ok_placeholder: "box_ok (new_placeholder e m p)" "ml_announced (new_placeholder e m p) = []"
  by (simp_all add: box_ok_def lobby_wf_def member_props_wf_def member_table_ok_def new_placeholder_def)

lemma box_ok_created: "box_ok (created_lobby e m p ld sd kv)" "ml_announced (created_lobby e m p ld sd kv) = []"
proof -
  have "member_props_wf []" "member_table_ok []" by (simp_all add: member_props_wf_def member_table_ok_def)
  then show "box_ok (created_lobby e m p ld sd kv)" "ml_announced (created_lobby e m p ld sd kv) = []"
    by (simp_all add: box_ok_def lobby_wf_def created_lobby_def new_placeholder_def Let_def hm_wf_apply hm_wf_ensure
        member_props_wf_insert member_table_ok_ensure)
qed

lemma apply_data_update_keeps:
  "ml_announced (apply_data_update u l) = ml_announced l" "ml_left (apply_data_update u l) = ml_left l"
  "lobby_wf l \<Longrightarrow> lobby_wf (apply_data_update u l)"
  "ml_member_props (apply_data_update u l) = ml_member_props l"
  by (auto simp: apply_data_update_def Let_def lobby_wf_def hm_wf_apply hm_wf_drop split: prod.split option.split)

lemma apply_member_update_keeps:
  "ml_announced (fst (apply_member_update mid u l)) = ml_announced l"
  "lobby_wf l \<Longrightarrow> lobby_wf (fst (apply_member_update mid u l))"
  "member_table_ok (ml_member_props l) \<Longrightarrow> member_table_ok (ml_member_props (fst (apply_member_update mid u l)))"
  by (auto simp: apply_member_update_def Let_def lobby_wf_def hm_wf_apply hm_wf_drop hm_wf_ensure member_props_wf_entry
      member_props_wf_insert member_table_ok_ensure member_table_entry split: prod.split)

text \<open>What a step does to the queue and to the invariant.\<close>

definition step_keeps :: "mp_world \<Rightarrow> mp_world \<Rightarrow> bool" where
  "step_keeps w w' \<longleftrightarrow> (\<forall>out. mp_inv none w (out @ pend w) \<longrightarrow>
     mp_inv none w' ((out @ take (length (pend w) - length (pend w')) (pend w)) @ pend w'))"

lemma step_keeps_same:
  assumes "pend w' = pend w" and "\<And>H. mp_inv none w H \<Longrightarrow> mp_inv none w' H"
  shows "step_keeps w w'"
  using assms by (simp add: step_keeps_def)

lemma step_keeps_drain:
  assumes "pend w = taken @ pend w'" and "\<And>H. mp_inv none w H \<Longrightarrow> mp_inv none w' H"
  shows "step_keeps w w'"
  using assms by (simp add: step_keeps_def)

lemma create_keeps: "step_keeps w (snd (snd (PFMultiplayerCreateAndJoinLobby h e cfg jcfg ctx oh w)))"
proof (cases "mp_ready h w")
  case True
  show ?thesis
  proof (rule step_keeps_same)
    show "pend (snd (snd (PFMultiplayerCreateAndJoinLobby h e cfg jcfg ctx oh w))) = pend w"
      using True by (cases "mw_mp w") (simp_all add: PFMultiplayerCreateAndJoinLobby_def Let_def pend_def enqueue_job_def push_lobby_def)
    show "mp_inv none w H \<Longrightarrow> mp_inv none (snd (snd (PFMultiplayerCreateAndJoinLobby h e cfg jcfg ctx oh w))) H" for H
      using True
      by (auto simp: PFMultiplayerCreateAndJoinLobby_def Let_def box_ok_created hm_wf_kv_list split: option.split
          intro!: mp_inv_push)
  qed
qed (auto simp: PFMultiplayerCreateAndJoinLobby_def intro: step_keeps_same)

lemma join_keeps: "step_keeps w (snd (snd (PFMultiplayerJoinLobby h e conn jcfg ctx oh w)))"
proof (cases "mp_ready h w")
  case True
  show ?thesis
  proof (rule step_keeps_same)
    show "pend (snd (snd (PFMultiplayerJoinLobby h e conn jcfg ctx oh w))) = pend w"
      using True by (cases "mw_mp w") (simp_all add: PFMultiplayerJoinLobby_def Let_def pend_def enqueue_job_def push_lobby_def)
    show "mp_inv none w H \<Longrightarrow> mp_inv none (snd (snd (PFMultiplayerJoinLobby h e conn jcfg ctx oh w))) H" for H
      using True by (auto simp: PFMultiplayerJoinLobby_def Let_def box_ok_placeholder intro!: mp_inv_push)
  qed
qed (auto simp: PFMultiplayerJoinLobby_def intro: step_keeps_same)

lemma find_keeps: "step_keeps w (snd (PFMultiplayerFindLobbies h e scfg ctx w))"
proof (rule step_keeps_same)
  show "pend (snd (PFMultiplayerFindLobbies h e scfg ctx w)) = pend w"
    by (simp add: PFMultiplayerFindLobbies_def pend_def enqueue_job_def)
  fix H assume inv: "mp_inv none w H"
  have "mp_inv none (enqueue_job (Find j) w) H" for j
    using mp_inv_enqueue [OF inv, of 0 "mw_box w 0" "Find j"] inv by (simp add: mp_inv_def)
  with inv show "mp_inv none (snd (PFMultiplayerFindLobbies h e scfg ctx w)) H"
    by (simp add: PFMultiplayerFindLobbies_def)
qed

lemma apply_post_keeps:
  "ml_announced (fst (apply_post mid u mu l)) = ml_announced l" "box_ok l \<Longrightarrow> box_ok (fst (apply_post mid u mu l))"
  by (auto simp: apply_post_def box_ok_def apply_data_update_keeps apply_member_update_keeps Let_def split: option.split)

lemma post_keeps: "lp < mw_next w \<Longrightarrow> step_keeps w (snd (PFLobbyPostUpdate lp e u mu ctx w))"
proof (rule step_keeps_same)
  obtain l2 mt md where r: "apply_post (entity_id_of w e) u mu (mw_box w lp) = (l2, mt, md)" by (rule prod_cases3)
  show "pend (snd (PFLobbyPostUpdate lp e u mu ctx w)) = pend w"
    by (simp add: PFLobbyPostUpdate_def pend_def enqueue_job_def Let_def r)
  fix H assume lp: "lp < mw_next w" and inv: "mp_inv none w H"
  have l2: "ml_announced l2 = ml_announced (mw_box w lp)" "box_ok l2"
    using apply_post_keeps [where mid = "entity_id_of w e" and u = u and mu = mu and l = "mw_box w lp"] mp_inv_box [OF inv, of lp] by (simp_all add: r)
  have "mp_inv none (enqueue_job (PostUpdate j) (w\<lparr>mw_box := (mw_box w)(lp := l2)\<rparr>)) H" if "pj_post_lobby j = lp" for j
    using that lp by (intro mp_inv_enqueue [OF inv lp l2]) auto
  with inv show "mp_inv none (snd (PFLobbyPostUpdate lp e u mu ctx w)) H"
    by (simp add: PFLobbyPostUpdate_def Let_def r)
qed

lemma mp_leave_keeps: "lp < mw_next w \<Longrightarrow> step_keeps w (snd (PFLobbyLeave lp w))"
proof (rule step_keeps_same)
  show "pend (snd (PFLobbyLeave lp w)) = pend w"
    by (cases "mw_mp w") (auto simp: PFLobbyLeave_def pend_def enqueue_job_def Let_def drop_lobby_def)
  fix H assume lp: "lp < mw_next w" and inv: "mp_inv none w H"
  let ?w = "w\<lparr>mw_mp := map_option (drop_lobby lp) (mw_mp w)\<rparr>" and ?l = "(mw_box w lp)\<lparr>ml_left := True\<rparr>"
  have inv': "mp_inv none ?w H" by (rule mp_inv_same [OF inv]) (auto simp: drop_lobby_def)
  have "box_ok ?l" using mp_inv_box [OF inv, of lp] by (auto simp: box_ok_def cong: lobby_wf_cong)
  then have "mp_inv none (enqueue_job (LeaveJob j) (?w\<lparr>mw_box := (mw_box ?w)(lp := ?l)\<rparr>)) H" if "lj_lobby j = lp" for j
    using that lp by (intro mp_inv_enqueue [OF inv']) auto
  with inv show "mp_inv none (snd (PFLobbyLeave lp w)) H" by (auto simp: PFLobbyLeave_def Let_def)
qed

lemma fill_batch_all: "fill_batch ps fl = ([], fl @ ps)"
  by (induction ps fl rule: fill_batch.induct) (simp_all add: MP_BATCH_CAP_ENABLED_def)

lemma mp_start_keeps: "step_keeps w (snd (snd (PFMultiplayerStartProcessingLobbyStateChanges h oh w)))"
proof -
  let ?w = "snd (snd (PFMultiplayerStartProcessingLobbyStateChanges h oh w))"
  have "\<exists>taken. pend w = taken @ pend ?w"
    by (cases "mw_mp w") (auto simp: PFMultiplayerStartProcessingLobbyStateChanges_def pend_def start_changes_def fill_batch_all)
  then obtain taken where "pend w = taken @ pend ?w" by blast
  then show ?thesis
  proof (rule step_keeps_drain)
    show "mp_inv none w H \<Longrightarrow> mp_inv none ?w H" for H
      by (erule mp_inv_same) (auto simp: PFMultiplayerStartProcessingLobbyStateChanges_def start_changes_def fill_batch_all split: if_splits option.splits)
  qed
qed

lemma mp_step_keeps: "mp_step w w' \<Longrightarrow> step_keeps w w'"
proof (induction rule: mp_step.induct)
  case (worker d env now w w')
  then show ?case using worker_inv [OF _ worker] by (simp add: step_keeps_def)
next
  case (initialize w h)
  show ?case
  proof (rule step_keeps_same)
    show "pend (snd (PFMultiplayerInitialize h w)) = pend w"
      by (auto simp: PFMultiplayerInitialize_def pend_def new_instance_def)
    show "mp_inv none w H \<Longrightarrow> mp_inv none (snd (PFMultiplayerInitialize h w)) H" for H
      by (erule mp_inv_same) (auto simp: PFMultiplayerInitialize_def new_instance_def split: if_splits)
  qed
next
  case (uninitialize w h)
  show ?case
  proof (cases "mp_ready h w")
    case True
    then have "pend w = pend w @ pend (snd (PFMultiplayerUninitialize h w))"
      by (simp add: PFMultiplayerUninitialize_def pend_def)
    then show ?thesis
    proof (rule step_keeps_drain)
      show "mp_inv none w H \<Longrightarrow> mp_inv none (snd (PFMultiplayerUninitialize h w)) H" for H
        by (erule mp_inv_same) (auto simp: PFMultiplayerUninitialize_def split: if_splits)
    qed
  qed (auto simp: PFMultiplayerUninitialize_def intro: step_keeps_same)
next
  case (token w h e t)
  show ?case
  proof (rule step_keeps_same)
    show "pend (snd (PFMultiplayerSetEntityToken h e t w)) = pend w"
      by (auto simp: PFMultiplayerSetEntityToken_def pend_def set_local_identity_def Let_def split: option.split)
    show "mp_inv none w H \<Longrightarrow> mp_inv none (snd (PFMultiplayerSetEntityToken h e t w)) H" for H
      by (erule mp_inv_same) (auto simp: PFMultiplayerSetEntityToken_def set_local_identity_def Let_def split: option.splits if_splits)
  qed
next
  case (finish w h count same)
  show ?case
  proof (rule step_keeps_same)
    show "pend (snd (PFMultiplayerFinishProcessingLobbyStateChanges h count same w)) = pend w"
      by (auto simp: PFMultiplayerFinishProcessingLobbyStateChanges_def pend_def finish_changes_def split: option.split)
    show "mp_inv none w H \<Longrightarrow> mp_inv none (snd (PFMultiplayerFinishProcessingLobbyStateChanges h count same w)) H" for H
      by (erule mp_inv_same) (auto simp: PFMultiplayerFinishProcessingLobbyStateChanges_def finish_changes_def split: if_splits)
  qed
next
  case (kick w e)
  show ?case by (auto simp: PFLobbyForceRemoveMember_def split: option.split intro: step_keeps_same)
qed (simp_all add: create_keeps join_keeps find_keeps mp_start_keeps post_keeps mp_leave_keeps)

lemma boot_inv: "mp_inv none boot_world []"
  by (auto simp: mp_inv_def boot_world_def box_ok_placeholder claims_def ptrs_ok_def joins_ordered_no_join)

lemma mp_run_inv: "mp_run w out \<Longrightarrow> mp_inv none w (out @ pend w)"
proof (induction rule: mp_run.induct)
  case boot
  show ?case using boot_inv by (simp add: pend_def boot_world_def)
next
  case (step w out w')
  then show ?case using mp_step_keeps by (simp add: step_keeps_def)
qed

section \<open>The changes of a lobby\<close>

text \<open>
  C5: in every state a process of the multiplayer shim reaches by any interleaving of exports
  and worker steps with any broker answers, the member events the title has been handed or
  will be handed for a lobby add only absent and remove only announced members and end with
  the announced set, a lobby handle gets at most one create or join completion, and a
  successful join completion comes right after an update with the membership-lock flag, with
  the joiner announced before.
\<close>

theorem lobby_history:
  assumes "mp_run w out"
  shows "roster lp [] (out @ pend w) = Some (ml_announced (mw_box w lp)) \<and> distinct (ml_announced (mw_box w lp)) \<and>
    completions lp (out @ pend w) \<le> 1 \<and>
    (\<forall>A j B. out @ pend w = A @ JoinLobbyCompleted 0 j lp # B \<longrightarrow>
       (\<exists>A' dl S. A = A' @ [LobbyUpdated lp dl] \<and> ld_membership_lock_updated dl \<and>
          roster lp [] A' = Some S \<and> mp_read_cstr j \<in> set S \<union> {[], ''owner''}))"
proof -
  have inv: "mp_inv none w (out @ pend w)" by (rule mp_run_inv [OF assms])
  then have "completions lp (out @ pend w) + claims lp w + 0 \<le> (if lp < mw_next w then 1 else 0)"
    unfolding mp_inv_def by blast
  then have "completions lp (out @ pend w) \<le> 1" by (simp split: if_splits)
  with inv show ?thesis
    unfolding mp_inv_def joins_ordered_def announced_join_def by (simp add: box_ok_def)
qed

text \<open>A join that the broker does not answer.\<close>

definition refused_join_world :: mp_world where
  "refused_join_world = snd (snd (PFMultiplayerJoinLobby True None None None 0 True
     (snd (PFMultiplayerInitialize True boot_world))))"

lemma refused_join_run: "mp_run refused_join_world []" and refused_join_pend: "pend refused_join_world = []"
proof -
  have s: "pend refused_join_world = []" "pend boot_world = []" "pend (snd (PFMultiplayerInitialize True boot_world)) = []"
    by (simp_all add: refused_join_world_def pend_def PFMultiplayerInitialize_def PFMultiplayerJoinLobby_def boot_world_def
        mp_ready_def new_instance_def Let_def enqueue_job_def push_lobby_def)
  then show "pend refused_join_world = []" by simp
  have "mp_run (snd (PFMultiplayerInitialize True boot_world)) []"
    using mp_run.step [OF mp_run.boot mp_step.initialize [of boot_world True]] s by simp
  from mp_run.step [OF this mp_step.join [of _ True None None None 0 True]] s show "mp_run refused_join_world []"
    by (simp add: refused_join_world_def)
qed

lemma refused_join_step:
  "\<exists>w'. broker_thread_step 0 (\<lambda>_ _ _ _ _. None) 0 refused_join_world = Some w' \<and>
     pend w' = [JoinLobbyCompleted E_PF_SERVICE_UNEXPECTED (Some ''lan-user'') 1] \<and> mp_run w' []"
proof -
  obtain w' where w': "broker_thread_step 0 (\<lambda>_ _ _ _ _. None) 0 refused_join_world = Some w'"
    "pend w' = [JoinLobbyCompleted E_PF_SERVICE_UNEXPECTED (Some ''lan-user'') 1]"
    by (simp add: refused_join_world_def pend_def PFMultiplayerInitialize_def PFMultiplayerJoinLobby_def boot_world_def
        mp_ready_def new_instance_def Let_def enqueue_job_def push_lobby_def broker_thread_step_def run_join_def
        http_json_status_def with_mp_def current_generation_def broker_error_code_def mp_queue_def drop_lobby_def
        intern_entity_def mp_intern_def cstring_new_def mp_codes)
  with mp_run.step [OF refused_join_run mp_step.worker [OF w'(1)]] refused_join_pend show ?thesis by auto
qed

theorem lobby_history_witness:
  "\<exists>w out. roster 1 [] (out @ pend w) = Some (ml_announced (mw_box w 1)) \<and> completions 1 (out @ pend w) = 1"
proof -
  obtain w' where w': "pend w' = [JoinLobbyCompleted E_PF_SERVICE_UNEXPECTED (Some ''lan-user'') 1]" "mp_run w' []"
    using refused_join_step by blast
  with lobby_history [OF w'(2), of 1] show ?thesis by (intro exI [of _ w'] exI [of _ "[]"]) simp
qed

end
