(* ===== verification/Mp_Props.thy ===== *)
theory Mp_Props
  imports Mp_Inv
begin

text \<open>
  Properties of the PlayFab multiplayer shim: when joins complete and when they never do, what a
  poll reports, which member properties the title can read, and the bounds of search results.
\<close>

section \<open>Lobbies that were left\<close>

text \<open>A lobby handle that was left, is not ready for guests and has no create or join call outstanding.\<close>

definition no_claim :: "lptr \<Rightarrow> mp_world \<Rightarrow> bool" where
  "no_claim lp w \<longleftrightarrow> (\<forall>j \<in> set (mw_jobs w). job_budget j lp = 0)"

definition stranded :: "lptr \<Rightarrow> mp_world \<Rightarrow> bool" where
  "stranded lp w \<longleftrightarrow> lp < mw_next w \<and> ml_left (mw_box w lp) \<and> \<not> lobby_ready_for_guest (mw_box w lp) \<and> no_claim lp w"

lemma stranded_worker:
  assumes inv: "mp_inv none w H" and st: "stranded lp w" and run: "broker_thread_step d env now w = Some w'"
  shows "stranded lp w' \<and> (\<exists>cs. pend w' = pend w @ cs \<and> completions lp cs = 0)"
proof -
  have "ptrs_ok w" using inv by (simp add: mp_inv_def)
  from worker_advances [OF this mp_inv_box [OF inv] run] obtain w1 k
    where t: "takes w w1 k" and a: "world_advances k w1 w'" by blast
  have k: "k lp = 0" "no_claim lp w1" using t st by (auto simp: takes_def stranded_def no_claim_def)
  have st1: "stranded lp w1" "pend w1 = pend w" using t st k by (simp_all add: takes_def stranded_def pend_def)
  show ?thesis
  proof (cases "mw_mp w1")
    case None
    with a st1 show ?thesis by (simp add: world_advances_def)
  next
    case (Some m)
    then obtain m' b' where w': "w' = w1\<lparr>mw_mp := Some m', mw_box := b'\<rparr>"
      and adv: "advances k {..<mw_next w1} (m, mw_box w1) (m', b')"
      using a by (auto simp: world_advances_def)
    then obtain cs where q: "queued k {..<mw_next w1} (m, mw_box w1) (m', b') cs"
      and fr: "framed {..<mw_next w1} (m, mw_box w1) (m', b')"
      by (auto simp: advances_def)
    have left: "ml_left (b' lp)" "ml_props (b' lp) = ml_props (mw_box w1 lp)"
      using fr st1 by (simp_all add: framed_def stranded_def)
    then have "stranded lp w'" using st1 ready_cong [OF left(2)] by (simp add: w' stranded_def no_claim_def)
    moreover have "completions lp cs \<le> k lp" using q st1(1) unfolding queued_def stranded_def snd_conv by blast
    then have "completions lp cs = 0" using k(1) by simp
    moreover have "pend w' = pend w @ cs" using q st1(2) Some by (simp add: w' pend_def queued_def)
    ultimately show ?thesis by blast
  qed
qed

lemma stranded_cong:
  assumes "stranded lp w" and "ml_left (mw_box w' lp)" and "ml_props (mw_box w' lp) = ml_props (mw_box w lp)"
    and "mw_next w \<le> mw_next w'" and "no_claim lp w'"
  shows "stranded lp w'"
  using assms ready_cong [OF assms(3)] by (simp add: stranded_def)

lemma stranded_step:
  assumes "mp_step w w'" and "mp_inv none w H" and "stranded lp w"
  shows "stranded lp w' \<and>
    ((\<exists>cs. pend w' = pend w @ cs \<and> completions lp cs = 0) \<or> (\<exists>taken. pend w = taken @ pend w'))"
  using assms
proof (induction rule: mp_step.induct)
  case (worker d env now w w')
  then show ?case using stranded_worker by blast
next
  case (create w h e cfg jcfg ctx oh)
  have "pend (snd (snd (PFMultiplayerCreateAndJoinLobby h e cfg jcfg ctx oh w))) = pend w"
    by (cases "mw_mp w") (simp_all add: PFMultiplayerCreateAndJoinLobby_def Let_def pend_def enqueue_job_def push_lobby_def)
  with create show ?case
    by (auto simp: PFMultiplayerCreateAndJoinLobby_def Let_def enqueue_job_def push_lobby_def no_claim_def stranded_def
        intro!: stranded_cong)
next
  case (join w h e conn jcfg ctx oh)
  have "pend (snd (snd (PFMultiplayerJoinLobby h e conn jcfg ctx oh w))) = pend w"
    by (cases "mw_mp w") (simp_all add: PFMultiplayerJoinLobby_def Let_def pend_def enqueue_job_def push_lobby_def)
  with join show ?case
    by (auto simp: PFMultiplayerJoinLobby_def Let_def enqueue_job_def push_lobby_def no_claim_def stranded_def
        intro!: stranded_cong)
next
  case (post p w e u mu ctx)
  then show ?case
    by (cases "apply_post (entity_id_of w e) u mu (mw_box w p)")
      (auto simp: PFLobbyPostUpdate_def Let_def enqueue_job_def no_claim_def stranded_def pend_def)
next
  case (leave p w)
  have "pend (snd (PFLobbyLeave p w)) = pend w"
    by (cases "mw_mp w") (auto simp: PFLobbyLeave_def pend_def enqueue_job_def Let_def drop_lobby_def)
  moreover have "stranded lp (snd (PFLobbyLeave p w))"
    by (rule stranded_cong [OF leave(3)])
      (use leave in \<open>auto simp: PFLobbyLeave_def Let_def enqueue_job_def no_claim_def stranded_def\<close>)
  ultimately show ?case by simp
next
  case (start w h oh)
  then show ?case
    by (cases "mw_mp w") (auto simp: PFMultiplayerStartProcessingLobbyStateChanges_def stranded_def no_claim_def pend_def
        start_changes_def fill_batch_all)
qed (auto simp: PFMultiplayerInitialize_def PFMultiplayerUninitialize_def PFMultiplayerSetEntityToken_def
    PFMultiplayerFindLobbies_def PFMultiplayerFinishProcessingLobbyStateChanges_def PFLobbyForceRemoveMember_def
    stranded_def no_claim_def pend_def enqueue_job_def set_local_identity_def new_instance_def finish_changes_def Let_def
    split: option.splits if_splits)

text \<open>\<open>mp_later (w, out) (w', out')\<close>: a run that has reached \<open>w\<close> goes on to \<open>w'\<close>.\<close>

inductive mp_later :: "mp_world \<times> mp_change list \<Rightarrow> mp_world \<times> mp_change list \<Rightarrow> bool" where
  refl: "mp_later s s"
| step: "mp_later s (w, out) \<Longrightarrow> mp_step w w' \<Longrightarrow>
    mp_later s (w', out @ take (length (pend w) - length (pend w')) (pend w))"

lemma mp_later_run: "mp_later s s' \<Longrightarrow> mp_run (fst s) (snd s) \<Longrightarrow> mp_run (fst s') (snd s')"
  by (induction rule: mp_later.induct) (auto intro: mp_run.step)


lemma stranded_later:
  assumes "mp_later s s'" and "mp_run (fst s) (snd s)" and "stranded lp (fst s)"
  shows "stranded lp (fst s') \<and> completions lp (snd s' @ pend (fst s')) = completions lp (snd s @ pend (fst s))"
  using assms
proof (induction rule: mp_later.induct)
  case (step s w out w')
  have run: "mp_run w out" using mp_later_run [OF step.hyps(1)] step.prems by simp
  have st: "stranded lp w" "completions lp (out @ pend w) = completions lp (snd s @ pend (fst s))"
    using step.IH step.prems by simp_all
  from stranded_step [OF step.hyps(2) mp_run_inv [OF run] st(1)] st(2) show ?case by auto
qed simp

lemma parked_no_claim:
  assumes "mp_inv none w H" and "mw_mp w = Some m" and "pj \<in> set (mp_pending_joins m)"
  shows "completions (pj_lobby pj) H = 0 \<and> no_claim (pj_lobby pj) w \<and> pj_lobby pj < mw_next w"
proof -
  let ?lp = "pj_lobby pj"
  have "filter (\<lambda>p. pj_lobby p = ?lp) (mp_pending_joins m) \<noteq> []" using assms(3) by (auto simp: filter_empty_conv)
  then have p: "0 < parked ?lp m" by (simp add: parked_def)
  have n: "?lp < mw_next w" using assms by (auto simp: mp_inv_def ptrs_ok_def)
  have "completions ?lp H + claims ?lp w + 0 \<le> (if ?lp < mw_next w then 1 else 0)"
    using assms(1) unfolding mp_inv_def by blast
  then have "completions ?lp H + claims ?lp w \<le> 1" by (simp only: n if_True add_0_right)
  moreover have "claims ?lp w = sum_list (map (\<lambda>j. job_budget j ?lp) (mw_jobs w)) + parked ?lp m"
    using assms(2) by (simp add: claims_def)
  ultimately have "completions ?lp H = 0 \<and> sum_list (map (\<lambda>j. job_budget j ?lp) (mw_jobs w)) = 0"
    using p by linarith
  with n show ?thesis by (auto simp: no_claim_def)
qed

text \<open>The answer to a poll that finds the lobby gone.\<close>

lemma gone_step:
  assumes "mw_mp w = Some m" and "lp \<in> set (mp_lobbies m)" and "\<not> nothing_to_poll (mw_box w lp)"
    and "mw_worker w = Polling ((lp, lid) # ts)"
    and "env 0 (entity_token_header (mw_auth w)) ''POST'' ''/Lobby/GetLobby'' (get_lobby_body lid) = Some (status, body)"
    and "status \<noteq> 200"
  shows "broker_thread_step d env now w = Some (w\<lparr>mw_worker := Polling ts,
    mw_mp := Some (drop_lobby lp (mp_queue (LobbyDisconnected lp) m)),
    mw_box := upd_lobby lp (\<lambda>l. l\<lparr>ml_left := True\<rparr>) (mw_box w)\<rparr>)"
  using assms by (simp add: broker_thread_step_def poll_one_def http_json_status_def with_mp_def apply_refresh_def)

text \<open>
  C39: when the poll is answered with another status than 200 while a join of the lobby is
  parked, the title gets LobbyDisconnected and in no continuation of the run does the join
  complete.
\<close>

theorem parked_join_stranded:
  assumes "mp_run w out" and "mw_mp w = Some m" and "pj \<in> set (mp_pending_joins m)"
    and "pj_lobby pj \<in> set (mp_lobbies m)" and "\<not> nothing_to_poll (mw_box w (pj_lobby pj))"
    and "\<not> lobby_ready_for_guest (mw_box w (pj_lobby pj))" and "mw_worker w = Polling ((pj_lobby pj, lid) # ts)"
    and "env 0 (entity_token_header (mw_auth w)) ''POST'' ''/Lobby/GetLobby'' (get_lobby_body lid) = Some (status, body)"
    and "status \<noteq> 200"
  shows "\<exists>w1. broker_thread_step d env now w = Some w1 \<and> mp_run w1 out \<and>
    pend w1 = pend w @ [LobbyDisconnected (pj_lobby pj)] \<and>
    (\<forall>w' out'. mp_later (w1, out) (w', out') \<longrightarrow> completions (pj_lobby pj) (out' @ pend w') = 0)"
proof -
  let ?lp = "pj_lobby pj"
  let ?w1 = "w\<lparr>mw_worker := Polling ts, mw_mp := Some (drop_lobby ?lp (mp_queue (LobbyDisconnected ?lp) m)),
    mw_box := upd_lobby ?lp (\<lambda>l. l\<lparr>ml_left := True\<rparr>) (mw_box w)\<rparr>"
  have step: "broker_thread_step d env now w = Some ?w1" by (rule gone_step) (rule assms)+
  have p: "pend ?w1 = pend w @ [LobbyDisconnected ?lp]"
    using assms(2) by (simp add: pend_def drop_lobby_def mp_queue_def)
  have run: "mp_run ?w1 out" using mp_run.step [OF assms(1) mp_step.worker [OF step]] p by simp
  have c: "completions ?lp (out @ pend w) = 0" "no_claim ?lp w" "?lp < mw_next w"
    using parked_no_claim [OF mp_run_inv [OF assms(1)] assms(2,3)] by simp_all
  have "lobby_ready_for_guest (mw_box ?w1 ?lp) = lobby_ready_for_guest (mw_box w ?lp)" by (rule ready_cong) simp
  then have "stranded ?lp ?w1" using assms(6) c by (simp add: stranded_def no_claim_def)
  then have "completions ?lp (out' @ pend w') = 0" if "mp_later (?w1, out) (w', out')" for w' out'
    using stranded_later [OF that] run c(1) unfolding fst_conv snd_conv p by simp
  with step run p show ?thesis by blast
qed

lemma missing_field:
  assumes "find_value_start key blob = None"
  shows "jstr_field d blob key = Some None" "ju32_field d blob key = Some None"
    "jobj_field d blob key = Some []" "jarr_field d blob key = Some []"
  using assms by (simp_all add: jstr_field_def ju32_field_def jobj_field_def jarr_field_def json_str_field_def
      json_u32_field_def json_obj_def json_arr_objects_def span_def)

text \<open>An answer that names a lobby and nothing else.\<close>

definition bare_lobby :: string where
  "bare_lobby = object_text [(''LobbyId'', ''a'')]"

lemma bare_lobby_missing: "key \<noteq> ''LobbyId'' \<Longrightarrow> find_value_start key bare_lobby = None"
proof -
  assume "key \<noteq> ''LobbyId''"
  moreover have "\<forall>(k, v) \<in> set [(''LobbyId'', ''a'')]. utf8_valid k \<and> utf8_valid v"
    by (simp add: utf8_valid_ascii is_ascii_def)
  from find_members [OF this, of key] have "map_of [(''LobbyId'', ''a'')] key = None \<Longrightarrow>
      find_value_start key (members_text [(''LobbyId'', ''a'')]) = None" by simp
  ultimately show ?thesis by (simp add: bare_lobby_def object_text_def find_plain)
qed

lemma bare_lobby_id: "jstr_field 4 bare_lobby ''LobbyId'' = Some (Some ''a'')"
  by code_simp

lemma bare_lobby_read:
  "\<exists>l. lobby_from_json 4 bare_lobby = Some (Some l) \<and> ml_id l = ''a'' \<and> ml_props l = [] \<and> ml_members l = [] \<and>
     ml_owner l = member_key ''owner''"
  by (simp add: lobby_from_json_def bare_lobby_id bare_lobby_missing missing_field json_max_players_def scan_or_def
      cstring_new_def mp_apply_props_def)

text \<open>A process that has asked to join, whose worker has been answered and is about to poll.\<close>

definition bare_env :: "u16 \<Rightarrow> http_env" where
  "bare_env status = (\<lambda>_ _ _ _ _. Some (status, bare_lobby))"

lemma utf8_lossy_a: "utf8_lossy ''a'' = ''a''"
  by (rule utf8_lossy_valid [OF utf8_valid_ascii]) (simp add: is_ascii_def)

lemma parked_run:
  "\<exists>w m pj. mp_run w [] \<and> mw_mp w = Some m \<and> pj \<in> set (mp_pending_joins m) \<and> pj_lobby pj = 1 \<and> \<not> pj_emitted pj \<and>
     1 \<in> set (mp_lobbies m) \<and> \<not> nothing_to_poll (mw_box w 1) \<and> \<not> lobby_ready_for_guest (mw_box w 1) \<and>
     mw_worker w = Polling [(1, ''a'')]"
proof -
  obtain l where l: "lobby_from_json 4 bare_lobby = Some (Some l)" "ml_id l = ''a''" "ml_props l = []"
    using bare_lobby_read by blast
  define w2 where "w2 = the (broker_thread_step 4 (bare_env 200) 0 refused_join_world)"
  have s2: "broker_thread_step 4 (bare_env 200) 0 refused_join_world = Some w2"
    "\<exists>m pj. mw_mp w2 = Some m \<and> mp_pending_joins m = [pj] \<and> pj_lobby pj = 1 \<and> \<not> pj_emitted pj \<and> mp_lobbies m = [1] \<and> mp_pending m = []"
    "\<not> nothing_to_poll (mw_box w2 1)" "\<not> lobby_ready_for_guest (mw_box w2 1)"
    "ml_id (mw_box w2 1) = ''a''" "mw_worker w2 = Draining" "mw_jobs w2 = []" "mw_next_poll w2 = 0"
    by (simp_all add: w2_def refused_join_world_def PFMultiplayerInitialize_def PFMultiplayerJoinLobby_def boot_world_def
        mp_ready_def new_instance_def Let_def enqueue_job_def push_lobby_def broker_thread_step_def run_join_def
        http_json_status_def with_mp_def current_generation_def bare_env_def bare_lobby_id apply_join_response_def l
        move_lobby_into_def lobby_ready_for_guest_def nothing_to_poll_def new_placeholder_def)
  then obtain m pj where m: "mw_mp w2 = Some m" "mp_pending_joins m = [pj]" "pj_lobby pj = 1" "\<not> pj_emitted pj" "mp_lobbies m = [1]"
    "mp_pending m = []" by blast
  let ?w3 = "w2\<lparr>mw_worker := Drained\<rparr>"
  let ?w4 = "?w3\<lparr>mw_worker := Polling (poll_targets ?w3), mw_next_poll := BROKER_POLL_MS\<rparr>"
  have "mp_run w2 []" using mp_run.step [OF refused_join_run mp_step.worker [OF s2(1)]] refused_join_pend m by (simp add: pend_def)
  moreover have "broker_thread_step 4 (bare_env 200) 0 w2 = Some ?w3" using s2 by (simp add: broker_thread_step_def)
  ultimately have "mp_run ?w3 []" using mp_run.step [OF _ mp_step.worker] m by (fastforce simp: pend_def)
  moreover have "broker_thread_step 4 (bare_env 200) 0 ?w3 = Some ?w4" using s2 by (simp add: broker_thread_step_def)
  ultimately have run: "mp_run ?w4 []" using mp_run.step [OF _ mp_step.worker] m by (fastforce simp: pend_def)
  have "poll_targets ?w3 = [(1, ''a'')]" using s2 m by (simp add: poll_targets_def utf8_lossy_a)
  then show ?thesis using run s2 m by (intro exI [of _ ?w4] exI [of _ m] exI [of _ pj]) simp
qed

theorem parked_join_stranded_witness:
  "\<exists>w w1 m pj. mp_run w [] \<and> mw_mp w = Some m \<and> pj \<in> set (mp_pending_joins m) \<and> pj_lobby pj = 1 \<and>
     broker_thread_step 4 (bare_env 404) 0 w = Some w1 \<and>
     pend w1 = pend w @ [LobbyDisconnected 1] \<and>
     (\<forall>w' out'. mp_later (w1, []) (w', out') \<longrightarrow> completions 1 (out' @ pend w') = 0)"
proof -
  obtain w m pj where w: "mp_run w []" "mw_mp w = Some m" "pj \<in> set (mp_pending_joins m)" "pj_lobby pj = 1"
    "1 \<in> set (mp_lobbies m)" "\<not> nothing_to_poll (mw_box w 1)" "\<not> lobby_ready_for_guest (mw_box w 1)"
    "mw_worker w = Polling [(1, ''a'')]"
    using parked_run by blast
  have "\<exists>w1. broker_thread_step 4 (bare_env 404) 0 w = Some w1 \<and> mp_run w1 [] \<and>
      pend w1 = pend w @ [LobbyDisconnected (pj_lobby pj)] \<and>
      (\<forall>w' out'. mp_later (w1, []) (w', out') \<longrightarrow> completions (pj_lobby pj) (out' @ pend w') = 0)"
    by (rule parked_join_stranded [where lid = "''a''" and ts = "[]" and status = 404 and body = bare_lobby])
      (use w in \<open>simp_all add: bare_env_def\<close>)
  then obtain w1 where "broker_thread_step 4 (bare_env 404) 0 w = Some w1" "pend w1 = pend w @ [LobbyDisconnected 1]"
    "\<forall>w' out'. mp_later (w1, []) (w', out') \<longrightarrow> completions 1 (out' @ pend w') = 0"
    by (auto simp: w(4))
  with w(1-4) show ?thesis by blast
qed

section \<open>Polling an unchanged lobby\<close>

text \<open>What announcing, removing and updating do to the box of the lobby.\<close>

abbreviation unlisted :: "string set" where "unlisted \<equiv> {[], ''owner''}"

lemma emit_member_added_box:
  "\<exists>A. snd (emit_member_added lp e s) = (snd s)(lp := (snd s lp)\<lparr>ml_announced := A\<rparr>) \<and>
     set A = set (ml_announced (snd s lp)) \<union> ({key_id e} - unlisted)"
proof (cases "key_id e \<in> set (ml_announced (snd s lp)) \<union> unlisted")
  case True
  then show ?thesis
    by (cases s) (intro exI [of _ "ml_announced (snd s lp)"], auto simp: Let_def fun_eq_iff)
next
  case False
  then show ?thesis
    by (cases s) (intro exI [of _ "ml_announced (snd s lp) @ [key_id e]"], auto simp: Let_def)
qed

lemma announce_fold_box:
  "\<exists>A. snd (fold (emit_member_added lp) es s) = (snd s)(lp := (snd s lp)\<lparr>ml_announced := A\<rparr>) \<and>
     set A = set (ml_announced (snd s lp)) \<union> (key_id ` set es - unlisted)"
proof (induction es arbitrary: s)
  case Nil
  show ?case by (intro exI [of _ "ml_announced (snd s lp)"]) (simp add: fun_eq_iff)
next
  case (Cons e es)
  obtain A where A: "snd (emit_member_added lp e s) = (snd s)(lp := (snd s lp)\<lparr>ml_announced := A\<rparr>)"
    "set A = set (ml_announced (snd s lp)) \<union> ({key_id e} - unlisted)"
    using emit_member_added_box by blast
  let ?s = "emit_member_added lp e s"
  from Cons [of ?s] obtain B where
    B: "snd (fold (emit_member_added lp) es ?s) = (snd ?s)(lp := (snd ?s lp)\<lparr>ml_announced := B\<rparr>)"
    "set B = set (ml_announced (snd ?s lp)) \<union> (key_id ` set es - unlisted)"
    by blast
  then have "snd (fold (emit_member_added lp) (e # es) s) = (snd s)(lp := (snd s lp)\<lparr>ml_announced := B\<rparr>)"
    by (simp add: A(1) fun_eq_iff)
  moreover have "set B = set A \<union> (key_id ` set es - unlisted)" using B(2) by (simp add: A(1))
  ultimately show ?case using A(2) by (intro exI [of _ B]) auto
qed

lemma announce_box:
  "\<exists>A. snd (announce_lobby_members lp s) = (snd s)(lp := (snd s lp)\<lparr>ml_announced := A\<rparr>) \<and>
     set A = set (ml_announced (snd s lp)) \<union> (key_id ` set (ml_owner (snd s lp) # ml_members (snd s lp)) - unlisted)"
proof -
  have "announce_lobby_members lp s = fold (emit_member_added lp) (ml_owner (snd s lp) # ml_members (snd s lp)) s"
    by (simp add: announce_lobby_members_def)
  with announce_fold_box show ?thesis by metis
qed

lemma emit_added_known:
  "key_id e \<in> set (ml_announced (snd s lp)) \<union> unlisted \<Longrightarrow> emit_member_added lp e s = s"
  by (cases s) (auto simp: Let_def)

lemma announce_known:
  assumes "key_id ` set (ml_owner (snd s lp) # ml_members (snd s lp)) \<subseteq> set (ml_announced (snd s lp)) \<union> unlisted"
  shows "announce_lobby_members lp s = s"
proof -
  have "fold (emit_member_added lp) es s = s" if "key_id ` set es \<subseteq> set (ml_announced (snd s lp)) \<union> unlisted" for es
    using that by (induction es) (simp_all add: emit_added_known del: emit_member_added.simps)
  from this [of "ml_owner (snd s lp) # ml_members (snd s lp)"] assms show ?thesis
    by (simp add: announce_lobby_members_def)
qed

lemma emit_updated_box: "snd (emit_updated lp dl fl s) = (snd s)(lp := (snd s lp)\<lparr>ml_lock_known := True\<rparr>)"
  by (cases s) (auto simp: Let_def delta_is_empty_def fun_eq_iff)

lemma emit_updated_nothing: "delta_is_empty dl \<Longrightarrow> ml_lock_known (snd s lp) \<Longrightarrow> emit_updated lp dl False s = s"
  by (cases s) simp

lemma remove_fold_box:
  "snd (fold (remove_member lp) es s) =
   (snd s)(lp := (snd s lp)\<lparr>ml_announced := filter (\<lambda>e. e \<notin> set es) (ml_announced (snd s lp))\<rparr>)"
proof (induction es arbitrary: s)
  case (Cons e es)
  obtain m b where s: "s = (m, b)" by (cases s)
  show ?case by (simp add: Cons.IH s conj_commute fun_eq_iff)
qed (simp add: fun_eq_iff)

lemma remove_fold_joins: "mp_pending_joins (fst (fold (remove_member lp) es s)) = mp_pending_joins (fst s)"
proof (induction es arbitrary: s)
  case (Cons e es)
  obtain m b where s: "s = (m, b)" by (cases s)
  show ?case by (simp add: Cons.IH s mp_queue_def)
qed simp

lemma member_delta_known: "member_delta b (l\<lparr>ml_announced := A, ml_lock_known := K\<rparr>) = member_delta b l"
  by (simp add: member_delta_def member_entity_def fun_eq_iff cong: if_cong)

lemma take_fresh_known [simp]:
  "take_fresh (l\<lparr>ml_announced := A, ml_lock_known := K\<rparr>) f = (take_fresh l f)\<lparr>ml_announced := A, ml_lock_known := K\<rparr>"
  "snapshot (l\<lparr>ml_announced := A, ml_lock_known := K\<rparr>) = snapshot l"
  "diff_lobby sn (l\<lparr>ml_announced := A, ml_lock_known := K\<rparr>) = diff_lobby sn l"
  by (simp_all add: take_fresh_def Let_def snapshot_def diff_lobby_def member_delta_known)

lemma take_fresh_members: "ml_members (take_fresh (take_fresh l f) f) = ml_members (take_fresh l f)"
  "ml_owner (take_fresh l f) = ml_owner f"
  by (simp_all add: take_fresh_def Let_def)

lemma departed_known [simp]: "departed_of (l\<lparr>ml_announced := A, ml_lock_known := K\<rparr>) = filter (\<lambda>e. e \<notin> key_id ` set (ml_members l)) A"
  by (cases A) (simp_all add: departed_of_def)

text \<open>The box of a lobby after a poll that was answered, and the announced members in it.\<close>

lemma poll_box:
  assumes "poll_lobby d lp (Some (200, body)) (m, b) = Some (m1, b1)" and "\<not> join_parked lp m"
  shows "\<exists>departed dl l A. apply_refresh d (Some (200, body)) (b lp) = Some (departed, False, dl, l) \<and>
    b1 = b(lp := l\<lparr>ml_announced := A, ml_lock_known := True\<rparr>) \<and> mp_pending_joins m1 = mp_pending_joins m \<and>
    set A = (set (ml_announced l) - set departed) \<union> (key_id ` set (ml_owner l # ml_members l) - unlisted)"
proof -
  obtain departed gone dl l where r: "apply_refresh d (Some (200, body)) (b lp) = Some (departed, gone, dl, l)"
    using assms(1) by (auto split: Option.bind_splits)
  have g: "\<not> gone" using r by (auto elim: apply_refresh_cases)
  obtain m2 b2 where f: "fold (remove_member lp) departed (m, b(lp := l)) = (m2, b2)" by fastforce
  have b2: "b2 = b(lp := l\<lparr>ml_announced := filter (\<lambda>e. e \<notin> set departed) (ml_announced l)\<rparr>)"
    using remove_fold_box [of lp departed "(m, b(lp := l))"] by (simp add: f fun_eq_iff)
  have j: "mp_pending_joins m2 = mp_pending_joins m"
    using remove_fold_joins [of lp departed "(m, b(lp := l))"] by (simp add: f)
  let ?s = "announce_lobby_members lp (m2, b2)"
  have e: "(m1, b1) = emit_updated lp dl False ?s"
    using assms r g f j by (simp add: join_parked_def)
  obtain A where A: "snd ?s = b2(lp := (b2 lp)\<lparr>ml_announced := A\<rparr>)"
    "set A = set (ml_announced (b2 lp)) \<union> (key_id ` set (ml_owner (b2 lp) # ml_members (b2 lp)) - unlisted)"
    using announce_box [of lp "(m2, b2)"] by auto
  have "b1 = (snd ?s)(lp := (snd ?s lp)\<lparr>ml_lock_known := True\<rparr>)" using emit_updated_box [of lp dl False ?s] e by (metis snd_conv)
  then have "b1 = b(lp := l\<lparr>ml_announced := A, ml_lock_known := True\<rparr>)" unfolding A(1) by (simp add: b2 fun_eq_iff)
  moreover have "mp_pending_joins m1 = mp_pending_joins m"
    using joins_kept.updated [of lp dl False ?s] joins_kept.announced [of lp "(m2, b2)"] j arg_cong [OF e, of fst] by simp
  moreover have "set A = (set (ml_announced l) - set departed) \<union> (key_id ` set (ml_owner l # ml_members l) - unlisted)"
    unfolding A(2) by (simp add: b2 set_diff_eq)
  ultimately show ?thesis using r g by (intro exI conjI) simp_all
qed

text \<open>
  C9: a second poll of a lobby with the same answer queues no state change and announces
  nobody, provided the owner after the first poll is among the members or there is none:
  refreshing is idempotent.
\<close>

theorem poll_settles:
  assumes "poll_lobby d lp (Some (200, body)) (m, b) = Some (m1, b1)" and "box_ok (b lp)" and "\<not> join_parked lp m"
    and "key_id (ml_owner (b1 lp)) \<in> key_id ` set (ml_members (b1 lp)) \<union> {[], ''owner''}"
  shows "\<exists>b2. poll_lobby d lp (Some (200, body)) (m1, b1) = Some (m1, b2) \<and>
    ml_announced (b2 lp) = ml_announced (b1 lp)"
proof -
  obtain departed dl l A where r: "apply_refresh d (Some (200, body)) (b lp) = Some (departed, False, dl, l)"
    and b1: "b1 = b(lp := l\<lparr>ml_announced := A, ml_lock_known := True\<rparr>)" and j: "mp_pending_joins m1 = mp_pending_joins m"
    and A: "set A = (set (ml_announced l) - set departed) \<union> (key_id ` set (ml_owner l # ml_members l) - unlisted)"
    using poll_box [OF assms(1,3)] by (elim exE conjE) (rule that)
  let ?l = "l\<lparr>ml_announced := A, ml_lock_known := True\<rparr>"
  have o: "key_id (ml_owner l) \<in> key_id ` set (ml_members l) \<union> unlisted" using assms(4) by (simp add: b1)
  have "\<exists>l2 dl2. apply_refresh d (Some (200, body)) ?l = Some ([], False, dl2, l2) \<and> delta_is_empty dl2 \<and>
      l2 = (l2\<lparr>ml_announced := A, ml_lock_known := True\<rparr>) \<and> ml_members l2 = ml_members l \<and> ml_owner l2 = ml_owner l"
  proof (cases "lobby_from_json d body = Some None")
    case True
    then show ?thesis using r by (auto simp: apply_refresh_def delta_is_empty_def delta_default_def)
  next
    case False
    then obtain f where f: "lobby_from_json d body = Some (Some f)" and l: "l = take_fresh (b lp) f" "departed = departed_of l"
      using r by (auto simp: apply_refresh_def Let_def split: Option.bind_splits option.splits)
    have "filter (\<lambda>e. e \<notin> key_id ` set (ml_members l)) A = []"
      using A o l(2) by (auto simp: filter_empty_conv departed_of_def split: if_splits)
    moreover have "delta_is_empty (diff_lobby (snapshot l) (take_fresh l f))"
      unfolding l(1) using assms(2) lobby_from_json_ok [OF f] by (intro take_fresh_again) (auto simp: box_ok_def)
    ultimately show ?thesis
      using f l(1) by (auto simp: apply_refresh_def Let_def take_fresh_members)
  qed
  then obtain l2 dl2 where r2: "apply_refresh d (Some (200, body)) ?l = Some ([], False, dl2, l2)" "delta_is_empty dl2"
    and l2: "ml_announced l2 = A" "ml_lock_known l2" "ml_members l2 = ml_members l" "ml_owner l2 = ml_owner l"
    by (metis mlobby.select_convs(12,13) mlobby.update_convs(12,13) mlobby.surjective)
  have "announce_lobby_members lp (m1, b1(lp := l2)) = (m1, b1(lp := l2))"
    by (rule announce_known) (use A l2 in auto)
  then have "emit_updated lp dl2 False (announce_lobby_members lp (m1, b1(lp := l2))) = (m1, b1(lp := l2))"
    using emit_updated_nothing [OF r2(2), of "(m1, b1(lp := l2))" lp] l2(2) by simp
  then have "poll_lobby d lp (Some (200, body)) (m1, b1) = Some (m1, b1(lp := l2))"
    using r2(1) assms(3) j by (simp add: b1 join_parked_def)
  then show ?thesis using l2 by (auto simp: b1)
qed

theorem poll_settles_witness:
  "\<exists>m1 b1 b2. poll_lobby 4 1 (Some (200, bare_lobby)) (new_instance 1, \<lambda>_. new_placeholder (member_key []) 0 0) = Some (m1, b1) \<and>
     mp_pending m1 \<noteq> [] \<and> poll_lobby 4 1 (Some (200, bare_lobby)) (m1, b1) = Some (m1, b2)"
proof -
  obtain l where l: "lobby_from_json 4 bare_lobby = Some (Some l)" "ml_members l = []" "ml_owner l = member_key ''owner''"
    using bare_lobby_read by blast
  let ?b = "\<lambda>_ :: lptr. new_placeholder (member_key []) 0 0"
  have "utf8_lossy ''owner'' = ''owner''" by (rule utf8_lossy_valid [OF utf8_valid_ascii]) (simp add: is_ascii_def)
  then have k: "key_id (member_key ''owner'') = ''owner''" by (simp add: member_key_def intern_no_nul mp_read_cstr_def)
  obtain m1 b1 where p: "poll_lobby 4 1 (Some (200, bare_lobby)) (new_instance 1, ?b) = Some (m1, b1)" "mp_pending m1 \<noteq> []"
    "key_id (ml_owner (b1 1)) = ''owner''"
    using k by (simp add: apply_refresh_def l take_fresh_def Let_def departed_of_def new_placeholder_def join_parked_def
        new_instance_def announce_lobby_members_def mp_queue_def delta_is_empty_def)
  have "\<exists>b2. poll_lobby 4 1 (Some (200, bare_lobby)) (m1, b1) = Some (m1, b2) \<and> ml_announced (b2 1) = ml_announced (b1 1)"
    by (rule poll_settles [OF p(1)]) (use p(3) in \<open>simp_all add: box_ok_placeholder join_parked_def new_instance_def\<close>)
  with p(1,2) show ?thesis by blast
qed

section \<open>What a poll tells the title\<close>

text \<open>The members a delta reports: those whose property table is new or has changed.\<close>

lemma set_map_filter: "set (List.map_filter f xs) = {y. \<exists>x \<in> set xs. f x = Some y}"
  by (induction xs) (auto simp: List.map_filter_simps split: option.split)

lemma reported_members:
  assumes "lobby_wf l'" and e: "hm_get (ml_member_props l') eid = Some props"
    "map_option hm_get (hm_get (ml_member_props l) eid) \<noteq> Some (hm_get props)"
  shows "\<exists>u \<in> set (ld_member_updates (diff_lobby (snapshot l) l')).
      mu_member u = member_entity l' eid \<and> mu_connection_status_updated u = (hm_get (ml_member_props l) eid = None) \<and>
      set (mu_property_keys u) = {k. hm_get (unwrap_or (hm_get (ml_member_props l) eid) []) k \<noteq> hm_get props k}"
proof -
  have wf: "hm_wf props" using member_props_wf_get [OF _ e(1)] assms(1) by (simp add: lobby_wf_def)
  then obtain u where u: "member_delta (ml_member_props l) l' (eid, props) = Some u"
    using e(2) member_delta_None [of props "ml_member_props l" l' eid] by (metis option.exhaust)
  have "(eid, props) \<in> set (ml_member_props l')" using e(1) by (rule map_of_SomeD)
  with u have "u \<in> set (ld_member_updates (diff_lobby (snapshot l) l'))"
    unfolding diff_lobby_def snapshot_def lobby_delta.simps set_map_filter by auto
  moreover have "mu_member u = member_entity l' eid \<and> mu_connection_status_updated u = (hm_get (ml_member_props l) eid = None) \<and>
      set (mu_property_keys u) = {k. hm_get (unwrap_or (hm_get (ml_member_props l) eid) []) k \<noteq> hm_get props k}"
    using u set_changed_keys [OF wf] by (auto simp: member_delta_def Let_def split: if_splits)
  ultimately show ?thesis by (rule bexI [rotated])
qed

text \<open>
  C10: the delta of a refresh names exactly the lobby and search properties whose value
  differs, sorted and without duplicates, exactly the scalar fields that differ, and every
  member whose property table is new or different, with exactly its differing keys.
\<close>

theorem refresh_delta_exact:
  assumes "apply_refresh d (Some (200, body)) l = Some (departed, gone, dl, l')" and "box_ok l"
  shows "\<not> gone \<and>
    set (ld_lobby_keys dl) = {k. hm_get (ml_props l) k \<noteq> hm_get (ml_props l') k} \<and>
    set (ld_search_keys dl) = {k. hm_get (ml_search l) k \<noteq> hm_get (ml_search l') k} \<and>
    sorted (ld_lobby_keys dl) \<and> distinct (ld_lobby_keys dl) \<and> sorted (ld_search_keys dl) \<and> distinct (ld_search_keys dl) \<and>
    (ld_owner_updated dl \<longleftrightarrow> ml_has_owner l \<noteq> ml_has_owner l' \<or> \<not> entity_eq (ml_owner l) (ml_owner l')) \<and>
    (ld_max_players_updated dl \<longleftrightarrow> ml_max_players l \<noteq> ml_max_players l') \<and>
    (ld_access_policy_updated dl \<longleftrightarrow> ml_access_policy l \<noteq> ml_access_policy l') \<and>
    (ld_membership_lock_updated dl \<longleftrightarrow> ml_membership_lock l \<noteq> ml_membership_lock l') \<and>
    (\<forall>eid props. hm_get (ml_member_props l') eid = Some props \<longrightarrow>
       map_option hm_get (hm_get (ml_member_props l) eid) = Some (hm_get props) \<or>
       (\<exists>u \<in> set (ld_member_updates dl). mu_member u = member_entity l' eid \<and>
          mu_connection_status_updated u = (hm_get (ml_member_props l) eid = None) \<and>
          set (mu_property_keys u) = {k. hm_get (unwrap_or (hm_get (ml_member_props l) eid) []) k \<noteq> hm_get props k}))"
proof (cases "lobby_from_json d body = Some None")
  case True
  with assms(1) have "gone = False" "dl = delta_default" "l' = l" by (simp_all add: apply_refresh_def)
  then show ?thesis by (auto simp: delta_default_def entity_eq_refl)
next
  case False
  with assms(1) obtain f where f: "lobby_from_json d body = Some (Some f)" "l' = take_fresh l f" "\<not> gone"
    and dl: "dl = diff_lobby (snapshot l) l'"
    by (auto simp: apply_refresh_def Let_def split: Option.bind_splits option.splits)
  have wf: "lobby_wf l'" using assms(2) lobby_from_json_ok [OF f(1)] by (simp add: f(2) box_ok_def lobby_wf_take_fresh)
  then have "hm_wf (ml_props l')" "hm_wf (ml_search l')" by (simp_all add: lobby_wf_def)
  then have "set (ld_lobby_keys dl) = {k. hm_get (ml_props l) k \<noteq> hm_get (ml_props l') k}"
    "set (ld_search_keys dl) = {k. hm_get (ml_search l) k \<noteq> hm_get (ml_search l') k}"
    by (simp_all add: dl diff_lobby_def snapshot_def set_changed_keys)
  moreover have "sorted (ld_lobby_keys dl)" "distinct (ld_lobby_keys dl)" "sorted (ld_search_keys dl)" "distinct (ld_search_keys dl)"
    by (simp_all add: dl diff_lobby_def sorted_changed_keys distinct_changed_keys)
  moreover have "ld_owner_updated dl \<longleftrightarrow> ml_has_owner l \<noteq> ml_has_owner l' \<or> \<not> entity_eq (ml_owner l) (ml_owner l')"
    "ld_max_players_updated dl \<longleftrightarrow> ml_max_players l \<noteq> ml_max_players l'"
    "ld_access_policy_updated dl \<longleftrightarrow> ml_access_policy l \<noteq> ml_access_policy l'"
    "ld_membership_lock_updated dl \<longleftrightarrow> ml_membership_lock l \<noteq> ml_membership_lock l'"
    by (simp_all add: dl diff_lobby_def snapshot_def)
  ultimately show ?thesis using f(3) reported_members [OF wf, where l = l, folded dl] by (intro conjI allI impI) blast+
qed

theorem refresh_delta_exact_witness:
  "\<exists>departed dl l'. apply_refresh 4 (Some (200, bare_lobby)) (created_lobby (member_key ''a'') 4 0 [(''k'', ''v'')] [] []) =
     Some (departed, False, dl, l') \<and> set (ld_lobby_keys dl) = {''k''}"
proof -
  let ?l = "created_lobby (member_key ''a'') 4 0 [(''k'', ''v'')] [] []"
  obtain f where f: "lobby_from_json 4 bare_lobby = Some (Some f)" "ml_props f = []" using bare_lobby_read by blast
  then obtain departed dl l' where r: "apply_refresh 4 (Some (200, bare_lobby)) ?l = Some (departed, False, dl, l')"
    and l': "ml_props l' = []"
    by (simp add: apply_refresh_def Let_def take_fresh_def)
  have "ml_props ?l = [(''k'', ''v'')]"
    by (simp add: created_lobby_def Let_def new_placeholder_def mp_apply_props_def hm_insert_def cstring_new_def)
  then have "set (ld_lobby_keys dl) = {''k''}"
    using refresh_delta_exact [OF r box_ok_created(1)] l' by (auto split: if_splits)
  with r show ?thesis by simp
qed

lemma box_ok_ensured: "box_ok l \<Longrightarrow> hm_get (ml_member_props l) e = Some mp \<Longrightarrow> ensured mp"
  by (force simp: box_ok_def member_table_ok_def dest: map_of_SomeD)

text \<open>
  C40: a refresh never takes a member property away from the local view: the key keeps its
  value or gets the one of the answer, also when the broker has deleted the property or the
  member.
\<close>

theorem member_keys_survive:
  assumes "apply_refresh d (Some (200, body)) l = Some (departed, gone, dl, l')" and "box_ok l"
    and "hm_get (ml_member_props l) eid = Some mp" and "hm_get mp k = Some v"
  shows "\<exists>mp' v'. hm_get (ml_member_props l') eid = Some mp' \<and> hm_get mp' k = Some v' \<and>
    (v' = v \<or> (\<exists>f g. lobby_from_json d body = Some (Some f) \<and> hm_get (ml_member_props f) eid = Some g \<and> hm_get g k = Some v'))"
proof (cases "l' = l")
  case True
  with assms show ?thesis by blast
next
  case False
  with assms(1) obtain f where f: "lobby_from_json d body = Some (Some f)" "l' = take_fresh l f"
    by (auto simp: apply_refresh_def Let_def split: Option.bind_splits option.splits)
  have wf: "hm_wf (ml_member_props l)" using assms(2) by (simp add: box_ok_def lobby_wf_def member_props_wf_def)
  have e: "ensured mp" using box_ok_ensured [OF assms(2,3)] .
  have "ml_member_props l' = ml_member_props l \<or>
      ml_member_props l' = merge_member_props (ml_member_props l) (ml_member_props f)"
    by (simp add: f(2) take_fresh_def Let_def)
  then consider (kept) "ml_member_props l' = ml_member_props l"
    | (merged) "ml_member_props l' = merge_member_props (ml_member_props l) (ml_member_props f)"
    by blast
  then show ?thesis
  proof cases
    case kept
    with assms show ?thesis by auto
  next
    case merged
    show ?thesis
    proof (cases "hm_get (ml_member_props f) eid")
      case None
      have g: "hm_get (fill_gaps [] mp) = hm_get mp" by (simp add: fun_eq_iff get_fill_gaps)
      then have "ensured (fill_gaps [] mp)" using e ensured_cong by blast
      then show ?thesis
        using None assms(3,4) g by (simp add: merged get_merge_member_props [OF wf] ensure_member_props_id ensure_member_props_ensured)
    next
      case (Some g)
      have "ensured g" using lobby_from_json_ok(2) [OF f(1) Some] .
      from merge_fresh_entry [OF wf Some this] assms(3,4) f(1) Some show ?thesis
        by (cases "hm_get g k") (auto simp: merged)
    qed
  qed
qed

theorem member_keys_survive_witness:
  "\<exists>departed dl l' mp'. apply_refresh 4 (Some (200, bare_lobby)) (created_lobby (member_key ''a'') 4 0 [] [] [(''k'', ''v'')]) =
     Some (departed, False, dl, l') \<and> hm_get (ml_member_props l') ''a'' = Some mp' \<and> hm_get mp' ''k'' \<noteq> None"
proof -
  let ?l = "created_lobby (member_key ''a'') 4 0 [] [] [(''k'', ''v'')]"
  obtain f where f: "lobby_from_json 4 bare_lobby = Some (Some f)" using bare_lobby_read by blast
  then obtain departed dl l' where r: "apply_refresh 4 (Some (200, bare_lobby)) ?l = Some (departed, False, dl, l')"
    by (simp add: apply_refresh_def Let_def)
  have a: "key_id (member_key ''a'') = ''a''" by (simp add: member_key_def intern_no_nul mp_read_cstr_def utf8_lossy_a)
  have "hm_get (ml_member_props ?l) ''a'' = Some (ensure_member_props [(''k'', ''v'')] ''a'')"
    using a by (simp add: created_lobby_def Let_def new_placeholder_def mp_apply_props_def hm_insert_def cstring_new_def)
  moreover have "hm_get (ensure_member_props [(''k'', ''v'')] ''a'') ''k'' = Some ''v''"
    by (simp add: ensure_member_props_def Let_def hm_get_insert)
  ultimately show ?thesis using member_keys_survive [OF r box_ok_created(1)] r by fastforce
qed

section \<open>Account ids\<close>



section \<open>Parked joins that complete\<close>

lemma advances_appends: "advances k A s s' \<Longrightarrow> \<exists>cs. mp_pending (fst s') = mp_pending (fst s) @ cs"
  by (auto simp: advances_def queued_def)

text \<open>A completed join: earlier changes first, the completion last.\<close>

lemma emit_join_pending:
  "\<exists>cs. mp_pending (fst (emit_join_completed lp joiner s)) = mp_pending (fst s) @ cs @ [JoinLobbyCompleted 0 (ek_id joiner) lp]"
proof (cases s)
  case (Pair m b)
  let ?s0 = "(m, upd_lobby lp (\<lambda>l. l\<lparr>ml_pending := False\<rparr>) b)"
  let ?s2 = "emit_member_added lp joiner (announce_lobby_members lp ?s0)"
  let ?s3 = "emit_updated lp (join_delta (snd ?s2 lp) joiner) True ?s2"
  have "advances none UNIV ?s0 ?s3" by (rule history.populated) simp
  from advances_appends [OF this] obtain cs where "mp_pending (fst ?s3) = mp_pending m @ cs" unfolding fst_conv by blast
  moreover have "mp_pending (fst (queue_join_completed lp joiner 0 t)) = mp_pending (fst t) @ [JoinLobbyCompleted 0 (ek_id joiner) lp]" for t
    by (cases t) (simp add: mp_queue_def)
  moreover have "emit_join_completed lp joiner s = queue_join_completed lp joiner 0 ?s3" by (simp add: Pair Let_def)
  ultimately show ?thesis by (simp only: Pair fst_conv append_assoc) blast
qed

lemma complete_join_pending:
  "set (mp_pending (fst s)) \<subseteq> set (mp_pending (fst (complete_join i s)))"
  "JoinLobbyCompleted 0 (ek_id (pj_joiner (mp_pending_joins (fst s) ! i))) (pj_lobby (mp_pending_joins (fst s) ! i))
     \<in> set (mp_pending (fst (complete_join i s)))"
proof -
  obtain m b where s: "s = (m, b)" by (cases s)
  let ?pj = "mp_pending_joins m ! i"
  let ?m = "m\<lparr>mp_pending_joins := take i (mp_pending_joins m) @ drop (Suc i) (mp_pending_joins m)\<rparr>"
  obtain cs where "mp_pending (fst (complete_join i s)) = mp_pending m @ cs @ [JoinLobbyCompleted 0 (ek_id (pj_joiner ?pj)) (pj_lobby ?pj)]"
    using emit_join_pending [of "pj_lobby ?pj" "pj_joiner ?pj" "(?m, b)"] by (auto simp: s Let_def simp del: emit_join_completed.simps)
  then show "set (mp_pending (fst s)) \<subseteq> set (mp_pending (fst (complete_join i s)))"
    "JoinLobbyCompleted 0 (ek_id (pj_joiner (mp_pending_joins (fst s) ! i))) (pj_lobby (mp_pending_joins (fst s) ! i))
     \<in> set (mp_pending (fst (complete_join i s)))"
    by (auto simp: s simp del: complete_join.simps)
qed

lemma complete_joins_pending:
  assumes "sorted_wrt (>) is" and "\<forall>i \<in> set is. i < length (mp_pending_joins (fst s))" and "i \<in> set is"
  shows "JoinLobbyCompleted 0 (ek_id (pj_joiner (mp_pending_joins (fst s) ! i))) (pj_lobby (mp_pending_joins (fst s) ! i))
    \<in> set (mp_pending (fst (fold complete_join is s)))"
  using assms
proof (induction "is" arbitrary: s)
  case (Cons k ks)
  let ?s = "complete_join k s"
  have mono: "set (mp_pending (fst s)) \<subseteq> set (mp_pending (fst (fold complete_join ks s)))" for s
    using complete_join_pending(1)
    by (induction ks arbitrary: s) (simp, metis (no_types, lifting) fold_simps(2) order_trans)
  have small: "j < k \<Longrightarrow> mp_pending_joins (fst ?s) ! j = mp_pending_joins (fst s) ! j" for j
    using Cons.prems(2) by (simp add: complete_join_parked nth_append)
  show ?case
  proof (cases "i = k")
    case True
    then show ?thesis using complete_join_pending(2) [of s k] mono [of ?s] by auto
  next
    case False
    then have i: "i \<in> set ks" "i < k" using Cons.prems by auto
    have "\<forall>j \<in> set ks. j < length (mp_pending_joins (fst ?s))"
      using Cons.prems by (auto simp: complete_join_parked)
    from Cons.IH [OF _ this i(1)] Cons.prems(1) show ?thesis by (simp add: small [OF i(2)])
  qed
qed simp

text \<open>Removing the ready entries from the last to the first leaves the others in order.\<close>

lemma remove_ready:
  "n \<le> length ps \<Longrightarrow> take n xs = take n ps \<Longrightarrow> n \<le> length xs \<Longrightarrow>
   fold (\<lambda>i xs. take i xs @ drop (Suc i) xs) (rev (filter (\<lambda>i. P (ps ! i)) [0..<n])) xs =
   filter (\<lambda>p. \<not> P p) (take n ps) @ drop n xs"
proof (induction n arbitrary: xs)
  case (Suc n)
  have t: "take n xs = take n ps" using Suc.prems(2) by (metis Suc_leD Suc.prems(1) Suc.prems(3) append_eq_append_conv length_take min.absorb2 take_Suc_conv_app_nth Suc_le_lessD)
  have x: "xs ! n = ps ! n" using Suc.prems by (metis lessI nth_take)
  have d: "drop n xs = ps ! n # drop (Suc n) xs" using Cons_nth_drop_Suc [of n xs] Suc.prems(3) x by simp
  have tp: "take (Suc n) ps = take n ps @ [ps ! n]" using Suc.prems(1) by (simp add: take_Suc_conv_app_nth)
  show ?case
  proof (cases "P (ps ! n)")
    case True
    let ?xs = "take n xs @ drop (Suc n) xs"
    have "take n ?xs = take n xs" "n \<le> length ?xs" "drop n ?xs = drop (Suc n) xs" using Suc.prems(3) by simp_all
    with Suc.IH [of ?xs] t True Suc.prems(1) show ?thesis by (simp add: tp del: take_append drop_append)
  next
    case False
    with Suc.IH [of xs] t d Suc.prems show ?thesis by (simp add: tp)
  qed
qed simp

lemma complete_joins_parked:
  "mp_pending_joins (fst (fold complete_join is s)) =
   fold (\<lambda>i xs. take i xs @ drop (Suc i) xs) is (mp_pending_joins (fst s))"
  by (induction "is" arbitrary: s) (simp_all add: complete_join_parked del: complete_join.simps)

text \<open>What the end of a poll round does with the parked joins.\<close>

lemma service_parked:
  "mp_pending_joins (fst (service_pending_joins (m, b))) =
     filter (\<lambda>pj. pj_emitted pj \<or> \<not> lobby_ready_for_guest (b (pj_lobby pj))) (mp_pending_joins m)"
  using remove_ready [of "length (mp_pending_joins m)" "mp_pending_joins m" "mp_pending_joins m"
      "\<lambda>pj. \<not> pj_emitted pj \<and> lobby_ready_for_guest (b (pj_lobby pj))"]
  by (simp add: Let_def complete_joins_parked)

lemma service_completes:
  assumes "pj \<in> set (mp_pending_joins m)" and "\<not> pj_emitted pj" and "lobby_ready_for_guest (b (pj_lobby pj))"
  shows "JoinLobbyCompleted 0 (ek_id (pj_joiner pj)) (pj_lobby pj) \<in> set (mp_pending (fst (service_pending_joins (m, b))))"
proof -
  obtain i where i: "i < length (mp_pending_joins m)" "mp_pending_joins m ! i = pj" using assms(1) by (auto simp: in_set_conv_nth)
  let ?ready = "filter (\<lambda>i. let pj = mp_pending_joins m ! i in \<not> pj_emitted pj \<and> lobby_ready_for_guest (b (pj_lobby pj)))
    [0..<length (mp_pending_joins m)]"
  have "sorted_wrt (>) (rev ?ready)" by (simp add: sorted_wrt_rev sorted_wrt_filter)
  from complete_joins_pending [OF this, of "(m, b)" i] i assms show ?thesis by (simp add: Let_def)
qed

text \<open>
  The last poll of a round that finds the lobby of a parked join ready, and the end of the round:
  the join completes and is parked no longer.
\<close>

lemma take_fresh_props: "ml_props (take_fresh l f) = ml_props f"
  by (simp add: take_fresh_def Let_def)

text \<open>
  C13: when the last poll of a round finds the lobby of a parked join with a network
  descriptor and an invitation, the next two worker steps succeed, queue the successful join
  completion and unpark the join.
\<close>

theorem parked_join_completes:
  assumes "mw_mp w = Some m" and "pj \<in> set (mp_pending_joins m)" and "\<not> pj_emitted pj"
    and "pj_lobby pj \<in> set (mp_lobbies m)" and "\<not> nothing_to_poll (mw_box w (pj_lobby pj))"
    and "mw_worker w = Polling [(pj_lobby pj, lid)]"
    and "env 0 (entity_token_header (mw_auth w)) ''POST'' ''/Lobby/GetLobby'' (get_lobby_body lid) = Some (200, body)"
    and "lobby_from_json d body = Some (Some fresh)" and "lobby_ready_for_guest fresh"
  shows "\<exists>w1 w2 m2. broker_thread_step d env now w = Some w1 \<and> broker_thread_step d env now w1 = Some w2 \<and>
    mw_mp w2 = Some m2 \<and> JoinLobbyCompleted 0 (ek_id (pj_joiner pj)) (pj_lobby pj) \<in> set (mp_pending m2) \<and>
    \<not> join_parked (pj_lobby pj) m2"
proof -
  let ?lp = "pj_lobby pj"
  let ?l = "take_fresh (mw_box w ?lp) fresh"
  let ?w0 = "w\<lparr>mw_worker := Polling []\<rparr>"
  obtain m1 b1 where f: "fold (remove_member ?lp) (departed_of ?l) (m, (mw_box w)(?lp := ?l)) = (m1, b1)" by fastforce
  have j: "mp_pending_joins m1 = mp_pending_joins m"
    using remove_fold_joins [of ?lp "departed_of ?l" "(m, (mw_box w)(?lp := ?l))"] by (simp add: f)
  have "ml_props (b1 ?lp) = ml_props fresh"
    using remove_fold_box [of ?lp "departed_of ?l" "(m, (mw_box w)(?lp := ?l))"]
    by (simp add: f take_fresh_props)
  then have ready: "lobby_ready_for_guest (b1 ?lp)" using ready_cong assms(9) by blast
  have parked: "join_parked ?lp m1" using assms(2,3) j by (auto simp: join_parked_def list_ex_iff)
  let ?w1 = "?w0\<lparr>mw_mp := Some m1, mw_box := b1\<rparr>"
  have r: "apply_refresh d (Some (200, body)) (mw_box w ?lp) =
      Some (departed_of ?l, False, diff_lobby (snapshot (mw_box w ?lp)) ?l, ?l)"
    using assms(8) by (simp add: apply_refresh_def Let_def)
  have "poll_answer d ?lp (Some (200, body)) (m, mw_box w) = Some (m1, b1)"
    using assms(4,5) f parked by (simp add: r)
  then have s1: "broker_thread_step d env now w = Some ?w1"
    using assms(1,6,7) by (simp add: broker_thread_step_def poll_one_def http_json_status_def with_mp_def del: poll_answer.simps)
  obtain m2 b2 where v: "service_pending_joins (m1, b1) = (m2, b2)" by fastforce
  have s2: "broker_thread_step d env now ?w1 = Some (?w1\<lparr>mw_worker := Draining, mw_mp := Some m2, mw_box := b2\<rparr>)"
    using v by (simp add: broker_thread_step_def with_mp_def del: service_pending_joins.simps)
  have "\<not> join_parked ?lp m2"
    using service_parked [of m1 b1, unfolded v] ready by (auto simp: join_parked_def list_ex_iff)
  moreover have "JoinLobbyCompleted 0 (ek_id (pj_joiner pj)) ?lp \<in> set (mp_pending m2)"
    using service_completes [of pj m1 b1, unfolded v] assms(2,3) j ready by simp
  ultimately show ?thesis using s1 s2
    by (intro exI [of _ ?w1] exI [of _ "?w1\<lparr>mw_worker := Draining, mw_mp := Some m2, mw_box := b2\<rparr>"] exI [of _ m2]) simp
qed

text \<open>The answer for a lobby that is ready for guests.\<close>

definition ready_data :: "(string \<times> string) list" where
  "ready_data = [(''network_descriptor'', ''LAN1.x''), (''invitation_identifier'', ''i'')]"

definition ready_lobby :: string where
  "ready_lobby = CHR 0x7B # quoted ''LobbyData'' @ '':'' @ object_text ready_data @ CHR '','' # members_text [(''LobbyId'', ''a'')]"

lemma ready_data_valid: "\<forall>(k, v) \<in> set ready_data. utf8_valid k \<and> utf8_valid v"
  by (simp add: ready_data_def utf8_valid_ascii is_ascii_def)

lemma ready_lobby_find:
  assumes "key \<notin> {''LobbyData'', ''network_descriptor'', ''invitation_identifier''}"
  shows "find_value_start key ready_lobby = (if key = ''LobbyId'' then Some (quoted ''a'' @ [CHR 0x7D]) else None)"
proof -
  have "\<forall>(k, v) \<in> set ready_data. utf8_valid k \<and> utf8_valid v \<and> k \<noteq> key"
    using assms ready_data_valid by (auto simp: ready_data_def)
  note skip = find_members_skip [OF this]
  have v: "utf8_valid ''LobbyData''" "utf8_valid ''LobbyId''" "utf8_valid ''a''" by (simp_all add: utf8_valid_ascii is_ascii_def)
  let ?rest = "CHR '','' # members_text [(''LobbyId'', ''a'')]"
  have "find_value_start key ready_lobby = find_value_start key (members_text ready_data @ ?rest)"
    using find_quoted [OF v(1), of "CHR '':''" key] assms by (auto simp: ready_lobby_def object_text_def find_plain)
  also have "\<dots> = find_value_start key ?rest" by (rule skip)
  also have "\<dots> = (if ''LobbyId'' = key then Some (quoted ''a'' @ [CHR 0x7D]) else None)"
    using find_member [OF v(2,3), of "CHR 0x7D" key "[]"] by (simp add: find_plain find_value_start.simps [of _ "[]"])
  finally show ?thesis by auto
qed

lemma ready_lobby_read:
  "\<exists>l. lobby_from_json 4 ready_lobby = Some (Some l) \<and> lobby_ready_for_guest l"
proof -
  have "utf8_valid ''a''" "utf8_valid ''LobbyData''" by (simp_all add: utf8_valid_ascii is_ascii_def)
  then have lid: "jstr_field 4 ready_lobby ''LobbyId'' = Some (Some ''a'')"
    using skip_quoted [of "''a''" 4 "[CHR 0x7D]"] scan_quoted [of "''a''" "[CHR 0x7D]"]
    by (simp add: jstr_field_def json_str_field_def span_def ready_lobby_find quoted_def kind_at_def of_option_def json_escape_def escape_char_def)
  have "jobj_field 4 ready_lobby ''LobbyData'' = Some ready_data"
    using json_obj_written [OF ready_data_valid, of "''LobbyData''" 3] \<open>utf8_valid ''LobbyData''\<close>
    by (simp add: jobj_field_def ready_lobby_def) (simp add: ready_data_def obj_insert_def hm_insert_def OBJECT_CAP_def)
  moreover have "mp_apply_props [] ready_data = ready_data"
    by (simp add: ready_data_def mp_apply_props_def hm_insert_def cstring_new_def)
  moreover have "utf8_lossy ''LAN1.x'' = ''LAN1.x''" "utf8_lossy ''i'' = ''i''"
    by (rule utf8_lossy_valid [OF utf8_valid_ascii], simp add: is_ascii_def)+
  ultimately show ?thesis
    by (simp add: lobby_from_json_def lid ready_lobby_find missing_field json_max_players_def scan_or_def
        cstring_new_def mp_apply_props_def [of _ "[]"] lobby_ready_for_guest_def ready_data_def
        is_real_network_descriptor_def starts_with_def)
qed

theorem parked_join_completes_witness:
  "\<exists>w w1 w2 m2. mp_run w [] \<and> broker_thread_step 4 (\<lambda>_ _ _ _ _. Some (200, ready_lobby)) 0 w = Some w1 \<and>
     broker_thread_step 4 (\<lambda>_ _ _ _ _. Some (200, ready_lobby)) 0 w1 = Some w2 \<and> mw_mp w2 = Some m2 \<and>
     (\<exists>j. JoinLobbyCompleted 0 j 1 \<in> set (mp_pending m2)) \<and> \<not> join_parked 1 m2"
proof -
  obtain w m pj where w: "mp_run w []" "mw_mp w = Some m" "pj \<in> set (mp_pending_joins m)" "pj_lobby pj = 1" "\<not> pj_emitted pj"
    "1 \<in> set (mp_lobbies m)" "\<not> nothing_to_poll (mw_box w 1)" "mw_worker w = Polling [(1, ''a'')]"
    using parked_run by blast
  obtain l where "lobby_from_json 4 ready_lobby = Some (Some l)" "lobby_ready_for_guest l" using ready_lobby_read by blast
  with w have "\<exists>w1 w2 m2. broker_thread_step 4 (\<lambda>_ _ _ _ _. Some (200, ready_lobby)) 0 w = Some w1 \<and>
      broker_thread_step 4 (\<lambda>_ _ _ _ _. Some (200, ready_lobby)) 0 w1 = Some w2 \<and> mw_mp w2 = Some m2 \<and>
      JoinLobbyCompleted 0 (ek_id (pj_joiner pj)) (pj_lobby pj) \<in> set (mp_pending m2) \<and> \<not> join_parked (pj_lobby pj) m2"
    by (intro parked_join_completes [where m = m and lid = "''a''" and body = ready_lobby and fresh = l]) simp_all
  then show ?thesis using w(1) unfolding w(4) by blast
qed

section \<open>Jobs and their answers\<close>

fun job_generation :: "broker_job \<Rightarrow> u64" where
  "job_generation (Create j) = cj_generation j"
| "job_generation (Join j) = jj_generation j"
| "job_generation (Find j) = fj_generation j"
| "job_generation (LeaveJob j) = lj_generation j"
| "job_generation (PostUpdate j) = pj_generation j"

text \<open>The completion a call is owed.\<close>

fun answers :: "broker_job \<Rightarrow> mp_change \<Rightarrow> bool" where
  "answers (Create j) (CreateAndJoinLobbyCompleted code ctx p) \<longleftrightarrow> ctx = cj_async_ctx j \<and> p = cj_lobby j"
| "answers (Join j) (JoinLobbyCompleted code e p) \<longleftrightarrow> e = ek_id (jj_joiner j) \<and> p = jj_lobby j"
| "answers (Find j) (FindLobbiesCompleted code e ctx rs) \<longleftrightarrow> e = fj_entity j \<and> ctx = fj_async_ctx j"
| "answers (LeaveJob j) (LeaveLobbyCompleted code) \<longleftrightarrow> True"
| "answers (PostUpdate j) (PostUpdateCompleted code p e ctx) \<longleftrightarrow> p = pj_post_lobby j \<and> e = pj_member j \<and> ctx = pj_post_ctx j"
| "answers _ _ \<longleftrightarrow> False"

text \<open>A locked section queues \<open>c\<close> last, or queues it and then only appends.\<close>

definition queues :: "(mp_change \<Rightarrow> bool) \<Rightarrow> locked \<Rightarrow> locked \<Rightarrow> bool" where
  "queues P s s' \<longleftrightarrow> (\<exists>cs. mp_pending (fst s') = mp_pending (fst s) @ cs \<and> (\<exists>c \<in> set cs. P c))"

lemma emit_member_added_appends: "\<exists>cs. mp_pending (fst (emit_member_added lp e s)) = mp_pending (fst s) @ cs"
  by (rule advances_appends [OF emit_member_added_advances [of lp UNIV]]) simp

lemma create_answered:
  assumes "create_done d job status body (m, b) = Some s'" and "mp_generation m = cj_generation job" and "\<not> ml_left (b (cj_lobby job))"
  shows "queues (answers (Create job)) (m, b) s'"
proof -
  have q: "mp_pending (fst (queue_create_completed lp ctx code s)) = mp_pending (fst s) @ [CreateAndJoinLobbyCompleted code ctx lp]" for lp ctx code s
    by (cases s) (simp add: mp_queue_def)
  consider code where "s' = queue_create_completed (cj_lobby job) (cj_async_ctx job) code
      (drop_lobby (cj_lobby job) m, upd_lobby (cj_lobby job) (\<lambda>l. l\<lparr>ml_pending := False, ml_left := True\<rparr>) b)"
    | l where "s' = queue_create_completed (cj_lobby job) (cj_async_ctx job) 0 (emit_member_added (cj_lobby job) (cj_owner job) (m, b(cj_lobby job := l)))"
    using assms by (auto simp: Let_def simp del: queue_create_completed.simps emit_member_added.simps split: if_splits Option.bind_splits)
  then show ?thesis
  proof cases
    case 1
    then show ?thesis by (simp add: queues_def q drop_lobby_def del: queue_create_completed.simps)
  next
    case 2
    then show ?thesis using emit_member_added_appends [of "cj_lobby job" "cj_owner job" "(m, b(cj_lobby job := l))"]
      by (auto simp: queues_def q simp del: emit_member_added.simps queue_create_completed.simps)
  qed
qed

lemma join_answered:
  assumes "run_join d env job w = Some w'" and "mw_mp w = Some m" and "mp_generation m = jj_generation job"
    and "\<not> ml_left (mw_box w (jj_lobby job))"
  shows "\<exists>m' b'. mw_mp w' = Some m' \<and>
    (queues (answers (Join job)) (m, mw_box w) (m', b') \<or> (join_parked (jj_lobby job) m' \<and> mp_pending m' = mp_pending m))"
  using assms(1)
proof (cases rule: run_join_cases)
  case (fail code)
  then show ?thesis using assms by (auto simp: with_mp_def queues_def mp_queue_def drop_lobby_def)
next
  case (joined got)
  then obtain m' b' where r: "join_done d job got (m, mw_box w) = Some (m', b')" "mw_mp w' = Some m'"
    using assms(2) by (auto simp: with_mp_def simp del: join_done.simps split: Option.bind_splits)
  then consider (emit) x where "emit_join_completed (jj_lobby job) (jj_joiner job) (m, (mw_box w)(jj_lobby job := x)) = (m', b')"
    | (park) "join_parked (jj_lobby job) m'" "mp_pending m' = mp_pending m"
    using assms(3,4)
    by (auto simp: Let_def join_parked_def simp del: emit_join_completed.simps split: if_splits Option.bind_splits)
  then show ?thesis
  proof cases
    case (emit x)
    obtain cs where "mp_pending m' = mp_pending m @ cs @ [JoinLobbyCompleted 0 (ek_id (jj_joiner job)) (jj_lobby job)]"
      using emit_join_pending [of "jj_lobby job" "jj_joiner job" "(m, (mw_box w)(jj_lobby job := x))"] unfolding emit by auto
    then have "queues (answers (Join job)) (m, mw_box w) (m', b')" by (simp add: queues_def)
    with r(2) show ?thesis by blast
  qed (use r(2) in blast)
qed

lemma find_answered:
  assumes "find_done d job code rows (m, b) = Some s'" and "mp_generation m = fj_generation job"
  shows "queues (answers (Find job)) (m, b) s'"
  using assms by (auto simp: queues_def mp_queue_def split: Option.bind_splits)

lemma post_answered:
  assumes "post_done job code (m, b) = Some s'" and "mp_generation m = pj_generation job"
  shows "queues (answers (PostUpdate job)) (m, b) s'"
  using assms by (auto simp: queues_def mp_queue_def Let_def split: if_splits)



section \<open>Search results\<close>

lemma search_results_bounded:
  "search_results d rows = Some rs \<Longrightarrow> length rs = length rows \<and>
   (\<forall>r \<in> set rs. 2 \<le> sr_max_member r \<and> sr_max_member r \<le> 32 \<and> 1 \<le> sr_current_member r \<and>
      sr_current_member r \<le> sr_max_member r \<and> length (sr_search r) \<le> 32)"
proof (induction rows arbitrary: rs)
  case (Cons row rows)
  obtain r rs' where r: "search_result_of d row = Some r" "search_results d rows = Some rs'" "rs = r # rs'"
    using Cons.prems by (auto split: Option.bind_splits)
  obtain mx cur search where mx: "json_max_players d row = Some mx" "current_players d row mx = Some cur"
    and f: "sr_max_member r = mx" "sr_current_member r = cur" "sr_search r = intern_kv_arrays search"
    using r(1) by (auto simp: search_result_of_def split: Option.bind_splits)
  have b: "2 \<le> mx" "mx \<le> 32" using json_max_players_bounds [OF mx(1)] by simp_all
  have "(1 :: u32) \<le> 2" by simp
  then have "1 \<le> mx" using b(1) by (rule order_trans)
  then have "1 \<le> cur" "cur \<le> mx"
    using mx(2) u32_clamp_bounds [of 1 mx] by (auto simp: current_players_def Let_def split: Option.bind_splits)
  moreover have "length (intern_kv_arrays search) \<le> 32" by (simp add: intern_kv_arrays_def)
  ultimately show ?case using Cons.IH [OF r(2)] b f by (simp add: r(3))
qed simp

text \<open>
  A search of the current session is answered by one FindLobbiesCompleted change with at most
  16 results, each with 2 to 32 seats, between one player and the number of seats, and at most
  32 search properties.
\<close>

theorem find_results_bounded:
  assumes "mw_worker w = Draining" and "mw_jobs w = Find job # js" and "mw_mp w = Some m" and "fj_generation job = mp_generation m"
    and "broker_thread_step d env now w = Some w'"
  shows "\<exists>code rs. pend w' = pend w @ [FindLobbiesCompleted code (fj_entity job) (fj_async_ctx job) rs] \<and> length rs \<le> 16 \<and>
    (\<forall>r \<in> set rs. 2 \<le> sr_max_member r \<and> sr_max_member r \<le> 32 \<and> 1 \<le> sr_current_member r \<and>
       sr_current_member r \<le> sr_max_member r \<and> length (sr_search r) \<le> 32)"
proof -
  let ?w = "w\<lparr>mw_jobs := js\<rparr>"
  obtain code rows where "with_mp (find_done d job code rows) ?w = Some w'"
    using assms(1,2,5) by (auto simp: broker_thread_step_def run_find_def simp del: find_done.simps split: prod.splits Option.bind_splits if_splits)
  then obtain rs where "search_results d (take (min (length rows) 16) rows) = Some rs"
    "pend w' = pend w @ [FindLobbiesCompleted code (fj_entity job) (fj_async_ctx job) rs]"
    using assms(3,4) by (auto simp: with_mp_def pend_def mp_queue_def split: Option.bind_splits)
  with search_results_bounded [OF this(1)] show ?thesis by auto
qed

text \<open>One lobby that the search finds and whose liveness check is not answered.\<close>

definition found_lobby :: string where
  "found_lobby = CHR 0x7B # quoted ''Lobbies'' @ '':'' @ CHR ''['' # bare_lobby @ '']}''"

definition found_env :: http_env where
  "found_env = (\<lambda>i _ _ _ _. if i = 0 then Some (200, found_lobby) else None)"

lemma found_rows_one: "jarr_field 4 found_lobby ''Lobbies'' = Some [bare_lobby]"
proof -
  have v: "\<forall>(k, v) \<in> set [(''LobbyId'', ''a'')]. utf8_valid k \<and> utf8_valid v" "utf8_valid ''Lobbies''"
    by (simp_all add: utf8_valid_ascii is_ascii_def)
  have sk: "skip_value (Suc n) (bare_lobby @ '']}'') = Ok '']}''" for n
    using skip_members_text [OF v(1), of n "'']}''"]
    by (simp add: bare_lobby_def object_text_def skip_value.simps [of _ "CHR 0x7B # _"] jskip_id json_ws_def)
  have b: "\<exists>t. bare_lobby @ '']}'' = CHR 0x7B # t" by (simp add: bare_lobby_def object_text_def)
  have "find_value_start ''Lobbies'' found_lobby = Some (CHR ''['' # bare_lobby @ '']}'')"
    using find_quoted [OF v(2), of "CHR '':''" "''Lobbies''" "CHR ''['' # bare_lobby @ '']}''"]
    by (simp add: found_lobby_def find_plain jskip_id json_ws_def)
  moreover have "skip_value 4 (CHR ''['' # bare_lobby @ '']}'') = Ok ''}''"
  proof -
    obtain t where t: "bare_lobby @ '']}'' = CHR 0x7B # t" "length '']}'' < length (CHR 0x7B # t)"
      by (simp add: bare_lobby_def object_text_def)
    have "skip_elements 4 '']}'' = Ok ''}''" by (subst skip_elements.simps) (simp add: jskip_id json_ws_def)
    with t sk [of 2] have "skip_elements 4 (CHR 0x7B # t) = Ok ''}''"
      by (subst skip_elements.simps) (simp add: jskip_id json_ws_def numeral_eq_Suc)
    then show ?thesis unfolding t(1) by (subst skip_value.simps) (simp add: jskip_id json_ws_def)
  qed
  moreover have "arr_loop 4 [] (bare_lobby @ '']}'') = Ok [bare_lobby]"
  proof -
    obtain t where t: "bare_lobby @ '']}'' = CHR 0x7B # t" using b by blast
    have bt: "between (CHR 0x7B # t) '']}'' = bare_lobby" unfolding t [symmetric] by (simp add: between_def)
    have "arr_loop 4 [bare_lobby] '']}'' = Ok [bare_lobby]" by (subst arr_loop.simps) (simp add: jskip_id json_ws_def)
    then show ?thesis
      using sk [of 3] unfolding t by (subst arr_loop.simps) (simp add: jskip_id json_ws_def bt ARRAY_CAP_def)
  qed
  ultimately show ?thesis by (simp add: jarr_field_def json_arr_objects_def span_def kind_at_def)
qed

lemma found_result:
  "\<exists>r. search_result_of 4 bare_lobby = Some r \<and> sr_max_member r = 8 \<and> sr_current_member r = 1"
proof -
  have "split_nth1 (jfield ''CurrentPlayers'') bare_lobby = None" by code_simp
  then show ?thesis
    by (simp add: search_result_of_def bare_lobby_id bare_lobby_missing missing_field json_max_players_def scan_or_def
        current_players_def intern_owner_key_def u32_clamp_def)
qed

theorem find_results_bounded_witness:
  "\<exists>w w' code e ctx r. broker_thread_step 4 found_env 0 w = Some w' \<and> pend w' = [FindLobbiesCompleted code e ctx [r]] \<and>
     sr_max_member r = 8 \<and> sr_current_member r \<le> sr_max_member r"
proof -
  define w where "w = snd (PFMultiplayerFindLobbies True None None 0 (snd (PFMultiplayerInitialize True boot_world)))"
  obtain r where r: "search_result_of 4 bare_lobby = Some r" "sr_max_member r = 8" using found_result by blast
  obtain job m where w: "mw_worker w = Draining" "mw_jobs w = [Find job]" "mw_mp w = Some m" "fj_generation job = mp_generation m" "pend w = []"
    by (simp add: w_def PFMultiplayerFindLobbies_def PFMultiplayerInitialize_def boot_world_def mp_ready_def new_instance_def
        enqueue_job_def current_generation_def pend_def)
  have row: "find_row_live 4 found_env 1 (mw_auth w) bare_lobby = Some True"
    by (simp add: find_row_live_def bare_lobby_id found_env_def http_json_status_def)
  obtain w' code where w': "broker_thread_step 4 found_env 0 w = Some w'"
    "pend w' = [FindLobbiesCompleted code (fj_entity job) (fj_async_ctx job) [r]]"
    using w r row by (simp add: broker_thread_step_def run_find_def http_json_status_def found_env_def found_rows_def
        found_rows_one with_mp_def bare_lobby_missing missing_field pend_def mp_queue_def)
  with find_results_bounded [OF w(1-4) w'(1)] r w(5) have "sr_current_member r \<le> sr_max_member r" by auto
  with w' r(2) show ?thesis by blast
qed

section \<open>Sessions\<close>

text \<open>
  C19: after the title has shut the library down and initialized it again, running a job
  queued in an earlier session changes nothing, whatever the broker answers, as long as the
  64-bit generation counter has not wrapped.
\<close>

theorem restart_isolates:
  assumes "\<forall>j \<in> set (mw_jobs w). job_generation j \<le> mw_gen w" and "mw_gen w \<noteq> - 1" and "mw_mp w \<noteq> None"
    and "w1 = snd (PFMultiplayerInitialize True (snd (PFMultiplayerUninitialize True w)))"
    and "j \<in> set (mw_jobs w)" and "run_broker_job d env j w1 = Some w2"
  shows "w2 = w1"
proof -
  have "mw_gen w < mw_gen w + 1" using assms(2) by (metis inc_less_eq_triv_imp linorder_not_le)
  then have "job_generation j \<noteq> mw_gen w + 1" using assms(1,5) by auto
  moreover have "mw_mp w1 = Some (new_instance (mw_gen w + 1))"
    using assms(3,4) by (simp add: PFMultiplayerInitialize_def PFMultiplayerUninitialize_def mp_ready_def)
  ultimately show ?thesis
    using assms(6) by (cases j) (auto simp: new_instance_def with_mp_def run_create_def run_join_def run_find_def run_leave_def run_post_def Let_def
        split: prod.splits if_splits Option.bind_splits option.splits)
qed

theorem restart_isolates_witness:
  "\<exists>j w1. j \<in> set (mw_jobs refused_join_world) \<and>
     w1 = snd (PFMultiplayerInitialize True (snd (PFMultiplayerUninitialize True refused_join_world))) \<and>
     run_broker_job 0 (\<lambda>_ _ _ _ _. None) j w1 = Some w1"
proof -
  define w1 where "w1 = snd (PFMultiplayerInitialize True (snd (PFMultiplayerUninitialize True refused_join_world)))"
  obtain j where j: "mw_jobs refused_join_world = [j]" "job_generation j = 1" "mw_gen refused_join_world = 1" "mw_mp refused_join_world \<noteq> None"
    "\<exists>job. j = Join job"
    by (simp add: refused_join_world_def PFMultiplayerInitialize_def PFMultiplayerJoinLobby_def boot_world_def
        mp_ready_def new_instance_def Let_def enqueue_job_def push_lobby_def current_generation_def)
  then have "\<exists>w2. run_broker_job 0 (\<lambda>_ _ _ _ _. None) j w1 = Some w2"
    by (cases "mw_mp w1") (auto simp: run_join_def http_json_status_def with_mp_def)
  then obtain w2 where "run_broker_job 0 (\<lambda>_ _ _ _ _. None) j w1 = Some w2" by blast
  moreover from this have "w2 = w1" using j by (intro restart_isolates [OF _ _ _ w1_def]) simp_all
  ultimately show ?thesis using j(1) w1_def by auto
qed

end
