(* ===== verification/Steam_Pe.thy ===== *)
theory Steam_Pe
  imports Rust_Str "HOL-Library.Monad_Syntax"
begin

text \<open>
  \<open>steam-http-shim/src/pe.rs\<close>: patching one slot of the import address table of a loaded module.

  A module is the list of its mapped bytes; reading or writing outside them is an access
  violation, the outer \<open>None\<close> of every operation. \<open>VirtualProtect\<close> is a parameter: whether it makes
  the eight bytes of a slot writable. Offsets are \<open>usize\<close> values as natural numbers, with the
  checked additions of the code. The lemmas compare the walk with the list of all imports of the
  module and show when it stays inside the mapped bytes.
\<close>

section \<open>Reading a module\<close>

type_synonym image = bytes
type_synonym protect = "nat \<Rightarrow> bool"

definition usize_max :: nat where "usize_max = 2 ^ 64 - 1"

definition rd8 :: "image \<Rightarrow> nat \<Rightarrow> u8 option" where
  "rd8 m a = (if a < length m then Some (m ! a) else None)"

definition rd_le :: "image \<Rightarrow> nat \<Rightarrow> nat \<Rightarrow> nat option" where
  "rd_le m a n = map_option le_nat (get_slice m a n)"

definition wr64 :: "image \<Rightarrow> nat \<Rightarrow> u64 \<Rightarrow> image option" where
  "wr64 m a v = (if a + 8 \<le> length m then Some (blit a (le_bytes64 v) m) else None)"

datatype iat_error =
    NullModule | BadDosHeader | NotPe64 | BadImageSize | BadImportDirectory | SlotProtected | NotFound

definition in_image :: "nat \<Rightarrow> nat \<Rightarrow> nat \<Rightarrow> bool" where
  "in_image sz rva len \<longleftrightarrow> rva + len \<le> usize_max \<and> rva + len \<le> sz"

text \<open>The NUL-terminated string at \<open>rva\<close>, from position \<open>n\<close> on; the inner \<open>None\<close> is "no string here".\<close>

function image_cstr :: "image \<Rightarrow> nat \<Rightarrow> nat \<Rightarrow> nat \<Rightarrow> nat \<Rightarrow> string option option" where
  "image_cstr m rva sz cap n =
     (if n < cap then
        if usize_max < rva + n \<or> sz \<le> rva + n then Some None
        else do { b \<leftarrow> rd8 m (rva + n);
                  if b = 0 then Some (Some (utf8_lossy (of_bytes (take n (drop rva m)))))
                  else image_cstr m rva sz cap (Suc n) }
      else Some None)"
  by pat_completeness auto
termination by (relation "measure (\<lambda>(m, rva, sz, cap, n). cap - n)") auto

declare image_cstr.simps [simp del]

section \<open>The walk\<close>

type_synonym patched = "iat_error + nat \<times> image"

definition patch_iat :: "protect \<Rightarrow> image \<Rightarrow> nat \<Rightarrow> u64 \<Rightarrow> patched option" where
  "patch_iat vp m slot new =
     do { old \<leftarrow> rd_le m slot 8;
          if \<not> vp slot then Some (Inl SlotProtected)
          else do { m' \<leftarrow> wr64 m slot new; Some (Inr (old, m')) } }"

text \<open>
  The thunks of one descriptor, from index \<open>i\<close> on with \<open>left\<close> iterations to go; the inner \<open>None\<close>
  is the end of the inner loop without a match.
\<close>

fun walk_thunks :: "protect \<Rightarrow> image \<Rightarrow> nat \<Rightarrow> string \<Rightarrow> u64 \<Rightarrow> nat \<Rightarrow> nat \<Rightarrow> nat \<Rightarrow> nat \<Rightarrow> patched option option" where
  "walk_thunks vp m sz func new ilt iat i 0 = Some None"
| "walk_thunks vp m sz func new ilt iat i (Suc left) =
     (if \<not> in_image sz (ilt + i * 8) 8 \<or> \<not> in_image sz (iat + i * 8) 8 then Some None
      else do { entry \<leftarrow> rd_le m (ilt + i * 8) 8;
                if entry = 0 then Some None
                else if entry < 2 ^ 63 then
                  do { fname \<leftarrow> image_cstr m (entry + 2) sz 128 0;
                       if fname = Some func
                       then map_option Some (patch_iat vp m (iat + i * 8) new)
                       else walk_thunks vp m sz func new ilt iat (Suc i) left }
                else walk_thunks vp m sz func new ilt iat (Suc i) left })"

fun walk_descs :: "protect \<Rightarrow> image \<Rightarrow> nat \<Rightarrow> string \<Rightarrow> string \<Rightarrow> u64 \<Rightarrow> nat \<Rightarrow> nat \<Rightarrow> nat \<Rightarrow> patched option" where
  "walk_descs vp m sz dll func new rva i 0 = Some (Inl NotFound)"
| "walk_descs vp m sz dll func new rva i (Suc left) =
     (if \<not> in_image sz (rva + i * 20) 20 then Some (Inl NotFound)
      else do { orig_thunk \<leftarrow> rd_le m (rva + i * 20) 4;
                name_rva \<leftarrow> rd_le m (rva + i * 20 + 12) 4;
                first_thunk \<leftarrow> rd_le m (rva + i * 20 + 16) 4;
                if name_rva = 0 \<and> first_thunk = 0 then Some (Inl NotFound)
                else if name_rva = 0 \<or> first_thunk = 0 \<or> \<not> in_image sz name_rva 2
                then walk_descs vp m sz dll func new rva (Suc i) left
                else do { iname \<leftarrow> image_cstr m name_rva sz 128 0;
                          case iname of
                            None \<Rightarrow> walk_descs vp m sz dll func new rva (Suc i) left
                          | Some nm \<Rightarrow>
                              if \<not> eq_ignore_ascii_case nm dll
                              then walk_descs vp m sz dll func new rva (Suc i) left
                              else
                                let ilt = (if orig_thunk \<noteq> 0 then orig_thunk else first_thunk)
                                in if \<not> in_image sz ilt 8 \<or> \<not> in_image sz first_thunk 8
                                   then walk_descs vp m sz dll func new rva (Suc i) left
                                   else do { r \<leftarrow> walk_thunks vp m sz func new ilt first_thunk 0 4096;
                                             case r of
                                               Some res \<Rightarrow> Some res
                                             | None \<Rightarrow> walk_descs vp m sz dll func new rva (Suc i) left } } })"

definition pe_replace :: "protect \<Rightarrow> image option \<Rightarrow> string \<Rightarrow> string \<Rightarrow> u64 \<Rightarrow> patched option" where
  "pe_replace vp md dll func new =
     (case md of
        None \<Rightarrow> Some (Inl NullModule)
      | Some m \<Rightarrow>
          do { e_lfanew \<leftarrow> rd_le m 0x3C 4;
               if \<not> (0x40 \<le> e_lfanew \<and> e_lfanew \<le> 0x1000) then Some (Inl BadDosHeader)
               else do { magic \<leftarrow> rd_le m (e_lfanew + 24) 2;
                         if magic \<noteq> 0x20B then Some (Inl NotPe64)
                         else do { sz \<leftarrow> rd_le m (e_lfanew + 24 + 56) 4;
                                   if sz < 0x1000 then Some (Inl BadImageSize)
                                   else do { import_rva \<leftarrow> rd_le m (e_lfanew + 24 + 120) 4;
                                             if \<not> in_image sz import_rva 20 then Some (Inl BadImportDirectory)
                                             else walk_descs vp m sz dll func new import_rva 0 256 } } } })"

section \<open>Code stubs\<close>

text \<open>\<open>for i in 0..code.len().saturating_sub(5)\<close>, from \<open>i\<close> on.\<close>

fun mov_scan :: "bytes \<Rightarrow> nat list \<Rightarrow> u32 option" where
  "mov_scan code [] = None"
| "mov_scan code (i # is) =
     (if code ! i = 0xB8
      then Some (from_le32 (code ! (i + 1)) (code ! (i + 2)) (code ! (i + 3)) (code ! (i + 4)))
      else mov_scan code is)"

definition mov_eax_imm :: "bytes \<Rightarrow> u32 option" where
  "mov_eax_imm code =
     (if length code \<ge> 5 \<and> code ! 0 = 0xB8
      then Some (from_le32 (code ! 1) (code ! 2) (code ! 3) (code ! 4))
      else mov_scan code [0..<length code - 5])"

section \<open>The imports of a module\<close>

text \<open>
  What the walk looks for, as a list: the names and slots of one thunk table, and of all the
  descriptors. Reads are total here, 0 outside the mapped bytes.
\<close>

definition le_at :: "image \<Rightarrow> nat \<Rightarrow> nat \<Rightarrow> nat" where
  "le_at m a n = unwrap_or (rd_le m a n) 0"

definition name_at :: "image \<Rightarrow> nat \<Rightarrow> nat \<Rightarrow> string option" where
  "name_at m sz rva = unwrap_or (image_cstr m rva sz 128 0) None"

fun thunk_names :: "image \<Rightarrow> nat \<Rightarrow> nat \<Rightarrow> nat \<Rightarrow> nat \<Rightarrow> nat \<Rightarrow> (string \<times> nat) list" where
  "thunk_names m sz ilt iat i 0 = []"
| "thunk_names m sz ilt iat i (Suc left) =
     (let entry = le_at m (ilt + i * 8) 8
      in if \<not> in_image sz (ilt + i * 8) 8 \<or> \<not> in_image sz (iat + i * 8) 8 \<or> entry = 0 then []
         else (case (if entry < 2 ^ 63 then name_at m sz (entry + 2) else None) of
                 Some f \<Rightarrow> [(f, iat + i * 8)]
               | None \<Rightarrow> []) @ thunk_names m sz ilt iat (Suc i) left)"

definition desc_imports :: "image \<Rightarrow> nat \<Rightarrow> nat \<Rightarrow> (string \<times> string \<times> nat) list" where
  "desc_imports m sz d =
     (let orig_thunk = le_at m d 4; name_rva = le_at m (d + 12) 4; first_thunk = le_at m (d + 16) 4;
          ilt = (if orig_thunk \<noteq> 0 then orig_thunk else first_thunk)
      in if name_rva = 0 \<or> first_thunk = 0 \<or> \<not> in_image sz name_rva 2 then []
         else case name_at m sz name_rva of
                None \<Rightarrow> []
              | Some nm \<Rightarrow>
                  if \<not> in_image sz ilt 8 \<or> \<not> in_image sz first_thunk 8 then []
                  else map (Pair nm) (thunk_names m sz ilt first_thunk 0 4096))"

fun imports_from :: "image \<Rightarrow> nat \<Rightarrow> nat \<Rightarrow> nat \<Rightarrow> nat \<Rightarrow> (string \<times> string \<times> nat) list" where
  "imports_from m sz rva i 0 = []"
| "imports_from m sz rva i (Suc left) =
     (if \<not> in_image sz (rva + i * 20) 20 \<or>
         (le_at m (rva + i * 20 + 12) 4 = 0 \<and> le_at m (rva + i * 20 + 16) 4 = 0) then []
      else desc_imports m sz (rva + i * 20) @ imports_from m sz rva (Suc i) left)"

definition the_import :: "string \<Rightarrow> string \<Rightarrow> (string \<times> string \<times> nat) list \<Rightarrow> nat option" where
  "the_import dll func is =
     map_option (\<lambda>(d, f, s). s) (List.find (\<lambda>(d, f, s). eq_ignore_ascii_case d dll \<and> f = func) is)"

definition lookup_and_patch :: "protect \<Rightarrow> image \<Rightarrow> u64 \<Rightarrow> nat option \<Rightarrow> patched option" where
  "lookup_and_patch vp m new s = (case s of None \<Rightarrow> Some (Inl NotFound) | Some slot \<Rightarrow> patch_iat vp m slot new)"

section \<open>The walk stays inside the image\<close>

lemma rd_le_Some: "a + n \<le> length m \<Longrightarrow> rd_le m a n = Some (le_at m a n)"
  by (simp add: rd_le_def le_at_def get_slice_def)

lemma in_image_mapped: "in_image sz a n \<Longrightarrow> sz \<le> length m \<Longrightarrow> a + n \<le> length m"
  by (simp add: in_image_def)

lemma image_cstr_Some: "sz \<le> length m \<Longrightarrow> image_cstr m rva sz cap n \<noteq> None"
proof (induction m rva sz cap n rule: image_cstr.induct)
  case (1 m rva sz cap n)
  then show ?case by (subst image_cstr.simps) (auto simp: rd8_def)
qed

lemma image_cstr_name: "sz \<le> length m \<Longrightarrow> image_cstr m rva sz 128 0 = Some (name_at m sz rva)"
  using image_cstr_Some [of sz m rva 128 0] by (auto simp: name_at_def)

lemma thunks_find:
  assumes "sz \<le> length m"
  shows "walk_thunks vp m sz func new ilt iat i left =
    (case List.find (\<lambda>(f, s). f = func) (thunk_names m sz ilt iat i left) of
       None \<Rightarrow> Some None
     | Some (f, s) \<Rightarrow> map_option Some (patch_iat vp m s new))"
proof (induction left arbitrary: i)
  case (Suc left)
  show ?case
  proof (cases "in_image sz (ilt + i * 8) 8 \<and> in_image sz (iat + i * 8) 8")
    case True
    then have r: "rd_le m (ilt + i * 8) 8 = Some (le_at m (ilt + i * 8) 8)"
      using in_image_mapped [OF _ assms] rd_le_Some by blast
    show ?thesis
      using True Suc.IH by (auto simp: r image_cstr_name [OF assms] Let_def split: option.split)
  qed auto
qed simp

lemma find_append: "List.find P (xs @ ys) = (case List.find P xs of None \<Rightarrow> List.find P ys | Some x \<Rightarrow> Some x)"
  by (induction xs) simp_all

lemma the_import_append:
  "the_import dll func (xs @ ys) = (case the_import dll func xs of None \<Rightarrow> the_import dll func ys | Some s \<Rightarrow> Some s)"
  by (auto simp: the_import_def find_append split: option.split)

lemma the_import_named:
  "the_import dll func (map (Pair nm) ts) =
   (if eq_ignore_ascii_case nm dll then map_option snd (List.find (\<lambda>(f, s). f = func) ts) else None)"
  unfolding the_import_def by (induction ts) auto

lemma bind_map_Some: "map_option Some x \<bind> case_option z Some = x"
  by (cases x) simp_all

lemma descs_find:
  assumes sz: "sz \<le> length m"
  shows "walk_descs vp m sz dll func new rva i left =
    lookup_and_patch vp m new (the_import dll func (imports_from m sz rva i left))"
proof (induction left arbitrary: i)
  case 0
  show ?case by (simp add: lookup_and_patch_def the_import_def)
next
  case (Suc left)
  let ?d = "rva + i * 20"
  show ?case
  proof (cases "in_image sz ?d 20")
    case True
    then have "?d + 20 \<le> length m" using in_image_mapped sz by blast
    then have r: "rd_le m ?d 4 = Some (le_at m ?d 4)" "rd_le m (?d + 12) 4 = Some (le_at m (?d + 12) 4)"
      "rd_le m (?d + 16) 4 = Some (le_at m (?d + 16) 4)"
      by (simp_all add: rd_le_Some)
    have n: "the_import dll func [] = None" by (simp add: the_import_def)
    define nr ft where "nr = le_at m (?d + 12) 4" and "ft = le_at m (?d + 16) 4"
    define ilt where "ilt = (if le_at m ?d 4 \<noteq> 0 then le_at m ?d 4 else ft)"
    define rest where "rest = the_import dll func (imports_from m sz rva (Suc i) left)"
    have d: "desc_imports m sz ?d =
        (if nr = 0 \<or> ft = 0 \<or> \<not> in_image sz nr 2 then []
         else case name_at m sz nr of
                None \<Rightarrow> []
              | Some nm \<Rightarrow> if \<not> in_image sz ilt 8 \<or> \<not> in_image sz ft 8 then []
                  else map (Pair nm) (thunk_names m sz ilt ft 0 4096))"
      unfolding desc_imports_def nr_def ft_def ilt_def Let_def by (rule refl)
    have i: "the_import dll func (imports_from m sz rva i (Suc left)) =
        (if nr = 0 \<and> ft = 0 then None
         else case the_import dll func (desc_imports m sz ?d) of None \<Rightarrow> rest | Some s \<Rightarrow> Some s)"
      using True by (simp add: nr_def [symmetric] ft_def [symmetric] n the_import_append rest_def split: option.split)
    have w: "walk_descs vp m sz dll func new rva i (Suc left) =
        (if nr = 0 \<and> ft = 0 then Some (Inl NotFound)
         else if nr = 0 \<or> ft = 0 \<or> \<not> in_image sz nr 2 then lookup_and_patch vp m new rest
         else case name_at m sz nr of
                None \<Rightarrow> lookup_and_patch vp m new rest
              | Some nm \<Rightarrow>
                  if \<not> eq_ignore_ascii_case nm dll \<or> \<not> in_image sz ilt 8 \<or> \<not> in_image sz ft 8 then lookup_and_patch vp m new rest
                  else do { r \<leftarrow> walk_thunks vp m sz func new ilt ft 0 4096;
                            case r of Some res \<Rightarrow> Some res | None \<Rightarrow> lookup_and_patch vp m new rest })"
      using True Suc.IH
      by (cases "le_at m ?d 4 = 0")
        (simp_all add: r nr_def [symmetric] ft_def [symmetric] ilt_def rest_def image_cstr_name [OF sz] Let_def
          split: option.split)
    show ?thesis
      unfolding i w d
      by (auto simp: n the_import_named thunks_find [OF sz] lookup_and_patch_def bind_map_Some split: option.split)
  qed (simp add: lookup_and_patch_def the_import_def)
qed

lemma thunk_slots: "(f, s) \<in> set (thunk_names m sz ilt iat i left) \<Longrightarrow> in_image sz s 8"
  by (induction left arbitrary: i) (auto simp: Let_def split: option.splits if_splits)

lemma import_slots: "(d, f, s) \<in> set (imports_from m sz rva i left) \<Longrightarrow> in_image sz s 8"
  by (induction left arbitrary: i)
    (auto simp: desc_imports_def Let_def split: option.splits if_splits dest: thunk_slots)

lemma find_in_set: "List.find P xs = Some x \<Longrightarrow> x \<in> set xs"
  by (induction xs) (auto split: if_splits)

lemma the_import_slot: "the_import dll func (imports_from m sz rva i left) = Some s \<Longrightarrow> in_image sz s 8"
  by (auto simp: the_import_def dest!: find_in_set import_slots)

section \<open>Patching an import\<close>

definition e_lfanew :: "image \<Rightarrow> nat" where "e_lfanew m = le_at m 0x3C 4"
definition image_size :: "image \<Rightarrow> nat" where "image_size m = le_at m (e_lfanew m + 24 + 56) 4"
definition import_dir :: "image \<Rightarrow> nat" where "import_dir m = le_at m (e_lfanew m + 24 + 120) 4"

definition header_error :: "image \<Rightarrow> iat_error option" where
  "header_error m =
     (if \<not> (0x40 \<le> e_lfanew m \<and> e_lfanew m \<le> 0x1000) then Some BadDosHeader
      else if le_at m (e_lfanew m + 24) 2 \<noteq> 0x20B then Some NotPe64
      else if image_size m < 0x1000 then Some BadImageSize
      else if \<not> in_image (image_size m) (import_dir m) 20 then Some BadImportDirectory
      else None)"

definition import_list :: "image \<Rightarrow> (string \<times> string \<times> nat) list" where
  "import_list m = imports_from m (image_size m) (import_dir m) 0 256"

text \<open>The image is mapped in full, and so is the window in which the headers may lie.\<close>

definition well_mapped :: "image \<Rightarrow> bool" where
  "well_mapped m \<longleftrightarrow> 0x1000 + 24 + 124 \<le> length m \<and> image_size m \<le> length m"

lemma pe_replace_eq:
  assumes "well_mapped m"
  shows "pe_replace vp (Some m) dll func new =
    (case header_error m of
       Some e \<Rightarrow> Some (Inl e)
     | None \<Rightarrow> lookup_and_patch vp m new (the_import dll func (import_list m)))"
proof -
  have l: "0x1000 + 24 + 124 \<le> length m" "image_size m \<le> length m" using assms by (simp_all add: well_mapped_def)
  have e: "rd_le m 0x3C 4 = Some (e_lfanew m)" using l(1) by (simp add: e_lfanew_def rd_le_Some)
  have h: "rd_le m (e_lfanew m + 24) 2 = Some (le_at m (e_lfanew m + 24) 2)"
    "rd_le m (e_lfanew m + 24 + 56) 4 = Some (image_size m)"
    "rd_le m (e_lfanew m + 24 + 120) 4 = Some (import_dir m)" if "e_lfanew m \<le> 0x1000"
    using l(1) that by (simp_all add: image_size_def import_dir_def rd_le_Some del: add_2_eq_Suc')
  show ?thesis
    using h by (auto simp: pe_replace_def e header_error_def descs_find [OF l(2)] import_list_def simp del: add_2_eq_Suc')
qed

lemma import_mapped:
  assumes "well_mapped m" and "the_import dll func (import_list m) = Some slot"
  shows "slot + 8 \<le> length m" and "patch_iat vp m slot new =
    Some (if vp slot then Inr (le_at m slot 8, blit slot (le_bytes64 new) m) else Inl SlotProtected)"
proof -
  show s: "slot + 8 \<le> length m"
    using the_import_slot [OF assms(2) [unfolded import_list_def]] assms(1) by (simp add: well_mapped_def in_image_def)
  then show "patch_iat vp m slot new =
      Some (if vp slot then Inr (le_at m slot 8, blit slot (le_bytes64 new) m) else Inl SlotProtected)"
    by (simp add: patch_iat_def rd_le_Some wr64_def)
qed

text \<open>
  A module that imports \<open>A.dll!f\<close>: headers at \<open>0x40\<close>, the import directory at \<open>0xD8\<close>, one
  descriptor with its name table at \<open>0x100\<close> and its address table at \<open>0x110\<close>.
\<close>

definition demo_tables :: image where
  "demo_tables = replicate 0x3C 0 @ le_bytes32 0x40 @ replicate 24 0 @ [0x0B, 0x02] @ replicate 54 0 @ le_bytes32 0x1000 @
     replicate 60 0 @ le_bytes32 0xD8 @ replicate 4 0 @
     le_bytes32 0x100 @ replicate 8 0 @ le_bytes32 0x120 @ le_bytes32 0x110 @ replicate 20 0 @
     le_bytes64 0x126 @ replicate 8 0 @ le_bytes64 0x77 @ replicate 8 0"

definition demo_image :: image where
  "demo_image = demo_tables @ [0x41, 0x2E, 0x64, 0x6C, 0x6C] @ 0 # [0, 0] @ [0x66] @ 0 # replicate 0x1000 0"

lemma le_at_skip: "length p \<le> a \<Longrightarrow> le_at (p @ q) a n = le_at q (a - length p) n"
  by (auto simp: le_at_def rd_le_def get_slice_def)

lemma le_at_Cons: "0 < a \<Longrightarrow> le_at (b # q) a n = le_at q (a - 1) n"
  using le_at_skip [of "[b]" a q n] by simp

lemma le_at_here: "length p = n \<Longrightarrow> le_at (p @ q) 0 n = le_nat p"
  by (auto simp: le_at_def rd_le_def get_slice_def)

lemma le_nat_zeros: "le_nat (replicate k 0) = 0"
  by (induction k) (simp_all add: le_nat_def)

lemma le_at_zeros: "a + n \<le> k \<Longrightarrow> le_at (replicate k 0 @ q) a n = 0"
  by (auto simp: le_at_def rd_le_def get_slice_def le_nat_zeros)

lemma image_cstr_at:
  assumes "0 \<notin> set bs" "length bs < cap" "length p + length bs < sz" "sz \<le> usize_max" "n \<le> length bs"
  shows "image_cstr (p @ bs @ 0 # q) (length p) sz cap n = Some (Some (utf8_lossy (of_bytes bs)))"
  using assms(5)
proof (induction "length bs - n" arbitrary: n)
  case 0
  then show ?case using assms(1-4) by (subst image_cstr.simps) (simp add: rd8_def nth_append)
next
  case (Suc k)
  then have n: "n < length bs" by simp
  then have "bs ! n \<noteq> 0" using assms(1) nth_mem by metis
  then show ?case using assms(2-4) n Suc(2) Suc(1) [of "Suc n"]
    by (subst image_cstr.simps) (simp add: rd8_def nth_append)
qed

lemma length_demo_tables [simp]: "length demo_tables = 0x120"
  by (simp add: demo_tables_def)

lemma demo_reads:
  "le_at demo_image 0x3C 4 = 0x40" "le_at demo_image 0x58 2 = 0x20B" "le_at demo_image 0x90 4 = 0x1000"
  "le_at demo_image 0xD0 4 = 0xD8" "le_at demo_image 0xD8 4 = 0x100" "le_at demo_image 0xE4 4 = 0x120"
  "le_at demo_image 0xE8 4 = 0x110" "le_at demo_image 0xF8 4 = 0" "le_at demo_image 0xFC 4 = 0"
  "le_at demo_image 0x100 8 = 0x126" "le_at demo_image 0x108 8 = 0"  "le_at demo_image 0x110 8 = 0x77"
  by (simp_all add: demo_image_def demo_tables_def le_at_skip le_at_Cons le_at_here le_at_zeros le_nat_zeros)
    (simp add: le_at_def rd_le_def get_slice_def le_nat_def)

lemma demo_names:
  "name_at demo_image 0x1000 0x120 = Some ''A.dll''" "name_at demo_image 0x1000 0x128 = Some ''f''"
proof -
  have s: "utf8_lossy (of_bytes [0x41, 0x2E, 0x64, 0x6C, 0x6C]) = ''A.dll''" "utf8_lossy (of_bytes [0x66]) = ''f''"
    by code_simp+
  show "name_at demo_image 0x1000 0x120 = Some ''A.dll''"
    using image_cstr_at [where bs = "[0x41, 0x2E, 0x64, 0x6C, 0x6C]" and cap = 128 and p = demo_tables and sz = "0x1000" and n = 0]
    by (simp add: name_at_def demo_image_def usize_max_def s)
  show "name_at demo_image 0x1000 0x128 = Some ''f''"
    using image_cstr_at [where bs = "[0x66]" and cap = 128 and sz = "0x1000" and n = 0
        and p = "demo_tables @ [0x41, 0x2E, 0x64, 0x6C, 0x6C] @ 0 # [0, 0]"]
    by (simp add: name_at_def demo_image_def usize_max_def s)
qed

lemma demo_header: "e_lfanew demo_image = 0x40" "image_size demo_image = 0x1000" "import_dir demo_image = 0xD8"
  by (simp_all add: e_lfanew_def image_size_def import_dir_def demo_reads)

lemma demo_imports: "import_list demo_image = [(''A.dll'', ''f'', 0x110)]"
proof -
  have t: "thunk_names demo_image 0x1000 0x100 0x110 0 4096 = [(''f'', 0x110)]"
    using thunk_names.simps(2) [where m = demo_image and sz = "0x1000" and ilt = "0x100" and iat = "0x110" and i = 0 and left = 4095]
      thunk_names.simps(2) [where m = demo_image and sz = "0x1000" and ilt = "0x100" and iat = "0x110" and i = 1 and left = 4094]
    by (simp add: demo_reads demo_names in_image_def usize_max_def)
  have "desc_imports demo_image 0x1000 0xD8 = [(''A.dll'', ''f'', 0x110)]"
    by (simp add: desc_imports_def demo_reads demo_names in_image_def usize_max_def t)
  then show ?thesis
    using imports_from.simps(2) [where m = demo_image and sz = "0x1000" and rva = "0xD8" and i = 0 and left = 255] 
      imports_from.simps(2) [where m = demo_image and sz = "0x1000" and rva = "0xD8" and i = 1 and left = 254]
    by (simp add: import_list_def demo_header demo_reads in_image_def usize_max_def)
qed

lemma demo_well_mapped: "well_mapped demo_image" "header_error demo_image = None"
  by (simp_all add: well_mapped_def header_error_def demo_header demo_reads in_image_def usize_max_def)
    (simp add: demo_image_def)

lemma demo_the_import: "the_import ''a.dll'' ''f'' (import_list demo_image) = Some 0x110"
proof -
  have "eq_ignore_ascii_case ''A.dll'' ''a.dll''" by code_simp
  then show ?thesis by (simp add: the_import_def demo_imports)
qed

text \<open>
  C0: On a module that is mapped in full, patching an import returns the error the headers call for,
  or is the lookup of \<open>dll!func\<close> in the list of all imports of the module: nothing found, or the slot of
  the first match, which lies inside the module and is the only thing written, unless its page cannot be
  made writable. No read or write leaves the module.
\<close>

text \<open>
  C22: on a module that is mapped in full, patching an import returns the error the headers
  call for, or is the lookup of dll!func in the list of all imports of the module: nothing
  found, or the slot of the first match, which lies inside the module and is the only thing
  written, unless its page cannot be made writable.
\<close>

theorem pe_replace_spec:
  assumes "well_mapped m"
  shows "case header_error m of
      Some e \<Rightarrow> pe_replace vp (Some m) dll func new = Some (Inl e)
    | None \<Rightarrow>
        (case the_import dll func (import_list m) of
           None \<Rightarrow> pe_replace vp (Some m) dll func new = Some (Inl NotFound)
         | Some slot \<Rightarrow> slot + 8 \<le> length m \<and> pe_replace vp (Some m) dll func new =
             Some (if vp slot then Inr (le_at m slot 8, blit slot (le_bytes64 new) m) else Inl SlotProtected))"
  using import_mapped [OF assms]
  by (auto simp: pe_replace_eq [OF assms] lookup_and_patch_def split: option.split)

theorem pe_replace_spec_witness:
  "pe_replace (\<lambda>_. True) (Some demo_image) ''a.dll'' ''f'' 0x55 = Some (Inr (0x77, blit 0x110 (le_bytes64 0x55) demo_image))"
  using pe_replace_spec [OF demo_well_mapped(1), of "\<lambda>_. True" "''a.dll''" "''f''" "0x55"]
  by (simp add: demo_well_mapped demo_the_import demo_reads)

text \<open>
  C0: A successful patch changes exactly the eight bytes of the slot of \<open>dll!func\<close>: the slot then reads
  as the new pointer, what it read before is what is returned, and the rest of the module is as it was.
\<close>

theorem pe_replace_one_slot:
  assumes "pe_replace vp (Some m) dll func new = Some (Inr (old, m'))" and "well_mapped m"
  shows "\<exists>slot. the_import dll func (import_list m) = Some slot \<and> le_at m slot 8 = old \<and> le_at m' slot 8 = unat new \<and>
    length m' = length m \<and> (\<forall>a. a < slot \<or> slot + 8 \<le> a \<longrightarrow> a < length m \<longrightarrow> m' ! a = m ! a)"
proof -
  obtain slot where s: "the_import dll func (import_list m) = Some slot" "le_at m slot 8 = old" "slot + 8 \<le> length m"
    "m' = blit slot (le_bytes64 new) m"
    using assms(1) import_mapped [OF assms(2)]
    by (auto simp: pe_replace_eq [OF assms(2)] lookup_and_patch_def split: option.splits if_splits)
  have "get_slice m' slot 8 = Some (le_bytes64 new)"
    using s(3) by (simp add: s(4) get_slice_def blit_def)
  then have "le_at m' slot 8 = unat new" by (simp add: le_at_def rd_le_def)
  moreover have "m' ! a = m ! a" if "a < slot \<or> slot + 8 \<le> a" "a < length m" for a
    using s(3) that by (auto simp: s(4) nth_blit)
  ultimately show ?thesis using s by auto
qed

theorem pe_replace_one_slot_witness:
  "\<exists>m'. pe_replace (\<lambda>_. True) (Some demo_image) ''a.dll'' ''f'' 0x55 = Some (Inr (0x77, m')) \<and>
     le_at m' 0x110 8 = 0x55 \<and> length m' = length demo_image"
proof -
  have "pe_replace (\<lambda>_. True) (Some demo_image) ''a.dll'' ''f'' 0x55 =
      Some (Inr (0x77, blit 0x110 (le_bytes64 0x55) demo_image))"
    using import_mapped [OF demo_well_mapped(1) demo_the_import]
    by (simp add: pe_replace_eq [OF demo_well_mapped(1)] demo_well_mapped demo_the_import lookup_and_patch_def demo_reads)
  with pe_replace_one_slot [OF this demo_well_mapped(1)] show ?thesis by (auto simp: demo_the_import)
qed

text \<open>
  The header reads come before the size of the image is known and are not checked: a module of
  one page whose header offset is the largest the code accepts is read outside its pages.
\<close>

theorem pe_header_unchecked:
  assumes "length m = 0x1000" and "le_at m 0x3C 4 = 0x1000"
  shows "pe_replace vp (Some m) dll func new = None"
proof -
  have "rd_le m 0x3C 4 = Some 0x1000" using assms by (simp add: rd_le_Some)
  moreover have "rd_le m (0x1000 + 24) 2 = None" using assms(1) by (simp add: rd_le_def get_slice_None_iff)
  ultimately show ?thesis by (simp add: pe_replace_def)
qed

theorem pe_header_unchecked_witness:
  "pe_replace (\<lambda>_. True) (Some (replicate 0x3C 0 @ le_bytes32 0x1000 @ replicate 0xFC0 0)) ''a.dll'' ''f'' 0x55 = None"
  by (rule pe_header_unchecked) (simp_all add: le_at_skip le_at_here)

lemma mov_scan_skip: "(\<forall>i \<in> set xs. code ! i \<noteq> 0xB8) \<Longrightarrow> mov_scan code (xs @ ys) = mov_scan code ys"
  by (induction xs) simp_all

lemma from_le32_at:
  "c = pre @ b # le_bytes32 v @ rest \<Longrightarrow> i = length pre \<Longrightarrow>
   from_le32 (c ! (i + 1)) (c ! (i + 2)) (c ! (i + 3)) (c ! (i + 4)) = v"
  by (simp add: nth_append le_bytes32_def from_le32_le_bytes32)

text \<open>
  C0: The scan for \<open>mov eax, imm32\<close> finds the first opcode byte, except that an instruction which ends
  exactly at the end of the code (and is not at its start) is not seen.
\<close>

theorem mov_eax_imm_finds:
  assumes "0xB8 \<notin> set pre"
  shows "mov_eax_imm (pre @ 0xB8 # le_bytes32 v @ rest) = (if pre = [] \<or> rest \<noteq> [] then Some v else None)"
proof (cases "pre = []")
  case True
  then show ?thesis using from_le32_at [of _ "[]" "0xB8" v rest 0] by (simp add: mov_eax_imm_def)
next
  case False
  define c where "c = pre @ 0xB8 # le_bytes32 v @ rest"
  have skip: "\<forall>i \<in> set [0..<length pre]. c ! i \<noteq> 0xB8"
    using assms by (auto simp: c_def nth_append) (metis nth_mem)
  have "c ! 0 \<noteq> 0xB8" using skip False by simp
  moreover have "length c - 5 = length pre + length rest" by (simp add: c_def)
  moreover have "[0..<length pre + length rest] = [0..<length pre] @ [length pre..<length pre + length rest]"
    by (rule upt_add_eq_append) simp
  ultimately have e: "mov_eax_imm c = mov_scan c [length pre..<length pre + length rest]"
    using mov_scan_skip [OF skip] by (simp add: mov_eax_imm_def)
  have "mov_scan c [length pre..<length pre + length rest] = (if rest = [] then None else Some v)"
  proof (cases "rest = []")
    case False
    then have "[length pre..<length pre + length rest] = length pre # [Suc (length pre)..<length pre + length rest]"
      by (intro upt_conv_Cons) simp
    moreover have "c ! length pre = 0xB8" by (simp add: c_def)
    ultimately show ?thesis using from_le32_at [OF c_def refl] False by simp
  qed simp
  with e False show ?thesis by (simp add: c_def)
qed

theorem mov_eax_imm_finds_witness: "mov_eax_imm ([0x90] @ 0xB8 # le_bytes32 1 @ []) = None"
  by (subst mov_eax_imm_finds) simp_all

end
