(* ===== verification/Steam_Abi.thy ===== *)
theory Steam_Abi
  imports Json_Scan Steam_Pe
begin

text \<open>
  \<open>steam-http-shim/src/abi.rs\<close>: the bytes of the two callback structures the shim hands to the
  game, and the bridges between C strings, UTF-16 strings and Rust strings.

  A pointer to text is an option, null being \<open>None\<close>; the list is the memory readable from it, which
  by the contract of the functions holds a terminator or is longer than the scan. The structures
  are read back at the offsets of the SDK, and a string survives the way to UTF-16 and back.
\<close>

section \<open>UTF-16\<close>

text \<open>The scalar value that a well-formed UTF-8 sequence encodes, and \<open>str::chars\<close>.\<close>

definition utf8_scalar :: "nat list \<Rightarrow> nat" where
  "utf8_scalar bs =
     (case bs of
        [a] \<Rightarrow> a
      | [a, b] \<Rightarrow> (a - 0xC0) * 0x40 + (b - 0x80)
      | [a, b, c] \<Rightarrow> (a - 0xE0) * 0x1000 + (b - 0x80) * 0x40 + (c - 0x80)
      | [a, b, c, d] \<Rightarrow> (a - 0xF0) * 0x40000 + (b - 0x80) * 0x1000 + (c - 0x80) * 0x40 + (d - 0x80)
      | _ \<Rightarrow> 0)"

function utf8_chars :: "string \<Rightarrow> nat list" where
  "utf8_chars s =
     (if s = [] then []
      else (case utf8_step_str s of (ok, n) \<Rightarrow> utf8_scalar (map ord_char (take n s)) # utf8_chars (drop n s)))"
  by pat_completeness auto
termination
  by (relation "measure length") (use utf8_step_str_shrinks in \<open>force+\<close>)

declare utf8_chars.simps [simp del]

definition utf16_units :: "nat \<Rightarrow> u16 list" where
  "utf16_units cp =
     (if cp < 0x10000 then [of_nat cp]
      else [of_nat (0xD800 + (cp - 0x10000) div 0x400), of_nat (0xDC00 + (cp - 0x10000) mod 0x400)])"

definition encode_utf16 :: "string \<Rightarrow> u16 list" where
  "encode_utf16 s = concat (map utf16_units (utf8_chars s))"

definition push_lossy :: "nat \<Rightarrow> string" where
  "push_lossy cp = unwrap_or (push_char cp) [CHR 0xEF, CHR 0xBF, CHR 0xBD]"

definition high_surrogate :: "nat \<Rightarrow> bool" where "high_surrogate u \<longleftrightarrow> 0xD800 \<le> u \<and> u < 0xDC00"
definition low_surrogate :: "nat \<Rightarrow> bool" where "low_surrogate u \<longleftrightarrow> 0xDC00 \<le> u \<and> u < 0xE000"

text \<open>\<open>String::from_utf16_lossy\<close>: an unpaired surrogate is U+FFFD and the next unit is looked at again.\<close>

fun from_utf16_lossy :: "u16 list \<Rightarrow> string" where
  "from_utf16_lossy [] = []"
| "from_utf16_lossy [u] = push_lossy (unat u)"
| "from_utf16_lossy (u # v # r) =
     (if high_surrogate (unat u) \<and> low_surrogate (unat v)
      then push_lossy (0x10000 + (unat u - 0xD800) * 0x400 + (unat v - 0xDC00)) @ from_utf16_lossy r
      else push_lossy (unat u) @ from_utf16_lossy (v # r))"

section \<open>Strings\<close>

definition to_wide :: "string \<Rightarrow> u16 list" where
  "to_wide s = encode_utf16 s @ [0]"

definition from_c :: "bytes option \<Rightarrow> string" where
  "from_c p = (case p of None \<Rightarrow> [] | Some m \<Rightarrow> utf8_lossy (of_bytes (takeWhile (\<lambda>b. b \<noteq> 0) (take 4096 m))))"

definition from_wide :: "u16 list option \<Rightarrow> string" where
  "from_wide p = (case p of None \<Rightarrow> [] | Some m \<Rightarrow> from_utf16_lossy (takeWhile (\<lambda>u. u \<noteq> 0) (take 512 m)))"

section \<open>Callback structures\<close>

definition pack_http_completed :: "u32 \<Rightarrow> u64 \<Rightarrow> bool \<Rightarrow> u32 \<Rightarrow> u32 \<Rightarrow> bytes" where
  "pack_http_completed handle context ok status body_len =
     (let p = replicate 32 0;
          p = blit 0 (le_bytes32 handle) p;
          p = blit 8 (le_bytes64 context) p;
          p = p[16 := (if ok then 1 else 0)];
          p = blit 20 (le_bytes32 status) p
      in blit 24 (le_bytes32 body_len) p)"

definition pack_webapi_ticket :: "u32 \<Rightarrow> bytes \<Rightarrow> nat \<Rightarrow> bytes" where
  "pack_webapi_ticket handle ticket cap =
     (let n = min (length ticket) cap;
          p = replicate (12 + cap) 0;
          p = blit 0 (le_bytes32 handle) p;
          p = blit 4 (le_bytes32 1) p;
          p = blit 8 (le_bytes32 (of_nat n)) p
      in blit 12 (take n ticket) p)"

section \<open>The structures are read back\<close>

lemma pack_http_completed_eq:
  "pack_http_completed handle context ok status body_len =
   le_bytes32 handle @ replicate 4 0 @ le_bytes64 context @ (if ok then 1 else 0) # replicate 3 0 @
   le_bytes32 status @ le_bytes32 body_len @ replicate 4 0"
proof -
  have "replicate 32 (0::u8) = replicate 4 0 @ replicate 4 0 @ replicate 8 0 @ 0 # replicate 3 0 @
      replicate 4 0 @ replicate 4 0 @ replicate 4 0"
    by (simp add: numeral_eq_Suc)
  then show ?thesis
    by (simp add: pack_http_completed_def Let_def blit_def list_update_append)
qed

lemma pack_webapi_ticket_eq:
  "pack_webapi_ticket handle ticket cap =
   le_bytes32 handle @ le_bytes32 1 @ le_bytes32 (of_nat (min (length ticket) cap)) @ take cap ticket @
   replicate (cap - length ticket) 0"
proof -
  have "replicate (12 + cap) (0::u8) = replicate 4 0 @ replicate 4 0 @ replicate 4 0 @ replicate cap 0"
    by (simp add: numeral_eq_Suc)
  then show ?thesis
    by (simp add: pack_webapi_ticket_def Let_def blit_def min_def)
qed

text \<open>
  The structure of a completed request is 32 bytes long, its fields are read back at the
  offsets of the SDK, and all its padding is zero.
\<close>

theorem http_completed_layout:
  "let p = pack_http_completed handle context ok status body_len in
     length p = 32 \<and> le_at p 0 4 = unat handle \<and> le_at p 8 8 = unat context \<and> p ! 16 = (if ok then 1 else 0) \<and>
     le_at p 20 4 = unat status \<and> le_at p 24 4 = unat body_len \<and>
     get_slice p 4 4 = Some (replicate 4 0) \<and> get_slice p 17 3 = Some (replicate 3 0) \<and> get_slice p 28 4 = Some (replicate 4 0)"
  by (simp add: pack_http_completed_eq Let_def le_at_skip le_at_Cons le_at_here get_slice_def nth_append)

text \<open>
  The structure of a web ticket has the fixed size of its array, reads back the handle, the
  result code 1 and the length of the ticket cut to the array, and holds the ticket followed
  by zeros.
\<close>

theorem webapi_ticket_layout:
  assumes "cap < 2 ^ 32"
  shows "let p = pack_webapi_ticket handle ticket cap in
     length p = 12 + cap \<and> le_at p 0 4 = unat handle \<and> le_at p 4 4 = 1 \<and> le_at p 8 4 = min (length ticket) cap \<and>
     get_slice p 12 cap = Some (take cap ticket @ replicate (cap - length ticket) 0)"
proof -
  have "unat (of_nat (min (length ticket) cap) :: u32) = min (length ticket) cap"
    using assms by (simp add: unat_of_nat min_def)
  then show ?thesis
    by (simp add: pack_webapi_ticket_eq Let_def le_at_skip le_at_here get_slice_def) (auto simp: min_def)
qed

theorem webapi_ticket_layout_witness:
  "le_at (pack_webapi_ticket 7 [1, 2, 3] 2560) 8 4 = 3"
  using webapi_ticket_layout [of 2560 7 "[1, 2, 3]"] by (simp add: Let_def)

section \<open>UTF-16 and back\<close>

lemma push2: "2 \<le> x \<Longrightarrow> x < 0x20 \<Longrightarrow> y < 0x40 \<Longrightarrow> push_char (x * 0x40 + y) = Some [char_of (0xC0 + x), char_of (0x80 + y)]"
  by (simp add: push_char_def)

lemma sextet: "c = z + 0x40 * k \<Longrightarrow> z < 0x40 \<Longrightarrow> c div 0x40 = k \<and> c mod 0x40 = z" for c z k :: nat
  by simp

lemma push3:
  assumes "x = 0 \<longrightarrow> 0x20 \<le> y" "x = 0xD \<longrightarrow> y < 0x20" "x < 0x10" "y < 0x40" "z < 0x40"
  shows "push_char (x * 0x1000 + y * 0x40 + z) = Some [char_of (0xE0 + x), char_of (0x80 + y), char_of (0x80 + z)]"
proof -
  define cp where "cp = x * 0x1000 + y * 0x40 + z"
  have "cp = z + 0x40 * (x * 0x40 + y)" by (simp add: cp_def)
  then have "cp div 0x40 = x * 0x40 + y" "cp mod 0x40 = z" using sextet assms(5) by blast+
  moreover have "cp div 0x1000 = x" using assms(4,5) by (simp add: cp_def)
  moreover have "(x * 0x40 + y) mod 0x40 = y" using assms(4) by simp
  moreover have "0x800 \<le> cp" "cp < 0x10000" using assms by (auto simp: cp_def)
  moreover have "\<not> (0xD800 \<le> cp \<and> cp < 0xE000)" using assms(2,4,5)
    by (cases x "0xD :: nat" rule: linorder_cases) (auto simp: cp_def)
  ultimately have "push_char cp = Some [char_of (0xE0 + x), char_of (0x80 + y), char_of (0x80 + z)]"
    by (simp add: push_char_def)
  then show ?thesis by (simp add: cp_def)
qed

lemma push4:
  assumes "x = 0 \<longrightarrow> 0x10 \<le> w" "x = 4 \<longrightarrow> w < 0x10" "x \<le> 4" "w < 0x40" "y < 0x40" "z < 0x40"
  shows "push_char (x * 0x40000 + w * 0x1000 + y * 0x40 + z) =
    Some [char_of (0xF0 + x), char_of (0x80 + w), char_of (0x80 + y), char_of (0x80 + z)]"
proof -
  define cp where "cp = x * 0x40000 + w * 0x1000 + y * 0x40 + z"
  have "cp = z + 0x40 * (x * 0x1000 + w * 0x40 + y)" by (simp add: cp_def)
  then have "cp div 0x40 = x * 0x1000 + w * 0x40 + y" "cp mod 0x40 = z" using sextet assms(6) by blast+
  moreover have "cp div 0x1000 = x * 0x40 + w" using assms(5,6) by (simp add: cp_def)
  moreover have "cp div 0x40000 = x" using assms(4-6) by (simp add: cp_def)
  moreover have "(x * 0x1000 + w * 0x40 + y) mod 0x40 = y"
    using sextet [OF _ assms(5), of "x * 0x1000 + w * 0x40 + y" "x * 0x40 + w"] by simp
  moreover have "(x * 0x40 + w) mod 0x40 = w" using assms(4) by simp
  moreover have "0x10000 \<le> cp" "cp < 0x110000" using assms by (auto simp: cp_def)
  ultimately have "push_char cp = Some [char_of (0xF0 + x), char_of (0x80 + w), char_of (0x80 + y), char_of (0x80 + z)]"
    by (simp add: push_char_def)
  then show ?thesis by (simp add: cp_def)
qed

lemma utf8_step_cases:
  assumes "utf8_step a r = (True, n)"
  obtains "n = 1" "a < 0x80"
  | b where "n = 2" "0xC2 \<le> a" "a \<le> 0xDF" "is_cont b" "take 1 r = [b]"
  | b c where "n = 3" "0xE0 \<le> a" "a \<le> 0xEF" "second_ok a b" "is_cont c" "take 2 r = [b, c]"
  | b c d where "n = 4" "0xF0 \<le> a" "a \<le> 0xF4" "second_ok a b" "is_cont c" "is_cont d" "take 3 r = [b, c, d]"
proof -
  have t: "take 1 r = [r ! 0]" if "0 < length r" using that by (cases r) simp_all
  have t2: "take 2 r = [hd r, r ! 1]" if "1 < length r"
    using that by (cases r; cases "tl r") (simp_all add: numeral_2_eq_2)
  have t3: "take 3 r = [hd r, r ! 1, r ! 2]" if "2 < length r"
    using that by (cases r; cases "tl r"; cases "tl (tl r)") (simp_all add: numeral_3_eq_3)
  show ?thesis
    using assms t t2 t3 that unfolding utf8_step_def cont_at_def
    by (simp split: if_splits)
qed

lemma push_scalar:
  assumes "utf8_step a r = (True, n)"
  shows "push_char (utf8_scalar (a # take (n - 1) r)) = Some (map char_of (a # take (n - 1) r))"
  using assms
proof (cases rule: utf8_step_cases)
  case 1
  then show ?thesis by (simp add: utf8_scalar_def push_char_def)
next
  case (2 b)
  then show ?thesis using push2 [of "a - 0xC0" "b - 0x80"] by (auto simp: utf8_scalar_def is_cont_def)
next
  case (3 b c)
  then show ?thesis using push3 [of "a - 0xE0" "b - 0x80" "c - 0x80"]
    by (auto simp: utf8_scalar_def is_cont_def second_ok_def)
next
  case (4 b c d)
  then show ?thesis using push4 [of "a - 0xF0" "b - 0x80" "c - 0x80" "d - 0x80"]
    by (auto simp: utf8_scalar_def is_cont_def second_ok_def)
qed

lemma push_char_scalar: "push_char cp = Some s \<Longrightarrow> cp < 0x110000 \<and> \<not> (0xD800 \<le> cp \<and> cp < 0xE000)"
  by (auto simp: push_char_def split: if_splits)

lemma unat_unit: "n < 0x10000 \<Longrightarrow> unat (of_nat n :: u16) = n"
  by (simp add: unat_of_nat)

lemma from_utf16_units:
  assumes "push_char cp = Some s"
  shows "from_utf16_lossy (utf16_units cp @ r) = s @ from_utf16_lossy r"
proof -
  have p: "push_lossy cp = s" using assms by (simp add: push_lossy_def)
  show ?thesis
  proof (cases "cp < 0x10000")
    case True
    then have "\<not> high_surrogate cp" using push_char_scalar [OF assms] by (auto simp: high_surrogate_def)
    then show ?thesis using True p by (cases r) (simp_all add: utf16_units_def unat_unit)
  next
    case False
    define h l where "h = (cp - 0x10000) div 0x400" and "l = (cp - 0x10000) mod 0x400"
    have "cp < 0x110000" using push_char_scalar [OF assms] by simp
    with False have b: "h < 0x400" "l < 0x400" and c: "0x10000 + h * 0x400 + l = cp"
      by (auto simp: h_def l_def)
    define u v :: u16 where "u = of_nat (0xD800 + h)" and "v = of_nat (0xDC00 + l)"
    have "unat u = 0xD800 + h" "unat v = 0xDC00 + l" using b unat_unit [of "0xD800 + h"] unat_unit [of "0xDC00 + l"] by (simp_all add: u_def v_def del: of_nat_add of_nat_numeral)
    moreover have "utf16_units cp = [u, v]" using False by (simp add: utf16_units_def u_def v_def h_def l_def)
    ultimately show ?thesis using p b c by (simp add: high_surrogate_def low_surrogate_def)
  qed
qed

text \<open>The first character of a well-formed string.\<close>

lemma encode_first:
  assumes "utf8_valid s" "s \<noteq> []"
  obtains cp n where "(True, n) = utf8_step_str s" "push_char cp = Some (take n s)" "utf8_valid (drop n s)"
    "encode_utf16 s = utf16_units cp @ encode_utf16 (drop n s)"
proof -
  obtain a t where s: "s = a # t" using assms(2) by (cases s) auto
  obtain n where st: "utf8_step_str s = (True, n)" and v: "utf8_valid (drop n s)"
    using assms by (cases "utf8_step_str s") (auto simp: utf8_valid.simps [of s])
  have n: "0 < n" "n \<le> 4" using st utf8_step_str_bounds(1) [of s]
    by (auto simp: utf8_step_str_def utf8_step_def split: if_splits)
  have "take (n - 1) (map ord_char (take 3 t)) = map ord_char (take (n - 1) t)"
    using n(2) by (simp add: take_map min_def)
  moreover have "take n s = a # take (n - 1) t" using n(1) s by (cases n) auto
  ultimately have "push_char (utf8_scalar (map ord_char (take n s))) = Some (take n s)"
    using push_scalar [of "ord_char a" "map ord_char (take 3 t)" n] st s by (simp add: utf8_step_str_def comp_def)
  then show ?thesis
    using that [OF st [symmetric] _ v] assms(2) st by (simp add: encode_utf16_def utf8_chars.simps [of s])
qed

lemma from_encode_utf16: "utf8_valid s \<Longrightarrow> from_utf16_lossy (encode_utf16 s @ r) = s @ from_utf16_lossy r"
proof (induction s rule: utf8_valid.induct)
  case (1 s)
  show ?case
  proof (cases "s = []")
    case False
    from encode_first [OF 1(2) False] obtain cp n where e: "(True, n) = utf8_step_str s" "push_char cp = Some (take n s)"
      "utf8_valid (drop n s)" "encode_utf16 s = utf16_units cp @ encode_utf16 (drop n s)" .
    show ?thesis using from_utf16_units [OF e(2)] 1(1) [OF False e(1) e(3)] e(4) by simp
  qed (simp add: encode_utf16_def utf8_chars.simps)
qed

lemma utf16_units_zero: "cp < 0x110000 \<Longrightarrow> 0 \<in> set (utf16_units cp) \<Longrightarrow> cp = 0"
proof (cases "cp < 0x10000")
  case True
  assume "0 \<in> set (utf16_units cp)"
  with True have "unat (of_nat cp :: u16) = 0" by (simp add: utf16_units_def)
  with True show "cp = 0" by (simp add: unat_unit)
next
  case False
  assume "cp < 0x110000" and z: "0 \<in> set (utf16_units cp)"
  then have "unat (of_nat (0xD800 + (cp - 0x10000) div 0x400) :: u16) = 0xD800 + (cp - 0x10000) div 0x400"
    "unat (of_nat (0xDC00 + (cp - 0x10000) mod 0x400) :: u16) = 0xDC00 + (cp - 0x10000) mod 0x400"
    using unat_unit by (auto intro!: unat_unit simp del: of_nat_add)
  then show "cp = 0" using z False by (auto simp: utf16_units_def simp del: of_nat_add)
qed

lemma encode_utf16_nul: "utf8_valid s \<Longrightarrow> 0 \<in> set (encode_utf16 s) \<Longrightarrow> CHR 0x00 \<in> set s"
proof (induction s rule: utf8_valid.induct)
  case (1 s)
  then have "s \<noteq> []" by (auto simp: encode_utf16_def utf8_chars.simps)
  from encode_first [OF 1(2) this] obtain cp n where e: "(True, n) = utf8_step_str s" "push_char cp = Some (take n s)"
    "utf8_valid (drop n s)" "encode_utf16 s = utf16_units cp @ encode_utf16 (drop n s)" .
  show ?case
  proof (cases "0 \<in> set (utf16_units cp)")
    case True
    then have "cp = 0" using utf16_units_zero push_char_scalar [OF e(2)] by blast
    then have "take n s = [CHR 0x00]" using e(2) by (simp add: push_char_def char_of_def)
    then show ?thesis by (metis in_set_takeD list.set_intros(1))
  next
    case False
    then show ?thesis using 1(1) [OF \<open>s \<noteq> []\<close> e(1) e(3)] 1(3) e(4) by (auto dest: in_set_dropD)
  qed
qed

lemma length_utf16_units: "push_char cp = Some t \<Longrightarrow> length (utf16_units cp) \<le> length t"
  by (auto simp: push_char_def utf16_units_def split: if_splits)

lemma length_encode_utf16: "utf8_valid s \<Longrightarrow> length (encode_utf16 s) \<le> length s"
proof (induction s rule: utf8_valid.induct)
  case (1 s)
  show ?case
  proof (cases "s = []")
    case False
    from encode_first [OF 1(2) False] obtain cp n where e: "(True, n) = utf8_step_str s" "push_char cp = Some (take n s)"
      "utf8_valid (drop n s)" "encode_utf16 s = utf16_units cp @ encode_utf16 (drop n s)" .
    have "length (utf16_units cp) \<le> length (take n s)" using e(2) by (rule length_utf16_units)
    then show ?thesis using 1(1) [OF False e(1) e(3)] e(4) by auto
  qed (simp add: encode_utf16_def utf8_chars.simps)
qed

text \<open>
  A string without NUL of at most 512 UTF-16 units survives the conversion to a wide C string
  and back, whatever characters it holds.
\<close>

theorem wide_roundtrip:
  assumes "utf8_valid s" "CHR 0x00 \<notin> set s" "length (encode_utf16 s) \<le> 512"
  shows "from_wide (Some (to_wide s)) = s"
proof -
  have "takeWhile (\<lambda>u. u \<noteq> 0) (encode_utf16 s @ q) = encode_utf16 s @ takeWhile (\<lambda>u. u \<noteq> 0) q" for q
    using encode_utf16_nul [OF assms(1)] assms(2) by (intro takeWhile_append2) auto
  note t = this this [of "[]"]
  have "takeWhile (\<lambda>u. u \<noteq> 0) (take 512 (to_wide s)) = encode_utf16 s"
    using t assms(3) by (cases "length (encode_utf16 s) = 512") (auto simp: to_wide_def)
  then show ?thesis using from_encode_utf16 [OF assms(1), of "[]"] by (simp add: from_wide_def)
qed

theorem wide_roundtrip_witness:
  "from_wide (Some (to_wide [CHR 0xC3, CHR 0xA9, CHR 0xF0, CHR 0x9F, CHR 0x98, CHR 0x80])) =
   [CHR 0xC3, CHR 0xA9, CHR 0xF0, CHR 0x9F, CHR 0x98, CHR 0x80]"
proof -
  have v: "utf8_valid [CHR 0xC3, CHR 0xA9, CHR 0xF0, CHR 0x9F, CHR 0x98, CHR 0x80]" by code_simp
  with length_encode_utf16 [OF v] show ?thesis by (intro wide_roundtrip) simp_all
qed

end
