(* ===== verification/Steam_Http.thy ===== *)
theory Steam_Http
  imports Steam_Abi Lan_Cfg
begin

text \<open>
  \<open>steam-http-shim/src/lib.rs\<close>: the replacement of \<open>ISteamHTTP\<close>, of the call results of
  \<open>ISteamUtils\<close> and of the callback registry, and the hooks on WinHTTP and PlayFab.

  The state behind the mutex is the record \<open>steam_state\<close>, with the atomic counters beside it. What
  WinHTTP answers is the record \<open>winhttp\<close>, and \<open>winhttp_execute\<close> returns the calls it makes to it. An
  output pointer is a flag that says whether it is not null, and the result holds what is written
  through it. An original function that a hook falls back to is the option of its answer.
\<close>

section \<open>State\<close>

record steam_request =
  rq_method :: int
  rq_url :: string
  rq_headers :: "(string \<times> string) list"
  rq_body :: bytes
  rq_context :: u64
  rq_status :: u32
  rq_response :: bytes
  rq_ok :: bool

record steam_call =
  cl_request :: u32
  cl_failed :: bool

record steam_state =
  ss_requests :: "(u32, steam_request) hmap"
  ss_calls :: "(u64, steam_call) hmap"
  ss_call_results :: "(u64, u64) hmap"
  ss_dispatched :: "u64 set"
  ss_callbacks :: "(int \<times> u64) list"
  ss_pending_webapi :: "u32 list"
  ss_fired_connected :: "u64 set"
  ss_next_handle :: u32
  ss_next_call :: u64
  ss_next_ticket :: u32

definition steam_init :: steam_state where
  "steam_init = \<lparr>ss_requests = [], ss_calls = [], ss_call_results = [], ss_dispatched = {}, ss_callbacks = [],
     ss_pending_webapi = [], ss_fired_connected = {}, ss_next_handle = 1, ss_next_call = 0x0BEE0001, ss_next_ticket = 1\<rparr>"

definition HTTP_CALLBACK_COMPLETED :: int where "HTTP_CALLBACK_COMPLETED = 2101"
definition CB_STEAM_SERVERS_CONNECTED :: int where "CB_STEAM_SERVERS_CONNECTED = 101"
definition CB_TICKET_FOR_WEBAPI :: int where "CB_TICKET_FOR_WEBAPI = 168"
definition WEBAPI_TICKET_MAX :: nat where "WEBAPI_TICKET_MAX = 2560"
definition WINHTTP_FLAG_SECURE :: u32 where "WINHTTP_FLAG_SECURE = 0x00800000"
definition INTERNET_SCHEME_HTTPS :: int where "INTERNET_SCHEME_HTTPS = 2"
definition WINHTTP_OPTION_SECURITY_FLAGS :: u32 where "WINHTTP_OPTION_SECURITY_FLAGS = 31"

definition SECURITY_IGNORE_ALL :: u32 where
  "SECURITY_IGNORE_ALL = 0x00000100 OR 0x00000200 OR 0x00001000 OR 0x00002000"

section \<open>Identity\<close>

text \<open>The line of \<open>configs.user.ini\<close> that names the account; \<open>None\<close> is an unreadable file.\<close>

definition steamid_of_line :: "string \<Rightarrow> string option" where
  "steamid_of_line raw =
     (let line = trim (takeWhile (\<lambda>c. c \<noteq> CHR '';'' \<and> c \<noteq> CHR ''#'') raw)
      in case split_once (CHR ''='') line of
           None \<Rightarrow> None
         | Some (k, v) \<Rightarrow>
             if eq_ignore_ascii_case (trim k) ''account_steamid'' \<and> trim v \<noteq> [] then Some (trim v) else None)"

fun first_steamid :: "string list \<Rightarrow> string" where
  "first_steamid [] = ''0''"
| "first_steamid (l # ls) = (case steamid_of_line l of Some v \<Rightarrow> v | None \<Rightarrow> first_steamid ls)"

definition read_account_steamid :: "string option \<Rightarrow> string" where
  "read_account_steamid ini = (case ini of None \<Rightarrow> ''0'' | Some t \<Rightarrow> first_steamid (str_lines t))"

definition lan_steam_ticket :: "string option \<Rightarrow> string option \<Rightarrow> bytes" where
  "lan_steam_ticket ini computer =
     as_bytes (''LANSTUB|'' @ read_account_steamid ini @ ''|'' @ unwrap_or computer ''pc'')"

section \<open>Requests over WinHTTP\<close>

record url_parts =
  up_host :: "u16 list"
  up_port :: u16
  up_path :: "u16 list"
  up_extra :: "u16 list"
  up_scheme :: int

record winhttp =
  wh_open :: bool
  wh_crack :: "u16 list \<Rightarrow> url_parts option"
  wh_connect :: "u16 list \<Rightarrow> u16 \<Rightarrow> bool"
  wh_open_request :: "u16 list \<Rightarrow> u16 list \<Rightarrow> u32 \<Rightarrow> bool"
  wh_send :: "bytes \<Rightarrow> bool"
  wh_receive :: bool
  wh_status :: "u32 option"
  wh_reads :: "bytes list"

datatype wh_handle = HSession | HConnect | HRequest

datatype wh_event =
    WhOpen bool
  | WhCrack "u16 list"
  | WhConnect "u16 list" u16 bool
  | WhOpenRequest "u16 list" "u16 list" u32 bool
  | WhSetOption u32 u32
  | WhAddHeaders "u16 list" u32
  | WhSend bytes
  | WhReceive
  | WhQueryStatus
  | WhReadData
  | WhClose wh_handle

text \<open>The read loop: a failing read ends it, and so does an empty chunk.\<close>

fun read_loop :: "bytes list \<Rightarrow> wh_event list \<times> bytes" where
  "read_loop [] = ([WhReadData], [])"
| "read_loop (c # cs) =
     (if c = [] then ([WhReadData], [])
      else (case read_loop cs of (ev, body) \<Rightarrow> (WhReadData # ev, c @ body)))"

definition add_header_event :: "string \<times> string \<Rightarrow> wh_event" where
  "add_header_event kv =
     (let line = to_wide (fst kv @ '': '' @ snd kv) in WhAddHeaders line (of_nat (length line - 1)))"

definition winhttp_execute :: "winhttp \<Rightarrow> steam_request \<Rightarrow> wh_event list \<times> steam_request" where
  "winhttp_execute w req =
     (if \<not> wh_open w then ([WhOpen False], req\<lparr>rq_ok := False, rq_status := 0\<rparr>)
      else
        (let url_w = to_wide (rq_url req); t1 = [WhOpen True, WhCrack url_w]
         in case wh_crack w url_w of
              None \<Rightarrow> (t1 @ [WhClose HSession], req\<lparr>rq_ok := False\<rparr>)
            | Some cmp \<Rightarrow>
                (let host = takeWhile (\<lambda>u. u \<noteq> 0) (up_host cmp); cok = wh_connect w host (up_port cmp);
                     t2 = t1 @ [WhConnect host (up_port cmp) cok]
                 in if \<not> cok then (t2 @ [WhClose HSession], req\<lparr>rq_ok := False\<rparr>)
                    else
                      (let verb = to_wide (if rq_method req = 3 then ''POST'' else ''GET'');
                           full_path = takeWhile (\<lambda>u. u \<noteq> 0) (up_path cmp) @ takeWhile (\<lambda>u. u \<noteq> 0) (up_extra cmp) @ [0];
                           flags = (if up_scheme cmp = INTERNET_SCHEME_HTTPS then WINHTTP_FLAG_SECURE else 0);
                           rok = wh_open_request w verb full_path flags;
                           t3 = t2 @ [WhOpenRequest verb full_path flags rok]
                       in if \<not> rok then (t3 @ [WhClose HConnect, WhClose HSession], req\<lparr>rq_ok := False\<rparr>)
                          else
                            (let t4 = t3 @ (if flags \<noteq> 0 then [WhSetOption WINHTTP_OPTION_SECURITY_FLAGS SECURITY_IGNORE_ALL] else [])
                                      @ map add_header_event (rq_headers req) @ [WhSend (rq_body req)];
                                 closing = [WhClose HRequest, WhClose HConnect, WhClose HSession]
                             in if \<not> wh_send w (rq_body req) then (t4 @ closing, req\<lparr>rq_ok := False\<rparr>)
                                else if \<not> wh_receive w then (t4 @ [WhReceive] @ closing, req\<lparr>rq_ok := False\<rparr>)
                                else
                                  (let status = unwrap_or (wh_status w) 0;
                                       (ev, body) = read_loop (wh_reads w)
                                   in (t4 @ [WhReceive, WhQueryStatus] @ ev @ closing,
                                       req\<lparr>rq_status := status, rq_response := body,
                                           rq_ok := (200 \<le> status \<and> status < 300)\<rparr>)))))))"

section \<open>ISteamHTTP\<close>

definition create_http :: "lan_cfg \<Rightarrow> int \<Rightarrow> bytes option \<Rightarrow> steam_state \<Rightarrow> u32 \<times> steam_state" where
  "create_http cfg meth url st =
     (let u = rewrite_http_url_to_stub cfg (from_c url)
      in if u = [] then (0, st)
         else
           (let h = ss_next_handle st
            in (h, st\<lparr>ss_next_handle := h + 1,
                      ss_requests := hm_insert (ss_requests st) h
                        \<lparr>rq_method = meth, rq_url = u, rq_headers = [], rq_body = [], rq_context = 0, rq_status = 0,
                         rq_response = [], rq_ok = False\<rparr>\<rparr>)))"

definition on_request :: "u32 \<Rightarrow> (steam_request \<Rightarrow> steam_request) \<Rightarrow> steam_state \<Rightarrow> u8 \<times> steam_state" where
  "on_request handle f st =
     (case hm_get (ss_requests st) handle of
        Some r \<Rightarrow> (1, st\<lparr>ss_requests := hm_insert (ss_requests st) handle (f r)\<rparr>)
      | None \<Rightarrow> (0, st))"

definition set_context :: "u32 \<Rightarrow> u64 \<Rightarrow> steam_state \<Rightarrow> u8 \<times> steam_state" where
  "set_context handle v = on_request handle (\<lambda>r. r\<lparr>rq_context := v\<rparr>)"

definition set_header :: "u32 \<Rightarrow> bytes option \<Rightarrow> bytes option \<Rightarrow> steam_state \<Rightarrow> u8 \<times> steam_state" where
  "set_header handle nm v = on_request handle (\<lambda>r. r\<lparr>rq_headers := rq_headers r @ [(from_c nm, from_c v)]\<rparr>)"

definition set_raw_body :: "u32 \<Rightarrow> bytes option \<Rightarrow> u32 \<Rightarrow> steam_state \<Rightarrow> u8 \<times> steam_state" where
  "set_raw_body handle data len =
     on_request handle (\<lambda>r.
       case data of
         Some d \<Rightarrow> if 0 < len \<and> unat len \<le> 2 * 1024 * 1024 then r\<lparr>rq_body := take (unat len) d\<rparr> else r
       | None \<Rightarrow> r)"

definition release :: "u32 \<Rightarrow> steam_state \<Rightarrow> u8 \<times> steam_state" where
  "release handle st = (1, st\<lparr>ss_requests := hm_remove (ss_requests st) handle\<rparr>)"

text \<open>\<open>send_http\<close>: the copy taken under the lock, the transfer without it, the result under it again.\<close>

definition send_begin :: "u32 \<Rightarrow> steam_state \<Rightarrow> steam_request option" where
  "send_begin handle st =
     map_option (\<lambda>r. r\<lparr>rq_status := 0, rq_response := [], rq_ok := False\<rparr>) (hm_get (ss_requests st) handle)"

definition send_end :: "u32 \<Rightarrow> steam_request \<Rightarrow> steam_state \<Rightarrow> u64 \<times> steam_state" where
  "send_end handle req st =
     (let call = ss_next_call st;
          reqs = (case hm_get (ss_requests st) handle of
                    Some stored \<Rightarrow> hm_insert (ss_requests st) handle
                      (stored\<lparr>rq_status := rq_status req, rq_response := rq_response req, rq_ok := rq_ok req\<rparr>)
                  | None \<Rightarrow> ss_requests st)
      in (call, st\<lparr>ss_next_call := call + 1, ss_requests := reqs,
                   ss_calls := hm_insert (ss_calls st) call
                     \<lparr>cl_request = handle, cl_failed = (\<not> rq_ok req \<and> rq_status req = 0)\<rparr>\<rparr>))"

definition steam_send_http :: "winhttp \<Rightarrow> u32 \<Rightarrow> bool \<Rightarrow> steam_state \<Rightarrow> (u8 \<times> u64 option) \<times> steam_state" where
  "steam_send_http w handle call_out st =
     (case send_begin handle st of
        None \<Rightarrow> ((0, None), st)
      | Some req \<Rightarrow>
          (let (call, st') = send_end handle (snd (winhttp_execute w req)) st
           in ((1, if call_out then Some call else None), st')))"

definition send_stream :: "winhttp \<Rightarrow> u32 \<Rightarrow> bool \<Rightarrow> steam_state \<Rightarrow> (u8 \<times> u64 option) \<times> steam_state" where
  "send_stream w handle call_out st = steam_send_http w handle call_out st"

definition header_size :: "bytes option \<Rightarrow> bool \<Rightarrow> u8 \<times> u32 option" where
  "header_size nm out =
     (if to_ascii_lowercase (from_c nm) = ''content-type'' then (1, if out then Some 17 else None) else (0, None))"

definition header_value :: "bytes option \<Rightarrow> bool \<Rightarrow> u32 \<Rightarrow> u8 \<times> bytes option" where
  "header_value nm buf sz =
     (let v = as_bytes ''application/json'' @ [0]
      in if to_ascii_lowercase (from_c nm) \<noteq> ''content-type'' \<or> \<not> buf then (0, None)
         else if unat sz \<noteq> length v then (0, None)
         else (1, Some v))"

definition body_size :: "u32 \<Rightarrow> bool \<Rightarrow> steam_state \<Rightarrow> u8 \<times> u32 option" where
  "body_size handle out st =
     (case hm_get (ss_requests st) handle of
        Some r \<Rightarrow> (1, if out then Some (of_nat (length (rq_response r))) else None)
      | None \<Rightarrow> (0, None))"

definition body_data :: "u32 \<Rightarrow> bool \<Rightarrow> u32 \<Rightarrow> steam_state \<Rightarrow> u8 \<times> bytes option" where
  "body_data handle buf sz st =
     (case hm_get (ss_requests st) handle of
        Some r \<Rightarrow> if unat sz \<noteq> length (rq_response r) \<or> \<not> buf then (0, None) else (1, Some (rq_response r))
      | None \<Rightarrow> (0, None))"

text \<open>The entries of the interface that answer without looking at anything.\<close>

definition set_timeout :: "u32 \<Rightarrow> u32 \<Rightarrow> u8" where "set_timeout handle seconds = 1"
definition set_param :: "u32 \<Rightarrow> u8" where "set_param handle = 1"
definition bool_true :: "u32 \<Rightarrow> u8" where "bool_true handle = 1"
definition create_cookie_container :: "u8 \<Rightarrow> u32" where "create_cookie_container allow = 1"
definition release_cookie_container :: "u32 \<Rightarrow> u8" where "release_cookie_container c = 1"
definition stream_body :: "u32 \<Rightarrow> u32 \<Rightarrow> u8" where "stream_body handle off = 0"
definition set_cookie :: "u32 \<Rightarrow> u8" where "set_cookie c = 1"
definition set_cookie_container :: "u32 \<Rightarrow> u32 \<Rightarrow> u8" where "set_cookie_container handle c = 1"
definition set_ua :: "u32 \<Rightarrow> u8" where "set_ua handle = 1"
definition set_verify :: "u32 \<Rightarrow> u8 \<Rightarrow> u8" where "set_verify handle req = 1"
definition set_abs_timeout :: "u32 \<Rightarrow> u32 \<Rightarrow> u8" where "set_abs_timeout handle ms = 1"
definition progress :: "bool \<Rightarrow> u8 \<times> nat option" where "progress out = (1, if out then Some 100 else None)"
definition was_timeout :: "bool \<Rightarrow> u8 \<times> u8 option" where "was_timeout out = (1, if out then Some 0 else None)"

section \<open>Call results\<close>

definition request_summary :: "steam_state \<Rightarrow> u32 \<Rightarrow> bytes" where
  "request_summary st handle =
     (let r = hm_get (ss_requests st) handle
      in pack_http_completed handle (unwrap_or (map_option rq_context r) 0) (unwrap_or (map_option rq_ok r) False)
           (unwrap_or (map_option rq_status r) 0)
           (unwrap_or (map_option (\<lambda>x. of_nat (length (rq_response x))) r) 0))"

definition flag_byte :: "bool \<Rightarrow> u8" where "flag_byte b = (if b then 1 else 0)"

definition utils_is_completed :: "(u8 \<times> u8 option) option \<Rightarrow> u64 \<Rightarrow> bool \<Rightarrow> steam_state \<Rightarrow> u8 \<times> u8 option" where
  "utils_is_completed orig call failed st =
     (case hm_get (ss_calls st) call of
        Some c \<Rightarrow> (1, if failed then Some (flag_byte (cl_failed c)) else None)
      | None \<Rightarrow> unwrap_or orig (0, None))"

record call_result =
  cr_ret :: u8
  cr_failed :: "u8 option"
  cr_data :: "bytes option"

definition utils_get_result ::
  "call_result option \<Rightarrow> u64 \<Rightarrow> bool \<Rightarrow> int \<Rightarrow> int \<Rightarrow> bool \<Rightarrow> steam_state \<Rightarrow> call_result" where
  "utils_get_result orig call callback cub expected failed st =
     (case hm_get (ss_calls st) call of
        None \<Rightarrow> unwrap_or orig \<lparr>cr_ret = 0, cr_failed = None, cr_data = None\<rparr>
      | Some c \<Rightarrow>
          (let fl = (if failed then Some (flag_byte (cl_failed c)) else None)
           in if expected \<noteq> 0 \<and> expected \<noteq> HTTP_CALLBACK_COMPLETED then \<lparr>cr_ret = 0, cr_failed = fl, cr_data = None\<rparr>
              else if \<not> callback \<or> cub < 28 then \<lparr>cr_ret = 0, cr_failed = fl, cr_data = None\<rparr>
              else
                (let packed = request_summary st (cl_request c)
                 in \<lparr>cr_ret = 1, cr_failed = fl, cr_data = Some (take (min (nat cub) (length packed)) packed)\<rparr>)))"

definition hook_reg_call :: "u64 \<Rightarrow> u64 \<Rightarrow> steam_state \<Rightarrow> steam_state" where
  "hook_reg_call cb call st =
     (if cb \<noteq> 0 \<and> call \<noteq> 0 then st\<lparr>ss_call_results := hm_insert (ss_call_results st) call cb\<rparr> else st)"

definition hook_unreg_call :: "u64 \<Rightarrow> u64 \<Rightarrow> steam_state \<Rightarrow> steam_state" where
  "hook_unreg_call cb call st = st\<lparr>ss_call_results := hm_remove (ss_call_results st) call\<rparr>"

section \<open>Callbacks\<close>

definition blogged_on :: u8 where "blogged_on = 1"

definition get_auth_ticket_webapi :: "u32 option \<Rightarrow> bytes option \<Rightarrow> steam_state \<Rightarrow> u32 \<times> steam_state" where
  "get_auth_ticket_webapi orig identity st =
     (let ident = from_c identity;
          lan_identity = (ident = ''playfab_services'' \<or> ident = ''server_auth_key_001'')
      in case (if lan_identity then None else opt_filter (\<lambda>h. h \<noteq> 0) orig) of
           Some h \<Rightarrow> (h, st)
         | None \<Rightarrow>
             (let handle = ss_next_ticket st
              in (handle, st\<lparr>ss_next_ticket := handle + 1, ss_pending_webapi := ss_pending_webapi st @ [handle]\<rparr>)))"

definition hook_reg_cb :: "u64 \<Rightarrow> int \<Rightarrow> steam_state \<Rightarrow> steam_state" where
  "hook_reg_cb cb i_callback st =
     (if cb \<noteq> 0 then st\<lparr>ss_callbacks := ss_callbacks st @ [(i_callback, cb)]\<rparr> else st)"

definition hook_unreg_cb :: "u64 \<Rightarrow> steam_state \<Rightarrow> steam_state" where
  "hook_unreg_cb cb st =
     (if cb \<noteq> 0 then
        st\<lparr>ss_callbacks := filter (\<lambda>(_, p). p \<noteq> cb) (ss_callbacks st), ss_fired_connected := ss_fired_connected st - {cb}\<rparr>
      else st)"

text \<open>
  The memory of the game that a dispatch looks at: the vtable pointer of an object, the slots of
  a vtable, the first sixteen bytes of a function; and what a callee leaves in the buffer it was given.
\<close>

record game_mem =
  gm_vptr :: "u64 \<Rightarrow> u64"
  gm_slot :: "u64 \<Rightarrow> nat \<Rightarrow> u64"
  gm_code :: "u64 \<Rightarrow> bytes"
  gm_after :: "u64 \<Rightarrow> bytes \<Rightarrow> bytes"
  gm_ini :: "string option"
  gm_computer :: "string option"

definition size_slot :: "game_mem \<Rightarrow> u64 \<Rightarrow> nat \<Rightarrow> bool" where
  "size_slot g vptr i \<longleftrightarrow>
     gm_slot g vptr i \<noteq> 0 \<and>
     (case mov_eax_imm (take 16 (gm_code g (gm_slot g vptr i))) of
        Some sz \<Rightarrow> 1 \<le> sz \<and> sz < 8192 \<and> 2 \<le> i
      | None \<Rightarrow> False)"

definition callback_run_index :: "game_mem \<Rightarrow> u64 \<Rightarrow> nat \<Rightarrow> nat" where
  "callback_run_index g obj dflt =
     (if gm_vptr g obj = 0 then dflt
      else case List.find (size_slot g (gm_vptr g obj)) [0..<6] of Some i \<Rightarrow> i - 2 | None \<Rightarrow> dflt)"

text \<open>The function an invocation calls; \<open>None\<close> when the object is null or has no vtable.\<close>

definition invoke_callback :: "game_mem \<Rightarrow> u64 \<Rightarrow> nat \<Rightarrow> u64 option" where
  "invoke_callback g obj default_run =
     (if obj = 0 \<or> gm_vptr g obj = 0 then None
      else Some (gm_slot g (gm_vptr g obj) (callback_run_index g obj default_run)))"

definition invoke_result :: "game_mem \<Rightarrow> u64 \<Rightarrow> u64 option" where
  "invoke_result g obj = (if obj = 0 \<or> gm_vptr g obj = 0 then None else Some (gm_slot g (gm_vptr g obj) 1))"

section \<open>Dispatch\<close>

text \<open>
  What a thread still has to do. \<open>hook_run_callbacks\<close> is the two collections in order; each collection
  puts the jobs it has gathered under the lock in front of the rest, and every job calls into the
  game, which may call any hook again before the next one. \<open>Sending\<close> is a request in transfer.
\<close>

datatype steam_task =
    CollectUser
  | Connected u64
  | TicketJob u32 "(int \<times> u64) list"
  | TicketTo bytes "(int \<times> u64) list"
  | CollectHttp
  | HttpJob u64 u64 bytes u8
  | Sending u32 steam_request

datatype steam_event =
    EvCallback u64 "u64 option" bytes
  | EvIssued u32
  | EvTicket u32
  | EvResult u64 u64 "u64 option" bytes u8
  | EvTransfer "wh_event list"

fun fire_connected :: "(int \<times> u64) list \<Rightarrow> u64 set \<Rightarrow> u64 list \<times> u64 set" where
  "fire_connected [] fired = ([], fired)"
| "fire_connected ((i, p) # cbs) fired =
     (if i = CB_STEAM_SERVERS_CONNECTED \<and> p \<notin> fired
      then (case fire_connected cbs (insert p fired) of (ps, fired') \<Rightarrow> (p # ps, fired'))
      else fire_connected cbs fired)"

definition collect_user :: "steam_state \<Rightarrow> steam_task list \<times> steam_state" where
  "collect_user st =
     (let (connected, fired) = fire_connected (ss_callbacks st) (ss_fired_connected st)
      in (map Connected connected @ map (\<lambda>h. TicketJob h (ss_callbacks st)) (ss_pending_webapi st),
          st\<lparr>ss_pending_webapi := [], ss_fired_connected := fired\<rparr>))"

fun collect_http :: "u64 list \<Rightarrow> steam_state \<Rightarrow> steam_task list \<times> steam_state" where
  "collect_http [] st = ([], st)"
| "collect_http (call # rest) st =
     (if call \<in> ss_dispatched st then collect_http rest st
      else case hm_get (ss_call_results st) call of
             None \<Rightarrow> collect_http rest st
           | Some cb \<Rightarrow>
               (case hm_get (ss_calls st) call of
                  None \<Rightarrow> collect_http rest st
                | Some c \<Rightarrow>
                    (case collect_http rest (st\<lparr>ss_dispatched := insert call (ss_dispatched st)\<rparr>) of
                       (jobs, st') \<Rightarrow> (HttpJob call cb (request_summary st (cl_request c)) (flag_byte (cl_failed c)) # jobs, st'))))"

text \<open>The listeners of one ticket, which share the buffer.\<close>

fun ticket_turn :: "game_mem \<Rightarrow> bytes \<Rightarrow> (int \<times> u64) list \<Rightarrow> steam_event list \<times> steam_task list" where
  "ticket_turn g buf [] = ([], [])"
| "ticket_turn g buf ((i, p) # cbs) =
     (if i = CB_TICKET_FOR_WEBAPI
      then ([EvCallback p (invoke_callback g p 1) buf], [TicketTo (gm_after g p buf) cbs])
      else ticket_turn g buf cbs)"

definition run_task :: "game_mem \<Rightarrow> winhttp \<Rightarrow> steam_task \<Rightarrow> steam_state \<Rightarrow> steam_event list \<times> steam_task list \<times> steam_state" where
  "run_task g w t st =
     (case t of
        CollectUser \<Rightarrow> ([], collect_user st)
      | Connected p \<Rightarrow> ([EvCallback p (invoke_callback g p 0) (replicate 8 0)], [], st)
      | TicketJob h cbs \<Rightarrow>
          ([EvTicket h], [TicketTo (pack_webapi_ticket h (lan_steam_ticket (gm_ini g) (gm_computer g)) WEBAPI_TICKET_MAX) cbs], st)
      | TicketTo buf cbs \<Rightarrow> (case ticket_turn g buf cbs of (ev, ts) \<Rightarrow> (ev, ts, st))
      | CollectHttp \<Rightarrow> ([], collect_http (map fst (ss_calls st)) st)
      | HttpJob call cb packed failed \<Rightarrow> ([EvResult call cb (invoke_result g cb) packed failed], [], st)
      | Sending h req \<Rightarrow>
          (case winhttp_execute w req of (ev, req') \<Rightarrow> ([EvTransfer ev], [], snd (send_end h req' st))))"

section \<open>The process\<close>

datatype steam_op =
    CreateHttp int "bytes option"
  | SetContext u32 u64
  | SetHeader u32 "bytes option" "bytes option"
  | SetRawBody u32 "bytes option" u32
  | Release u32
  | RegCall u64 u64
  | UnregCall u64 u64
  | RegCb u64 int
  | UnregCb u64
  | WebTicket "u32 option" "bytes option"

text \<open>One call of the game under the lock, with the ticket it issued.\<close>

definition apply_op :: "lan_cfg \<Rightarrow> steam_op \<Rightarrow> steam_state \<Rightarrow> steam_state" where
  "apply_op cfg op st =
     (case op of
        CreateHttp m url \<Rightarrow> snd (create_http cfg m url st)
      | SetContext h v \<Rightarrow> snd (set_context h v st)
      | SetHeader h n v \<Rightarrow> snd (set_header h n v st)
      | SetRawBody h d l \<Rightarrow> snd (set_raw_body h d l st)
      | Release h \<Rightarrow> snd (release h st)
      | RegCall cb call \<Rightarrow> hook_reg_call cb call st
      | UnregCall cb call \<Rightarrow> hook_unreg_call cb call st
      | RegCb cb i \<Rightarrow> hook_reg_cb cb i st
      | UnregCb cb \<Rightarrow> hook_unreg_cb cb st
      | WebTicket orig ident \<Rightarrow> snd (get_auth_ticket_webapi orig ident st))"

record steam_world =
  sw_state :: steam_state
  sw_threads :: "steam_task list list"
  sw_log :: "steam_event list"

definition push_tasks :: "nat \<Rightarrow> steam_task list \<Rightarrow> steam_world \<Rightarrow> steam_world" where
  "push_tasks t ts w = w\<lparr>sw_threads := (sw_threads w)[t := ts @ sw_threads w ! t]\<rparr>"

definition hook_run_callbacks :: "steam_task list" where
  "hook_run_callbacks = [CollectUser, CollectHttp]"

text \<open>
  What can happen next: a call of the game on some thread, \<open>SteamAPI_RunCallbacks\<close> or a send entered by a
  thread, or a turn of the innermost task of a thread. The threads interleave between the locked sections.
\<close>

datatype steam_act =
    Call steam_op
  | RunCallbacks nat
  | SendHttp nat u32
  | Turn nat game_mem winhttp

definition issued :: "steam_state \<Rightarrow> steam_op \<Rightarrow> steam_event list" where
  "issued st op =
     (case op of
        WebTicket orig ident \<Rightarrow>
          (if snd (get_auth_ticket_webapi orig ident st) = st then [] else [EvIssued (fst (get_auth_ticket_webapi orig ident st))])
      | _ \<Rightarrow> [])"

definition turn :: "nat \<Rightarrow> game_mem \<Rightarrow> winhttp \<Rightarrow> steam_world \<Rightarrow> steam_world" where
  "turn t g wh w =
     (case sw_threads w ! t of
        [] \<Rightarrow> w
      | k # ks \<Rightarrow>
          (case run_task g wh k (sw_state w) of
             (ev, ts, st) \<Rightarrow> w\<lparr>sw_state := st, sw_threads := (sw_threads w)[t := ts @ ks], sw_log := sw_log w @ ev\<rparr>))"

definition steam_step :: "lan_cfg \<Rightarrow> steam_act \<Rightarrow> steam_world \<Rightarrow> steam_world" where
  "steam_step cfg a w =
     (case a of
        Call op \<Rightarrow> w\<lparr>sw_state := apply_op cfg op (sw_state w), sw_log := sw_log w @ issued (sw_state w) op\<rparr>
      | RunCallbacks t \<Rightarrow> (if t < length (sw_threads w) then push_tasks t hook_run_callbacks w else w)
      | SendHttp t h \<Rightarrow>
          (if t < length (sw_threads w)
           then case send_begin h (sw_state w) of Some req \<Rightarrow> push_tasks t [Sending h req] w | None \<Rightarrow> w
           else w)
      | Turn t g wh \<Rightarrow> (if t < length (sw_threads w) then turn t g wh w else w))"

definition steam_run :: "lan_cfg \<Rightarrow> steam_act list \<Rightarrow> steam_world \<Rightarrow> steam_world" where
  "steam_run cfg acts w = fold (steam_step cfg) acts w"

definition steam_start :: "nat \<Rightarrow> steam_world" where
  "steam_start n = \<lparr>sw_state = steam_init, sw_threads = replicate n [], sw_log = []\<rparr>"

section \<open>WinHTTP and PlayFab hooks\<close>

text \<open>Each hook returns what it passes to the original, or nothing when there is no original.\<close>

definition hook_wh_connect :: "lan_cfg \<Rightarrow> bool \<Rightarrow> u16 list option \<Rightarrow> u16 \<Rightarrow> (u16 list \<times> u16) option" where
  "hook_wh_connect cfg orig host port =
     (let host_s = from_wide host;
          dest_host = (if host_s = lc_host cfg then host_s else lc_host cfg);
          dest_port = (if port = 80 \<or> port = 443 then lc_port cfg else port)
      in if orig then Some (to_wide dest_host, dest_port) else None)"

definition hook_wh_open_request :: "bool \<Rightarrow> u32 \<Rightarrow> u32 option" where
  "hook_wh_open_request orig flags = (if orig then Some (flags AND NOT WINHTTP_FLAG_SECURE) else None)"

text \<open>The option it sets, and whether the original then runs.\<close>

definition hook_wh_send :: "bool \<Rightarrow> wh_event \<times> bool" where
  "hook_wh_send orig = (WhSetOption WINHTTP_OPTION_SECURITY_FLAGS SECURITY_IGNORE_ALL, orig)"

datatype svc_outcome = SvcPanic | SvcOrig bytes | SvcFail u32

definition hook_svc_cfg :: "lan_cfg \<Rightarrow> bool \<Rightarrow> svc_outcome" where
  "hook_svc_cfg cfg orig =
     (if CHR 0x00 \<in> set (origin cfg) then SvcPanic
      else if orig then SvcOrig (as_bytes (origin cfg) @ [0])
      else SvcFail 0x80004005)"

end
