(* ===== verification/Steam_Hooks.thy ===== *)
theory Steam_Hooks
  imports Steam_Run
begin

text \<open>
  \<open>steam-http-shim/src/lib.rs\<close>: how the hooks get into the process. The modules are images under their
  names (the executable under none), the objects and vtables of the Steam interfaces are pointer-sized
  words at addresses, the saved originals a map from the name of the cell. What the operating system and
  the Steam library answer is the record \<open>os\<close>, with the address of each hook; a null pointer is 0. The
  outer \<open>None\<close> of an operation is an access violation.
\<close>

section \<open>State\<close>

record os =
  os_protect :: "string option \<Rightarrow> protect"
  os_protect_slot :: "u64 \<Rightarrow> bool"
  os_proc :: "string \<Rightarrow> string \<Rightarrow> u64"
  os_huser :: int
  os_find :: "int \<Rightarrow> string \<Rightarrow> u64"
  os_alloc :: u64
  os_sys_version :: u64
  os_hook :: "string \<Rightarrow> u64"

record loader =
  ld_image :: "string option \<Rightarrow> image option"
  ld_mem :: "u64 \<Rightarrow> u64"
  ld_orig :: "string \<Rightarrow> u64 option"
  ld_iat_hooked :: bool
  ld_patched :: bool
  ld_started :: bool
  ld_sys_version :: "u64 option"

text \<open>\<open>OnceLock::set\<close>: a cell that is set stays as it is.\<close>

definition set_once :: "string \<Rightarrow> u64 \<Rightarrow> loader \<Rightarrow> loader" where
  "set_once k v ld = (if ld_orig ld k = None then ld\<lparr>ld_orig := (ld_orig ld)(k \<mapsto> v)\<rparr> else ld)"

section \<open>Import tables\<close>

definition iat_replace ::
  "os \<Rightarrow> string option \<Rightarrow> string \<Rightarrow> string \<Rightarrow> u64 \<Rightarrow> loader \<Rightarrow> (u64 option \<times> loader) option" where
  "iat_replace os md dll func new ld =
     do { r \<leftarrow> pe_replace (os_protect os md) (ld_image ld md) dll func new;
          Some (case r of
                  Inr (old, m) \<Rightarrow> (Some (of_nat old), ld\<lparr>ld_image := (ld_image ld)(md \<mapsto> m)\<rparr>)
                | Inl e \<Rightarrow> (None, ld)) }"

text \<open>Replace an import of the executable and keep the original in a cell.\<close>

definition hook_import :: "os \<Rightarrow> string \<Rightarrow> string \<Rightarrow> string \<Rightarrow> string \<Rightarrow> loader \<Rightarrow> loader option" where
  "hook_import os dll func hook cell ld =
     do { (old, ld') \<leftarrow> iat_replace os None dll func (os_hook os hook) ld;
          Some (case old of Some v \<Rightarrow> set_once cell v ld' | None \<Rightarrow> ld') }"

definition hook_playfab_iat :: "os \<Rightarrow> loader \<Rightarrow> loader option" where
  "hook_playfab_iat os ld =
     (if ld_orig ld ''ORIG_SVC_CFG'' \<noteq> None then Some ld
      else hook_import os ''playfabcore.win32.dll'' ''PFServiceConfigCreateHandle'' ''hook_svc_cfg'' ''ORIG_SVC_CFG'' ld)"

text \<open>The three WinHTTP imports of one module; a module that is not loaded is skipped.\<close>

definition hook_winhttp_module :: "os \<Rightarrow> string option \<Rightarrow> loader \<Rightarrow> loader option" where
  "hook_winhttp_module os md ld =
     (if ld_image ld md = None then Some ld
      else
        do { (_, ld1) \<leftarrow> iat_replace os md ''winhttp.dll'' ''WinHttpConnect'' (os_hook os ''hook_wh_connect'') ld;
             (_, ld2) \<leftarrow> iat_replace os md ''winhttp.dll'' ''WinHttpSendRequest'' (os_hook os ''hook_wh_send'') ld1;
             if ld_orig ld2 ''ORIG_WH_OPEN'' \<noteq> None
             then do { (_, ld3) \<leftarrow> iat_replace os md ''winhttp.dll'' ''WinHttpOpenRequest'' (os_hook os ''hook_wh_open_request'') ld2;
                       Some ld3 }
             else Some ld2 })"

fun hook_each :: "os \<Rightarrow> string option list \<Rightarrow> loader \<Rightarrow> loader option" where
  "hook_each os [] ld = Some ld"
| "hook_each os (md # mds) ld = do { ld' \<leftarrow> hook_winhttp_module os md ld; hook_each os mds ld' }"

definition save_proc :: "os \<Rightarrow> string \<Rightarrow> string \<Rightarrow> loader \<Rightarrow> loader" where
  "save_proc os func cell ld =
     (let p = os_proc os ''winhttp.dll'' func in if p \<noteq> 0 then set_once cell p ld else ld)"

definition hook_winhttp_modules :: "os \<Rightarrow> loader \<Rightarrow> loader option" where
  "hook_winhttp_modules os ld =
     (if ld_image ld (Some ''winhttp.dll'') = None then Some ld
      else
        (let ld1 = (if ld_orig ld ''ORIG_WH_CONNECT'' = None
                    then save_proc os ''WinHttpOpenRequest'' ''ORIG_WH_OPEN''
                           (save_proc os ''WinHttpSendRequest'' ''ORIG_WH_SEND''
                              (save_proc os ''WinHttpConnect'' ''ORIG_WH_CONNECT'' ld))
                    else ld)
         in if ld_orig ld1 ''ORIG_WH_CONNECT'' = None \<or> ld_orig ld1 ''ORIG_WH_SEND'' = None then Some ld1
            else hook_each os
                   [Some ''PlayFabCore.Win32.dll'', Some ''libHttpClient.Win32.dll'', Some ''PlayFabServices.Win32.dll'', None] ld1))"

definition hook_steam_iat :: "os \<Rightarrow> loader \<Rightarrow> loader option" where
  "hook_steam_iat os ld =
     (if ld_iat_hooked ld then Some ld
      else
        do { ld \<leftarrow> hook_import os ''steam_api64.dll'' ''SteamAPI_RunCallbacks'' ''hook_run_callbacks'' ''ORIG_RUN_CALLBACKS''
               (ld\<lparr>ld_iat_hooked := True\<rparr>);
             ld \<leftarrow> hook_import os ''steam_api64.dll'' ''SteamAPI_RegisterCallResult'' ''hook_reg_call'' ''ORIG_REG_CALL'' ld;
             ld \<leftarrow> hook_import os ''steam_api64.dll'' ''SteamAPI_UnregisterCallResult'' ''hook_unreg_call'' ''ORIG_UNREG_CALL'' ld;
             ld \<leftarrow> hook_import os ''steam_api64.dll'' ''SteamAPI_RegisterCallback'' ''hook_reg_cb'' ''ORIG_REG_CB'' ld;
             hook_import os ''steam_api64.dll'' ''SteamAPI_UnregisterCallback'' ''hook_unreg_cb'' ''ORIG_UNREG_CB'' ld })"

section \<open>Vtables\<close>

definition slot_addr :: "u64 \<Rightarrow> nat \<Rightarrow> u64" where "slot_addr vt i = vt + 8 * of_nat i"

definition wr_mem :: "u64 \<Rightarrow> u64 \<Rightarrow> loader \<Rightarrow> loader" where
  "wr_mem a v ld = ld\<lparr>ld_mem := (ld_mem ld)(a := v)\<rparr>"

definition patch_slot :: "os \<Rightarrow> u64 \<Rightarrow> nat \<Rightarrow> u64 \<Rightarrow> loader \<Rightarrow> bool \<times> loader" where
  "patch_slot os vtable i new_fn ld =
     (if vtable = 0 then (False, ld)
      else if \<not> os_protect_slot os (slot_addr vtable i) then (False, ld)
      else (let ld' = wr_mem (slot_addr vtable i) new_fn ld in (ld_mem ld' (slot_addr vtable i) = new_fn, ld')))"

definition http_fns :: "string list" where
  "http_fns = [''create_http'', ''set_context'', ''set_timeout'', ''set_header'', ''set_param'', ''send_http'', ''send_stream'',
     ''bool_true'', ''bool_true'', ''header_size'', ''header_value'', ''body_size'', ''body_data'', ''stream_body'', ''release'',
     ''progress'', ''set_raw_body'', ''create_cookie_container'', ''release_cookie_container'', ''set_cookie'',
     ''set_cookie_container'', ''set_ua'', ''set_verify'', ''set_abs_timeout'', ''was_timeout'']"

fun fill_slots :: "os \<Rightarrow> u64 \<Rightarrow> nat \<Rightarrow> string list \<Rightarrow> loader \<Rightarrow> loader" where
  "fill_slots os vt i [] ld = ld"
| "fill_slots os vt i (f # fs) ld = fill_slots os vt (Suc i) fs (wr_mem (slot_addr vt i) (os_hook os f) ld)"

text \<open>The page is not checked: writing through a failed allocation is an access violation.\<close>

definition http_vtable :: "os \<Rightarrow> loader \<Rightarrow> (u64 \<times> loader) option" where
  "http_vtable os ld = (if os_alloc os = 0 then None else Some (os_alloc os, fill_slots os (os_alloc os) 0 http_fns ld))"

text \<open>The loop over the users; what it found last is what it leaves behind.\<close>

fun find_ifaces :: "os \<Rightarrow> int list \<Rightarrow> u64 \<times> u64 \<Rightarrow> u64 \<times> u64" where
  "find_ifaces os [] found = found"
| "find_ifaces os (user # users) found =
     (let http = os_find os user ''STEAMHTTP_INTERFACE_VERSION003'';
          u10 = os_find os user ''SteamUtils010'';
          utils = (if u10 = 0 then os_find os user ''SteamUtils009'' else u10)
      in if http \<noteq> 0 \<and> utils \<noteq> 0 then (http, utils) else find_ifaces os users (http, utils))"

fun find_user :: "os \<Rightarrow> string \<Rightarrow> int list \<Rightarrow> u64" where
  "find_user os ver [] = 0"
| "find_user os ver (uid # uids) = (if os_find os uid ver \<noteq> 0 then os_find os uid ver else find_user os ver uids)"

definition UTILS_IS_CALL_COMPLETED :: nat where "UTILS_IS_CALL_COMPLETED = 11"
definition UTILS_GET_CALL_RESULT :: nat where "UTILS_GET_CALL_RESULT = 13"
definition USER_BLOGGED_ON :: nat where "USER_BLOGGED_ON = 1"
definition USER_GET_AUTH_TICKET_WEBAPI :: nat where "USER_GET_AUTH_TICKET_WEBAPI = 14"

definition patch_user :: "os \<Rightarrow> u64 \<Rightarrow> loader \<Rightarrow> loader option" where
  "patch_user os user ld =
     (let uvt = ld_mem ld user
      in if uvt = 0 then None
         else
           (let orig_web = ld_mem ld (slot_addr uvt USER_GET_AUTH_TICKET_WEBAPI);
                ld1 = (if orig_web \<noteq> 0 then set_once ''ORIG_WEBAPI'' orig_web ld else ld);
                ld2 = snd (patch_slot os uvt USER_BLOGGED_ON (os_hook os ''blogged_on'') ld1)
            in Some (snd (patch_slot os uvt USER_GET_AUTH_TICKET_WEBAPI (os_hook os ''get_auth_ticket_webapi'') ld2))))"

fun patch_users :: "os \<Rightarrow> string list \<Rightarrow> int list \<Rightarrow> loader \<Rightarrow> loader option" where
  "patch_users os [] uids ld = Some ld"
| "patch_users os (ver # vers) uids ld =
     (let user = find_user os ver uids in if user = 0 then patch_users os vers uids ld else patch_user os user ld)"

text \<open>\<open>ORIG_UTILS\<close> is one cell with two functions.\<close>

definition set_utils :: "u64 \<Rightarrow> u64 \<Rightarrow> loader \<Rightarrow> loader" where
  "set_utils is_c get_r ld =
     (if ld_orig ld ''ORIG_UTILS.is_completed'' = None
      then set_once ''ORIG_UTILS.get_result'' get_r (set_once ''ORIG_UTILS.is_completed'' is_c ld) else ld)"

text \<open>The writes of \<open>try_patch\<close>: the vtable of ISteamHTTP, two slots of ISteamUtils, then ISteamUser and WinHTTP.\<close>

definition install_utils :: "os \<Rightarrow> u64 \<Rightarrow> loader \<Rightarrow> loader" where
  "install_utils os uv ld =
     (let is_c = ld_mem ld (slot_addr uv UTILS_IS_CALL_COMPLETED);
          get_r = ld_mem ld (slot_addr uv UTILS_GET_CALL_RESULT);
          ld1 = set_utils is_c get_r ld;
          ld2 = snd (patch_slot os uv UTILS_IS_CALL_COMPLETED (os_hook os ''utils_is_completed'') ld1)
      in snd (patch_slot os uv UTILS_GET_CALL_RESULT (os_hook os ''utils_get_result'') ld2))"

definition install_ifaces :: "os \<Rightarrow> u64 \<Rightarrow> u64 \<Rightarrow> int list \<Rightarrow> loader \<Rightarrow> loader option" where
  "install_ifaces os http utils users ld =
     do { (ours, ld1) \<leftarrow> http_vtable os ld;
          let ld2 = wr_mem http ours ld1;
          let uv = ld_mem ld2 utils;
          if uv = 0 then None
          else
            do { ld3 \<leftarrow> patch_users os [''SteamUser023'', ''SteamUser022'', ''SteamUser021''] users (install_utils os uv ld2);
                 hook_winhttp_modules os ld3 } }"

definition try_patch :: "os \<Rightarrow> loader \<Rightarrow> (bool \<times> loader) option" where
  "try_patch os ld =
     (if ld_image ld (Some ''steam_api64.dll'') = None then Some (False, ld)
      else if os_proc os ''steam_api64.dll'' ''SteamAPI_Init'' = 0 \<or>
              os_proc os ''steam_api64.dll'' ''SteamInternal_FindOrCreateUserInterface'' = 0 \<or>
              os_proc os ''steam_api64.dll'' ''SteamAPI_GetHSteamUser'' = 0 then Some (False, ld)
      else
        (let users = [os_huser os, 1, 0]; (http, utils) = find_ifaces os users (0, 0)
         in if http = 0 \<or> utils = 0 then Some (False, ld)
            else map_option (Pair True) (install_ifaces os http utils users ld)))"

section \<open>Start-up\<close>

text \<open>The polling loop, with what the machine answers at each iteration.\<close>

fun patch_loop :: "(nat \<Rightarrow> os) \<Rightarrow> nat \<Rightarrow> nat \<Rightarrow> loader \<Rightarrow> loader option" where
  "patch_loop env i 0 ld = Some ld"
| "patch_loop env i (Suc left) ld =
     (if ld_patched ld then Some ld
      else
        do { ld1 \<leftarrow> hook_winhttp_modules (env i) ld;
             (ok, ld2) \<leftarrow> try_patch (env i) ld1;
             if ok then Some (ld2\<lparr>ld_patched := True\<rparr>) else patch_loop env (Suc i) left ld2 })"

definition hook_all :: "os \<Rightarrow> loader \<Rightarrow> loader option" where
  "hook_all os ld = do { ld \<leftarrow> hook_steam_iat os ld; ld \<leftarrow> hook_playfab_iat os ld; hook_winhttp_modules os ld }"

definition patch_thread :: "os \<Rightarrow> (nat \<Rightarrow> os) \<Rightarrow> loader \<Rightarrow> loader option" where
  "patch_thread os env ld = do { ld \<leftarrow> hook_all os ld; patch_loop env 0 6000 ld }"

text \<open>The path \<open>LoadLibraryW\<close> is given, from what \<open>GetSystemDirectoryW\<close> wrote.\<close>

definition sys_version_path :: "u16 list \<Rightarrow> u16 list" where
  "sys_version_path sysdir = sysdir @ encode_utf16 (CHR 0x5C # ''version.dll'') @ [0]"

text \<open>\<open>on_load\<close>, with whether it starts the patch thread.\<close>

definition on_load :: "os \<Rightarrow> loader \<Rightarrow> (bool \<times> loader) option" where
  "on_load os ld =
     (if ld_started ld then Some (False, ld)
      else
        do { let ld1 = ld\<lparr>ld_started := True, ld_sys_version := Some (unwrap_or (ld_sys_version ld) (os_sys_version os))\<rparr>;
             ld2 \<leftarrow> hook_all os ld1;
             Some (True, ld2) })"

definition DLL_PROCESS_ATTACH :: u32 where "DLL_PROCESS_ATTACH = 1"

definition DllMain :: "os \<Rightarrow> u32 \<Rightarrow> loader \<Rightarrow> (bool \<times> loader) option" where
  "DllMain os reason ld = (if reason = DLL_PROCESS_ATTACH then on_load os ld else Some (False, ld))"

definition sys_proc :: "os \<Rightarrow> string \<Rightarrow> loader \<Rightarrow> u64" where
  "sys_proc os nm ld =
     (let h = unwrap_or (ld_sys_version ld) 0 in if h = 0 then 0 else os_proc os ''version.dll'' nm)"

text \<open>A forwarded function of \<open>version.dll\<close>: the function called with the arguments, or 0.\<close>

definition forward :: "os \<Rightarrow> string \<Rightarrow> loader \<Rightarrow> (u64 \<Rightarrow> u64 list \<Rightarrow> u64) \<Rightarrow> u64 list \<Rightarrow> u64" where
  "forward os nm ld apply_fn args = (let p = sys_proc os nm ld in if p = 0 then 0 else apply_fn p args)"

definition GetFileVersionInfoA :: "os \<Rightarrow> loader \<Rightarrow> (u64 \<Rightarrow> u64 list \<Rightarrow> u64) \<Rightarrow> u64 \<Rightarrow> u64 \<Rightarrow> u64 \<Rightarrow> u64 \<Rightarrow> u64" where
  "GetFileVersionInfoA os ld f a b c d = forward os ''GetFileVersionInfoA'' ld f [a, b, c, d]"
definition GetFileVersionInfoW :: "os \<Rightarrow> loader \<Rightarrow> (u64 \<Rightarrow> u64 list \<Rightarrow> u64) \<Rightarrow> u64 \<Rightarrow> u64 \<Rightarrow> u64 \<Rightarrow> u64 \<Rightarrow> u64" where
  "GetFileVersionInfoW os ld f a b c d = forward os ''GetFileVersionInfoW'' ld f [a, b, c, d]"
definition GetFileVersionInfoSizeA :: "os \<Rightarrow> loader \<Rightarrow> (u64 \<Rightarrow> u64 list \<Rightarrow> u64) \<Rightarrow> u64 \<Rightarrow> u64 \<Rightarrow> u64" where
  "GetFileVersionInfoSizeA os ld f a b = forward os ''GetFileVersionInfoSizeA'' ld f [a, b]"
definition GetFileVersionInfoSizeW :: "os \<Rightarrow> loader \<Rightarrow> (u64 \<Rightarrow> u64 list \<Rightarrow> u64) \<Rightarrow> u64 \<Rightarrow> u64 \<Rightarrow> u64" where
  "GetFileVersionInfoSizeW os ld f a b = forward os ''GetFileVersionInfoSizeW'' ld f [a, b]"
definition VerQueryValueA :: "os \<Rightarrow> loader \<Rightarrow> (u64 \<Rightarrow> u64 list \<Rightarrow> u64) \<Rightarrow> u64 \<Rightarrow> u64 \<Rightarrow> u64 \<Rightarrow> u64 \<Rightarrow> u64" where
  "VerQueryValueA os ld f a b c d = forward os ''VerQueryValueA'' ld f [a, b, c, d]"
definition VerQueryValueW :: "os \<Rightarrow> loader \<Rightarrow> (u64 \<Rightarrow> u64 list \<Rightarrow> u64) \<Rightarrow> u64 \<Rightarrow> u64 \<Rightarrow> u64 \<Rightarrow> u64 \<Rightarrow> u64" where
  "VerQueryValueW os ld f a b c d = forward os ''VerQueryValueW'' ld f [a, b, c, d]"
definition GetFileVersionInfoSizeExW :: "os \<Rightarrow> loader \<Rightarrow> (u64 \<Rightarrow> u64 list \<Rightarrow> u64) \<Rightarrow> u64 \<Rightarrow> u64 \<Rightarrow> u64 \<Rightarrow> u64" where
  "GetFileVersionInfoSizeExW os ld f a b c = forward os ''GetFileVersionInfoSizeExW'' ld f [a, b, c]"
definition GetFileVersionInfoExW :: "os \<Rightarrow> loader \<Rightarrow> (u64 \<Rightarrow> u64 list \<Rightarrow> u64) \<Rightarrow> u64 \<Rightarrow> u64 \<Rightarrow> u64 \<Rightarrow> u64 \<Rightarrow> u64 \<Rightarrow> u64" where
  "GetFileVersionInfoExW os ld f a b c d e = forward os ''GetFileVersionInfoExW'' ld f [a, b, c, d, e]"

section \<open>What hooking keeps\<close>

text \<open>
  A relation between the state before and after that composes and that the primitive updates
  satisfy holds across all of the hooking.
\<close>

locale loader_rel =
  fixes R :: "loader \<Rightarrow> loader \<Rightarrow> bool"
  assumes rel_refl: "R ld ld"
    and rel_trans: "R a b \<Longrightarrow> R b c \<Longrightarrow> R a c"
    and rel_patch: "pe_replace vp (ld_image ld md) dll func new = Some (Inr (old, m)) \<Longrightarrow>
      R ld (ld\<lparr>ld_image := (ld_image ld)(md \<mapsto> m)\<rparr>)"
    and rel_mem: "R ld (wr_mem p q ld)"
    and rel_once: "R ld (set_once k q ld)"
    and rel_flags: "R ld (ld\<lparr>ld_iat_hooked := x\<rparr>)" "R ld (ld\<lparr>ld_patched := x\<rparr>)" "R ld (ld\<lparr>ld_started := True, ld_sys_version := y\<rparr>)"
begin

lemma rel_iat: "iat_replace os md dll func new ld = Some (old, ld') \<Longrightarrow> R ld ld'"
proof -
  assume "iat_replace os md dll func new ld = Some (old, ld')"
  then obtain r where r: "pe_replace (os_protect os md) (ld_image ld md) dll func new = Some r"
    "(case r of Inr (v, m) \<Rightarrow> (Some (of_nat v), ld\<lparr>ld_image := (ld_image ld)(md \<mapsto> m)\<rparr>) | Inl e \<Rightarrow> (None, ld)) = (old, ld')"
    by (auto simp: iat_replace_def bind_eq_Some_conv)
  then show ?thesis using rel_patch [of "os_protect os md" ld md dll func new] rel_refl by (cases r) auto
qed

lemma rel_import: "hook_import os dll func hook cell ld = Some ld' \<Longrightarrow> R ld ld'"
  by (auto simp: hook_import_def bind_eq_Some_conv split: option.splits intro: rel_iat rel_trans [OF rel_iat rel_once])

lemma rel_playfab: "hook_playfab_iat os ld = Some ld' \<Longrightarrow> R ld ld'"
  by (auto simp: hook_playfab_iat_def rel_refl split: if_splits intro: rel_import)

lemma rel_steam_iat: "hook_steam_iat os ld = Some ld' \<Longrightarrow> R ld ld'"
proof (cases "ld_iat_hooked ld")
  case False
  assume "hook_steam_iat os ld = Some ld'"
  then obtain a b c d where
    "hook_import os ''steam_api64.dll'' ''SteamAPI_RunCallbacks'' ''hook_run_callbacks'' ''ORIG_RUN_CALLBACKS'' (ld\<lparr>ld_iat_hooked := True\<rparr>) = Some a"
    "hook_import os ''steam_api64.dll'' ''SteamAPI_RegisterCallResult'' ''hook_reg_call'' ''ORIG_REG_CALL'' a = Some b"
    "hook_import os ''steam_api64.dll'' ''SteamAPI_UnregisterCallResult'' ''hook_unreg_call'' ''ORIG_UNREG_CALL'' b = Some c"
    "hook_import os ''steam_api64.dll'' ''SteamAPI_RegisterCallback'' ''hook_reg_cb'' ''ORIG_REG_CB'' c = Some d"
    "hook_import os ''steam_api64.dll'' ''SteamAPI_UnregisterCallback'' ''hook_unreg_cb'' ''ORIG_UNREG_CB'' d = Some ld'"
    using False by (auto simp: hook_steam_iat_def bind_eq_Some_conv)
  note h = this [THEN rel_import]
  show ?thesis by (rule rel_trans [OF rel_flags(1) rel_trans [OF h(1) rel_trans [OF h(2) rel_trans [OF h(3) rel_trans [OF h(4) h(5)]]]]])
qed (simp add: hook_steam_iat_def rel_refl)

lemma rel_module: "hook_winhttp_module os md ld = Some ld' \<Longrightarrow> R ld ld'"
  by (auto simp: hook_winhttp_module_def bind_eq_Some_conv rel_refl split: if_splits) (meson rel_iat rel_trans)+

lemma rel_each: "hook_each os mds ld = Some ld' \<Longrightarrow> R ld ld'"
  by (induction mds arbitrary: ld) (auto simp: bind_eq_Some_conv rel_refl intro: rel_trans [OF rel_module])

lemma rel_save: "R ld (save_proc os func cell ld)"
  by (simp add: save_proc_def Let_def rel_once rel_refl)

lemma rel_winhttp: "hook_winhttp_modules os ld = Some ld' \<Longrightarrow> R ld ld'"
  by (auto simp: hook_winhttp_modules_def Let_def rel_refl split: if_splits simp del: hook_each.simps)
    (meson rel_each rel_save rel_trans)+

lemma rel_slot: "R ld (snd (patch_slot os vt i f ld))"
  by (auto simp: patch_slot_def Let_def rel_refl rel_mem)

lemma rel_fill: "R ld (fill_slots os vt i fs ld)"
  by (induction fs arbitrary: i ld) (auto simp: rel_refl intro: rel_trans [OF rel_mem])

lemma rel_user: "patch_user os user ld = Some ld' \<Longrightarrow> R ld ld'"
  by (auto simp: patch_user_def Let_def split: if_splits) (meson rel_once rel_slot rel_trans)+

lemma rel_users: "patch_users os vers uids ld = Some ld' \<Longrightarrow> R ld ld'"
  by (induction vers) (auto simp: Let_def rel_refl split: if_splits intro: rel_user)

lemma rel_utils: "R ld (set_utils f g ld)"
  by (auto simp: set_utils_def rel_refl intro: rel_trans [OF rel_once rel_once])

lemma rel_install_utils: "R ld (install_utils os uv ld)"
  unfolding install_utils_def Let_def by (rule rel_trans [OF rel_utils rel_trans [OF rel_slot rel_slot]])

lemma rel_install: "install_ifaces os http utils users ld = Some ld' \<Longrightarrow> R ld ld'"
proof -
  assume "install_ifaces os http utils users ld = Some ld'"
  then obtain vt uv ld3 where h: "patch_users os [''SteamUser023'', ''SteamUser022'', ''SteamUser021''] users
      (install_utils os uv (wr_mem http vt (fill_slots os vt 0 http_fns ld))) = Some ld3" "hook_winhttp_modules os ld3 = Some ld'"
    by (auto simp: install_ifaces_def http_vtable_def Let_def bind_eq_Some_conv split: if_splits)
  show ?thesis
    by (rule rel_trans [OF rel_fill rel_trans [OF rel_mem rel_trans [OF rel_install_utils
          rel_trans [OF rel_users [OF h(1)] rel_winhttp [OF h(2)]]]]])
qed

lemma rel_try: "try_patch os ld = Some (ok, ld') \<Longrightarrow> R ld ld'"
  by (auto simp: try_patch_def Let_def rel_refl split: if_splits prod.splits intro: rel_install)

lemma rel_loop: "patch_loop env i left ld = Some ld' \<Longrightarrow> R ld ld'"
proof (induction left arbitrary: i ld)
  case (Suc left)
  show ?case
  proof (cases "ld_patched ld")
    case False
    then obtain ld1 ok ld2 where h: "hook_winhttp_modules (env i) ld = Some ld1" "try_patch (env i) ld1 = Some (ok, ld2)"
      "(if ok then Some (ld2\<lparr>ld_patched := True\<rparr>) else patch_loop env (Suc i) left ld2) = Some ld'"
      using Suc.prems by (auto simp: bind_eq_Some_conv)
    have "R ld ld2" using rel_trans [OF rel_winhttp [OF h(1)] rel_try [OF h(2)]] .
    moreover have "R ld2 ld'" using h(3) Suc.IH rel_flags(2) by (auto split: if_splits)
    ultimately show ?thesis by (rule rel_trans)
  qed (use Suc.prems rel_refl in auto)
qed (simp add: rel_refl)

lemma rel_all: "hook_all os ld = Some ld' \<Longrightarrow> R ld ld'"
  by (auto simp: hook_all_def bind_eq_Some_conv) (meson rel_playfab rel_steam_iat rel_trans rel_winhttp)

lemma rel_thread: "patch_thread os env ld = Some ld' \<Longrightarrow> R ld ld'"
  by (auto simp: patch_thread_def bind_eq_Some_conv intro: rel_trans [OF rel_all rel_loop])

lemma rel_load: "on_load os ld = Some (b, ld') \<Longrightarrow> R ld ld'"
  by (auto simp: on_load_def bind_eq_Some_conv Let_def rel_refl split: if_splits intro: rel_trans [OF rel_flags(3) rel_all])

end

lemma thunks_length:
  "walk_thunks vp m sz func new ilt iat i left = Some (Some (Inr (old, m'))) \<Longrightarrow> length m' = length m"
proof (induction left arbitrary: i)
  case (Suc left)
  then show ?case by (auto simp: bind_eq_Some_conv patch_iat_def wr64_def split: if_splits)
qed simp

lemma descs_length: "walk_descs vp m sz dll func new rva i left = Some (Inr (old, m')) \<Longrightarrow> length m' = length m"
proof (induction left arbitrary: i)
  case (Suc left)
  then show ?case
    by (auto simp: bind_eq_Some_conv Let_def split: if_splits option.splits dest: thunks_length)
qed simp

lemma pe_replace_length: "pe_replace vp (Some m) dll func new = Some (Inr (old, m')) \<Longrightarrow> length m' = length m"
  by (auto simp: pe_replace_def bind_eq_Some_conv split: if_splits dest: descs_length)

definition same_sizes :: "loader \<Rightarrow> loader \<Rightarrow> bool" where
  "same_sizes a b \<longleftrightarrow> (\<forall>md. map_option length (ld_image b md) = map_option length (ld_image a md))"

definition stays_started :: "loader \<Rightarrow> loader \<Rightarrow> bool" where
  "stays_started a b \<longleftrightarrow> (ld_started a \<longrightarrow> ld_started b)"

definition keeps_originals :: "loader \<Rightarrow> loader \<Rightarrow> bool" where
  "keeps_originals a b \<longleftrightarrow> ld_orig a \<subseteq>\<^sub>m ld_orig b"

interpretation originals: loader_rel keeps_originals
  by unfold_locales (auto simp: keeps_originals_def wr_mem_def set_once_def dest: map_le_trans, auto simp: map_le_def)

interpretation started: loader_rel stays_started
  by unfold_locales (auto simp: stays_started_def wr_mem_def set_once_def)

interpretation sizes: loader_rel same_sizes
proof unfold_locales
  fix vp md dll func new old m and ld :: loader
  assume r: "pe_replace vp (ld_image ld md) dll func new = Some (Inr (old, m))"
  then obtain m0 where "ld_image ld md = Some m0" by (cases "ld_image ld md") (auto simp: pe_replace_def)
  with r show "same_sizes ld (ld\<lparr>ld_image := (ld_image ld)(md \<mapsto> m)\<rparr>)"
    using pe_replace_length by (auto simp: same_sizes_def)
qed (auto simp: same_sizes_def wr_mem_def set_once_def)

text \<open>
  Loading the library and running its patch thread never overwrite an original that was saved,
  keep every module at its size, and leave the library started, so that another entry of the
  loader does nothing.
\<close>

theorem startup_keeps:
  assumes "on_load os ld = Some (b, ld1)" and "patch_thread os' env ld1 = Some ld2"
  shows "ld_orig ld \<subseteq>\<^sub>m ld_orig ld1 \<and> ld_orig ld1 \<subseteq>\<^sub>m ld_orig ld2 \<and>
    (\<forall>md. map_option length (ld_image ld2 md) = map_option length (ld_image ld md)) \<and>
    DllMain os'' reason ld2 = Some (False, ld2)"
proof -
  have "ld_started ld1"
  proof (cases "ld_started ld")
    case False
    then obtain y where "hook_all os (ld\<lparr>ld_started := True, ld_sys_version := y\<rparr>) = Some ld1"
      using assms(1) by (auto simp: on_load_def bind_eq_Some_conv Let_def)
    from started.rel_all [OF this] show ?thesis by (simp add: stays_started_def)
  qed (use assms(1) in \<open>auto simp: on_load_def\<close>)
  then have "ld_started ld2" using started.rel_thread [OF assms(2)] by (simp add: stays_started_def)
  then show ?thesis
    using originals.rel_load [OF assms(1)] originals.rel_thread [OF assms(2)] sizes.rel_load [OF assms(1)] sizes.rel_thread [OF assms(2)]
    by (simp add: keeps_originals_def same_sizes_def DllMain_def on_load_def)
qed

definition demo_loader :: loader where
  "demo_loader = \<lparr>ld_image = (\<lambda>md. if md = Some ''winhttp.dll'' then Some [] else None), ld_mem = (\<lambda>_. 0), ld_orig = (\<lambda>_. None),
     ld_iat_hooked = False, ld_patched = True, ld_started = False, ld_sys_version = None\<rparr>"

definition demo_os :: os where
  "demo_os = \<lparr>os_protect = (\<lambda>_ _. True), os_protect_slot = (\<lambda>_. True), os_proc = (\<lambda>m f. if f = ''WinHttpConnect'' then 0x90 else 0),
     os_huser = 1, os_find = (\<lambda>_ _. 0), os_alloc = 0x1000, os_sys_version = 0x70, os_hook = (\<lambda>_. 0x60)\<rparr>"

lemma demo_no_imports: "ld_image ld None = None \<Longrightarrow> hook_import demo_os dll func hook cell ld = Some ld"
  by (simp add: hook_import_def iat_replace_def pe_replace_def)

lemma demo_proc: "os_proc demo_os m f = (if f = ''WinHttpConnect'' then 0x90 else 0)"
  by (simp add: demo_os_def)

lemma demo_hook_all:
  "ld_image ld None = None \<Longrightarrow> ld_image ld (Some ''winhttp.dll'') = Some [] \<Longrightarrow> ld_orig ld = ld_orig demo_loader \<Longrightarrow>
   hook_all demo_os ld = Some (ld\<lparr>ld_iat_hooked := True, ld_orig := [''ORIG_WH_CONNECT'' \<mapsto> 0x90]\<rparr>)"
  by (simp add: hook_all_def hook_steam_iat_def hook_playfab_iat_def demo_no_imports hook_winhttp_modules_def save_proc_def Let_def
      demo_proc set_once_def demo_loader_def)

lemma demo_hook_again:
  "ld_image ld None = None \<Longrightarrow> ld_image ld (Some ''winhttp.dll'') = Some [] \<Longrightarrow> ld_orig ld = [''ORIG_WH_CONNECT'' \<mapsto> 0x90] \<Longrightarrow>
   ld_iat_hooked ld \<Longrightarrow> hook_all demo_os ld = Some ld"
  by (simp add: hook_all_def hook_steam_iat_def hook_playfab_iat_def demo_no_imports hook_winhttp_modules_def save_proc_def Let_def
      demo_proc set_once_def)

theorem startup_keeps_witness:
  "\<exists>ld1 ld2. on_load demo_os demo_loader = Some (True, ld1) \<and> patch_thread demo_os (\<lambda>_. demo_os) ld1 = Some ld2 \<and>
     ld_orig ld1 ''ORIG_WH_CONNECT'' = Some 0x90 \<and> DllMain demo_os 1 ld2 = Some (False, ld2)"
proof -
  obtain ld1 where l: "on_load demo_os demo_loader = Some (True, ld1)" "ld_image ld1 = ld_image demo_loader"
    "ld_orig ld1 = [''ORIG_WH_CONNECT'' \<mapsto> 0x90]" "ld_iat_hooked ld1" "ld_patched ld1"
    by (simp add: on_load_def demo_hook_all Let_def) (simp add: demo_loader_def demo_hook_all)
  have "patch_loop env 0 6000 ld1 = Some ld1" for env
    using l(5) patch_loop.simps(2) [of env 0 5999 ld1] by simp
  then have "patch_thread demo_os (\<lambda>_. demo_os) ld1 = Some ld1"
    using l by (simp add: patch_thread_def demo_hook_again demo_loader_def)
  with startup_keeps [OF l(1) this, of demo_os 1] l show ?thesis by auto
qed

section \<open>The installed interfaces\<close>

lemma slot_addr_inj: "i < 32 \<Longrightarrow> j < 32 \<Longrightarrow> slot_addr vt i = slot_addr vt j \<longleftrightarrow> i = j"
proof -
  assume b: "i < 32" "j < 32"
  have "unat (8 * of_nat k :: u64) = 8 * k" if "k < 32" for k
    using that unat_of_nat [where ?'a = 64, of "8 * k"] by simp
  with b show ?thesis by (metis add_left_cancel nat_mult_eq_cancel1 slot_addr_def zero_less_numeral)
qed

lemma fill_slots_other:
  "i + length fs \<le> 32 \<Longrightarrow> j < i \<Longrightarrow> ld_mem (fill_slots os vt i fs ld) (slot_addr vt j) = ld_mem ld (slot_addr vt j)"
  by (induction fs arbitrary: i ld) (auto simp: wr_mem_def slot_addr_inj)

lemma fill_slots_nth:
  "i + length fs \<le> 32 \<Longrightarrow> j < length fs \<Longrightarrow> ld_mem (fill_slots os vt i fs ld) (slot_addr vt (i + j)) = os_hook os (fs ! j)"
proof (induction fs arbitrary: i j ld)
  case (Cons f fs)
  show ?case
  proof (cases j)
    case 0
    then show ?thesis using Cons.prems by (simp add: fill_slots_other wr_mem_def)
  next
    case (Suc k)
    then show ?thesis using Cons.IH [of "Suc i" k] Cons.prems by simp
  qed
qed simp

text \<open>
  The replacement vtable of ISteamHTTP holds, slot by slot, the functions of the interface in
  the order of the SDK, and the two replaced slots of ISteamUtils hold the hooks while their
  originals are saved.
\<close>

theorem interfaces_installed:
  assumes "http_vtable os ld = Some (vt, ld1)" and "uv \<noteq> 0" and "\<forall>a. os_protect_slot os a"
    and "ld_orig ld ''ORIG_UTILS.is_completed'' = None" and "ld_orig ld ''ORIG_UTILS.get_result'' = None"
  shows "(\<forall>i < 25. ld_mem ld1 (slot_addr vt i) = os_hook os (http_fns ! i)) \<and>
    (let ld2 = install_utils os uv ld in
       ld_mem ld2 (slot_addr uv 11) = os_hook os ''utils_is_completed'' \<and> ld_mem ld2 (slot_addr uv 13) = os_hook os ''utils_get_result'' \<and>
       ld_orig ld2 ''ORIG_UTILS.is_completed'' = Some (ld_mem ld (slot_addr uv 11)) \<and>
       ld_orig ld2 ''ORIG_UTILS.get_result'' = Some (ld_mem ld (slot_addr uv 13)))"
proof
  have l: "length http_fns = 25" by (simp add: http_fns_def)
  show "\<forall>i < 25. ld_mem ld1 (slot_addr vt i) = os_hook os (http_fns ! i)"
    using assms(1) fill_slots_nth [of 0 http_fns _ os vt ld] by (auto simp: http_vtable_def l split: if_splits)
  show "let ld2 = install_utils os uv ld in
       ld_mem ld2 (slot_addr uv 11) = os_hook os ''utils_is_completed'' \<and> ld_mem ld2 (slot_addr uv 13) = os_hook os ''utils_get_result'' \<and>
       ld_orig ld2 ''ORIG_UTILS.is_completed'' = Some (ld_mem ld (slot_addr uv 11)) \<and>
       ld_orig ld2 ''ORIG_UTILS.get_result'' = Some (ld_mem ld (slot_addr uv 13))"
    using assms(2-5)
    by (simp add: install_utils_def Let_def patch_slot_def wr_mem_def set_utils_def set_once_def slot_addr_inj
        UTILS_IS_CALL_COMPLETED_def UTILS_GET_CALL_RESULT_def)
qed

theorem interfaces_installed_witness:
  "http_fns ! 5 = ''send_http'' \<and> (\<exists>ld1. http_vtable demo_os demo_loader = Some (0x1000, ld1) \<and> ld_mem ld1 (slot_addr 0x1000 5) = 0x60)"
proof -
  obtain ld1 where h: "http_vtable demo_os demo_loader = Some (0x1000, ld1)" by (simp add: http_vtable_def demo_os_def)
  have "\<forall>i < 25. ld_mem ld1 (slot_addr 0x1000 i) = os_hook demo_os (http_fns ! i)"
    using interfaces_installed [OF h, of 1] by (simp add: demo_os_def demo_loader_def)
  with h show ?thesis by (auto simp: demo_os_def http_fns_def)
qed

end
