(* ===== verification/Spec2Isabelle.thy ===== *)
theory Spec2Isabelle
  imports Reliable_Link Wire Http_Client Json_Scan Lan_Cfg Party_Delivery Party_Session Mp_Props Steam_Hooks
begin

text \<open>
  GBFR LAN server: a LAN replacement of the online services a game uses. A broker process
  (\<open>src/lan-server\<close>) answers the PlayFab and Party requests of the players; three libraries are
  loaded into the game in place of the originals: the Party shim (\<open>src/party-shim\<close>) carries game
  messages between peers over UDP, the PlayFab multiplayer shim (\<open>src/playfab-mp-shim\<close>) and the
  Steam HTTP shim (\<open>src/steam-http-shim\<close>) turn API calls into requests to the broker. The shims
  share a JSON scanner, an HTTP client and the configuration loader (\<open>src/common\<close>).

  \<^bold>\<open>Theories.\<close> Libraries: \<open>Prelude\<close> (words, byte order, hash maps as association lists with distinct
  keys, tree maps as sorted ones, both as interpretations of \<open>finite_map\<close> and \<open>ordered_map\<close>),
  \<open>Rust_Str\<close> (strings as UTF-8 bytes, trimming, splitting, integer parsing and printing),
  \<open>Sort_By\<close> (stable sort under the contract \<open>total_cmp\<close>), \<open>Float64\<close> (the \<open>f64\<close> operations in use),
  \<open>Json_Value\<close> (the \<open>serde_json\<close> tree).

  Party transport: \<open>Reliable\<close> is \<open>reliable.rs\<close>, sender and receiver as records with one definition
  per method; \<open>Reliable_Link\<close> joins a sender and a receiver by a network that loses, duplicates,
  delays and reorders, as an inductive step relation; \<open>Wire\<close> is \<open>wire.rs\<close>, the datagram header.

  Party runtime, \<open>party-shim/src/lib.rs\<close>: \<open>Party_Desc\<close> (descriptors and their text form),
  \<open>Party_Queue\<close> (state changes and batches, outbox, broker requests), \<open>Party_Runtime\<close> (the world of
  one process: users, networks and endpoints as boxes at addresses, receiving, sending, timers,
  the transport and broker threads), \<open>Party_Exports\<close> (the functions the game calls), \<open>Party_Inv\<close>
  (the locale \<open>world_law\<close> of predicates that the primitive updates keep, all steps of a process and
  the invariants), \<open>Party_Delivery\<close> (delivery end to end, retransmission, the type-12 hold,
  invitations, and how messages are lost). Its diagnostics: \<open>Party_Probe\<close> (the probes that read the
  memory of the game behind the gate \<open>readable\<close>, the member list the runtime asks before it announces
  a peer among them), \<open>Party_Diag\<close> (rate limit, log file, gates, thread and event tables, counters, the
  traffic and ledger lines), \<open>Party_Session\<close> (the two probe lines that join both).

  LAN server, \<open>lan-server/src\<close>: \<open>Lobby_Filter\<close> is \<open>lobby_filter.rs\<close>; \<open>Broker_State\<close>, \<open>Party_Broker\<close>,
  \<open>Lobby_Broker\<close> and \<open>Dispatch\<close> are the state, the Party and PlayFab handlers and the routing of
  \<open>main.rs\<close>; \<open>Http_Server\<close> is its socket side: request framing, responses, WebSocket frames, the
  connection budget.

  PlayFab multiplayer shim, \<open>playfab-mp-shim/src/lib.rs\<close>: \<open>Mp_Lobby\<close> (lobby objects, member and lobby
  properties, what the title reads of them), \<open>Mp_Update\<close> (request bodies, the refresh of a lobby from a
  broker answer and its delta), \<open>Mp_Runtime\<close> (the state-change queue, the jobs of the worker thread, the
  polls and the parked joins), \<open>Mp_Exports\<close> (the functions the title calls), \<open>Mp_Inv\<close> (all steps of a
  process, the locale \<open>emit_law\<close> of what every emission keeps, the history of the member events),
  \<open>Mp_Props\<close> (jobs, polls, deltas, parked joins, restarts).

  Steam HTTP shim, \<open>steam-http-shim/src\<close>: \<open>Steam_Pe\<close> is \<open>pe.rs\<close>, the walk over the import table of a
  loaded module; \<open>Steam_Abi\<close> is \<open>abi.rs\<close>, callback structures and string bridges; \<open>Steam_Http\<close> is the
  HTTP interface, the call results, callbacks and tickets of \<open>lib.rs\<close>, with the threads of the game as
  stacks of tasks that interleave between the locked sections; \<open>Steam_Run\<close> proves what holds over any
  such run, from the locales \<open>conserved\<close> (a weight that no step changes) and \<open>steam_law\<close> (a predicate that
  every step keeps); \<open>Steam_Hooks\<close> is the installation of the hooks, with the locale \<open>loader_rel\<close> of what
  hooking keeps.

  Shared: \<open>Json_Scan\<close> is \<open>json.rs\<close>, \<open>Http_Client\<close> is \<open>http.rs\<close> with the composition of client and
  server, \<open>Lan_Cfg\<close> is \<open>lan_cfg.rs\<close>. This theory holds what spans client, server and dispatch.

  \<^bold>\<open>What is shown.\<close> Transport: guaranteed sequential messages are released in order and once,
  acknowledged messages were released, unacknowledged ones stay pending, nothing is forged,
  deadlines and retry budgets are respected, both ends keep their bounds. Wire and text formats:
  round trips and total decoding. Runtime: every interleaving of exports, thread cycles and
  arriving datagrams keeps the bounds, the pointer structure and the pairings' invariants; the
  state changes reach the game in order, once, and eventually; a sent message is what the peer's
  receiver processes; a peer is announced only when the member list of the game has it. Diagnostics:
  gated probes never fault and five others can, every throttled call is written or counted. Broker: joins and polls refine an abstract peer table, every reachable state
  satisfies the party and lobby invariants and no handler unwraps a missing value; join, leave and
  find have the documented outcome; filters parse back and fail closed. HTTP: the request and the
  reply survive any segmentation; the number of connections stays within the budget. Scanner,
  escaper and configuration: round trips, bounded answers. Multiplayer shim: the events the title
  sees form a consistent history of each lobby, every job is answered, a repeated poll is silent, the
  delta of a refresh is exact, a parked join completes or is stranded, a restart cuts off the old
  session. Steam shim: import patching is a lookup in the import list and stays inside the module,
  the structures and wide strings read back, results and tickets are conserved and so delivered once,
  an awaited result is delivered, dispatching ends, every transfer closes its handles and asks the LAN
  server, saved originals are never overwritten.

  \<^bold>\<open>Modelling choices.\<close> Fallible code returns options or sums; a panic, an abort or the death of a
  process is a value. Third-party functions of the server (base64, AES, UUIDs, JSON text, URL
  parsing) are fields of the record \<open>ext\<close>, files and environment variables of \<open>host_env\<close>, and what a
  shim process reads from outside (clocks, the bound port, the address of the host, the member
  list in the memory of the game, the broker's answers) of the record \<open>host\<close>; laws that a theorem
  needs of them are its hypotheses. Hash maps iterate in insertion order where the code iterates
  one; no theorem depends on that order except through the order of what is printed. Sequence
  numbers are 32-bit words; the link theorems hold for fewer than \<open>SEQ_BOUND\<close> guaranteed messages,
  the half window in which the signed comparison is an order. The JSON scanner recurses on an
  explicit stack depth, and a blob no longer than the stack is deep never exhausts it. A clock is
  read once per step. Every call of an export and every turn of a worker thread is one atomic
  step, as the handle mutex makes it; a box that the shim leaks is never reused, and an address
  the shim did not hand out reads as a blank box.

  The Steam shim sees the memory of the game, WinHTTP and the loader through the records \<open>game_mem\<close>,
  \<open>winhttp\<close> and \<open>os\<close>, which a theorem quantifies over at every turn; an access outside a module or
  through a null vtable is the outer \<open>None\<close>.

  The memory of the game that the Party probes read is the record \<open>proc_mem\<close>: what a query of a page
  answers and the byte at an address. The probes rely on \<open>query_sound\<close>, that a page reported as
  committed and readable can be read; an access violation is the outer \<open>None\<close>.

  \<^bold>\<open>Not modelled.\<close> In \<open>party-shim/src/lib.rs\<close> the texts of the asyncload, mode3gate, solo, quest and
  connect-gate lines, the counters of the worker threads and the start of the sampler thread: nothing
  reads them back. The log files of the other shims and of the server. Socket set-up, timeouts,
  sleeping and the accept loop. The declarations of foreign functions.
\<close>

lemma graphic_no_tls:
  assumes "graphic m" "m \<noteq> []"
  shows "\<not> is_tls_hello (as_bytes (m @ s))"
proof (cases m)
  case (Cons c r)
  have "u8_of_char c \<noteq> 0x16"
  proof
    assume "u8_of_char c = 0x16"
    then have "char_of_u8 (u8_of_char c) = char_of_u8 0x16" by simp
    also have "char_of_u8 0x16 = CHR 0x16" by code_simp
    finally show False using assms Cons by simp
  qed
  with Cons show ?thesis by (simp add: is_tls_hello_def as_bytes_def)
qed (use assms in simp)

lemma client_not_upgrade: "\<not> is_websocket_upgrade (add_peer_ip peer (client_headers host port tok n))"
  by (simp add: is_websocket_upgrade_def add_peer_ip_def client_headers_def hm_insert_def update_conv split: option.split)


text \<open>
  C2: after any sequence of requests to a freshly started server, with any third-party
  functions and clock readings, the party networks have distinct keys and at most the
  configured number of members each, every lobby is stored under its own id with a connection
  string derived from it and between one and its maximum (2 to 32) of members with distinct
  ids, and no request makes the server unwrap a missing value.
\<close>

theorem server_run_invariant:
  "let app = fold (server_apply x) reqs (initial_app a ini)
   in server_wf app \<and> dispatch x ck app meth path headers body \<noteq> Inl Unwrap_None"
proof -
  let ?app = "fold (server_apply x) reqs (initial_app a ini)"
  have wf: "server_wf ?app" by (rule server_run_wf)
  with dispatch_wf [OF wf, of x ck meth path headers body] show ?thesis by (auto simp: Let_def split: sum.splits)
qed

abbreviation demo_bytes :: bytes where
  "demo_bytes \<equiv> request_bytes ''10.0.0.2'' 8080 ''POST'' ''/party/msg'' [] (token_auth None)"

abbreviation demo_reply :: bytes where
  "demo_reply \<equiv> send_http 200 ''application/json'' []"


end
